(* ===== verification/Prelude.thy ===== *)
theory Prelude
  imports Main "HOL-Library.Word"
begin

text \<open>
  Shared material of the development: the faults a C++ operation can end in, operations of
  an object as functions from its state to a result and the state it leaves behind, the
  unsigned subtraction of \<open>size_t\<close>, and generic facts on lists and words.

  An operation of type \<open>('s, 'a) op\<close> always returns the state as well: an exception thrown
  half way leaves the object as modified so far, and the caller that catches it sees that state.
\<close>

unbundle bit_operations_syntax

named_theorems op_simps \<open>unfolding rules of the operation combinators\<close>

type_synonym byte = "8 word"
type_synonym u16 = "16 word"
type_synonym u32 = "32 word"
type_synonym u64 = "64 word"

section \<open>Faults and operations\<close>

text \<open>
  The first group are crashes or undefined behaviour (a null pointer or an index outside a
  vector is used, a remainder by zero is taken, a shift or a signed sum leaves its range, an
  assertion fails, a lock is waited for by the thread that holds it or given back by one that does not);
  the others are the
  exceptions the code throws.
\<close>

datatype fault =
    Null_Deref
  | Bad_Index
  | Div_Zero
  | Assert_Failed
  | Bad_Iterator
  | Out_Of_Range
  | Invalid_Argument
  | Logic_Error
  | Undefined_Arith
  | Deadlock
  | Bad_Unlock
  | Out_Of_Fuel

type_synonym ('s, 'a) op = "'s \<Rightarrow> (fault + 'a) \<times> 's"

definition ret :: "'a \<Rightarrow> ('s, 'a) op" where
  "ret x = (\<lambda>s. (Inr x, s))"

definition raise :: "fault \<Rightarrow> ('s, 'a) op" where
  "raise e = (\<lambda>s. (Inl e, s))"

definition bnd :: "('s, 'a) op \<Rightarrow> ('a \<Rightarrow> ('s, 'b) op) \<Rightarrow> ('s, 'b) op" where
  "bnd m f = (\<lambda>s. case m s of (Inl e, s') \<Rightarrow> (Inl e, s') | (Inr x, s') \<Rightarrow> f x s')"

definition thn :: "('s, 'a) op \<Rightarrow> ('s, 'b) op \<Rightarrow> ('s, 'b) op" where
  "thn m k = bnd m (\<lambda>_. k)"

definition gets :: "('s \<Rightarrow> 'a) \<Rightarrow> ('s, 'a) op" where
  "gets f = (\<lambda>s. (Inr (f s), s))"

definition upd :: "('s \<Rightarrow> 's) \<Rightarrow> ('s, unit) op" where
  "upd f = (\<lambda>s. (Inr (), f s))"

lemma ret_run [op_simps, simp]: "ret x s = (Inr x, s)"
  by (simp add: ret_def)

lemma raise_run [op_simps, simp]: "raise e s = (Inl e, s)"
  by (simp add: raise_def)

lemma gets_run [op_simps, simp]: "gets f s = (Inr (f s), s)"
  by (simp add: gets_def)

lemma upd_run [op_simps, simp]: "upd f s = (Inr (), f s)"
  by (simp add: upd_def)

lemma bnd_run [op_simps]:
  "bnd m f s = (case m s of (Inl e, s') \<Rightarrow> (Inl e, s') | (Inr x, s') \<Rightarrow> f x s')"
  by (simp add: bnd_def)

lemma thn_run [op_simps]:
  "thn m k s = (case m s of (Inl e, s') \<Rightarrow> (Inl e, s') | (Inr x, s') \<Rightarrow> k s')"
  by (simp add: thn_def bnd_def)

lemma bnd_ok [simp]: "m s = (Inr x, s') \<Longrightarrow> bnd m f s = f x s'"
  by (simp add: bnd_def)

lemma bnd_fault [simp]: "m s = (Inl e, s') \<Longrightarrow> bnd m f s = (Inl e, s')"
  by (simp add: bnd_def)

lemma thn_ok [simp]: "m s = (Inr x, s') \<Longrightarrow> thn m k s = k s'"
  by (simp add: thn_def)

lemma thn_fault [simp]: "m s = (Inl e, s') \<Longrightarrow> thn m k s = (Inl e, s')"
  by (simp add: thn_def)

text \<open>Reading a run backwards: an operation that returns has returned at every step.\<close>

lemma bnd_Inr_iff: "bnd m f s = (Inr y, s') \<longleftrightarrow> (\<exists>x s1. m s = (Inr x, s1) \<and> f x s1 = (Inr y, s'))"
  by (auto simp: bnd_def split: prod.splits sum.splits)

lemma thn_Inr_iff: "thn m k s = (Inr y, s') \<longleftrightarrow> (\<exists>x s1. m s = (Inr x, s1) \<and> k s1 = (Inr y, s'))"
  by (simp add: thn_def bnd_Inr_iff)

lemmas run_back = bnd_Inr_iff thn_Inr_iff

lemma bnd_assoc: "bnd (bnd m f) g = bnd m (\<lambda>x. bnd (f x) g)"
  by (rule ext) (simp add: bnd_def split: prod.splits sum.splits)

section \<open>Unsigned sizes\<close>

text \<open>
  \<open>size_t\<close> values are natural numbers below \<open>2 ^ 64\<close>; the only operation of the code on them
  that can leave this range is a subtraction, which wraps around.
\<close>

definition size_sub :: "nat \<Rightarrow> nat \<Rightarrow> nat" where
  "size_sub a b = (if b \<le> a then a - b else a + 2 ^ 64 - b)"

lemma size_sub_le [simp]: "b \<le> a \<Longrightarrow> size_sub a b = a - b"
  by (simp add: size_sub_def)

lemma size_sub_wraps: "a < b \<Longrightarrow> size_sub a b = a + 2 ^ 64 - b"
  by (simp add: size_sub_def)

lemma size_sub_word:
  "a < 2 ^ 64 \<Longrightarrow> b < 2 ^ 64 \<Longrightarrow> size_sub a b = unat (of_nat a - of_nat b :: u64)"
  by (simp add: size_sub_def unat_sub_if' unat_of_nat word_le_nat_alt)

section \<open>Lists\<close>

text \<open>Overwriting a stretch of a list, as \<open>memcpy\<close> does to a buffer.\<close>

definition overwrite :: "'a list \<Rightarrow> nat \<Rightarrow> 'a list \<Rightarrow> 'a list" where
  "overwrite xs i ys = take i xs @ ys @ drop (i + length ys) xs"

lemma overwrite_Nil [simp]: "overwrite xs i [] = xs"
  by (simp add: overwrite_def)

lemma length_overwrite [simp]:
  "i + length ys \<le> length xs \<Longrightarrow> length (overwrite xs i ys) = length xs"
  by (simp add: overwrite_def)

lemma take_overwrite [simp]: "i \<le> length xs \<Longrightarrow> take i (overwrite xs i ys) = take i xs"
  by (simp add: overwrite_def)

lemma overwrite_read:
  "i \<le> length xs \<Longrightarrow> take (length ys) (drop i (overwrite xs i ys)) = ys"
  by (simp add: overwrite_def)

lemma overwrite_append_left:
  "i + length ys \<le> length xs \<Longrightarrow> overwrite (xs @ zs) i ys = overwrite xs i ys @ zs"
  by (simp add: overwrite_def)

lemma overwrite_append_right:
  "length xs \<le> i \<Longrightarrow> overwrite (xs @ zs) i ys = xs @ overwrite zs (i - length xs) ys"
  by (simp add: overwrite_def)

lemma overwrite_overwrite:
  "i \<le> length xs \<Longrightarrow>
   overwrite (overwrite xs i ys) (i + length ys) zs = overwrite xs i (ys @ zs)"
  by (simp add: overwrite_def ac_simps)

lemma concat_split_nth:
  "c < length xss \<Longrightarrow> concat xss = concat (take c xss) @ xss ! c @ concat (drop (Suc c) xss)"
  by (metis concat.simps(2) concat_append id_take_nth_drop)

lemma length_concat_uniform:
  "\<forall>x \<in> set xss. length x = n \<Longrightarrow> length (concat xss) = n * length xss"
  by (induction xss) auto

lemma length_concat_take_uniform:
  assumes "\<forall>x \<in> set xss. length x = n" "c \<le> length xss"
  shows "length (concat (take c xss)) = n * c"
proof -
  have "\<forall>x \<in> set (take c xss). length x = n"
    using assms(1) by (meson in_set_takeD)
  from length_concat_uniform [OF this] show ?thesis
    using assms(2) by simp
qed

end
