(* ===== verification/Endian.thy ===== *)
theory Endian
  imports Prelude
begin

text \<open>
  \<open>src/src/endian.hpp\<close>: byte order. A multi-byte integer is laid out in memory by the host
  (little endian, as \<open>AGENT_BYTE_ORDER\<close> says on the platforms the build targets); \<open>le_bytes\<close> and
  \<open>of_le_bytes\<close> are the two directions of the \<open>memcpy\<close> between an integer and its bytes. The
  compiler's \<open>__builtin_bswap\<close> reverses these bytes.
\<close>

section \<open>Host layout of integers\<close>

fun le_bytes :: "nat \<Rightarrow> 'a::len word \<Rightarrow> byte list" where
  "le_bytes 0 w = []"
| "le_bytes (Suc n) w = ucast w # le_bytes n (drop_bit 8 w)"

fun of_le_bytes :: "byte list \<Rightarrow> 'a::len word" where
  "of_le_bytes [] = 0"
| "of_le_bytes (b # bs) = ucast b OR push_bit 8 (of_le_bytes bs)"

lemma length_le_bytes [simp]: "length (le_bytes n w) = n"
  by (induction n arbitrary: w) auto

lemma le_bytes_Nil_iff [simp]: "le_bytes n w = [] \<longleftrightarrow> n = 0"
  by (cases n) auto

lemma of_le_bytes_take_bit: "of_le_bytes (le_bytes n w) = take_bit (8 * n) w"
proof (induction n arbitrary: w)
  case 0
  then show ?case by simp
next
  case (Suc n)
  show ?case
    by (rule bit_word_eqI) (auto simp: Suc bit_simps)
qed

lemma of_le_bytes_le_bytes:
  "LENGTH('a) \<le> 8 * n \<Longrightarrow> of_le_bytes (le_bytes n w) = (w :: 'a::len word)"
  by (simp add: of_le_bytes_take_bit take_bit_word_eq_self)

lemma le_bytes_of_le_bytes:
  "8 * length bs \<le> LENGTH('a) \<Longrightarrow> le_bytes (length bs) (of_le_bytes bs :: 'a::len word) = bs"
proof (induction bs)
  case Nil
  then show ?case by simp
next
  case (Cons b bs)
  have "ucast (ucast b OR push_bit 8 (of_le_bytes bs) :: 'a word) = b"
    using Cons.prems by (intro bit_word_eqI) (auto simp: bit_simps)
  moreover have "drop_bit 8 (ucast b OR push_bit 8 (of_le_bytes bs) :: 'a word)
      = take_bit (LENGTH('a) - 8) (of_le_bytes bs)"
    by (rule bit_word_eqI) (auto simp: bit_simps dest: bit_imp_le_length)
  moreover have "le_bytes n (take_bit m w) = le_bytes n w" if "8 * n \<le> m" for n m and w :: "'a word"
    using that
  proof (induction n arbitrary: m w)
    case (Suc n)
    then show ?case
      by (auto simp: drop_bit_take_bit intro!: bit_word_eqI simp: bit_simps)
  qed simp
  ultimately show ?case
    using Cons by simp
qed

section \<open>Byte swapping\<close>

definition bswap16 :: "u16 \<Rightarrow> u16" where
  "bswap16 v = of_le_bytes (rev (le_bytes 2 v))"

definition bswap32 :: "u32 \<Rightarrow> u32" where
  "bswap32 v = of_le_bytes (rev (le_bytes 4 v))"

definition bswap64 :: "u64 \<Rightarrow> u64" where
  "bswap64 v = of_le_bytes (rev (le_bytes 8 v))"

text \<open>
  The host is little endian, so \<open>byteswapOnLittleEndian\<close> swaps and \<open>byteswapOnBigEndian\<close> does not.
  The signed specialisations of \<open>byteswapImpl\<close> cast to the unsigned type and back, which is the
  identity on words.
\<close>

definition byteswapOnLittleEndian16 :: "u16 \<Rightarrow> u16" where
  "byteswapOnLittleEndian16 t = bswap16 t"

definition byteswapOnLittleEndian32 :: "u32 \<Rightarrow> u32" where
  "byteswapOnLittleEndian32 t = bswap32 t"

definition byteswapOnBigEndian16 :: "u16 \<Rightarrow> u16" where
  "byteswapOnBigEndian16 t = t"

definition byteswapOnBigEndian32 :: "u32 \<Rightarrow> u32" where
  "byteswapOnBigEndian32 t = t"

lemma le_bytes_bswap16: "le_bytes 2 (bswap16 v) = rev (le_bytes 2 v)"
  using le_bytes_of_le_bytes [of "rev (le_bytes 2 v)", where 'a = 16] by (simp add: bswap16_def)

lemma le_bytes_bswap32: "le_bytes 4 (bswap32 v) = rev (le_bytes 4 v)"
  using le_bytes_of_le_bytes [of "rev (le_bytes 4 v)", where 'a = 32] by (simp add: bswap32_def)

lemma le_bytes_bswap64: "le_bytes 8 (bswap64 v) = rev (le_bytes 8 v)"
  using le_bytes_of_le_bytes [of "rev (le_bytes 8 v)", where 'a = 64] by (simp add: bswap64_def)

lemma bswap16_involutive [simp]: "bswap16 (bswap16 v) = v"
  unfolding bswap16_def [of "bswap16 v"] le_bytes_bswap16 by (simp add: of_le_bytes_le_bytes)

lemma bswap32_involutive [simp]: "bswap32 (bswap32 v) = v"
  unfolding bswap32_def [of "bswap32 v"] le_bytes_bswap32 by (simp add: of_le_bytes_le_bytes)

lemma bswap64_involutive [simp]: "bswap64 (bswap64 v) = v"
  unfolding bswap64_def [of "bswap64 v"] le_bytes_bswap64 by (simp add: of_le_bytes_le_bytes)

text \<open>Swapping commutes with the bitwise operations, since these act on each byte alone.\<close>

lemma bit_byte_high [simp]: "8 \<le> n \<Longrightarrow> \<not> bit (b :: byte) n"
  by (auto dest: bit_imp_le_length)

lemma le_bytes_and: "le_bytes n (v AND w) = map2 (AND) (le_bytes n v) (le_bytes n w)"
  by (induction n arbitrary: v w) (auto intro!: bit_word_eqI simp: bit_simps)

lemma le_bytes_or: "le_bytes n (v OR w) = map2 (OR) (le_bytes n v) (le_bytes n w)"
  by (induction n arbitrary: v w) (auto intro!: bit_word_eqI simp: bit_simps)

lemma le_bytes_xor: "le_bytes n (v XOR w) = map2 (XOR) (le_bytes n v) (le_bytes n w)"
  by (induction n arbitrary: v w) (auto intro!: bit_word_eqI simp: bit_simps)

lemma of_le_bytes_and:
  "length xs = length ys \<Longrightarrow> of_le_bytes (map2 (AND) xs ys) = of_le_bytes xs AND of_le_bytes ys"
  by (induction xs ys rule: list_induct2) (auto intro!: bit_word_eqI simp: bit_simps)

lemma of_le_bytes_or:
  "length xs = length ys \<Longrightarrow> of_le_bytes (map2 (OR) xs ys) = of_le_bytes xs OR of_le_bytes ys"
  by (induction xs ys rule: list_induct2) (auto intro!: bit_word_eqI simp: bit_simps)

lemma of_le_bytes_xor:
  "length xs = length ys \<Longrightarrow> of_le_bytes (map2 (XOR) xs ys) = of_le_bytes xs XOR of_le_bytes ys"
  by (induction xs ys rule: list_induct2) (auto intro!: bit_word_eqI simp: bit_simps)

lemma rev_map2: "length xs = length ys \<Longrightarrow> rev (map2 f xs ys) = map2 f (rev xs) (rev ys)"
  by (simp add: zip_rev rev_map)

lemma bswap32_and: "bswap32 (v AND w) = bswap32 v AND bswap32 w"
  by (simp add: bswap32_def le_bytes_and rev_map2 of_le_bytes_and)

lemma bswap32_or: "bswap32 (v OR w) = bswap32 v OR bswap32 w"
  by (simp add: bswap32_def le_bytes_or rev_map2 of_le_bytes_or)

lemma bswap32_xor: "bswap32 (v XOR w) = bswap32 v XOR bswap32 w"
  by (simp add: bswap32_def le_bytes_xor rev_map2 of_le_bytes_xor)

lemma bswap32_minus_one: "bswap32 (- 1) = - 1"
  by code_simp

lemma bswap32_not: "bswap32 (NOT v) = NOT (bswap32 v)"
  using bswap32_xor [of v "- 1"] by (simp add: bswap32_minus_one word_log_esimps)

end
