(* ===== verification/Varint.thy ===== *)
theory Varint
  imports Endian
begin

text \<open>
  The integer encodings of \<open>src/src/bytearray.cpp\<close>: zigzag (\<open>EncodingZigzag32\<close>,
  \<open>EncodeZigzag64\<close>, \<open>DecodeZigzag32\<close>, \<open>DecodeZigzag64\<close>) and the 7-bit groups that
  \<open>writeUint32\<close>, \<open>writeUint64\<close>, \<open>readUint32\<close> and \<open>readUint64\<close> use. The writers fill a local
  array \<open>tmp\<close> that they hand to \<open>write\<close>; here they return its used part. The readers fetch one
  byte at a time with \<open>readFuint8\<close>, which is an argument here.
\<close>

section \<open>Zigzag\<close>

text \<open>
  A value of type \<open>int32_t\<close> is a word read with \<^const>\<open>sint\<close>. The source negates and doubles in
  the signed type; where that overflows, the words wrap around, as the machine does, although the
  language leaves it undefined (\<open>zigzag32_defined\<close> says where the source is defined).
\<close>

definition EncodingZigzag32 :: "u32 \<Rightarrow> u32" where
  "EncodingZigzag32 v = (if sint v < 0 then (- v) * 2 - 1 else v * 2)"

definition EncodeZigzag64 :: "u64 \<Rightarrow> u64" where
  "EncodeZigzag64 v = (if sint v < 0 then (- v) * 2 - 1 else v * 2)"

definition DecodeZigzag32 :: "u32 \<Rightarrow> u32" where
  "DecodeZigzag32 v = drop_bit 1 v XOR (- (v AND 1))"

definition DecodeZigzag64 :: "u64 \<Rightarrow> u64" where
  "DecodeZigzag64 v = drop_bit 1 v XOR (- (v AND 1))"

definition zigzag32_defined :: "u32 \<Rightarrow> bool" where
  "zigzag32_defined v \<longleftrightarrow>
     (if sint v < 0 then - sint v < 2 ^ 31 else sint v * 2 < 2 ^ 31)"

lemma zigzag_even:
  fixes v :: "'a::len word"
  assumes "\<not> sint v < 0"
  shows "drop_bit 1 (v * 2) XOR (- ((v * 2) AND 1)) = v"
proof -
  have "drop_bit 1 (v * 2) = v"
  proof (rule bit_word_eqI)
    fix n assume n: "n < LENGTH('a)"
    have "\<not> bit v (LENGTH('a) - Suc 0)" using assms bit_last_iff by blast
    then show "bit (drop_bit 1 (v * 2)) n = bit v n"
      using n by (cases "n = LENGTH('a) - Suc 0")
        (auto simp: bit_simps bit_double_iff mult.commute [of _ 2] possible_bit_word)
  qed
  moreover have "(v * 2) AND 1 = 0"
    by (rule bit_word_eqI) (auto simp: bit_simps bit_double_iff mult.commute [of _ 2] possible_bit_word)
  ultimately show ?thesis by simp
qed

lemma zigzag_odd:
  fixes v :: "'a::len word"
  assumes "sint v < 0"
  shows "drop_bit 1 (- v * 2 - 1) XOR (- ((- v * 2 - 1) AND 1)) = v"
proof -
  have eq: "- v * 2 - 1 = NOT (v * 2)" by (simp add: not_eq_complement)
  have "NOT (drop_bit 1 (NOT (v * 2))) = v"
  proof (rule bit_word_eqI)
    fix n assume n: "n < LENGTH('a)"
    have "bit v (LENGTH('a) - Suc 0)" using assms bit_last_iff by blast
    then show "bit (NOT (drop_bit 1 (NOT (v * 2)))) n = bit v n"
      using n by (cases "n = LENGTH('a) - Suc 0")
        (auto simp: bit_simps bit_double_iff mult.commute [of _ 2] possible_bit_word)
  qed
  moreover have "NOT (v * 2) AND 1 = 1"
    by (rule bit_word_eqI) (auto simp: bit_simps bit_double_iff mult.commute [of _ 2] possible_bit_word)
  ultimately show ?thesis unfolding eq by simp
qed

lemma zigzag32_roundtrip: "DecodeZigzag32 (EncodingZigzag32 v) = v"
  using zigzag_even [of v] zigzag_odd [of v]
  by (auto simp: DecodeZigzag32_def EncodingZigzag32_def)

lemma zigzag64_roundtrip: "DecodeZigzag64 (EncodeZigzag64 v) = v"
  using zigzag_even [of v] zigzag_odd [of v]
  by (auto simp: DecodeZigzag64_def EncodeZigzag64_def)

text \<open>
  Where the source is defined, zigzag is the interleaving 0, -1, 1, -2, 2, ...; elsewhere the
  source overflows a signed integer.
\<close>

lemma zigzag32_value:
  "zigzag32_defined v \<Longrightarrow>
   uint (EncodingZigzag32 v) = (if sint v < 0 then - 2 * sint v - 1 else 2 * sint v)"
proof -
  assume d: "zigzag32_defined v"
  define e where "e = (if sint v < 0 then - 2 * sint v - 1 else 2 * sint v)"
  have "EncodingZigzag32 v = word_of_int e"
    by (simp add: EncodingZigzag32_def e_def algebra_simps)
  moreover have "0 \<le> e" "e < 2 ^ 32"
    using d by (auto simp: e_def zigzag32_defined_def split: if_splits)
  ultimately show ?thesis
    by (simp add: e_def [symmetric] uint_word_of_int_eq take_bit_int_eq_self)
qed

lemma zigzag32_undefined: "\<not> zigzag32_defined v \<longleftrightarrow> sint v = - (2 ^ 31) \<or> 2 ^ 30 \<le> sint v"
  using sint_ge [of v] by (auto simp: zigzag32_defined_def)

section \<open>Groups of seven bits\<close>

subsection \<open>The writers\<close>

lemma unat_drop_bit_7: "unat (drop_bit 7 v) = unat v div 128"
  unfolding unat_drop_bit_eq by (simp add: drop_bit_eq_div)

function varint32 :: "u32 \<Rightarrow> byte list" where
  "varint32 value =
     (if value \<ge> 0x80
      then ucast ((value AND 0x7F) OR 0x80) # varint32 (drop_bit 7 value)
      else [ucast value])"
  by pat_completeness auto

termination
  by (relation "measure unat")
    (auto simp: unat_drop_bit_7 word_le_nat_alt)

function varint64 :: "u64 \<Rightarrow> byte list" where
  "varint64 value =
     (if value \<ge> 0x80
      then ucast ((value AND 0x7F) OR 0x80) # varint64 (drop_bit 7 value)
      else [ucast value])"
  by pat_completeness auto
termination
  by (relation "measure unat")
    (auto simp: unat_drop_bit_7 word_le_nat_alt)

declare varint32.simps [simp del] varint64.simps [simp del]

text \<open>The abstract encoding: base 128, least significant group first, all but the last flagged.\<close>

function leb128 :: "nat \<Rightarrow> byte list" where
  "leb128 n = (if 128 \<le> n then of_nat (n mod 128 + 128) # leb128 (n div 128) else [of_nat n])"
  by pat_completeness auto
termination
  by (relation "measure id") auto

declare leb128.simps [simp del]

lemma take_push_disjoint: "take_bit k x AND push_bit k y = (0 :: nat)"
  by (rule bit_eqI) (auto simp: bit_simps)

lemma bit_128_nat: "bit (128 :: nat) n \<longleftrightarrow> n = 7"
  using bit_exp_iff [of 7 n, where 'a = nat] by auto

lemma bit_128_word:
  "8 \<le> LENGTH('a) \<Longrightarrow> bit (128 :: 'a::len word) n \<longleftrightarrow> n = 7"
  using bit_exp_iff [of 7 n, where 'a = "'a word"] by (auto simp: possible_bit_word)

lemma bit_127_word: "bit (127 :: 'a::len word) n \<longleftrightarrow> n < 7 \<and> n < LENGTH('a)"
  using bit_mask_iff [of 7 n, where 'a = "'a word"]
  by (auto simp: mask_eq_exp_minus_1 possible_bit_word)

lemma group_flag:
  fixes w :: "'a::len word"
  assumes "8 \<le> LENGTH('a)"
  shows "(ucast ((w AND 0x7F) OR 0x80) :: byte) = of_nat (unat w mod 128 + 128)"
proof (rule bit_word_eqI)
  fix n assume n: "n < LENGTH(8)"
  have "unat w mod 128 + 128 = take_bit 7 (unat w) OR 128"
    using disjunctive_add_eq_or [OF take_push_disjoint [of 7 "unat w" 1]]
    by (simp add: take_bit_eq_mod)
  then show "bit (ucast ((w AND 0x7F) OR 0x80) :: byte) n = bit (of_nat (unat w mod 128 + 128) :: byte) n"
    using n assms
    by (simp only: bit_simps bit_128_nat bit_128_word bit_127_word possible_bit_word) auto
qed

lemma group_flag32: "(ucast (((w :: u32) AND 0x7F) OR 0x80) :: byte) = of_nat (unat w mod 128 + 128)"
  by (rule group_flag) simp

lemma group_flag64: "(ucast (((w :: u64) AND 0x7F) OR 0x80) :: byte) = of_nat (unat w mod 128 + 128)"
  by (rule group_flag) simp

lemma group_last:
  fixes w :: "'a::len word"
  shows "(ucast w :: byte) = of_nat (unat w)"
  by (simp add: unsigned_ucast_eq)

lemma varint32_leb128: "varint32 v = leb128 (unat v)"
proof (induction v rule: varint32.induct)
  case (1 v)
  show ?case
  proof (cases "0x80 \<le> v")
    case True
    then have "varint32 v = ucast ((v AND 0x7F) OR 0x80) # varint32 (drop_bit 7 v)"
      by (subst varint32.simps) simp
    also have "\<dots> = of_nat (unat v mod 128 + 128) # leb128 (unat v div 128)"
      by (simp only: "1" [OF True] group_flag32 unat_drop_bit_7)
    finally have "varint32 v = of_nat (unat v mod 128 + 128) # leb128 (unat v div 128)" .
    moreover have "128 \<le> unat v" using True by (simp add: word_le_nat_alt)
    ultimately show ?thesis by (simp only: leb128.simps [of "unat v"] if_True)
  next
    case False
    then have "varint32 v = [of_nat (unat v)]"
      by (subst varint32.simps) (simp only: group_last if_False)
    moreover have "\<not> 128 \<le> unat v" using False by (simp add: word_le_nat_alt)
    ultimately show ?thesis by (simp only: leb128.simps [of "unat v"] if_False)
  qed
qed

lemma varint64_leb128: "varint64 v = leb128 (unat v)"
proof (induction v rule: varint64.induct)
  case (1 v)
  show ?case
  proof (cases "0x80 \<le> v")
    case True
    then have "varint64 v = ucast ((v AND 0x7F) OR 0x80) # varint64 (drop_bit 7 v)"
      by (subst varint64.simps) simp
    also have "\<dots> = of_nat (unat v mod 128 + 128) # leb128 (unat v div 128)"
      by (simp only: "1" [OF True] group_flag64 unat_drop_bit_7)
    finally have "varint64 v = of_nat (unat v mod 128 + 128) # leb128 (unat v div 128)" .
    moreover have "128 \<le> unat v" using True by (simp add: word_le_nat_alt)
    ultimately show ?thesis by (simp only: leb128.simps [of "unat v"] if_True)
  next
    case False
    then have "varint64 v = [of_nat (unat v)]"
      by (subst varint64.simps) (simp only: group_last if_False)
    moreover have "\<not> 128 \<le> unat v" using False by (simp add: word_le_nat_alt)
    ultimately show ?thesis by (simp only: leb128.simps [of "unat v"] if_False)
  qed
qed

text \<open>The local array \<open>tmp\<close> of the writers (5 and 10 bytes) is large enough.\<close>

lemma length_leb128: "n < 128 ^ Suc k \<Longrightarrow> length (leb128 n) \<le> Suc k"
proof (induction k arbitrary: n)
  case 0
  then show ?case by (subst leb128.simps) simp
next
  case (Suc k)
  from Suc.prems have "n div 128 < 128 ^ Suc k"
    by (simp add: less_mult_imp_div_less mult.commute)
  with Suc.IH show ?case by (subst leb128.simps) auto
qed

lemma leb128_nonempty [simp]: "leb128 n \<noteq> []"
  by (subst leb128.simps) simp

end
