(* ===== verification/Codec.thy ===== *)
theory Codec
  imports Varint
begin

text \<open>
  The decoding half of \<open>src/src/bytearray.cpp\<close> over an abstract source of bytes, and the laws
  under which it inverts the encoders. A source is anything with the operation \<open>read(buf, size)\<close>;
  the locale \<open>byte_source\<close> states what the decoders rely on, and the theory \<open>ByteArray\<close> interprets
  it on the chained buffer of the class. The decoders are generic in the source so that the code's
  loops are written once.
\<close>

section \<open>The decoders\<close>

text \<open>\<open>readFuint8\<close>, and the macro \<open>XX\<close> that reads a multi-byte integer and swaps it unless the
  stream's order is the host's (\<open>native\<close>).\<close>

definition read_u8 :: "(nat \<Rightarrow> ('s, byte list) op) \<Rightarrow> ('s, byte) op" where
  "read_u8 rd = bnd (rd 1) (\<lambda>bs. ret (of_le_bytes bs))"

definition read_u16 :: "(nat \<Rightarrow> ('s, byte list) op) \<Rightarrow> ('s \<Rightarrow> bool) \<Rightarrow> ('s, u16) op" where
  "read_u16 rd native = bnd (rd 2) (\<lambda>bs. bnd (gets native) (\<lambda>same.
     ret (if same then of_le_bytes bs else bswap16 (of_le_bytes bs))))"

definition read_u32 :: "(nat \<Rightarrow> ('s, byte list) op) \<Rightarrow> ('s \<Rightarrow> bool) \<Rightarrow> ('s, u32) op" where
  "read_u32 rd native = bnd (rd 4) (\<lambda>bs. bnd (gets native) (\<lambda>same.
     ret (if same then of_le_bytes bs else bswap32 (of_le_bytes bs))))"

definition read_u64 :: "(nat \<Rightarrow> ('s, byte list) op) \<Rightarrow> ('s \<Rightarrow> bool) \<Rightarrow> ('s, u64) op" where
  "read_u64 rd native = bnd (rd 8) (\<lambda>bs. bnd (gets native) (\<lambda>same.
     ret (if same then of_le_bytes bs else bswap64 (of_le_bytes bs))))"

text \<open>
  The loop of \<open>readUint32\<close> (\<open>bits\<close> is 32) and \<open>readUint64\<close> (64): at most
  \<open>\<lceil>bits / 7\<rceil>\<close> bytes are taken, whatever their flags.
\<close>

function read_groups :: "('s, byte) op \<Rightarrow> nat \<Rightarrow> nat \<Rightarrow> 'a::len word \<Rightarrow> ('s, 'a word) op" where
  "read_groups rd8 bits i result =
     (if i < bits
      then bnd rd8 (\<lambda>b.
             if b < 0x80 then ret (result OR push_bit i (ucast b))
             else read_groups rd8 bits (i + 7) (result OR push_bit i (ucast (b AND 0x7F))))
      else ret result)"
  by pat_completeness auto
termination
  by (relation "measure (\<lambda>(rd8, bits, i, result). bits - i)") auto

declare read_groups.simps [simp del]

definition read_uint32 :: "(nat \<Rightarrow> ('s, byte list) op) \<Rightarrow> ('s, u32) op" where
  "read_uint32 rd = read_groups (read_u8 rd) 32 0 0"

definition read_uint64 :: "(nat \<Rightarrow> ('s, byte list) op) \<Rightarrow> ('s, u64) op" where
  "read_uint64 rd = read_groups (read_u8 rd) 64 0 0"

section \<open>One group\<close>

lemma group_cont_flag: "\<not> (of_nat (n mod 128 + 128) :: byte) < 0x80"
proof -
  have "unat (of_nat (n mod 128 + 128) :: byte) = n mod 128 + 128"
    unfolding unat_of_nat by (subst mod_less) auto
  then show ?thesis by (simp only: word_less_nat_alt) simp
qed

lemma group_cont_value:
  fixes v :: "'a::len word"
  assumes "8 \<le> LENGTH('a)"
  shows "take_bit i v OR push_bit i (ucast ((of_nat (unat (drop_bit i v) mod 128 + 128) :: byte) AND 0x7F))
       = take_bit (i + 7) v"
proof (rule bit_word_eqI)
  fix n assume n: "n < LENGTH('a)"
  show "bit (take_bit i v OR push_bit i (ucast ((of_nat (unat (drop_bit i v) mod 128 + 128) :: byte) AND 0x7F))) n
      = bit (take_bit (i + 7) v) n"
    unfolding group_flag [OF assms, symmetric]
    using n assms by (simp only: bit_simps bit_128_word bit_127_word possible_bit_word) auto
qed

lemma group_last_value:
  fixes v :: "'a::len word"
  assumes "unat (drop_bit i v) < 128"
  shows "take_bit i v OR push_bit i (ucast (of_nat (unat (drop_bit i v)) :: byte)) = v"
proof (rule bit_word_eqI)
  fix n assume n: "n < LENGTH('a)"
  have "take_bit 7 (unat (drop_bit i v)) = unat (drop_bit i v)"
    using assms by (simp add: take_bit_nat_eq_self)
  then have "bit (unat (drop_bit i v)) k \<Longrightarrow> k < 7" for k
    by (metis bit_take_bit_iff)
  then have "bit v n \<Longrightarrow> i \<le> n \<Longrightarrow> n - i < 7"
    by (auto simp: bit_simps)
  then show "bit (take_bit i v OR push_bit i (ucast (of_nat (unat (drop_bit i v)) :: byte))) n = bit v n"
    unfolding group_last [symmetric]
    using n by (simp only: bit_simps possible_bit_word) auto
qed

lemma group_last_flag: "n < 128 \<Longrightarrow> (of_nat n :: byte) < 0x80"
  by (simp add: word_less_nat_alt unat_of_nat)

lemma drop_bit_too_far: "LENGTH('a) \<le> n \<Longrightarrow> drop_bit n (v :: 'a::len word) = 0"
  by (rule bit_word_eqI) (auto simp: bit_simps dest: bit_imp_le_length)

section \<open>The contract of a byte source\<close>

text \<open>
  \<open>rest s\<close> is what remains to be read. A read that is covered by it delivers its prefix and
  leaves the remainder; a longer one throws and changes nothing. A read from an exhausted source
  is left open even for size 0 (the buffer of \<open>ByteArray\<close> does not always survive it).
\<close>

definition delivers ::
    "('s \<Rightarrow> byte list) \<Rightarrow> ('s \<Rightarrow> bool) \<Rightarrow> ('s \<Rightarrow> bool) \<Rightarrow> ('s, 'x) op \<Rightarrow> 's \<Rightarrow> 'x \<Rightarrow> byte list \<Rightarrow> bool" where
  "delivers rest ok native m s x rem \<longleftrightarrow>
     (\<exists>s'. m s = (Inr x, s') \<and> ok s' \<and> rest s' = rem \<and> native s' = native s)"

text \<open>\<^const>\<open>delivers\<close>: the operation succeeds with \<open>x\<close>, having consumed all of \<open>rest s\<close> but \<open>rem\<close>.\<close>

locale byte_source =
  fixes rd :: "nat \<Rightarrow> ('s, byte list) op"
    and rest :: "'s \<Rightarrow> byte list"
    and ok :: "'s \<Rightarrow> bool"
    and native :: "'s \<Rightarrow> bool"
  assumes rd_enough: "ok s \<Longrightarrow> rest s \<noteq> [] \<Longrightarrow> n \<le> length (rest s) \<Longrightarrow>
      \<exists>s'. rd n s = (Inr (take n (rest s)), s') \<and> ok s' \<and> rest s' = drop n (rest s) \<and> native s' = native s"
    and rd_short: "ok s \<Longrightarrow> length (rest s) < n \<Longrightarrow> rd n s = (Inl Out_Of_Range, s)"
begin

abbreviation gives :: "('s, 'x) op \<Rightarrow> 's \<Rightarrow> 'x \<Rightarrow> byte list \<Rightarrow> bool" where
  "gives \<equiv> delivers rest ok native"

lemma gives_rd:
  "ok s \<Longrightarrow> rest s = bs @ rem \<Longrightarrow> bs @ rem \<noteq> [] \<Longrightarrow> n = length bs \<Longrightarrow> gives (rd n) s bs rem"
  using rd_enough [of s n] by (auto simp: delivers_def)

lemma gives_bnd:
  assumes "gives m s x rem"
    and "\<And>s'. ok s' \<Longrightarrow> rest s' = rem \<Longrightarrow> native s' = native s \<Longrightarrow> gives (f x) s' y rem'"
  shows "gives (bnd m f) s y rem'"
  using assms by (fastforce simp: delivers_def bnd_run)

lemma gives_ret: "ok s \<Longrightarrow> rest s = rem \<Longrightarrow> x = y \<Longrightarrow> gives (ret x) s y rem"
  by (simp add: delivers_def)

lemma gives_u8: "ok s \<Longrightarrow> rest s = b # rem \<Longrightarrow> gives (read_u8 rd) s b rem"
  unfolding read_u8_def
  by (rule gives_bnd [OF gives_rd [where bs = "[b]"]])
    (auto intro!: gives_ret bit_word_eqI simp: bit_simps)

lemma short_u8: "ok s \<Longrightarrow> rest s = [] \<Longrightarrow> read_u8 rd s = (Inl Out_Of_Range, s)"
  by (simp add: read_u8_def rd_short bnd_run)

lemma gives_u16:
  assumes "ok s" and "rest s = le_bytes 2 (if native s then v else bswap16 v) @ rem"
  shows "gives (read_u16 rd native) s v rem"
  unfolding read_u16_def
  by (rule gives_bnd [OF gives_rd [OF assms]])
    (auto simp: delivers_def bnd_run of_le_bytes_le_bytes)

lemma gives_u32:
  assumes "ok s" and "rest s = le_bytes 4 (if native s then v else bswap32 v) @ rem"
  shows "gives (read_u32 rd native) s v rem"
  unfolding read_u32_def
  by (rule gives_bnd [OF gives_rd [OF assms]])
    (auto simp: delivers_def bnd_run of_le_bytes_le_bytes)

lemma gives_u64:
  assumes "ok s" and "rest s = le_bytes 8 (if native s then v else bswap64 v) @ rem"
  shows "gives (read_u64 rd native) s v rem"
  unfolding read_u64_def
  by (rule gives_bnd [OF gives_rd [OF assms]])
    (auto simp: delivers_def bnd_run of_le_bytes_le_bytes)

lemma gives_groups:
  fixes v :: "'a::len word"
  assumes "8 \<le> LENGTH('a)" "LENGTH('a) \<le> bits"
  shows "ok s \<Longrightarrow> rest s = leb128 (unat (drop_bit i v)) @ rem \<Longrightarrow> i < bits \<Longrightarrow>
    gives (read_groups (read_u8 rd) bits i (take_bit i v)) s v rem"
proof (induction "bits - i" arbitrary: i s rule: less_induct)
  case less
  let ?n = "unat (drop_bit i v)"
  show ?case
  proof (cases "128 \<le> ?n")
    case True
    have next_n: "unat (drop_bit (i + 7) v) = ?n div 128"
      by (simp only: drop_bit_drop_bit [symmetric] add.commute [of i] unat_drop_bit_7)
    with True have "unat (drop_bit (i + 7) v) \<noteq> 0" by simp
    then have "i + 7 < LENGTH('a)"
      using drop_bit_too_far [of "i + 7" v] by (metis not_le unsigned_0)
    then have less_i: "i + 7 < bits" "bits - (i + 7) < bits - i" using assms(2) by auto
    have bytes: "rest s = of_nat (?n mod 128 + 128) # leb128 (unat (drop_bit (i + 7) v)) @ rem"
      using less.prems(2) True by (simp only: leb128.simps [of ?n] if_True next_n append_Cons)
    show ?thesis
      unfolding read_groups.simps [of _ _ i]
      using less.prems(3) less.hyps [OF less_i(2) _ _ less_i(1)] group_cont_value [OF assms(1), of i v]
      by (simp only: if_True)
        (rule gives_bnd [OF gives_u8 [OF less.prems(1) bytes]], simp only: group_cont_flag if_False)
  next
    case False
    then have bytes: "rest s = of_nat ?n # rem"
      using less.prems(2) by (simp only: leb128.simps [of ?n] if_False append_Cons append_Nil)
    have "(of_nat ?n :: byte) < 0x80" using False by (intro group_last_flag) simp
    moreover have "take_bit i v OR push_bit i (ucast (of_nat ?n :: byte)) = v"
      using False by (intro group_last_value) simp
    ultimately show ?thesis
      unfolding read_groups.simps [of _ _ i] using less.prems(3)
      by (simp only: if_True)
        (rule gives_bnd [OF gives_u8 [OF less.prems(1) bytes]], simp only: if_True, rule gives_ret, assumption, assumption, rule refl)
  qed
qed

lemma gives_uint32:
  "ok s \<Longrightarrow> rest s = varint32 v @ rem \<Longrightarrow> gives (read_uint32 rd) s v rem"
  using gives_groups [where v = v and bits = 32 and i = 0]
  by (simp add: read_uint32_def varint32_leb128)

lemma gives_uint64:
  "ok s \<Longrightarrow> rest s = varint64 v @ rem \<Longrightarrow> gives (read_uint64 rd) s v rem"
  using gives_groups [where v = v and bits = 64 and i = 0]
  by (simp add: read_uint64_def varint64_leb128)

end

end
