(* ===== verification/ByteArray.thy ===== *)
theory ByteArray
  imports Codec
begin

text \<open>
  \<open>src/src/bytearray.h\<close> and \<open>src/src/bytearray.cpp\<close>: the serialisation buffer. It is a chain of
  equally sized heap blocks with a position, a size and a pointer to the block of the position.
  The chain only grows at its end and is only cut after its root, so it is the list \<open>m_nodes\<close> of
  the blocks' contents; a \<open>Node*\<close> is an index into it, and the null pointer is \<open>None\<close>. The bytes of
  a fresh block are whatever \<open>new char[]\<close> leaves there: \<open>m_junk\<close>, about which nothing is known.
  Sizes are \<open>size_t\<close>: naturals, with \<^const>\<open>size_sub\<close> where a subtraction could wrap.
\<close>

section \<open>State\<close>

definition AGENT_LIMITE_ENDIAN :: int where "AGENT_LIMITE_ENDIAN = 1"
definition AGENT_BIG_ENDIAN :: int where "AGENT_BIG_ENDIAN = 2"
definition AGENT_BYTE_ORDER :: int where "AGENT_BYTE_ORDER = AGENT_LIMITE_ENDIAN"

lemmas byte_order_defs = AGENT_LIMITE_ENDIAN_def AGENT_BIG_ENDIAN_def AGENT_BYTE_ORDER_def

record bytearray =
  m_basesize :: nat
  m_position :: nat
  m_capacity :: nat
  m_size :: nat
  m_endian :: int
  m_nodes :: "byte list list"
  m_cur :: "nat option"
  m_junk :: "nat \<Rightarrow> byte"

definition new_Node :: "(nat \<Rightarrow> byte) \<Rightarrow> nat \<Rightarrow> nat \<Rightarrow> byte list" where
  "new_Node junk off s = map junk [off ..< off + s]"

definition ByteArray_new :: "nat \<Rightarrow> (nat \<Rightarrow> byte) \<Rightarrow> bytearray" where
  "ByteArray_new base_size junk =
     \<lparr>m_basesize = base_size, m_position = 0, m_capacity = base_size, m_size = 0,
      m_endian = AGENT_BYTE_ORDER, m_nodes = [new_Node junk 0 base_size], m_cur = Some 0,
      m_junk = junk\<rparr>"

definition isLittleEndian :: "bytearray \<Rightarrow> bool" where
  "isLittleEndian ba \<longleftrightarrow> m_endian ba = AGENT_BYTE_ORDER"

definition setIsLittleEndian :: "bool \<Rightarrow> bytearray \<Rightarrow> bytearray" where
  "setIsLittleEndian val ba =
     ba\<lparr>m_endian := (if val then AGENT_LIMITE_ENDIAN else AGENT_BIG_ENDIAN)\<rparr>"

definition getReadSize :: "bytearray \<Rightarrow> nat" where
  "getReadSize ba = size_sub (m_size ba) (m_position ba)"

definition getRemainAmount :: "bytearray \<Rightarrow> nat" where
  "getRemainAmount ba = size_sub (m_capacity ba) (m_position ba)"

definition node_size :: "bytearray \<Rightarrow> nat \<Rightarrow> nat" where
  "node_size ba c = length (m_nodes ba ! c)"

definition next_node :: "bytearray \<Rightarrow> nat \<Rightarrow> nat option" where
  "next_node ba c = (if Suc c < length (m_nodes ba) then Some (Suc c) else None)"

definition clear :: "bytearray \<Rightarrow> bytearray" where
  "clear ba = ba\<lparr>m_position := 0, m_size := 0, m_capacity := m_basesize ba,
     m_nodes := take 1 (m_nodes ba), m_cur := Some 0\<rparr>"

section \<open>Growing\<close>

text \<open>
  \<open>ceil(size * 1.0 / m_basesize)\<close> is exact for the sizes a buffer can have (below \<open>2 ^ 53\<close>); the
  loop counter is an \<open>int\<close> compared with \<open>(int)node_count\<close>.
\<close>

definition node_count :: "nat \<Rightarrow> nat \<Rightarrow> nat" where
  "node_count sz basesize = (sz + basesize - 1) div basesize"

definition loop_count :: "nat \<Rightarrow> nat" where
  "loop_count n = nat (sint (of_nat n :: u32))"

definition new_nodes :: "bytearray \<Rightarrow> nat \<Rightarrow> byte list list" where
  "new_nodes ba k =
     map (\<lambda>i. new_Node (m_junk ba) (m_capacity ba + i * m_basesize ba) (m_basesize ba)) [0 ..< k]"

definition grow :: "nat \<Rightarrow> bytearray \<Rightarrow> bytearray" where
  "grow k ba = ba\<lparr>m_nodes := m_nodes ba @ new_nodes ba k,
                  m_capacity := m_capacity ba + k * m_basesize ba\<rparr>"

definition addCapacity :: "nat \<Rightarrow> (bytearray, unit) op" where
  "addCapacity sz ba =
     (if sz = 0 then (Inr (), ba)
      else let ra = getRemainAmount ba in
        if sz \<le> ra then (Inr (), ba)
        else if m_basesize ba = 0 then (Inl Div_Zero, ba)
        else case m_cur ba of
            None \<Rightarrow> (Inl Null_Deref, ba)
          | Some c \<Rightarrow>
              let ba' = grow (loop_count (node_count (sz - ra) (m_basesize ba))) ba
              in (Inr (), if ra = 0 then ba'\<lparr>m_cur := next_node ba' c\<rparr> else ba'))"

section \<open>Writing\<close>

text \<open>
  The copying loop of \<open>write\<close>. \<open>buf\<close> is the part of the caller's buffer not yet copied
  (\<open>buf + bpos\<close>, of length \<open>size\<close>), so that \<open>size > 0\<close> is \<open>buf \<noteq> []\<close>.
\<close>

function write_loop :: "byte list \<Rightarrow> nat \<Rightarrow> nat \<Rightarrow> (bytearray, unit) op" where
  "write_loop buf npos ncap ba =
     (if buf = [] then (Inr (), ba)
      else case m_cur ba of
          None \<Rightarrow> (Inl Null_Deref, ba)
        | Some c \<Rightarrow>
            if length buf \<le> ncap then
              (Inr (), ba\<lparr>m_nodes := (m_nodes ba)[c := overwrite (m_nodes ba ! c) npos buf],
                          m_cur := (if node_size ba c = npos + length buf then next_node ba c else Some c),
                          m_position := m_position ba + length buf\<rparr>)
            else
              let ba' = ba\<lparr>m_nodes := (m_nodes ba)[c := overwrite (m_nodes ba ! c) npos (take ncap buf)],
                           m_cur := next_node ba c,
                           m_position := m_position ba + ncap\<rparr>
              in case next_node ba c of
                  None \<Rightarrow> (Inl Null_Deref, ba')
                | Some c' \<Rightarrow> write_loop (drop ncap buf) 0 (node_size ba' c') ba')"
  by pat_completeness auto
termination
  by (relation "measure (\<lambda>(buf, npos, ncap, ba).
        length (m_nodes ba) - (case m_cur ba of None \<Rightarrow> 0 | Some c \<Rightarrow> c))")
    (auto simp: next_node_def split: if_splits)

declare write_loop.simps [simp del]

definition ba_write :: "byte list \<Rightarrow> (bytearray, unit) op" where
  "ba_write buf =
     (if buf = [] then ret ()
      else thn (addCapacity (length buf)) (\<lambda>ba.
        if m_basesize ba = 0 then (Inl Div_Zero, ba)
        else case m_cur ba of
            None \<Rightarrow> (Inl Null_Deref, ba)
          | Some c \<Rightarrow>
              let npos = m_position ba mod m_basesize ba;
                  ncap = size_sub (node_size ba c) npos
              in (case write_loop buf npos ncap ba of
                    (Inl e, ba') \<Rightarrow> (Inl e, ba')
                  | (Inr _, ba') \<Rightarrow>
                      (Inr (), if m_position ba' > m_size ba'
                               then ba'\<lparr>m_size := m_position ba'\<rparr> else ba'))))"

section \<open>Reading\<close>

function read_loop :: "nat \<Rightarrow> nat \<Rightarrow> nat \<Rightarrow> (bytearray, byte list) op" where
  "read_loop sz npos ncap ba =
     (if sz = 0 then (Inr [], ba)
      else case m_cur ba of
          None \<Rightarrow> (Inl Null_Deref, ba)
        | Some c \<Rightarrow>
            if sz \<le> ncap then
              (Inr (take sz (drop npos (m_nodes ba ! c))),
               ba\<lparr>m_cur := (if node_size ba c = npos + sz then next_node ba c else Some c),
                  m_position := m_position ba + sz\<rparr>)
            else
              let ba' = ba\<lparr>m_cur := next_node ba c, m_position := m_position ba + ncap\<rparr>
              in case next_node ba c of
                  None \<Rightarrow> (Inl Null_Deref, ba')
                | Some c' \<Rightarrow>
                    (case read_loop (sz - ncap) 0 (node_size ba' c') ba' of
                       (Inl e, ba'') \<Rightarrow> (Inl e, ba'')
                     | (Inr bs, ba'') \<Rightarrow> (Inr (take ncap (drop npos (m_nodes ba ! c)) @ bs), ba'')))"
  by pat_completeness auto
termination
  by (relation "measure (\<lambda>(sz, npos, ncap, ba).
        length (m_nodes ba) - (case m_cur ba of None \<Rightarrow> 0 | Some c \<Rightarrow> c))")
    (auto simp: next_node_def split: if_splits)

declare read_loop.simps [simp del]

definition ba_read :: "nat \<Rightarrow> (bytearray, byte list) op" where
  "ba_read sz ba =
     (if sz > getReadSize ba then (Inl Out_Of_Range, ba)
      else if m_basesize ba = 0 then (Inl Div_Zero, ba)
      else case m_cur ba of
          None \<Rightarrow> (Inl Null_Deref, ba)
        | Some c \<Rightarrow>
            let npos = m_position ba mod m_basesize ba
            in read_loop sz npos (size_sub (node_size ba c) npos) ba)"

section \<open>Positioning\<close>

function set_walk :: "nat \<Rightarrow> (bytearray, unit) op" where
  "set_walk pos ba =
     (case m_cur ba of
          None \<Rightarrow> (Inl Null_Deref, ba)
        | Some c \<Rightarrow>
            if pos > node_size ba c
            then (case next_node ba c of
                    None \<Rightarrow> (Inl Null_Deref, ba\<lparr>m_cur := None\<rparr>)
                  | Some c' \<Rightarrow> set_walk (pos - node_size ba c) (ba\<lparr>m_cur := Some c'\<rparr>))
            else if pos = node_size ba c then (Inr (), ba\<lparr>m_cur := next_node ba c\<rparr>)
            else (Inr (), ba))"
  by pat_completeness auto
termination
  by (relation "measure (\<lambda>(pos, ba).
        length (m_nodes ba) - (case m_cur ba of None \<Rightarrow> 0 | Some c \<Rightarrow> c))")
    (auto simp: next_node_def split: if_splits)

declare set_walk.simps [simp del]

definition setPosition :: "nat \<Rightarrow> (bytearray, unit) op" where
  "setPosition pos ba =
     (if pos > m_capacity ba \<or> pos > m_size ba then (Inl Out_Of_Range, ba)
      else set_walk pos (ba\<lparr>m_position := pos, m_cur := Some 0\<rparr>))"

end
