(* ===== verification/ByteArray_Facts.thy ===== *)
theory ByteArray_Facts
  imports ByteArray
begin

text \<open>
  The invariant of the buffer of \<open>ByteArray\<close>, its abstraction to a byte string with a position, and
  the effect of \<open>write\<close>, \<open>read\<close>, \<open>setPosition\<close>, \<open>clear\<close> and \<open>addCapacity\<close> on both.
\<close>

section \<open>Invariant and abstraction\<close>

definition uniform :: "nat \<Rightarrow> byte list list \<Rightarrow> bool" where
  "uniform bs ns \<longleftrightarrow> (\<forall>b \<in> set ns. length b = bs)"

definition cursor :: "nat \<Rightarrow> nat \<Rightarrow> nat \<Rightarrow> nat option" where
  "cursor bs n pos = (if pos div bs < n then Some (pos div bs) else None)"

definition ba_inv :: "bytearray \<Rightarrow> bool" where
  "ba_inv ba \<longleftrightarrow>
     0 < m_basesize ba \<and> m_nodes ba \<noteq> [] \<and> uniform (m_basesize ba) (m_nodes ba) \<and>
     m_capacity ba = m_basesize ba * length (m_nodes ba) \<and>
     m_position ba \<le> m_size ba \<and> m_size ba \<le> m_capacity ba \<and>
     m_cur ba = cursor (m_basesize ba) (length (m_nodes ba)) (m_position ba)"

text \<open>The bytes held, and those from the position on.\<close>

definition content :: "bytearray \<Rightarrow> byte list" where
  "content ba = take (m_size ba) (concat (m_nodes ba))"

definition unread :: "bytearray \<Rightarrow> byte list" where
  "unread ba = drop (m_position ba) (content ba)"

lemma uniform_nth: "uniform bs ns \<Longrightarrow> c < length ns \<Longrightarrow> length (ns ! c) = bs"
  by (auto simp: uniform_def)

lemma uniform_update: "uniform bs ns \<Longrightarrow> length b = bs \<Longrightarrow> uniform bs (ns[c := b])"
  unfolding uniform_def using set_update_subset_insert by fastforce

lemma uniform_append: "uniform bs ns \<Longrightarrow> uniform bs ms \<Longrightarrow> uniform bs (ns @ ms)"
  by (auto simp: uniform_def)

lemma length_concat: "uniform bs ns \<Longrightarrow> length (concat ns) = bs * length ns"
  unfolding uniform_def by (rule length_concat_uniform)

lemma length_concat_take:
  "uniform bs ns \<Longrightarrow> c \<le> length ns \<Longrightarrow> length (concat (take c ns)) = c * bs"
  using length_concat_take_uniform [of ns bs c] by (simp add: uniform_def mult.commute)

lemma div_in_block: "r < bs \<Longrightarrow> (c * bs + r) div bs = (c :: nat)"
  by simp

lemma cursor_in_block: "r < bs \<Longrightarrow> c < n \<Longrightarrow> cursor bs n (c * bs + r) = Some c"
  by (simp add: cursor_def)

lemma cursor_next: "0 < bs \<Longrightarrow> cursor bs n (Suc c * bs) = (if Suc c < n then Some (Suc c) else None)"
  by (simp add: cursor_def del: mult_Suc)

lemma cursor_Some: "0 < bs \<Longrightarrow> pos < bs * n \<Longrightarrow> cursor bs n pos = Some (pos div bs)"
  by (simp add: cursor_def less_mult_imp_div_less mult.commute)

lemma cursor_end: "0 < bs \<Longrightarrow> cursor bs n (bs * n) = None"
  by (simp add: cursor_def)

lemma concat_overwrite:
  assumes "uniform bs ns" "c < length ns" "npos + length ys \<le> bs"
  shows "concat (ns[c := overwrite (ns ! c) npos ys]) = overwrite (concat ns) (c * bs + npos) ys"
proof -
  have nc: "length (ns ! c) = bs" using assms uniform_nth by blast
  have "concat (ns[c := overwrite (ns ! c) npos ys])
      = concat (take c ns) @ overwrite (ns ! c) npos ys @ concat (drop (Suc c) ns)"
    using assms(2) by (simp add: upd_conv_take_nth_drop)
  moreover have "overwrite (concat ns) (c * bs + npos) ys
      = concat (take c ns) @ overwrite (ns ! c) npos ys @ concat (drop (Suc c) ns)"
    using assms nc length_concat_take [of bs ns c]
    by (subst concat_split_nth [OF assms(2)])
      (simp add: overwrite_append_right overwrite_append_left)
  ultimately show ?thesis by simp
qed

lemma concat_read:
  assumes "uniform bs ns" "c < length ns" "npos + k \<le> bs"
  shows "take k (drop npos (ns ! c)) = take k (drop (c * bs + npos) (concat ns))"
proof -
  have "length (ns ! c) = bs" using assms uniform_nth by blast
  then show ?thesis
    using assms length_concat_take [of bs ns c]
    by (subst concat_split_nth [OF assms(2)]) simp
qed

section \<open>The copying loops\<close>

text \<open>Where \<open>m_cur\<close> points after a copy that ends in the current block.\<close>

lemma cursor_step:
  assumes "0 < bs" "c < length (m_nodes ba)" "node_size ba c = bs" "npos + k \<le> bs"
    and "m_position ba = c * bs + npos"
  shows "(if node_size ba c = npos + k then next_node ba c else Some c)
       = cursor bs (length (m_nodes ba)) (m_position ba + k)"
proof (cases "npos + k = bs")
  case True
  then have "m_position ba + k = Suc c * bs" using assms by simp
  with True show ?thesis
    using assms by (simp add: next_node_def cursor_next del: mult_Suc)
next
  case False
  then show ?thesis
    using assms cursor_in_block [of "npos + k" bs c] by (simp add: add.assoc)
qed

lemma write_loop_spec:
  assumes "0 < bs" "uniform bs (m_nodes ba)" "m_cur ba = Some c" "c < length (m_nodes ba)"
    and "npos < bs" "m_position ba = c * bs + npos"
    and "m_position ba + length buf \<le> bs * length (m_nodes ba)" "buf \<noteq> []"
  shows "\<exists>N. write_loop buf npos (bs - npos) ba =
      (Inr (), ba\<lparr>m_nodes := N,
                 m_cur := cursor bs (length (m_nodes ba)) (m_position ba + length buf),
                 m_position := m_position ba + length buf\<rparr>)
    \<and> length N = length (m_nodes ba) \<and> uniform bs N
    \<and> concat N = overwrite (concat (m_nodes ba)) (m_position ba) buf"
  using assms
proof (induction "length buf" arbitrary: buf npos c ba rule: less_induct)
  case less
  note p = less.prems
  have nc: "length (m_nodes ba ! c) = bs" using p uniform_nth by blast
  show ?case
  proof (cases "length buf \<le> bs - npos")
    case True
    let ?N = "(m_nodes ba)[c := overwrite (m_nodes ba ! c) npos buf]"
    have cur: "(if node_size ba c = npos + length buf then next_node ba c else Some c)
        = cursor bs (length (m_nodes ba)) (m_position ba + length buf)"
      by (rule cursor_step) (use p nc True in \<open>auto simp: node_size_def\<close>)
    have "uniform bs ?N"
      using p nc True by (intro uniform_update) auto
    moreover have "concat ?N = overwrite (concat (m_nodes ba)) (m_position ba) buf"
      using p True concat_overwrite by simp
    ultimately show ?thesis
      using p True cur by (intro exI [of _ ?N]) (simp add: write_loop.simps [of buf])
  next
    case False
    let ?k = "bs - npos"
    let ?ba = "ba\<lparr>m_nodes := (m_nodes ba)[c := overwrite (m_nodes ba ! c) npos (take ?k buf)],
                  m_cur := Some (Suc c), m_position := m_position ba + ?k\<rparr>"
    have lk: "length (take ?k buf) = ?k" using False by simp
    have pos': "m_position ba + ?k = Suc c * bs" using p by simp
    then have "Suc c * bs < bs * length (m_nodes ba)"
      using p(7) False by linarith
    then have c': "Suc c < length (m_nodes ba)"
      by (simp only: mult.commute [of bs] mult_less_cancel2)
    have u: "uniform bs (m_nodes ?ba)"
      using p nc lk by (auto intro!: uniform_update)
    have size': "node_size ?ba (Suc c) = bs"
      unfolding node_size_def by (rule uniform_nth [OF u]) (use c' in simp)
    have step: "write_loop buf npos ?k ba = write_loop (drop ?k buf) 0 bs ?ba"
      using p(3,8) c' False by (subst write_loop.simps) (simp add: next_node_def Let_def size')
    have "\<exists>N. write_loop (drop ?k buf) 0 (bs - 0) ?ba =
        (Inr (), ?ba\<lparr>m_nodes := N,
                   m_cur := cursor bs (length (m_nodes ?ba)) (m_position ?ba + length (drop ?k buf)),
                   m_position := m_position ?ba + length (drop ?k buf)\<rparr>)
      \<and> length N = length (m_nodes ?ba) \<and> uniform bs N
      \<and> concat N = overwrite (concat (m_nodes ?ba)) (m_position ?ba) (drop ?k buf)"
      using p c' False u pos' by (intro less.hyps) auto
    moreover have "m_position ?ba + length (drop ?k buf) = m_position ba + length buf"
      using False by simp
    moreover have "overwrite (concat (m_nodes ?ba)) (m_position ?ba) (drop ?k buf)
        = overwrite (concat (m_nodes ba)) (m_position ba) buf"
    proof -
      have "concat (m_nodes ?ba) = overwrite (concat (m_nodes ba)) (m_position ba) (take ?k buf)"
        using p lk concat_overwrite [of bs "m_nodes ba" c npos "take ?k buf"] by simp
      moreover have "m_position ba \<le> length (concat (m_nodes ba))"
        using p by (simp add: length_concat)
      ultimately show ?thesis
        using overwrite_overwrite [of "m_position ba" "concat (m_nodes ba)" "take ?k buf" "drop ?k buf"] lk
        by simp
    qed
    ultimately show ?thesis unfolding step by auto
  qed
qed

lemma read_loop_spec:
  assumes "0 < bs" "uniform bs (m_nodes ba)" "m_cur ba = Some c" "c < length (m_nodes ba)"
    and "npos < bs" "m_position ba = c * bs + npos"
    and "m_position ba + sz \<le> bs * length (m_nodes ba)" "0 < sz"
  shows "read_loop sz npos (bs - npos) ba =
      (Inr (take sz (drop (m_position ba) (concat (m_nodes ba)))),
       ba\<lparr>m_cur := cursor bs (length (m_nodes ba)) (m_position ba + sz),
          m_position := m_position ba + sz\<rparr>)"
  using assms
proof (induction sz arbitrary: npos c ba rule: less_induct)
  case (less sz)
  note p = less.prems
  have nc: "length (m_nodes ba ! c) = bs" using p uniform_nth by blast
  show ?case
  proof (cases "sz \<le> bs - npos")
    case True
    have "(if node_size ba c = npos + sz then next_node ba c else Some c)
        = cursor bs (length (m_nodes ba)) (m_position ba + sz)"
      by (rule cursor_step) (use p nc True in \<open>auto simp: node_size_def\<close>)
    then show ?thesis
      using p True concat_read [of bs "m_nodes ba" c npos sz] by (simp add: read_loop.simps [of sz])
  next
    case False
    let ?k = "bs - npos"
    let ?ba = "ba\<lparr>m_cur := Some (Suc c), m_position := m_position ba + ?k\<rparr>"
    have pos': "m_position ba + ?k = Suc c * bs" using p by simp
    then have "Suc c * bs < bs * length (m_nodes ba)" using p(7) False by linarith
    then have c': "Suc c < length (m_nodes ba)"
      by (simp only: mult.commute [of bs] mult_less_cancel2)
    have size': "node_size ?ba (Suc c) = bs"
      unfolding node_size_def by (rule uniform_nth) (use p c' in simp_all)
    have "read_loop (sz - ?k) 0 (bs - 0) ?ba =
        (Inr (take (sz - ?k) (drop (m_position ?ba) (concat (m_nodes ?ba)))),
         ?ba\<lparr>m_cur := cursor bs (length (m_nodes ?ba)) (m_position ?ba + (sz - ?k)),
             m_position := m_position ?ba + (sz - ?k)\<rparr>)"
      using p c' False pos' by (intro less.IH) auto
    moreover have "take ?k (drop npos (m_nodes ba ! c)) = take ?k (drop (m_position ba) (concat (m_nodes ba)))"
      using p concat_read [of bs "m_nodes ba" c npos ?k] by simp
    moreover have "take sz xs = take ?k xs @ take (sz - ?k) (drop ?k xs)" for xs :: "byte list"
      using False by (simp add: take_add [symmetric])
    ultimately show ?thesis
      using p(3,8) c' False
      by (subst read_loop.simps) (simp add: next_node_def Let_def size' add.commute)
  qed
qed

section \<open>The operations keep the invariant\<close>

lemma ba_invD:
  assumes "ba_inv ba"
  shows "0 < m_basesize ba" "uniform (m_basesize ba) (m_nodes ba)" "m_nodes ba \<noteq> []"
    and "m_capacity ba = m_basesize ba * length (m_nodes ba)"
    and "m_position ba \<le> m_size ba" "m_size ba \<le> m_capacity ba"
    and "m_cur ba = cursor (m_basesize ba) (length (m_nodes ba)) (m_position ba)"
  using assms by (auto simp: ba_inv_def)

lemma ba_inv_concat: "ba_inv ba \<Longrightarrow> length (concat (m_nodes ba)) = m_capacity ba"
  by (simp add: ba_inv_def length_concat)

lemma length_content: "ba_inv ba \<Longrightarrow> length (content ba) = m_size ba"
  using ba_inv_concat [of ba] ba_invD(6) [of ba] by (simp add: content_def)

lemma length_unread: "ba_inv ba \<Longrightarrow> length (unread ba) = m_size ba - m_position ba"
  by (simp add: unread_def length_content)

lemma getReadSize_unread: "ba_inv ba \<Longrightarrow> getReadSize ba = length (unread ba)"
  by (simp add: getReadSize_def length_unread ba_invD)

text \<open>Below the capacity the current block is there.\<close>

lemma ba_inv_cur:
  assumes "ba_inv ba" "m_position ba < m_capacity ba"
  obtains c where "m_cur ba = Some c" "c = m_position ba div m_basesize ba"
    "c < length (m_nodes ba)" "m_position ba = c * m_basesize ba + m_position ba mod m_basesize ba"
    "node_size ba c = m_basesize ba"
proof
  let ?c = "m_position ba div m_basesize ba"
  show "m_cur ba = Some ?c" using assms by (simp add: ba_inv_def cursor_Some)
  show *: "?c < length (m_nodes ba)"
    using assms by (simp add: ba_inv_def less_mult_imp_div_less mult.commute)
  show "node_size ba ?c = m_basesize ba"
    using * assms uniform_nth by (simp add: ba_inv_def node_size_def)
qed simp_all

lemma ba_inv_new: "0 < bs \<Longrightarrow> ba_inv (ByteArray_new bs junk)"
  by (simp add: ba_inv_def ByteArray_new_def uniform_def new_Node_def cursor_def)

lemma content_new: "content (ByteArray_new bs junk) = []"
  by (simp add: content_def ByteArray_new_def)

lemma ba_inv_clear: "ba_inv ba \<Longrightarrow> ba_inv (clear ba)"
  by (cases "m_nodes ba") (auto simp: ba_inv_def clear_def uniform_def cursor_def)

lemma content_clear: "content (clear ba) = []"
  by (simp add: content_def clear_def)

subsection \<open>addCapacity\<close>

lemma loop_count_small: "n < 2 ^ 31 \<Longrightarrow> loop_count n = n"
  by (simp add: loop_count_def signed_of_nat signed_take_bit_int_eq_self)

lemma node_count_enough: "0 < bs \<Longrightarrow> sz \<le> bs * node_count sz bs"
  using dividend_less_div_times [of bs "sz + bs - 1"]
  by (simp add: node_count_def mult.commute)

lemma node_count_le: "0 < bs \<Longrightarrow> node_count sz bs \<le> sz"
proof -
  assume bs: "0 < bs"
  then have "sz \<le> sz * bs" by simp
  with bs have "sz + bs - 1 < bs + sz * bs" by linarith
  then have "sz + bs - 1 < Suc sz * bs" by simp
  then show ?thesis
    unfolding node_count_def using less_mult_imp_div_less less_Suc_eq_le by blast
qed

lemma uniform_new_nodes: "uniform (m_basesize ba) (new_nodes ba k)"
  by (auto simp: uniform_def new_nodes_def new_Node_def)

lemma length_new_nodes [simp]: "length (new_nodes ba k) = k"
  by (simp add: new_nodes_def)

lemma cursor_mono: "cursor bs n pos = Some c \<Longrightarrow> n \<le> m \<Longrightarrow> cursor bs m pos = Some c"
  by (simp add: cursor_def split: if_splits)

lemma concat_prefix:
  "n \<le> length (concat xs) \<Longrightarrow> take n (concat (xs @ ys)) = take n (concat xs)"
  by simp

text \<open>Away from the end of the last block, the buffer grows as it should and keeps its content.\<close>

lemma grow_fields [simp]:
  "m_basesize (grow k ba) = m_basesize ba" "m_position (grow k ba) = m_position ba"
  "m_size (grow k ba) = m_size ba" "m_cur (grow k ba) = m_cur ba" "m_endian (grow k ba) = m_endian ba"
  "m_capacity (grow k ba) = m_capacity ba + k * m_basesize ba"
  "m_nodes (grow k ba) = m_nodes ba @ new_nodes ba k"
  by (simp_all add: grow_def)

lemma grow_0: "grow 0 ba = ba"
  by (simp add: grow_def new_nodes_def)

lemma ba_inv_grow:
  assumes inv: "ba_inv ba" and pos: "m_position ba < m_capacity ba"
  shows "ba_inv (grow k ba)"
proof -
  note d = ba_invD [OF inv]
  obtain c where c: "m_cur ba = Some c" using ba_inv_cur [OF inv pos] by metis
  have "cursor (m_basesize ba) (length (m_nodes ba) + k) (m_position ba) = Some c"
    by (rule cursor_mono [where n = "length (m_nodes ba)"]) (use d(7) c in simp_all)
  then show ?thesis
    unfolding ba_inv_def using d(1-3,5,6) c
    by (simp add: d(4) uniform_append uniform_new_nodes add_mult_distrib2 mult.commute [of k])
qed

lemma content_grow: "ba_inv ba \<Longrightarrow> content (grow k ba) = content ba"
  using ba_inv_concat [of ba] ba_invD(6) [of ba] by (simp add: content_def)

lemma addCapacity_spec:
  assumes inv: "ba_inv ba" and pos: "m_position ba < m_capacity ba" and sz: "sz < 2 ^ 31"
  shows "\<exists>k. addCapacity sz ba = (Inr (), grow k ba)
    \<and> m_position ba + sz \<le> m_capacity ba + k * m_basesize ba
    \<and> (m_position ba + sz \<le> m_capacity ba \<longrightarrow> k = 0)"
proof -
  obtain c where c: "m_cur ba = Some c" using ba_inv_cur [OF inv pos] by metis
  have bs: "0 < m_basesize ba" using inv by (rule ba_invD)
  obtain r where r: "getRemainAmount ba = r" "0 < r" "m_position ba + r = m_capacity ba"
    using pos by (simp add: getRemainAmount_def)
  show ?thesis
  proof (cases "sz \<le> r")
    case True
    with r have "addCapacity sz ba = (Inr (), grow 0 ba)"
      by (simp add: addCapacity_def grow_0)
    with True r show ?thesis by (intro exI [of _ 0]) simp
  next
    case False
    define k where "k = node_count (sz - r) (m_basesize ba)"
    have "k \<le> sz - r" using node_count_le bs by (simp add: k_def)
    then have "loop_count k = k" using sz by (intro loop_count_small) simp
    then have "addCapacity sz ba = (Inr (), grow k ba)"
      using False r bs c by (simp add: addCapacity_def k_def)
    moreover have "sz - r \<le> k * m_basesize ba"
      using node_count_enough [OF bs] by (simp add: k_def mult.commute)
    ultimately show ?thesis
      using r False by (intro exI [of _ k]) simp
  qed
qed

text \<open>At the end of the last block \<open>m_cur\<close> is null, and \<open>addCapacity\<close> follows it.\<close>

lemma addCapacity_full:
  assumes "ba_inv ba" "m_position ba = m_capacity ba" "0 < sz"
  shows "addCapacity sz ba = (Inl Null_Deref, ba)"
  using assms ba_invD [OF assms(1)]
  by (simp add: addCapacity_def getRemainAmount_def cursor_end)

subsection \<open>write\<close>

lemma take_concat_overwrite:
  assumes "p \<le> n" "n \<le> length xs" "p + length ys \<le> length xs"
  shows "take (max n (p + length ys)) (overwrite xs p ys) = overwrite (take n xs) p ys"
  using assms by (auto simp: overwrite_def min_def max_def take_drop add.commute not_le)

lemma ba_write_spec:
  assumes inv: "ba_inv ba" and pos: "m_position ba < m_capacity ba" and len: "length buf < 2 ^ 31"
  shows "\<exists>ba'. ba_write buf ba = (Inr (), ba') \<and> ba_inv ba'
    \<and> content ba' = overwrite (content ba) (m_position ba) buf
    \<and> m_position ba' = m_position ba + length buf
    \<and> m_basesize ba' = m_basesize ba \<and> m_endian ba' = m_endian ba
    \<and> m_capacity ba \<le> m_capacity ba'
    \<and> (m_position ba + length buf \<le> m_capacity ba \<longrightarrow> m_capacity ba' = m_capacity ba)"
proof (cases "buf = []")
  case True
  with inv show ?thesis by (simp add: ba_write_def)
next
  case False
  obtain k where grown: "addCapacity (length buf) ba = (Inr (), grow k ba)"
    and room: "m_position ba + length buf \<le> m_capacity ba + k * m_basesize ba"
    and fits: "m_position ba + length buf \<le> m_capacity ba \<longrightarrow> k = 0"
    using addCapacity_spec [OF inv pos len] by metis
  define g where "g = grow k ba"
  have inv1: "ba_inv g" and pos1: "m_position g < m_capacity g"
    and room1: "m_position g + length buf \<le> m_capacity g"
    using ba_inv_grow [OF inv pos] pos room by (simp_all add: g_def)
  note d = ba_invD [OF inv1]
  obtain c where c: "m_cur g = Some c" "c < length (m_nodes g)"
    "m_position g = c * m_basesize g + m_position g mod m_basesize g" "node_size g c = m_basesize g"
    using ba_inv_cur [OF inv1 pos1] by metis
  let ?npos = "m_position g mod m_basesize g"
  have npos: "?npos < m_basesize g" using d(1) by simp
  obtain N where loop: "write_loop buf ?npos (m_basesize g - ?npos) g =
      (Inr (), g\<lparr>m_nodes := N,
                 m_cur := cursor (m_basesize g) (length (m_nodes g)) (m_position g + length buf),
                 m_position := m_position g + length buf\<rparr>)"
    and N: "length N = length (m_nodes g)" "uniform (m_basesize g) N"
      "concat N = overwrite (concat (m_nodes g)) (m_position g) buf"
    using write_loop_spec [OF d(1,2) c(1,2) npos c(3) _ False] room1 d(4) by auto
  define w where "w = g\<lparr>m_nodes := N,
                 m_cur := cursor (m_basesize g) (length (m_nodes g)) (m_position g + length buf),
                 m_position := m_position g + length buf\<rparr>"
  define ba' where "ba' = (if m_position w > m_size w then w\<lparr>m_size := m_position w\<rparr> else w)"
  have run: "ba_write buf ba = (Inr (), ba')"
    using False c npos d(1) loop
    by (simp add: ba_write_def thn_run grown g_def [symmetric] Let_def w_def [symmetric] ba'_def)
  have size': "m_size ba' = max (m_size g) (m_position g + length buf)"
    by (simp add: ba'_def w_def max_def)
  have nodes': "m_nodes ba' = N"
    by (simp add: ba'_def w_def)
  have "ba_inv ba'"
    using d room1 N by (auto simp: ba_inv_def ba'_def w_def)
  moreover have "content ba' = overwrite (content g) (m_position g) buf"
    unfolding content_def nodes' size' N(3)
    by (rule take_concat_overwrite) (use ba_inv_concat [OF inv1] d room1 in simp_all)
  ultimately show ?thesis
    using run content_grow [OF inv, of k] fits
    by (intro exI [of _ ba']) (simp add: g_def ba'_def w_def)
qed

text \<open>At the end of the last block every write of at least one byte crashes.\<close>

lemma ba_write_full:
  assumes "ba_inv ba" "m_position ba = m_capacity ba" "buf \<noteq> []"
  shows "ba_write buf ba = (Inl Null_Deref, ba)"
  using assms addCapacity_full [OF assms(1,2), of "length buf"]
  by (simp add: ba_write_def thn_run)

subsection \<open>read\<close>

lemma ba_read_spec:
  assumes inv: "ba_inv ba" and more: "unread ba \<noteq> []" and n: "n \<le> length (unread ba)"
  shows "\<exists>ba'. ba_read n ba = (Inr (take n (unread ba)), ba') \<and> ba_inv ba'
    \<and> content ba' = content ba \<and> m_position ba' = m_position ba + n
    \<and> m_basesize ba' = m_basesize ba \<and> m_endian ba' = m_endian ba \<and> m_capacity ba' = m_capacity ba"
proof -
  note d = ba_invD [OF inv]
  have lt: "m_position ba < m_size ba" using more length_unread [OF inv] by (cases "unread ba") auto
  then have pos: "m_position ba < m_capacity ba" using d by simp
  obtain c where c: "m_cur ba = Some c" "c < length (m_nodes ba)"
    "m_position ba = c * m_basesize ba + m_position ba mod m_basesize ba" "node_size ba c = m_basesize ba"
    using ba_inv_cur [OF inv pos] by metis
  let ?npos = "m_position ba mod m_basesize ba"
  have npos: "?npos < m_basesize ba" using d(1) by simp
  have n': "m_position ba + n \<le> m_size ba" using n lt length_unread [OF inv] by simp
  have start: "ba_read n ba = read_loop n ?npos (m_basesize ba - ?npos) ba"
    using n c npos d(1) by (simp add: ba_read_def getReadSize_unread [OF inv] Let_def)
  show ?thesis
  proof (cases "n = 0")
    case True
    then show ?thesis using start inv by (simp add: read_loop.simps)
  next
    case False
    define ba' where "ba' = ba\<lparr>m_cur := cursor (m_basesize ba) (length (m_nodes ba)) (m_position ba + n),
                            m_position := m_position ba + n\<rparr>"
    have "ba_read n ba = (Inr (take n (drop (m_position ba) (concat (m_nodes ba)))), ba')"
      unfolding start ba'_def
      by (rule read_loop_spec) (use d c npos n' False in simp_all)
    moreover have "take n (drop (m_position ba) (concat (m_nodes ba))) = take n (unread ba)"
      using n' by (simp add: unread_def content_def drop_take min_def)
    moreover have "ba_inv ba'" using d n' by (simp add: ba_inv_def ba'_def)
    ultimately show ?thesis by (intro exI [of _ ba']) (simp add: ba'_def content_def)
  qed
qed

lemma ba_read_short:
  "ba_inv ba \<Longrightarrow> length (unread ba) < n \<Longrightarrow> ba_read n ba = (Inl Out_Of_Range, ba)"
  by (simp add: ba_read_def getReadSize_unread)

text \<open>Even a read of size 0 follows \<open>m_cur\<close>, which is null at the end of the last block.\<close>

lemma ba_read_full:
  assumes "ba_inv ba" "m_position ba = m_capacity ba"
  shows "ba_read 0 ba = (Inl Null_Deref, ba)"
  using assms ba_invD [OF assms(1)] by (simp add: ba_read_def cursor_end)

subsection \<open>setPosition\<close>

lemma set_walk_spec:
  assumes "0 < bs" "uniform bs (m_nodes ba)" "m_cur ba = Some c" "c < length (m_nodes ba)"
    and "c * bs + pos \<le> bs * length (m_nodes ba)" "c = 0 \<or> 0 < pos"
  shows "set_walk pos ba = (Inr (), ba\<lparr>m_cur := cursor bs (length (m_nodes ba)) (c * bs + pos)\<rparr>)"
  using assms
proof (induction pos arbitrary: c ba rule: less_induct)
  case (less pos)
  note p = less.prems
  have size_c: "node_size ba c = bs"
    unfolding node_size_def by (rule uniform_nth) (use p in simp_all)
  show ?case
  proof (cases "pos > bs")
    case True
    then have "Suc c * bs < bs * length (m_nodes ba)" using p(5) by simp
    then have c': "Suc c < length (m_nodes ba)"
      by (simp only: mult.commute [of bs] mult_less_cancel2)
    then have "set_walk pos ba = set_walk (pos - bs) (ba\<lparr>m_cur := Some (Suc c)\<rparr>)"
      using p True by (subst set_walk.simps) (simp add: size_c next_node_def)
    also have "\<dots> = (Inr (), ba\<lparr>m_cur := cursor bs (length (m_nodes ba)) (Suc c * bs + (pos - bs))\<rparr>)"
      using p True c' by (subst less.IH [where c = "Suc c"]) auto
    finally show ?thesis using True by (simp add: ac_simps)
  next
    case False
    consider "pos = bs" | "pos < bs" using False by linarith
    then show ?thesis
    proof cases
      case 1
      then have "c * bs + pos = Suc c * bs" by simp
      then show ?thesis
        using p 1 by (subst set_walk.simps) (simp add: size_c next_node_def cursor_next del: mult_Suc)
    next
      case 2
      have "ba = ba\<lparr>m_cur := Some c\<rparr>" using p(3) by simp
      with 2 show ?thesis
        using p by (subst set_walk.simps) (simp add: size_c cursor_in_block)
    qed
  qed
qed

lemma setPosition_spec:
  assumes inv: "ba_inv ba" and pos: "pos \<le> m_size ba"
  shows "\<exists>ba'. setPosition pos ba = (Inr (), ba') \<and> ba_inv ba' \<and> content ba' = content ba
    \<and> m_position ba' = pos \<and> m_basesize ba' = m_basesize ba \<and> m_endian ba' = m_endian ba
    \<and> m_capacity ba' = m_capacity ba"
proof -
  note d = ba_invD [OF inv]
  define ba' where "ba' = ba\<lparr>m_position := pos, m_cur := cursor (m_basesize ba) (length (m_nodes ba)) pos\<rparr>"
  have "setPosition pos ba = set_walk pos (ba\<lparr>m_position := pos, m_cur := Some 0\<rparr>)"
    using pos d by (simp add: setPosition_def)
  also have "\<dots> = (Inr (), ba')"
    unfolding ba'_def using pos d by (subst set_walk_spec [where c = 0]) simp_all
  finally have "setPosition pos ba = (Inr (), ba')" .
  moreover have "ba_inv ba'" using d pos by (simp add: ba_inv_def ba'_def)
  ultimately show ?thesis by (intro exI [of _ ba']) (simp add: ba'_def content_def)
qed

lemma setPosition_out: "ba_inv ba \<Longrightarrow> m_size ba < pos \<Longrightarrow> setPosition pos ba = (Inl Out_Of_Range, ba)"
  by (simp add: setPosition_def)

end
