(* ===== verification/ByteArray_Ops.thy ===== *)
theory ByteArray_Ops
  imports ByteArray_Facts
begin

text \<open>
  The typed operations of \<open>ByteArray\<close>: fixed-width and variable-width integers, floating-point
  values (as their bit patterns), strings, and the operations that expose the buffer
  (\<open>toString\<close>, \<open>getReadBuffers\<close>, \<open>getWriteBuffers\<close>, \<open>writeToFile\<close>, \<open>readFromFile\<close>). A signed value
  is the word of its bits.
\<close>

section \<open>Writers\<close>

definition in_stream_order :: "('w \<Rightarrow> 'w) \<Rightarrow> 'w \<Rightarrow> bytearray \<Rightarrow> 'w" where
  "in_stream_order swap value ba = (if m_endian ba \<noteq> AGENT_BYTE_ORDER then swap value else value)"

definition writeFint8 :: "byte \<Rightarrow> (bytearray, unit) op" where
  "writeFint8 value = ba_write (le_bytes 1 value)"

definition writeFuint8 :: "byte \<Rightarrow> (bytearray, unit) op" where
  "writeFuint8 value = ba_write (le_bytes 1 value)"

definition writeFint16 :: "u16 \<Rightarrow> (bytearray, unit) op" where
  "writeFint16 value = bnd (gets (in_stream_order bswap16 value)) (\<lambda>v. ba_write (le_bytes 2 v))"

definition writeFuint16 :: "u16 \<Rightarrow> (bytearray, unit) op" where
  "writeFuint16 value = bnd (gets (in_stream_order bswap16 value)) (\<lambda>v. ba_write (le_bytes 2 v))"

definition writeFint32 :: "u32 \<Rightarrow> (bytearray, unit) op" where
  "writeFint32 value = bnd (gets (in_stream_order bswap32 value)) (\<lambda>v. ba_write (le_bytes 4 v))"

definition writeFuint32 :: "u32 \<Rightarrow> (bytearray, unit) op" where
  "writeFuint32 value = bnd (gets (in_stream_order bswap32 value)) (\<lambda>v. ba_write (le_bytes 4 v))"

definition writeFint64 :: "u64 \<Rightarrow> (bytearray, unit) op" where
  "writeFint64 value = bnd (gets (in_stream_order bswap64 value)) (\<lambda>v. ba_write (le_bytes 8 v))"

definition writeFuint64 :: "u64 \<Rightarrow> (bytearray, unit) op" where
  "writeFuint64 value = bnd (gets (in_stream_order bswap64 value)) (\<lambda>v. ba_write (le_bytes 8 v))"

definition writeUint32 :: "u32 \<Rightarrow> (bytearray, unit) op" where
  "writeUint32 value = ba_write (varint32 value)"

definition writeInt32 :: "u32 \<Rightarrow> (bytearray, unit) op" where
  "writeInt32 val = writeUint32 (EncodingZigzag32 val)"

definition writeUint64 :: "u64 \<Rightarrow> (bytearray, unit) op" where
  "writeUint64 value = ba_write (varint64 value)"

definition writeInt64 :: "u64 \<Rightarrow> (bytearray, unit) op" where
  "writeInt64 value = writeUint64 (EncodeZigzag64 value)"

definition writeFloat :: "u32 \<Rightarrow> (bytearray, unit) op" where
  "writeFloat bits = writeFuint32 bits"

definition writeDouble :: "u64 \<Rightarrow> (bytearray, unit) op" where
  "writeDouble bits = writeFuint64 bits"

definition writeStringF16 :: "byte list \<Rightarrow> (bytearray, unit) op" where
  "writeStringF16 value = thn (writeFuint16 (of_nat (length value))) (ba_write value)"

definition writeStringF32 :: "byte list \<Rightarrow> (bytearray, unit) op" where
  "writeStringF32 value = thn (writeFuint32 (of_nat (length value))) (ba_write value)"

definition writeStringF64 :: "byte list \<Rightarrow> (bytearray, unit) op" where
  "writeStringF64 value = thn (writeFuint64 (of_nat (length value))) (ba_write value)"

definition writeStringVint :: "byte list \<Rightarrow> (bytearray, unit) op" where
  "writeStringVint value = thn (writeUint64 (of_nat (length value))) (ba_write value)"

definition writeStringWithoutLength :: "byte list \<Rightarrow> (bytearray, unit) op" where
  "writeStringWithoutLength value = ba_write value"

section \<open>Readers\<close>

definition readFint8 :: "(bytearray, byte) op" where "readFint8 = read_u8 ba_read"
definition readFuint8 :: "(bytearray, byte) op" where "readFuint8 = read_u8 ba_read"
definition readFint16 :: "(bytearray, u16) op" where "readFint16 = read_u16 ba_read isLittleEndian"
definition readFuint16 :: "(bytearray, u16) op" where "readFuint16 = read_u16 ba_read isLittleEndian"
definition readFint32 :: "(bytearray, u32) op" where "readFint32 = read_u32 ba_read isLittleEndian"
definition readFuint32 :: "(bytearray, u32) op" where "readFuint32 = read_u32 ba_read isLittleEndian"
definition readFint64 :: "(bytearray, u64) op" where "readFint64 = read_u64 ba_read isLittleEndian"
definition readFuint64 :: "(bytearray, u64) op" where "readFuint64 = read_u64 ba_read isLittleEndian"

definition readUint32 :: "(bytearray, u32) op" where
  "readUint32 = read_uint32 ba_read"

definition readInt32 :: "(bytearray, u32) op" where
  "readInt32 = bnd readUint32 (\<lambda>v. ret (DecodeZigzag32 v))"

definition readUint64 :: "(bytearray, u64) op" where
  "readUint64 = read_uint64 ba_read"

definition readInt64 :: "(bytearray, u64) op" where
  "readInt64 = bnd readUint64 (\<lambda>v. ret (DecodeZigzag64 v))"

definition readFloat :: "(bytearray, u32) op" where "readFloat = readFuint32"
definition readDouble :: "(bytearray, u64) op" where "readDouble = readFuint64"

text \<open>\<open>buff.resize(len)\<close> throws \<open>std::length_error\<close> beyond the largest string.\<close>

definition string_max_size :: nat where "string_max_size = 2 ^ 63 - 1"

definition read_string :: "nat \<Rightarrow> (bytearray, byte list) op" where
  "read_string len = (if len > string_max_size then raise Logic_Error else ba_read len)"

definition readStringF16 :: "(bytearray, byte list) op" where
  "readStringF16 = bnd readFuint16 (\<lambda>len. read_string (unat len))"

definition readStringF32 :: "(bytearray, byte list) op" where
  "readStringF32 = bnd readFuint32 (\<lambda>len. read_string (unat len))"

definition readStringF64 :: "(bytearray, byte list) op" where
  "readStringF64 = bnd readFuint64 (\<lambda>len. read_string (unat len))"

definition readStringVint :: "(bytearray, byte list) op" where
  "readStringVint = bnd readUint64 (\<lambda>len. read_string (unat len))"

section \<open>The buffer as a byte source\<close>

text \<open>\<open>m_endian == AGENT_BYTE_ORDER\<close>, which the readers test, is what \<^const>\<open>isLittleEndian\<close> computes.\<close>

interpretation src: byte_source ba_read unread ba_inv isLittleEndian
proof
  fix s n
  assume "ba_inv s" "unread s \<noteq> []" "n \<le> length (unread s)"
  from ba_read_spec [OF this] obtain ba' where
    "ba_read n s = (Inr (take n (unread s)), ba')" "ba_inv ba'" "content ba' = content s"
    "m_position ba' = m_position s + n" "m_endian ba' = m_endian s"
    by auto
  then show "\<exists>s'. ba_read n s = (Inr (take n (unread s)), s') \<and> ba_inv s' \<and>
      unread s' = drop n (unread s) \<and> isLittleEndian s' = isLittleEndian s"
    by (intro exI [of _ ba']) (simp add: unread_def isLittleEndian_def add.commute)
qed (rule ba_read_short)

abbreviation reads :: "(bytearray, 'x) op \<Rightarrow> bytearray \<Rightarrow> 'x \<Rightarrow> byte list \<Rightarrow> bool" where
  "reads \<equiv> delivers unread ba_inv isLittleEndian"

section \<open>Round trips\<close>

text \<open>Write a value, go back to where it was written, and read it.\<close>

definition write_back_read :: "(bytearray, unit) op \<Rightarrow> (bytearray, 'x) op \<Rightarrow> (bytearray, 'x) op" where
  "write_back_read w r = bnd (gets m_position) (\<lambda>p. thn w (thn (setPosition p) r))"

definition writable :: "nat \<Rightarrow> bytearray \<Rightarrow> bool" where
  "writable k ba \<longleftrightarrow> ba_inv ba \<and> m_position ba + k < m_capacity ba"

text \<open>\<open>puts w bs ba\<close>: \<open>w\<close> overwrites the content from the position on with \<open>bs\<close>.\<close>

definition puts :: "(bytearray, unit) op \<Rightarrow> byte list \<Rightarrow> bytearray \<Rightarrow> bool" where
  "puts w bs ba \<longleftrightarrow> (\<exists>ba'. w ba = (Inr (), ba') \<and> ba_inv ba'
     \<and> content ba' = overwrite (content ba) (m_position ba) bs
     \<and> m_position ba' = m_position ba + length bs \<and> isLittleEndian ba' = isLittleEndian ba
     \<and> m_capacity ba \<le> m_capacity ba')"

lemma puts_write: "writable 0 ba \<Longrightarrow> length bs < 2 ^ 31 \<Longrightarrow> puts (ba_write bs) bs ba"
  using ba_write_spec [of ba bs] by (auto simp: writable_def puts_def isLittleEndian_def)

lemma write_back_read_ok:
  assumes inv: "ba_inv ba" and w: "puts w bs ba"
    and r: "\<And>b rem. ba_inv b \<Longrightarrow> isLittleEndian b = isLittleEndian ba \<Longrightarrow> unread b = bs @ rem \<Longrightarrow> reads r b x rem"
  shows "\<exists>ba'. write_back_read w r ba = (Inr x, ba') \<and> ba_inv ba'
    \<and> unread ba' = drop (m_position ba + length bs) (content ba)"
proof -
  let ?p = "m_position ba"
  obtain b1 where b1: "w ba = (Inr (), b1)" "ba_inv b1" "content b1 = overwrite (content ba) ?p bs"
    "m_position b1 = ?p + length bs" "isLittleEndian b1 = isLittleEndian ba"
    using w by (auto simp: puts_def)
  have "?p \<le> m_size b1" using b1 ba_invD(5) [OF b1(2)] by simp
  from setPosition_spec [OF b1(2) this] obtain b2 where b2: "setPosition ?p b1 = (Inr (), b2)" "ba_inv b2"
    "content b2 = content b1" "m_position b2 = ?p" "m_endian b2 = m_endian b1"
    by auto
  let ?rem = "drop (?p + length bs) (content ba)"
  have "?p \<le> length (content ba)" using inv ba_invD(5) [OF inv] by (simp add: length_content)
  then have u: "unread b2 = bs @ ?rem"
    using b2 b1 by (simp add: unread_def overwrite_def)
  have "isLittleEndian b2 = isLittleEndian ba" using b1 b2 by (simp add: isLittleEndian_def)
  from r [OF b2(2) this u] obtain b3 where b3: "r b2 = (Inr x, b3)" "ba_inv b3" "unread b3 = ?rem"
    by (auto simp: delivers_def)
  show ?thesis
    using b1(1) b2(1) b3 by (simp add: write_back_read_def bnd_run thn_run)
qed

lemma puts_thn:
  assumes room: "writable (length bs) ba" and w: "puts w bs ba"
    and w': "\<And>b. writable 0 b \<Longrightarrow> isLittleEndian b = isLittleEndian ba \<Longrightarrow> puts w' bs' b"
  shows "puts (thn w w') (bs @ bs') ba"
proof -
  obtain b where b: "w ba = (Inr (), b)" "ba_inv b" "content b = overwrite (content ba) (m_position ba) bs"
    "m_position b = m_position ba + length bs" "isLittleEndian b = isLittleEndian ba" "m_capacity ba \<le> m_capacity b"
    using w by (auto simp: puts_def)
  then have "writable 0 b" using room by (simp add: writable_def)
  moreover have "m_position ba \<le> length (content ba)"
    using room ba_invD(5) [of ba] by (simp add: writable_def length_content)
  ultimately show ?thesis
    using w' [of b] b by (auto simp: puts_def thn_run overwrite_overwrite)
qed

lemma writable_0: "writable k ba \<Longrightarrow> writable 0 ba"
  by (simp add: writable_def)

text \<open>The bytes each writer leaves, for a stream in the host's order (\<open>same\<close>) or in the other.\<close>

definition wire16 :: "bool \<Rightarrow> u16 \<Rightarrow> byte list" where
  "wire16 same v = le_bytes 2 (if same then v else bswap16 v)"

definition wire32 :: "bool \<Rightarrow> u32 \<Rightarrow> byte list" where
  "wire32 same v = le_bytes 4 (if same then v else bswap32 v)"

definition wire64 :: "bool \<Rightarrow> u64 \<Rightarrow> byte list" where
  "wire64 same v = le_bytes 8 (if same then v else bswap64 v)"

lemma length_wire [simp]:
  "length (wire16 same v16) = 2" "length (wire32 same v32) = 4" "length (wire64 same v64) = 8"
  by (simp_all add: wire16_def wire32_def wire64_def)

lemma writes_wire [op_simps]:
  "writeFuint8 v8 ba = ba_write [v8] ba" "writeFint8 v8 ba = ba_write [v8] ba"
  "writeFuint16 v16 ba = ba_write (wire16 (isLittleEndian ba) v16) ba"
  "writeFint16 v16 ba = ba_write (wire16 (isLittleEndian ba) v16) ba"
  "writeFuint32 v32 ba = ba_write (wire32 (isLittleEndian ba) v32) ba"
  "writeFint32 v32 ba = ba_write (wire32 (isLittleEndian ba) v32) ba"
  "writeFuint64 v64 ba = ba_write (wire64 (isLittleEndian ba) v64) ba"
  "writeFint64 v64 ba = ba_write (wire64 (isLittleEndian ba) v64) ba"
  by (simp_all add: writeFuint8_def writeFint8_def writeFuint16_def writeFint16_def writeFuint32_def
      writeFint32_def writeFuint64_def writeFint64_def bnd_run wire16_def wire32_def wire64_def
      in_stream_order_def isLittleEndian_def)

lemma puts_as_write:
  "writable 0 ba \<Longrightarrow> w ba = ba_write bs ba \<Longrightarrow> length bs < 2 ^ 31 \<Longrightarrow> puts w bs ba"
  using puts_write [of ba bs] by (simp add: puts_def)

lemma length_varint32: "length (varint32 v) \<le> 5"
  using length_leb128 [of "unat v" 4] unsigned_less [of v, where 'a = nat] by (simp add: varint32_leb128)

lemma length_varint64: "length (varint64 v) \<le> 10"
  using length_leb128 [of "unat v" 9] unsigned_less [of v, where 'a = nat] by (simp add: varint64_leb128)

lemma reads_fixed:
  assumes "ba_inv b"
  shows "unread b = wire16 (isLittleEndian b) v16 @ rem \<Longrightarrow> reads readFuint16 b v16 rem"
    and "unread b = wire32 (isLittleEndian b) v32 @ rem \<Longrightarrow> reads readFuint32 b v32 rem"
    and "unread b = wire64 (isLittleEndian b) v64 @ rem \<Longrightarrow> reads readFuint64 b v64 rem"
    and "unread b = v8 # rem \<Longrightarrow> reads readFuint8 b v8 rem"
    and "unread b = varint32 v32 @ rem \<Longrightarrow> reads readUint32 b v32 rem"
    and "unread b = varint64 v64 @ rem \<Longrightarrow> reads readUint64 b v64 rem"
  using assms src.gives_u16 [of b v16 rem] src.gives_u32 [of b v32 rem] src.gives_u64 [of b v64 rem]
    src.gives_u8 [of b v8 rem] src.gives_uint32 [of b v32 rem] src.gives_uint64 [of b v64 rem]
  by (simp_all add: readFuint16_def readFuint32_def readFuint64_def readFuint8_def readUint32_def
      readUint64_def wire16_def wire32_def wire64_def)

lemma reads_zigzag:
  assumes "ba_inv b"
  shows "unread b = varint32 (EncodingZigzag32 v32) @ rem \<Longrightarrow> reads readInt32 b v32 rem"
    and "unread b = varint64 (EncodeZigzag64 v64) @ rem \<Longrightarrow> reads readInt64 b v64 rem"
  unfolding readInt32_def readInt64_def
  by (rule src.gives_bnd [OF reads_fixed(5) [OF assms]], assumption,
      simp add: src.gives_ret zigzag32_roundtrip)
    (rule src.gives_bnd [OF reads_fixed(6) [OF assms]], assumption,
      simp add: src.gives_ret zigzag64_roundtrip)

lemma reads_string:
  assumes "ba_inv b" "unread b = value @ rem" "value \<noteq> []" "length value < 2 ^ 31"
  shows "reads (read_string (length value)) b value rem"
  using assms src.gives_rd [of b "value" rem "length value"]
  by (simp add: read_string_def string_max_size_def delivers_def)

text \<open>Length prefix and bytes, for any encoding of the length that its reader inverts.\<close>

lemma string_written:
  assumes "writable (length hdr) ba" "\<And>b. isLittleEndian b = isLittleEndian ba \<Longrightarrow> w b = ba_write hdr b"
    and "length hdr < 2 ^ 31" "length value < 2 ^ 31"
  shows "puts (thn w (ba_write value)) (hdr @ value) ba"
  using assms by (intro puts_thn puts_as_write) (auto intro: writable_0)

lemma string_read_back:
  assumes "ba_inv ba" "puts w (hdr @ value) ba" "value \<noteq> []" "length value < 2 ^ 31"
    and len: "\<And>b rem. ba_inv b \<Longrightarrow> isLittleEndian b = isLittleEndian ba \<Longrightarrow> unread b = hdr @ rem \<Longrightarrow> reads r b (n :: 'w::len word) rem"
    and n: "unat n = length value"
  shows "\<exists>ba'. write_back_read w (bnd r (\<lambda>len. read_string (unat len))) ba = (Inr value, ba')"
proof -
  have "reads (bnd r (\<lambda>len. read_string (unat len))) b value rem"
    if "ba_inv b" "isLittleEndian b = isLittleEndian ba" "unread b = (hdr @ value) @ rem" for b rem
    by (rule src.gives_bnd [OF len]) (use that assms reads_string in \<open>auto simp: n\<close>)
  from write_back_read_ok [OF assms(1,2) this] show ?thesis by auto
qed

end
