(* ===== verification/ByteArray_Buffers.thy ===== *)
theory ByteArray_Buffers
  imports ByteArray_Ops
begin

text \<open>
  The operations of \<open>ByteArray\<close> that expose its blocks: the reads that leave the position alone
  (\<open>read(buf, size, position)\<close>, \<open>toString\<close>, \<open>toHexString\<close>), the scatter/gather vectors
  (\<open>getReadBuffers\<close>, \<open>getWriteBuffers\<close>) and the file operations. An \<open>iovec\<close> is a block index, an
  offset into the block and a length.
\<close>

section \<open>Reading without moving\<close>

text \<open>The last piece is copied from the block of \<open>m_cur\<close>, not from \<open>cur\<close>, as in the source.\<close>

function read_at_loop :: "nat \<Rightarrow> nat \<Rightarrow> nat \<Rightarrow> nat \<Rightarrow> nat \<Rightarrow> bytearray \<Rightarrow> fault + byte list" where
  "read_at_loop sz npos ncap cur m ba =
     (if sz = 0 then Inr []
      else if sz \<le> ncap then Inr (take sz (drop npos (m_nodes ba ! m)))
      else case next_node ba cur of
          None \<Rightarrow> Inl Null_Deref
        | Some c' \<Rightarrow>
            (case read_at_loop (sz - ncap) 0 (node_size ba c') c' m ba of
               Inl e \<Rightarrow> Inl e
             | Inr bs \<Rightarrow> Inr (take ncap (drop npos (m_nodes ba ! cur)) @ bs)))"
  by pat_completeness auto
termination
  by (relation "measure (\<lambda>(sz, npos, ncap, cur, m, ba). length (m_nodes ba) - cur)")
    (auto simp: next_node_def split: if_splits)

declare read_at_loop.simps [simp del]

definition read_at :: "nat \<Rightarrow> nat \<Rightarrow> bytearray \<Rightarrow> fault + byte list" where
  "read_at sz position ba =
     (let sz' = (if sz > size_sub (m_size ba) position then size_sub (m_size ba) position else sz) in
      if m_basesize ba = 0 then Inl Div_Zero
      else case m_cur ba of
          None \<Rightarrow> Inl Null_Deref
        | Some m \<Rightarrow>
            let npos = position mod m_basesize ba
            in read_at_loop sz' npos (size_sub (node_size ba m) npos) m m ba)"

text \<open>The string is filled with zeros before the read overwrites its front.\<close>

definition toString :: "bytearray \<Rightarrow> fault + byte list" where
  "toString ba =
     (let n = getReadSize ba in
      if n > string_max_size then Inl Logic_Error
      else if n = 0 then Inr []
      else case read_at n (m_position ba) ba of
          Inl e \<Rightarrow> Inl e
        | Inr bs \<Rightarrow> Inr (overwrite (replicate n 0) 0 bs))"

definition hex_digit :: "nat \<Rightarrow> char" where
  "hex_digit d = ''0123456789abcdef'' ! d"

definition hex_byte :: "byte \<Rightarrow> string" where
  "hex_byte b = [hex_digit (unat b div 16), hex_digit (unat b mod 16), CHR '' '']"

definition hex_dump :: "byte list \<Rightarrow> string" where
  "hex_dump str = concat (map (\<lambda>i.
     (if i > 0 \<and> i mod 32 = 0 then [CHR 0x0A] else []) @ hex_byte (str ! i)) [0 ..< length str])"

definition toHexString :: "bytearray \<Rightarrow> fault + string" where
  "toHexString ba = (case toString ba of Inl e \<Rightarrow> Inl e | Inr str \<Rightarrow> Inr (hex_dump str))"

section \<open>Scatter and gather vectors\<close>

type_synonym iovec = "nat \<times> nat \<times> nat"

function iov_loop :: "nat \<Rightarrow> nat \<Rightarrow> nat \<Rightarrow> nat \<Rightarrow> bytearray \<Rightarrow> fault + iovec list" where
  "iov_loop n npos ncap cur ba =
     (if n = 0 then Inr []
      else if n \<le> ncap then Inr [(cur, npos, n)]
      else case next_node ba cur of
          None \<Rightarrow> Inl Null_Deref
        | Some c' \<Rightarrow>
            (case iov_loop (n - ncap) 0 (node_size ba c') c' ba of
               Inl e \<Rightarrow> Inl e
             | Inr iovs \<Rightarrow> Inr ((cur, npos, ncap) # iovs)))"
  by pat_completeness auto
termination
  by (relation "measure (\<lambda>(n, npos, ncap, cur, ba). length (m_nodes ba) - cur)")
    (auto simp: next_node_def split: if_splits)

declare iov_loop.simps [simp del]

definition iov_from :: "nat \<Rightarrow> nat \<Rightarrow> nat option \<Rightarrow> bytearray \<Rightarrow> fault + nat \<times> iovec list" where
  "iov_from n position start ba =
     (if m_basesize ba = 0 then Inl Div_Zero
      else case start of
          None \<Rightarrow> Inl Null_Deref
        | Some c \<Rightarrow>
            let npos = position mod m_basesize ba in
            (case iov_loop n npos (size_sub (node_size ba c) npos) c ba of
               Inl e \<Rightarrow> Inl e
             | Inr iovs \<Rightarrow> Inr (n, iovs)))"

definition getReadBuffers :: "nat \<Rightarrow> bytearray \<Rightarrow> fault + nat \<times> iovec list" where
  "getReadBuffers len ba =
     (let n = (if len > getReadSize ba then getReadSize ba else len)
      in if n = 0 then Inr (0, []) else iov_from n (m_position ba) (m_cur ba) ba)"

text \<open>\<open>while(count > 0) cur = cur->next\<close> from the root.\<close>

fun walk_from :: "nat \<Rightarrow> nat option \<Rightarrow> bytearray \<Rightarrow> fault + nat option" where
  "walk_from 0 cur ba = Inr cur"
| "walk_from (Suc k) None ba = Inl Null_Deref"
| "walk_from (Suc k) (Some c) ba = walk_from k (next_node ba c) ba"

definition getReadBuffers_at :: "nat \<Rightarrow> nat \<Rightarrow> bytearray \<Rightarrow> fault + nat \<times> iovec list" where
  "getReadBuffers_at len position ba =
     (let n = (if len > getReadSize ba then getReadSize ba else len)
      in if n = 0 then Inr (0, [])
         else if m_basesize ba = 0 then Inl Div_Zero
         else case walk_from (position div m_basesize ba) (Some 0) ba of
             Inl e \<Rightarrow> Inl e
           | Inr cur \<Rightarrow> iov_from n position cur ba)"

definition getWriteBuffers :: "nat \<Rightarrow> (bytearray, nat \<times> iovec list) op" where
  "getWriteBuffers len =
     (if len = 0 then ret (0, [])
      else thn (addCapacity len) (\<lambda>ba. (iov_from len (m_position ba) (m_cur ba) ba, ba)))"

section \<open>Files\<close>

text \<open>
  The file is the sequence of bytes written to it. \<open>ofs.write\<close> with a negative count is outside
  the precondition of the library; the result of the last component is the file so far.
\<close>

function write_file_loop :: "int \<Rightarrow> int \<Rightarrow> nat option \<Rightarrow> bytearray \<Rightarrow> (fault + unit) \<times> byte list" where
  "write_file_loop read_size pos cur ba =
     (if read_size \<le> 0 then (Inr (), [])
      else if m_basesize ba = 0 then (Inl Div_Zero, [])
      else case cur of
          None \<Rightarrow> (Inl Null_Deref, [])
        | Some c \<Rightarrow>
            let diff = pos mod int (m_basesize ba);
                len = (if read_size > int (m_basesize ba) then int (m_basesize ba) else read_size) - diff
            in if len < 0 then (Inl Invalid_Argument, [])
               else let (r, out) = write_file_loop (read_size - len) (pos + len) (next_node ba c) ba
                    in (r, take (nat len) (drop (nat diff) (m_nodes ba ! c)) @ out))"
  by pat_completeness auto
termination
  by (relation "measure (\<lambda>(read_size, pos, cur, ba).
        case cur of None \<Rightarrow> 0 | Some c \<Rightarrow> Suc (length (m_nodes ba) - c))")
    (auto simp: next_node_def)

declare write_file_loop.simps [simp del]

definition writeToFile :: "bool \<Rightarrow> bytearray \<Rightarrow> (fault + bool) \<times> byte list" where
  "writeToFile opened ba =
     (if \<not> opened then (Inr False, [])
      else case write_file_loop (int (getReadSize ba)) (int (m_position ba)) (m_cur ba) ba of
          (Inl e, out) \<Rightarrow> (Inl e, out)
        | (Inr _, out) \<Rightarrow> (Inr True, out))"

text \<open>
  \<open>while(!ifs.eof())\<close>: the end of the file is noticed by the first read that comes up short. With
  a base size of 0 no read ever does, and the loop does not end; \<open>Out_Of_Fuel\<close> stands for that.
\<close>

function read_file_loop :: "byte list \<Rightarrow> nat \<Rightarrow> (bytearray, unit) op" where
  "read_file_loop file bs =
     (if bs = 0 then raise Out_Of_Fuel
      else if length file < bs then ba_write file
      else thn (ba_write (take bs file)) (read_file_loop (drop bs file) bs))"
  by pat_completeness auto
termination
  by (relation "measure (\<lambda>(file, bs). length file)") auto

declare read_file_loop.simps [simp del]

definition readFromFile :: "byte list option \<Rightarrow> (bytearray, bool) op" where
  "readFromFile file ba =
     (case file of
        None \<Rightarrow> (Inr False, ba)
      | Some bytes \<Rightarrow> thn (read_file_loop bytes (m_basesize ba)) (ret True) ba)"

section \<open>What the vectors describe\<close>

text \<open>The buffer addresses a vector names, and the bytes found there.\<close>

definition iov_addrs :: "nat \<Rightarrow> iovec list \<Rightarrow> nat list" where
  "iov_addrs bs iovs = concat (map (\<lambda>(c, off, l). [c * bs + off ..< c * bs + off + l]) iovs)"

definition iov_bytes :: "bytearray \<Rightarrow> iovec list \<Rightarrow> byte list" where
  "iov_bytes ba iovs = concat (map (\<lambda>(c, off, l). take l (drop off (m_nodes ba ! c))) iovs)"

definition iov_valid :: "bytearray \<Rightarrow> iovec list \<Rightarrow> bool" where
  "iov_valid ba iovs \<longleftrightarrow>
     (\<forall>(c, off, l) \<in> set iovs. c < length (m_nodes ba) \<and> 0 < l \<and> off + l \<le> node_size ba c)"

lemmas iov_defs = iov_addrs_def iov_bytes_def iov_valid_def

text \<open>Following \<open>next\<close> from the block before the end of a range that reaches beyond it.\<close>

lemma next_block:
  assumes "c * bs + npos + n \<le> bs * k" "bs - npos < n" "npos < (bs::nat)"
  shows "Suc c < k"
proof -
  have "Suc c * bs < k * bs" using assms by (simp add: mult.commute [of k])
  then show ?thesis by (simp only: mult_less_cancel2)
qed

lemma node_size_uniform: "uniform bs (m_nodes ba) \<Longrightarrow> c < length (m_nodes ba) \<Longrightarrow> node_size ba c = bs"
  by (simp add: node_size_def uniform_nth)

lemma split_range: "k \<le> n \<Longrightarrow> take n (drop p xs) = take k (drop p xs) @ take (n - k) (drop (p + k) xs)"
  by (metis drop_drop add.commute le_add_diff_inverse take_add)

lemma iov_loop_spec:
  assumes "uniform bs (m_nodes ba)" "c < length (m_nodes ba)" "npos < bs"
    and "c * bs + npos + n \<le> bs * length (m_nodes ba)"
  shows "\<exists>iovs. iov_loop n npos (bs - npos) c ba = Inr iovs
    \<and> iov_addrs bs iovs = [c * bs + npos ..< c * bs + npos + n]
    \<and> iov_bytes ba iovs = take n (drop (c * bs + npos) (concat (m_nodes ba)))
    \<and> iov_valid ba iovs"
  using assms
proof (induction n arbitrary: c npos rule: less_induct)
  case (less n)
  note p = less.prems
  consider "n = 0" | "0 < n" "n \<le> bs - npos" | "bs - npos < n" by linarith
  then show ?case
  proof cases
    case 1
    then show ?thesis by (simp add: iov_loop.simps iov_defs)
  next
    case 2
    then show ?thesis
      using p concat_read [OF p(1,2), of npos n]
      by (simp add: iov_loop.simps [of n] iov_defs node_size_uniform)
  next
    case 3
    let ?k = "bs - npos"
    have c': "Suc c < length (m_nodes ba)" using next_block p(4) 3 p(3) by blast
    have n: "c * bs + npos + ?k = Suc c * bs + 0" "n - ?k < n" using p(3) 3 by auto
    obtain iovs where IH: "iov_loop (n - ?k) 0 bs (Suc c) ba = Inr iovs"
      "iov_addrs bs iovs = [Suc c * bs ..< Suc c * bs + (n - ?k)]"
      "iov_bytes ba iovs = take (n - ?k) (drop (Suc c * bs) (concat (m_nodes ba)))" "iov_valid ba iovs"
      using less.IH [OF n(2) p(1) c', of 0] p(3,4) 3 n(1) by auto
    have run: "iov_loop n npos ?k c ba = Inr ((c, npos, ?k) # iovs)"
      using 3 c' IH(1) by (subst iov_loop.simps) (simp add: next_node_def node_size_uniform [OF p(1)])
    have "iov_addrs bs ((c, npos, ?k) # iovs)
        = [c * bs + npos ..< Suc c * bs] @ [Suc c * bs ..< Suc c * bs + (n - ?k)]"
      using IH(2) n(1) by (simp add: iov_addrs_def add.commute)
    also have "\<dots> = [c * bs + npos ..< c * bs + npos + n]"
      using 3 n(1) p(3) upt_add_eq_append [of "c * bs + npos" "Suc c * bs" "n - ?k"] by (simp add: ac_simps)
    finally have "iov_addrs bs ((c, npos, ?k) # iovs) = [c * bs + npos ..< c * bs + npos + n]" .
    moreover have "iov_bytes ba ((c, npos, ?k) # iovs) = take n (drop (c * bs + npos) (concat (m_nodes ba)))"
      using IH(3) concat_read [OF p(1,2), of npos ?k] p(3) 3
        split_range [of ?k n "c * bs + npos" "concat (m_nodes ba)"] n(1)
      by (simp add: iov_bytes_def)
    moreover have "iov_valid ba ((c, npos, ?k) # iovs)"
      using IH(4) p by (simp add: iov_valid_def node_size_uniform)
    ultimately show ?thesis using run by blast
  qed
qed

lemma iov_from_spec:
  assumes inv: "ba_inv ba" and n: "0 < n" "p + n \<le> m_capacity ba"
    and cur: "start = cursor (m_basesize ba) (length (m_nodes ba)) p"
  shows "\<exists>iovs. iov_from n p start ba = Inr (n, iovs)
    \<and> iov_addrs (m_basesize ba) iovs = [p ..< p + n]
    \<and> iov_bytes ba iovs = take n (drop p (concat (m_nodes ba)))
    \<and> iov_valid ba iovs"
proof -
  note d = ba_invD [OF inv]
  let ?bs = "m_basesize ba"
  have start: "start = Some (p div ?bs)" using cursor_Some d n cur by simp
  then have c: "p div ?bs < length (m_nodes ba)" using cur by (simp add: cursor_def split: if_splits)
  have "p div ?bs * ?bs + p mod ?bs + n \<le> ?bs * length (m_nodes ba)" using n d(4) by simp
  from iov_loop_spec [OF d(2) c _ this] obtain iovs where
    "iov_loop n (p mod ?bs) (?bs - p mod ?bs) (p div ?bs) ba = Inr iovs"
    "iov_addrs ?bs iovs = [p ..< p + n]" "iov_bytes ba iovs = take n (drop p (concat (m_nodes ba)))"
    "iov_valid ba iovs"
    using d(1) by auto
  then show ?thesis
    using start d(1) c by (simp add: iov_from_def node_size_uniform [OF d(2)])
qed

lemma getReadBuffers_spec:
  assumes inv: "ba_inv ba"
  shows "\<exists>iovs. getReadBuffers len ba = Inr (length (iov_bytes ba iovs), iovs)
    \<and> iov_bytes ba iovs = take len (unread ba) \<and> iov_valid ba iovs"
proof -
  let ?n = "min len (length (unread ba))"
  have n: "(if len > getReadSize ba then getReadSize ba else len) = ?n"
    by (simp add: getReadSize_unread [OF inv])
  show ?thesis
  proof (cases "?n = 0")
    case True
    then have "take len (unread ba) = []" by (cases "len = 0") (auto simp: min_def split: if_splits)
    with True show ?thesis
      unfolding getReadBuffers_def n by (intro exI [of _ "[]"]) (simp add: iov_defs)
  next
    case False
    have pos: "m_position ba + ?n \<le> m_size ba" using length_unread [OF inv] False by (auto simp: min_def)
    then have cap: "m_position ba + ?n \<le> m_capacity ba" using ba_invD(6) [OF inv] by simp
    obtain iovs where "iov_from ?n (m_position ba) (m_cur ba) ba = Inr (?n, iovs)"
      "iov_bytes ba iovs = take ?n (drop (m_position ba) (concat (m_nodes ba)))" "iov_valid ba iovs"
      using iov_from_spec [OF inv _ cap ba_invD(7) [OF inv]] False by auto
    moreover have "take ?n (drop (m_position ba) (concat (m_nodes ba))) = take len (unread ba)"
      using pos by (simp add: unread_def content_def drop_take min_def)
    ultimately show ?thesis
      unfolding getReadBuffers_def n Let_def if_not_P [OF False]
      by (intro exI [of _ iovs]) (simp add: min.commute)
  qed
qed

lemma walk_from_spec:
  assumes "ba_inv ba" "c + k < length (m_nodes ba)"
  shows "walk_from k (Some c) ba = Inr (Some (c + k))"
  using assms(2) by (induction k arbitrary: c) (simp_all add: next_node_def)

lemma walk_from_end:
  assumes "ba_inv ba" "c + Suc k = length (m_nodes ba)"
  shows "walk_from (Suc k) (Some c) ba = Inr None"
  using assms(2) by (induction k arbitrary: c) (simp_all add: next_node_def)

text \<open>The length is only cut to the size left after \<open>m_position\<close>, hence the hypothesis.\<close>

lemma getReadBuffers_at_spec:
  assumes inv: "ba_inv ba" and n: "len \<le> getReadSize ba" "position + len \<le> m_size ba"
  shows "\<exists>iovs. getReadBuffers_at len position ba = Inr (len, iovs)
    \<and> iov_bytes ba iovs = take len (drop position (content ba)) \<and> iov_valid ba iovs"
proof (cases "len = 0")
  case True
  then show ?thesis by (simp add: getReadBuffers_at_def iov_defs)
next
  case False
  note d = ba_invD [OF inv]
  let ?bs = "m_basesize ba"
  have cap: "position + len \<le> m_capacity ba" using n d by simp
  then have cur: "cursor ?bs (length (m_nodes ba)) position = Some (position div ?bs)"
    using d False by (simp add: cursor_Some)
  then have "position div ?bs < length (m_nodes ba)" by (simp add: cursor_def split: if_splits)
  with walk_from_spec [OF inv, of 0] have "walk_from (position div ?bs) (Some 0) ba = Inr (Some (position div ?bs))"
    by simp
  moreover obtain iovs where "iov_from len position (Some (position div ?bs)) ba = Inr (len, iovs)"
    "iov_bytes ba iovs = take len (drop position (concat (m_nodes ba)))" "iov_valid ba iovs"
    using iov_from_spec [OF inv _ cap cur [symmetric]] False by auto
  moreover have "take len (drop position (concat (m_nodes ba))) = take len (drop position (content ba))"
    using n(2) by (simp add: content_def drop_take min_def)
  ultimately show ?thesis using False n(1) d(1) by (simp add: getReadBuffers_at_def)
qed

lemma getWriteBuffers_spec:
  assumes inv: "ba_inv ba" and pos: "m_position ba < m_capacity ba" and len: "0 < len" "len < 2 ^ 31"
  shows "\<exists>ba' iovs. getWriteBuffers len ba = (Inr (len, iovs), ba') \<and> ba_inv ba' \<and> content ba' = content ba
    \<and> m_position ba' = m_position ba
    \<and> iov_addrs (m_basesize ba') iovs = [m_position ba ..< m_position ba + len] \<and> iov_valid ba' iovs"
proof -
  obtain k where k: "addCapacity len ba = (Inr (), grow k ba)" "m_position ba + len \<le> m_capacity ba + k * m_basesize ba"
    using addCapacity_spec [OF inv pos len(2)] by auto
  have inv': "ba_inv (grow k ba)" using inv pos by (rule ba_inv_grow)
  from iov_from_spec [OF inv' len(1) _ ba_invD(7) [OF inv']] k(2) obtain iovs where
    "iov_from len (m_position ba) (m_cur ba) (grow k ba) = Inr (len, iovs)"
    "iov_addrs (m_basesize ba) iovs = [m_position ba ..< m_position ba + len]" "iov_valid (grow k ba) iovs"
    by auto
  then show ?thesis
    using k(1) inv' len content_grow [OF inv, of k]
    by (intro exI [of _ "grow k ba"] exI [of _ iovs]) (simp add: getWriteBuffers_def thn_run)
qed

section \<open>toString\<close>

text \<open>Right within one block; beyond it the tail comes from the block of \<open>m_cur\<close>.\<close>

lemma last_piece_le:
  assumes "npos < bs" "bs < npos + (n::nat)"
  shows "Suc ((npos + n - 1) mod bs) \<le> n"
proof -
  have "(npos + n - 1) mod bs = (npos + n - 1 - bs) mod bs" using assms by (intro le_mod_geq) simp
  also have "\<dots> \<le> npos + n - 1 - bs" by (rule mod_less_eq_dividend)
  finally show ?thesis using assms by simp
qed

lemma last_piece_whole: "0 < m \<Longrightarrow> m \<le> bs \<Longrightarrow> Suc ((m - 1) mod bs) = (m::nat)"
  by simp

lemma read_at_loop_spec:
  assumes "uniform bs (m_nodes ba)" "c < length (m_nodes ba)" "npos < bs" "0 < n"
    and "c * bs + npos + n \<le> bs * length (m_nodes ba)"
  defines "k \<equiv> (if npos + n \<le> bs then n else Suc ((npos + n - 1) mod bs))"
  shows "read_at_loop n npos (bs - npos) c m ba =
    Inr (take (n - k) (drop (c * bs + npos) (concat (m_nodes ba)))
         @ take k (drop (if npos + n \<le> bs then npos else 0) (m_nodes ba ! m)))"
  using assms(1-5) unfolding k_def
proof (induction n arbitrary: c npos rule: less_induct)
  case (less n)
  note p = less.prems
  show ?case
  proof (cases "npos + n \<le> bs")
    case True
    then have "n \<le> bs - npos" by simp
    with True show ?thesis using p by (simp add: read_at_loop.simps [of n])
  next
    case False
    let ?k = "bs - npos"
    let ?l = "Suc ((npos + n - 1) mod bs)"
    have c': "Suc c < length (m_nodes ba)" using next_block p(5,3) False by fastforce
    have n: "c * bs + npos + ?k = Suc c * bs + 0" "n - ?k < n" "0 < n - ?k" using p(3) False by auto
    then have not_in: "\<not> n \<le> ?k" by simp
    have last: "(if 0 + (n - ?k) \<le> bs then n - ?k else Suc ((0 + (n - ?k) - 1) mod bs)) = ?l"
    proof -
      have "npos + n - 1 = (n - ?k - 1) + bs" using False p(3) by simp
      then have "(npos + n - 1) mod bs = (n - ?k - 1) mod bs" by simp
      then show ?thesis using n(3) last_piece_whole [OF n(3)] by (auto simp del: diff_diff_left)
    qed
    have ll: "?l \<le> n - ?k"
      unfolding last [symmetric] using last_piece_le [of 0 bs "n - ?k"] p(3) by simp
    have IH: "read_at_loop (n - ?k) 0 bs (Suc c) m ba =
      Inr (take (n - ?k - ?l) (drop (Suc c * bs) (concat (m_nodes ba))) @ take ?l (m_nodes ba ! m))"
      using less.IH [OF n(2) p(1) c' _ n(3), of 0] p(3,5) False n(1) unfolding last by auto
    have "read_at_loop n npos ?k c m ba =
      Inr (take ?k (drop npos (m_nodes ba ! c)) @ take (n - ?k - ?l) (drop (Suc c * bs) (concat (m_nodes ba)))
           @ take ?l (m_nodes ba ! m))"
      using not_in c' p(4) IH by (subst read_at_loop.simps) (simp add: next_node_def node_size_uniform [OF p(1)])
    moreover have "take (n - ?l) (drop (c * bs + npos) (concat (m_nodes ba)))
        = take ?k (drop npos (m_nodes ba ! c)) @ take (n - ?k - ?l) (drop (Suc c * bs) (concat (m_nodes ba)))"
      using concat_read [OF p(1,2), of npos ?k] p(3) ll n False
        split_range [of ?k "n - ?l" "c * bs + npos" "concat (m_nodes ba)"]
      by (simp add: ac_simps)
    ultimately show ?thesis using False by simp
  qed
qed

lemma toString_run:
  assumes "getReadSize ba = length bs" "bs \<noteq> []" "length bs \<le> string_max_size"
    and "read_at (length bs) (m_position ba) ba = Inr bs"
  shows "toString ba = Inr bs"
  using assms by (simp add: toString_def overwrite_def)

text \<open>The whole of \<open>toString\<close>, whatever the layout.\<close>

lemma toString_spec:
  assumes inv: "ba_inv ba" and some: "unread ba \<noteq> []" and small: "m_size ba \<le> string_max_size"
  defines "n \<equiv> length (unread ba)"
    and "npos \<equiv> m_position ba mod m_basesize ba" and "c \<equiv> m_position ba div m_basesize ba"
    and "k \<equiv> Suc ((m_position ba mod m_basesize ba + length (unread ba) - 1) mod m_basesize ba)"
  shows "toString ba = Inr (if npos + n \<le> m_basesize ba then unread ba
      else take (n - k) (unread ba) @ take k (m_nodes ba ! c))" (is "_ = Inr ?res")
proof -
  note d = ba_invD [OF inv]
  let ?bs = "m_basesize ba"
  have n: "0 < n" "n = m_size ba - m_position ba" "m_position ba + n = m_size ba"
    using some length_unread [OF inv] by (cases "m_position ba < m_size ba"; simp add: n_def)+
  then have pos: "m_position ba < m_capacity ba" using d by simp
  obtain c' where c': "m_cur ba = Some c'" "c' = c" "c < length (m_nodes ba)" "node_size ba c = ?bs"
    "m_position ba = c * ?bs + npos"
    using ba_inv_cur [OF inv pos] unfolding c_def npos_def by metis
  have npos: "npos < ?bs" using d(1) by (simp add: npos_def)
  have end_le: "c * ?bs + npos + n \<le> ?bs * length (m_nodes ba)" using c'(5) n d(4,6) by simp
  have cut: "take m (drop (m_position ba) (concat (m_nodes ba))) = take m (unread ba)" if "m \<le> n" for m
    using that n by (simp add: unread_def content_def drop_take min_def)
  have k: "k = Suc ((npos + n - 1) mod ?bs)" by (simp add: k_def n_def npos_def)
  have "read_at_loop n npos (?bs - npos) c c ba = Inr ?res"
  proof (cases "npos + n \<le> ?bs")
    case True
    then show ?thesis
      using read_at_loop_spec [OF d(2) c'(3) npos n(1) end_le, of c]
        concat_read [OF d(2) c'(3) True] c'(5) cut [of n] by (simp add: n_def)
  next
    case False
    then show ?thesis
      using read_at_loop_spec [OF d(2) c'(3) npos n(1) end_le, of c] c'(5) cut [of "n - k"] by (simp add: k)
  qed
  then have "read_at n (m_position ba) ba = Inr ?res"
    using n d(1,5) c'(1,2,4,5) npos by (simp add: read_at_def npos_def [symmetric])
  moreover have "k \<le> n" "k \<le> ?bs" if "\<not> npos + n \<le> ?bs"
    unfolding k using that last_piece_le [OF npos, of n] d(1) by (simp_all add: Suc_leI)
  then have len: "length ?res = n"
    using uniform_nth [OF d(2) c'(3)] by (auto simp: n_def)
  moreover have "getReadSize ba = n" using n d(5) by (simp add: getReadSize_def)
  moreover have "n \<le> string_max_size" using n small by simp
  moreover have "?res \<noteq> []" using len n(1) by (metis length_greater_0_conv)
  ultimately show ?thesis by (intro toString_run) (simp_all only: not_False_eq_True)
qed

section \<open>writeToFile\<close>

text \<open>One round of the loop when the first block is left in full or not entered half way.\<close>

lemma write_file_loop_0: "write_file_loop 0 pos cur ba = (Inr (), [])"
  by (simp add: write_file_loop.simps)

lemma write_file_step:
  assumes "0 < n" "0 < bs" "m_basesize ba = bs" "l \<le> n"
    and "(if int n > int bs then int bs else int n) - int p mod int bs = int l"
    and "write_file_loop (int (n - l)) (int (p + l)) (next_node ba c) ba = (r, out)"
  shows "write_file_loop (int n) (int p) (Some c) ba = (r, take l (drop (p mod bs) (m_nodes ba ! c)) @ out)"
proof -
  have "int n - int l = int (n - l)" "int p + int l = int (p + l)" "int p mod int bs = int (p mod bs)"
    using assms(4) by (simp_all add: of_nat_diff zmod_int)
  then show ?thesis
    using assms by (subst write_file_loop.simps) (simp only: Let_def, simp)
qed

lemma block_end:
  assumes "bs \<le> n" "p mod bs < (bs::nat)"
  shows "p + (min n bs - p mod bs) = Suc (p div bs) * bs"
proof -
  obtain q r where qr: "q = p div bs" "r = p mod bs" by simp
  have "p = q * bs + r" using qr by simp
  moreover have "min n bs = bs" "r < bs" using assms qr by simp_all
  ultimately show ?thesis unfolding qr(1,2) [symmetric] by simp
qed

lemma diff_less_pos: "0 < l \<Longrightarrow> l \<le> n \<Longrightarrow> n - l < (n::nat)"
  by simp

lemma shift_range: "l \<le> n \<Longrightarrow> p + l + (n - l) = p + (n::nat)"
  by simp

lemma write_file_loop_spec:
  assumes "0 < bs" "m_basesize ba = bs" "uniform bs (m_nodes ba)" "p + n \<le> bs * length (m_nodes ba)"
    and "p mod bs = 0 \<or> bs \<le> n"
  shows "write_file_loop (int n) (int p) (cursor bs (length (m_nodes ba)) p) ba
       = (Inr (), take n (drop p (concat (m_nodes ba))))"
  using assms
proof (induction n arbitrary: p rule: less_induct)
  case (less n)
  note a = less.prems
  show ?case
  proof (cases "n = 0")
    case True
    then show ?thesis by (simp add: write_file_loop.simps)
  next
    case False
    let ?c = "p div bs" and ?d = "p mod bs"
    let ?l = "min n bs - ?d"
    have d: "?d < bs" using a(1) by simp
    have c: "cursor bs (length (m_nodes ba)) p = Some ?c" using a False by (simp add: cursor_Some)
    then have c': "?c < length (m_nodes ba)" by (simp add: cursor_def split: if_splits)
    have l: "0 < ?l" "?l \<le> n" "?d + ?l \<le> bs" using a(5) d False a(1) by (auto simp: min_def)
    have li: "(if int n > int bs then int bs else int n) - int p mod int bs = int ?l"
      using l(1) by (auto simp: zmod_int min_def)
    have rec: "write_file_loop (int (n - ?l)) (int (p + ?l)) (next_node ba ?c) ba
        = (Inr (), take (n - ?l) (drop (p + ?l) (concat (m_nodes ba))))"
    proof (cases "n - ?l = 0")
      case True
      show ?thesis unfolding True int_ops(1) write_file_loop_0 by simp
    next
      case rest: False
      then have "bs \<le> n" using a(5) by (auto simp: min_def split: if_splits)
      then have pl: "p + ?l = Suc ?c * bs" using d by (rule block_end)
      have nx: "next_node ba ?c = cursor bs (length (m_nodes ba)) (p + ?l)"
        unfolding pl cursor_next [OF a(1)] next_node_def ..
      have md: "(p + ?l) mod bs = 0" unfolding pl by (rule mod_mult_self2_is_0)
      have lt: "n - ?l < n" using l(1,2) by (rule diff_less_pos)
      have "p + ?l + (n - ?l) = p + n" using l(2) by (rule shift_range)
      then have le: "p + ?l + (n - ?l) \<le> bs * length (m_nodes ba)" using a(4) by (simp only:)
      show ?thesis unfolding nx by (rule less.IH [OF lt a(1,2,3) le disjI1 [OF md]])
    qed
    have "take ?l (drop ?d (m_nodes ba ! ?c)) = take ?l (drop p (concat (m_nodes ba)))"
      using concat_read [OF a(3) c' l(3)] by simp
    then have "take n (drop p (concat (m_nodes ba))) = take ?l (drop ?d (m_nodes ba ! ?c))
        @ take (n - ?l) (drop (p + ?l) (concat (m_nodes ba)))"
      using split_range [OF l(2)] by (simp only:)
    moreover have "0 < n" using False by simp
    ultimately show ?thesis
      using write_file_step [OF _ a(1,2) l(2) li rec] by (simp only: c)
  qed
qed

lemma writeToFile_spec:
  assumes inv: "ba_inv ba" and whole: "m_position ba mod m_basesize ba = 0 \<or> m_basesize ba \<le> getReadSize ba"
  shows "writeToFile True ba = (Inr True, unread ba)"
proof -
  note d = ba_invD [OF inv]
  have n: "getReadSize ba = length (unread ba)" "length (unread ba) = m_size ba - m_position ba"
    using inv by (simp_all add: getReadSize_unread length_unread)
  have "take (getReadSize ba) (drop (m_position ba) (concat (m_nodes ba))) = unread ba"
    unfolding n using d by (simp add: unread_def content_def drop_take)
  then show ?thesis
    using write_file_loop_spec [OF d(1) refl d(2), of "m_position ba" "getReadSize ba"] whole n d
    by (simp add: writeToFile_def)
qed

text \<open>Half way into a block with less than a block left: part of the data is lost or the loop runs
  past the chain or the count is negative.\<close>

lemma writeToFile_negative:
  assumes inv: "ba_inv ba" and n: "0 < getReadSize ba" "getReadSize ba < m_position ba mod m_basesize ba"
  shows "writeToFile True ba = (Inl Invalid_Argument, [])"
proof -
  note d = ba_invD [OF inv]
  have sz: "getReadSize ba = m_size ba - m_position ba" using inv by (simp add: getReadSize_unread length_unread)
  then have "m_position ba < m_capacity ba" using n d by simp
  then have "m_cur ba = Some (m_position ba div m_basesize ba)" using d by (simp add: cursor_Some)
  moreover have "getReadSize ba < m_basesize ba" using n(2) d(1) mod_less_divisor less_trans by blast
  moreover have "int (getReadSize ba) < int (m_position ba) mod int (m_basesize ba)"
    using n(2) by (simp add: zmod_int [symmetric])
  ultimately show ?thesis
    using n(1) d(1) by (simp add: writeToFile_def write_file_loop.simps Let_def)
qed

section \<open>readFromFile\<close>

lemma read_file_loop_spec:
  assumes "ba_inv ba" "m_position ba + length bytes < m_capacity ba" "m_basesize ba = bs" "length bytes < 2 ^ 31"
  shows "\<exists>ba'. read_file_loop bytes bs ba = (Inr (), ba') \<and> ba_inv ba'
    \<and> content ba' = overwrite (content ba) (m_position ba) bytes \<and> m_position ba' = m_position ba + length bytes"
  using assms
proof (induction "length bytes" arbitrary: bytes ba rule: less_induct)
  case less
  note a = less.prems
  have bs: "0 < bs" using a(3) ba_invD(1) [OF a(1)] by simp
  show ?case
  proof (cases "length bytes < bs")
    case True
    then show ?thesis
      using ba_write_spec [OF a(1), of bytes] a bs by (auto simp: read_file_loop.simps [of bytes])
  next
    case False
    obtain b where b: "ba_write (take bs bytes) ba = (Inr (), b)" "ba_inv b"
      "content b = overwrite (content ba) (m_position ba) (take bs bytes)" "m_position b = m_position ba + bs"
      "m_basesize b = bs" "m_capacity ba \<le> m_capacity b"
      using ba_write_spec [OF a(1), of "take bs bytes"] a False by auto
    have "\<exists>ba'. read_file_loop (drop bs bytes) bs b = (Inr (), ba') \<and> ba_inv ba'
      \<and> content ba' = overwrite (content b) (m_position b) (drop bs bytes)
      \<and> m_position ba' = m_position b + length (drop bs bytes)"
      by (rule less.hyps) (use a b bs False in simp_all)
    moreover have "m_position ba \<le> length (content ba)"
      using length_content [OF a(1)] ba_invD(5) [OF a(1)] by simp
    then have "overwrite (content b) (m_position b) (drop bs bytes) = overwrite (content ba) (m_position ba) bytes"
      using overwrite_overwrite [of "m_position ba" "content ba" "take bs bytes" "drop bs bytes"] b(3,4) False by simp
    ultimately show ?thesis
      using b bs False by (subst read_file_loop.simps) (auto simp: thn_run)
  qed
qed

text \<open>From a block boundary the first full piece fills the chain, and the next write crashes.\<close>

lemma readFromFile_full:
  assumes inv: "ba_inv ba" and pos: "m_position ba + m_basesize ba = m_capacity ba"
    and big: "m_basesize ba < length bytes" "m_basesize ba < 2 ^ 31"
  shows "fst (readFromFile (Some bytes) ba) = Inl Null_Deref"
proof -
  let ?bs = "m_basesize ba"
  have bs: "0 < ?bs" using inv by (rule ba_invD)
  obtain b where b: "ba_write (take ?bs bytes) ba = (Inr (), b)" "ba_inv b" "m_position b = m_capacity b"
    using ba_write_spec [OF inv, of "take ?bs bytes"] pos big bs by auto
  have rest: "drop ?bs bytes \<noteq> []" using big by simp
  have "read_file_loop (drop ?bs bytes) ?bs b = (Inl Null_Deref, b)"
    using rest bs ba_write_full [OF b(2,3)]
    by (subst read_file_loop.simps) (simp add: thn_run del: drop_eq_Nil)
  then show ?thesis
    using b(1) big bs by (simp add: readFromFile_def thn_run read_file_loop.simps [of bytes])
qed

end
