(* ===== verification/ByteArray_Props.thy ===== *)
theory ByteArray_Props
  imports ByteArray_Buffers
begin

text \<open>
  What the buffer promises: the reachable states satisfy the invariant, \<open>write\<close> and \<open>read\<close> refine
  a byte string with a cursor, every typed value and string comes back as written, the vectors
  describe the bytes they should; and the places where the code does not keep its promise.
\<close>

section \<open>Reachable buffers\<close>

inductive ba_step :: "bytearray \<Rightarrow> bytearray \<Rightarrow> bool" where
  step_write: "ba_write buf ba = (Inr (), ba') \<Longrightarrow> length buf < 2 ^ 31 \<Longrightarrow> ba_step ba ba'"
| step_read: "ba_read n ba = (Inr bs, ba') \<Longrightarrow> ba_step ba ba'"
| step_setPosition: "setPosition p ba = (Inr (), ba') \<Longrightarrow> ba_step ba ba'"
| step_getWriteBuffers: "getWriteBuffers len ba = (Inr r, ba') \<Longrightarrow> len < 2 ^ 31 \<Longrightarrow> ba_step ba ba'"
| step_clear: "ba_step ba (clear ba)"
| step_setIsLittleEndian: "ba_step ba (setIsLittleEndian val ba)"

inductive ba_reachable :: "bytearray \<Rightarrow> bool" where
  reach_new: "0 < base_size \<Longrightarrow> ba_reachable (ByteArray_new base_size junk)"
| reach_step: "ba_reachable ba \<Longrightarrow> ba_step ba ba' \<Longrightarrow> ba_reachable ba'"

inductive_cases ba_stepE: "ba_step ba ba'"

lemma full_or_room: "ba_inv ba \<Longrightarrow> m_position ba = m_capacity ba \<or> m_position ba < m_capacity ba"
  using ba_invD(5,6) [of ba] by linarith

lemma ba_inv_write:
  assumes "ba_inv ba" "ba_write buf ba = (Inr (), ba')" "length buf < 2 ^ 31"
  shows "ba_inv ba'"
proof (cases "buf = []")
  case True
  then show ?thesis using assms by (simp add: ba_write_def)
next
  case False
  with assms(1,2) ba_write_full have "m_position ba \<noteq> m_capacity ba" by fastforce
  then have "m_position ba < m_capacity ba" using full_or_room [OF assms(1)] by simp
  from ba_write_spec [OF assms(1) this assms(3)] show ?thesis using assms(2) by auto
qed

lemma ba_inv_read:
  assumes "ba_inv ba" "ba_read n ba = (Inr bs, ba')"
  shows "ba_inv ba'"
proof -
  have n: "n \<le> length (unread ba)"
    using assms ba_read_short [of ba n] by (cases "length (unread ba) < n") auto
  show ?thesis
  proof (cases "unread ba = []")
    case True
    then have "ba_read n ba = (fst (ba_read n ba), ba)"
      using n assms ba_invD(1) [OF assms(1)]
      by (simp add: ba_read_def read_loop.simps Let_def split: option.splits)
    then show ?thesis using assms by simp
  next
    case False
    from ba_read_spec [OF assms(1) this n] show ?thesis using assms(2) by auto
  qed
qed

lemma ba_inv_getWriteBuffers:
  assumes "ba_inv ba" "getWriteBuffers len ba = (Inr r, ba')" "len < 2 ^ 31"
  shows "ba_inv ba'"
proof (cases "len = 0")
  case True
  then show ?thesis using assms by (simp add: getWriteBuffers_def)
next
  case False
  with assms(1,2) addCapacity_full [OF assms(1)] have "m_position ba \<noteq> m_capacity ba"
    by (auto simp: getWriteBuffers_def thn_run)
  then have "m_position ba < m_capacity ba" using full_or_room [OF assms(1)] by simp
  from getWriteBuffers_spec [OF assms(1) this _ assms(3)] False show ?thesis using assms(2) by auto
qed

lemma ba_inv_setPosition: "ba_inv ba \<Longrightarrow> setPosition p ba = (Inr (), ba') \<Longrightarrow> ba_inv ba'"
  using setPosition_spec [of ba p] setPosition_out [of ba p] by (cases "p \<le> m_size ba") auto

lemma ba_inv_setIsLittleEndian: "ba_inv ba \<Longrightarrow> ba_inv (setIsLittleEndian val ba)"
  by (simp add: ba_inv_def setIsLittleEndian_def)

lemma ba_inv_step: "ba_step ba ba' \<Longrightarrow> ba_inv ba \<Longrightarrow> ba_inv ba'"
  by (erule ba_stepE)
    (auto intro: ba_inv_write ba_inv_read ba_inv_setPosition ba_inv_getWriteBuffers ba_inv_clear
      ba_inv_setIsLittleEndian)



section \<open>Refinement of a byte string with a cursor\<close>



text \<open>C3: a \<open>read\<close> of what is there delivers exactly the next bytes, across block borders, and moves
  the position; a longer one throws \<open>out_of_range\<close> and changes nothing.\<close>

theorem read_refines:
  assumes "ba_inv ba" "unread ba \<noteq> []"
  shows "if n \<le> length (unread ba)
     then \<exists>ba'. ba_read n ba = (Inr (take n (unread ba)), ba') \<and> ba_inv ba'
            \<and> content ba' = content ba \<and> m_position ba' = m_position ba + n
     else ba_read n ba = (Inl Out_Of_Range, ba)"
  using assms ba_read_spec [OF assms] ba_read_short [OF assms(1)] by auto

lemma read_refines_witness:
  "fst (ba_read 2 ((ByteArray_new 2 (\<lambda>_. 0))\<lparr>m_nodes := [[1, 2], [3, 4]], m_capacity := 4, m_size := 3\<rparr>))
   = Inr [1, 2]"
proof -
  let ?b = "(ByteArray_new 2 (\<lambda>_. 0))\<lparr>m_nodes := [[1, 2], [3, 4]], m_capacity := 4, m_size := 3\<rparr>"
  have "ba_inv ?b" by (simp add: ba_inv_def ByteArray_new_def uniform_def cursor_def)
  moreover have "unread ?b = [1, 2, 3]" by (simp add: content_def unread_def ByteArray_new_def)
  ultimately show ?thesis using read_refines [of ?b 2] by auto
qed

text \<open>C4: with the position at the end of the capacity \<open>m_cur\<close> is null and is followed: every
  non-empty write crashes there instead of growing the buffer, and so does even a read of size 0.\<close>

theorem full_buffer_crashes:
  assumes "ba_inv ba" "m_position ba = m_capacity ba" "buf \<noteq> []"
  shows "ba_write buf ba = (Inl Null_Deref, ba) \<and> ba_read 0 ba = (Inl Null_Deref, ba)"
  using assms ba_write_full ba_read_full by blast

lemma full_buffer_crashes_witness:
  "\<exists>ba. ba_write [1, 2] (ByteArray_new 2 (\<lambda>_. 0)) = (Inr (), ba) \<and> ba_write [3] ba = (Inl Null_Deref, ba)"
proof -
  obtain b where b: "ba_write [1, 2] (ByteArray_new 2 (\<lambda>_. 0)) = (Inr (), b)" "ba_inv b" "m_position b = m_capacity b"
    using ba_write_spec [OF ba_inv_new, of 2 "\<lambda>_. 0" "[1, 2]"] by (auto simp: ByteArray_new_def)
  then show ?thesis using full_buffer_crashes [OF b(2,3), of "[3]"] by auto
qed

section \<open>Round trips\<close>

lemma fixed_back:
  assumes "writable 0 ba" "\<And>b. isLittleEndian b = isLittleEndian ba \<Longrightarrow> w b = ba_write bs b" "length bs < 2 ^ 31"
    and "\<And>b rem. ba_inv b \<Longrightarrow> isLittleEndian b = isLittleEndian ba \<Longrightarrow> unread b = bs @ rem \<Longrightarrow> reads r b x rem"
  shows "\<exists>ba'. write_back_read w r ba = (Inr x, ba')"
proof -
  have inv: "ba_inv ba" using assms(1) by (simp add: writable_def)
  have "puts w bs ba" using assms(1,3) by (intro puts_as_write) (simp_all add: assms(2))
  from write_back_read_ok [OF inv this assms(4)] show ?thesis by blast
qed

text \<open>C5: a fixed-width integer of 8, 16, 32 or 64 bits written into a buffer with room, in either byte
  order, is read back unchanged from where it was written (signed values are their words; the
  floating-point writers go through the 32-bit and 64-bit ones).\<close>

theorem fixed_width_roundtrip:
  fixes v8 :: byte and v16 :: u16 and v32 :: u32 and v64 :: u64
  assumes "ba_inv ba" "m_position ba < m_capacity ba"
  shows "(\<exists>b. write_back_read (writeFuint8 v8) readFuint8 ba = (Inr v8, b)) \<and>
     (\<exists>b. write_back_read (writeFint16 v16) readFint16 ba = (Inr v16, b)) \<and>
     (\<exists>b. write_back_read (writeFuint16 v16) readFuint16 ba = (Inr v16, b)) \<and>
     (\<exists>b. write_back_read (writeFint32 v32) readFint32 ba = (Inr v32, b)) \<and>
     (\<exists>b. write_back_read (writeFuint32 v32) readFuint32 ba = (Inr v32, b)) \<and>
     (\<exists>b. write_back_read (writeFint64 v64) readFint64 ba = (Inr v64, b)) \<and>
     (\<exists>b. write_back_read (writeFuint64 v64) readFuint64 ba = (Inr v64, b)) \<and>
     (\<exists>b. write_back_read (writeFloat v32) readFloat ba = (Inr v32, b)) \<and>
     (\<exists>b. write_back_read (writeDouble v64) readDouble ba = (Inr v64, b))"
proof -
  have w: "writable 0 ba" using assms by (simp add: writable_def)
  have 1: "\<exists>b. write_back_read (writeFuint8 v8) readFuint8 ba = (Inr v8, b)"
    by (rule fixed_back [OF w, where bs = "[v8]"]) (auto simp: op_simps intro: reads_fixed)
  have 2: "\<exists>b. write_back_read (writeFuint16 v16) readFuint16 ba = (Inr v16, b)"
    by (rule fixed_back [OF w, where bs = "wire16 (isLittleEndian ba) v16"]) (auto simp: writes_wire intro: reads_fixed)
  have 3: "\<exists>b. write_back_read (writeFuint32 v32) readFuint32 ba = (Inr v32, b)"
    by (rule fixed_back [OF w, where bs = "wire32 (isLittleEndian ba) v32"]) (auto simp: writes_wire intro: reads_fixed)
  have 4: "\<exists>b. write_back_read (writeFuint64 v64) readFuint64 ba = (Inr v64, b)"
    by (rule fixed_back [OF w, where bs = "wire64 (isLittleEndian ba) v64"]) (auto simp: writes_wire intro: reads_fixed)
  have "writeFint16 = writeFuint16" "writeFint32 = writeFuint32" "writeFint64 = writeFuint64"
    by (simp_all add: fun_eq_iff writes_wire)
  then show ?thesis
    using 1 2 3 4 by (simp add: readFint16_def readFuint16_def readFint32_def readFuint32_def
        readFint64_def readFuint64_def writeFloat_def writeDouble_def readFloat_def readDouble_def)
qed

lemma fixed_width_roundtrip_witness:
  "\<exists>b. write_back_read (writeFuint32 0x12345678) readFuint32 (setIsLittleEndian False (ByteArray_new 3 (\<lambda>_. 0)))
     = (Inr 0x12345678, b)"
  using fixed_width_roundtrip [OF ba_inv_setIsLittleEndian [OF ba_inv_new], of 3 False "\<lambda>_. 0"]
  by (simp add: setIsLittleEndian_def ByteArray_new_def)

text \<open>C6: the variable-length integers come back: \<open>writeUint32\<close>, \<open>writeUint64\<close>, \<open>writeInt64\<close>, and
  \<open>writeInt32\<close> (with words for the signed values, so that the arithmetic wraps), in at most 5 and
  10 bytes.\<close>

theorem varint_roundtrip:
  fixes v32 :: u32 and v64 :: u64
  assumes "ba_inv ba" "m_position ba < m_capacity ba"
  shows "(\<exists>b. write_back_read (writeUint32 v32) readUint32 ba = (Inr v32, b)) \<and>
     (\<exists>b. write_back_read (writeUint64 v64) readUint64 ba = (Inr v64, b)) \<and>
     (\<exists>b. write_back_read (writeInt32 v32) readInt32 ba = (Inr v32, b)) \<and>
     (\<exists>b. write_back_read (writeInt64 v64) readInt64 ba = (Inr v64, b)) \<and>
     length (varint32 v32) \<le> 5 \<and> length (varint64 v64) \<le> 10"
proof -
  have w: "writable 0 ba" using assms by (simp add: writable_def)
  have l: "length (varint32 x) < 2 ^ 31" "length (varint64 y) < 2 ^ 31" for x y
    using length_varint32 [of x] length_varint64 [of y] by simp_all
  have 1: "\<exists>b. write_back_read (writeUint32 v32) readUint32 ba = (Inr v32, b)"
    by (rule fixed_back [OF w _ l(1)]) (auto simp: writeUint32_def intro: reads_fixed)
  have 2: "\<exists>b. write_back_read (writeUint64 v64) readUint64 ba = (Inr v64, b)"
    by (rule fixed_back [OF w _ l(2)]) (auto simp: writeUint64_def intro: reads_fixed)
  have 3: "\<exists>b. write_back_read (writeInt32 v32) readInt32 ba = (Inr v32, b)"
    by (rule fixed_back [OF w _ l(1)]) (auto simp: writeInt32_def writeUint32_def intro: reads_zigzag)
  have 4: "\<exists>b. write_back_read (writeInt64 v64) readInt64 ba = (Inr v64, b)"
    by (rule fixed_back [OF w _ l(2)]) (auto simp: writeInt64_def writeUint64_def intro: reads_zigzag)
  show ?thesis using 1 2 3 4 length_varint32 length_varint64 by blast
qed

lemma varint_roundtrip_witness:
  "\<exists>b. write_back_read (writeInt64 (- 300)) readInt64 (ByteArray_new 1 (\<lambda>_. 0)) = (Inr (- 300), b)"
  using varint_roundtrip [OF ba_inv_new, of 1 "\<lambda>_. 0" 0 "- 300"] by (simp add: ByteArray_new_def)

text \<open>A non-empty string comes back with each of the length prefixes, as long as its length fits
  the prefix and the prefix does not fill the buffer to the end.\<close>

theorem string_roundtrip:
  assumes "ba_inv ba" "m_position ba + 10 < m_capacity ba" "str \<noteq> []" "length str < 2 ^ 31"
  shows "(length str < 2 ^ 16 \<longrightarrow> (\<exists>b. write_back_read (writeStringF16 str) readStringF16 ba = (Inr str, b))) \<and>
     (\<exists>b. write_back_read (writeStringF32 str) readStringF32 ba = (Inr str, b)) \<and>
     (\<exists>b. write_back_read (writeStringF64 str) readStringF64 ba = (Inr str, b)) \<and>
     (\<exists>b. write_back_read (writeStringVint str) readStringVint ba = (Inr str, b))"
proof -
  let ?n = "length str"
  have w: "writable k ba" if "k \<le> 10" for k using assms(1,2) that by (simp add: writable_def)
  have n: "?n < 2 ^ 16 \<Longrightarrow> unat (of_nat ?n :: u16) = ?n" "unat (of_nat ?n :: u32) = ?n" "unat (of_nat ?n :: u64) = ?n"
    using assms(4) by (simp_all add: unat_of_nat)
  have 1: "\<exists>b. write_back_read (writeStringF16 str) readStringF16 ba = (Inr str, b)" if "?n < 2 ^ 16"
    unfolding writeStringF16_def readStringF16_def
    by (rule string_read_back [OF assms(1) string_written [OF w _ _ assms(4)] assms(3,4) _ n(1) [OF that]])
      (auto simp: writes_wire intro: reads_fixed)
  have 2: "\<exists>b. write_back_read (writeStringF32 str) readStringF32 ba = (Inr str, b)"
    unfolding writeStringF32_def readStringF32_def
    by (rule string_read_back [OF assms(1) string_written [OF w _ _ assms(4)] assms(3,4) _ n(2)])
      (auto simp: writes_wire intro: reads_fixed)
  have 3: "\<exists>b. write_back_read (writeStringF64 str) readStringF64 ba = (Inr str, b)"
    unfolding writeStringF64_def readStringF64_def
    by (rule string_read_back [OF assms(1) string_written [OF w _ _ assms(4)] assms(3,4) _ n(3)])
      (auto simp: writes_wire intro: reads_fixed)
  have 4: "\<exists>b. write_back_read (writeStringVint str) readStringVint ba = (Inr str, b)"
    unfolding writeStringVint_def readStringVint_def
    by (rule string_read_back [OF assms(1) string_written [OF w [OF length_varint64] _ _ assms(4)] assms(3,4) _ n(3)])
      (use length_varint64 [of "of_nat ?n"] in \<open>auto simp: writeUint64_def intro: reads_fixed\<close>)
  show ?thesis using 1 2 3 4 by blast
qed

lemma string_roundtrip_witness:
  "\<exists>b. write_back_read (writeStringVint [104, 105]) readStringVint (ByteArray_new 16 (\<lambda>_. 0)) = (Inr [104, 105], b)"
  using string_roundtrip [OF ba_inv_new, of 16 "\<lambda>_. 0" "[104, 105]"] by (simp add: ByteArray_new_def)

section \<open>Exposing the blocks\<close>

text \<open>\<open>getReadBuffers\<close> describes exactly the next \<open>len\<close> unread bytes (or all of them when fewer are
  left), every entry within one block, and returns their number; the version with a position
  describes the bytes from there.\<close>

theorem read_buffers_gather:
  assumes "ba_inv ba"
  shows "(\<exists>iovs. getReadBuffers len ba = Inr (min len (length (unread ba)), iovs)
      \<and> iov_bytes ba iovs = take len (unread ba) \<and> iov_valid ba iovs)
    \<and> (len \<le> getReadSize ba \<longrightarrow> position + len \<le> m_size ba \<longrightarrow>
        (\<exists>iovs. getReadBuffers_at len position ba = Inr (len, iovs)
          \<and> iov_bytes ba iovs = take len (drop position (content ba)) \<and> iov_valid ba iovs))"
proof -
  obtain iovs where "getReadBuffers len ba = Inr (length (iov_bytes ba iovs), iovs)"
    "iov_bytes ba iovs = take len (unread ba)" "iov_valid ba iovs"
    using getReadBuffers_spec [OF assms, of len] by blast
  then show ?thesis using getReadBuffers_at_spec [OF assms] by (simp add: min.commute)
qed

lemma read_buffers_gather_witness:
  "\<exists>iovs. getReadBuffers 5 ((ByteArray_new 2 (\<lambda>_. 0))\<lparr>m_nodes := [[1, 2], [3, 4]], m_capacity := 4, m_size := 3\<rparr>)
     = Inr (3, iovs)"
proof -
  let ?b = "(ByteArray_new 2 (\<lambda>_. 0))\<lparr>m_nodes := [[1, 2], [3, 4]], m_capacity := 4, m_size := 3\<rparr>"
  have "ba_inv ?b" by (simp add: ba_inv_def ByteArray_new_def uniform_def cursor_def)
  moreover have "unread ?b = [1, 2, 3]" by (simp add: content_def unread_def ByteArray_new_def)
  ultimately show ?thesis using read_buffers_gather [of ?b 5] by auto
qed

text \<open>\<open>getWriteBuffers\<close> reserves \<open>len\<close> bytes and describes exactly the addresses from the position
  on, in order, without touching content, position or size; the size not being raised, a
  \<open>setPosition\<close> behind data received there throws.\<close>

theorem write_buffers_cover:
  assumes "ba_inv ba" "m_position ba < m_capacity ba" "0 < len" "len < 2 ^ 31"
  shows "\<exists>ba' iovs. getWriteBuffers len ba = (Inr (len, iovs), ba') \<and> ba_inv ba' \<and> content ba' = content ba
    \<and> iov_addrs (m_basesize ba') iovs = [m_position ba ..< m_position ba + len] \<and> iov_valid ba' iovs
    \<and> (m_size ba < m_position ba + len \<longrightarrow>
         setPosition (m_position ba + len) ba' = (Inl Out_Of_Range, ba'))"
proof -
  obtain ba' iovs where b: "getWriteBuffers len ba = (Inr (len, iovs), ba')" "ba_inv ba'" "content ba' = content ba"
    "m_position ba' = m_position ba" "iov_addrs (m_basesize ba') iovs = [m_position ba ..< m_position ba + len]"
    "iov_valid ba' iovs"
    using getWriteBuffers_spec [OF assms] by blast
  have "m_size ba' = m_size ba" using length_content [OF b(2)] length_content [OF assms(1)] b(3) by simp
  then show ?thesis using b setPosition_out [OF b(2)] by auto
qed

lemma write_buffers_cover_witness:
  "\<exists>ba' iovs. getWriteBuffers 3 (ByteArray_new 2 (\<lambda>_. 0)) = (Inr (3, iovs), ba')
     \<and> setPosition 3 ba' = (Inl Out_Of_Range, ba')"
  using write_buffers_cover [OF ba_inv_new, of 2 "\<lambda>_. 0" 3] by (auto simp: ByteArray_new_def)

text \<open>\<open>toString\<close> returns the unread bytes when they lie in the block of the position; when they
  reach into later blocks the last piece is taken from the start of the block of \<open>m_cur\<close>
  instead of the block where it lies.\<close>

theorem toString_exact:
  assumes "ba_inv ba" "unread ba \<noteq> []" "m_size ba \<le> string_max_size"
  shows "toString ba =
    (let n = length (unread ba); npos = m_position ba mod m_basesize ba; k = Suc ((npos + n - 1) mod m_basesize ba)
     in if npos + n \<le> m_basesize ba then Inr (unread ba)
        else Inr (take (n - k) (unread ba) @ take k (m_nodes ba ! (m_position ba div m_basesize ba))))"
  using toString_spec [OF assms] by (simp add: Let_def)

lemma toString_exact_witness:
  "toString ((ByteArray_new 2 (\<lambda>_. 0))\<lparr>m_nodes := [[1, 2], [3, 4]], m_capacity := 4, m_size := 3\<rparr>)
   = Inr [1, 2, 1]"
proof -
  let ?b = "(ByteArray_new 2 (\<lambda>_. 0))\<lparr>m_nodes := [[1, 2], [3, 4]], m_capacity := 4, m_size := 3\<rparr>"
  have "ba_inv ?b" by (simp add: ba_inv_def ByteArray_new_def uniform_def cursor_def)
  moreover have "unread ?b = [1, 2, 3]" by (simp add: content_def unread_def ByteArray_new_def)
  moreover have "m_size ?b = 3" "m_position ?b = 0" "m_basesize ?b = 2" "m_nodes ?b = [[1, 2], [3, 4]]"
    by (simp_all add: ByteArray_new_def)
  ultimately show ?thesis using toString_exact [of ?b] by (simp add: string_max_size_def)
qed

text \<open>\<open>writeToFile\<close> writes exactly the unread bytes when the position is at the start of a block
  or at least a block's worth of data is left; with less data left than the offset of the position
  in its block it passes a negative count to the stream.\<close>

theorem writeToFile_exact:
  assumes "ba_inv ba"
  shows "(m_position ba mod m_basesize ba = 0 \<or> m_basesize ba \<le> getReadSize ba \<longrightarrow>
       writeToFile True ba = (Inr True, unread ba))
    \<and> (0 < getReadSize ba \<and> getReadSize ba < m_position ba mod m_basesize ba \<longrightarrow>
       writeToFile True ba = (Inl Invalid_Argument, []))"
  using writeToFile_spec [OF assms] writeToFile_negative [OF assms] by blast

lemma writeToFile_exact_witness:
  "writeToFile True ((ByteArray_new 2 (\<lambda>_. 0))\<lparr>m_nodes := [[1, 2], [3, 4]], m_capacity := 4, m_size := 3\<rparr>)
   = (Inr True, [1, 2, 3])"
proof -
  let ?b = "(ByteArray_new 2 (\<lambda>_. 0))\<lparr>m_nodes := [[1, 2], [3, 4]], m_capacity := 4, m_size := 3\<rparr>"
  have "ba_inv ?b" by (simp add: ba_inv_def ByteArray_new_def uniform_def cursor_def)
  moreover have "unread ?b = [1, 2, 3]" "m_position ?b = 0"
    by (simp_all add: content_def unread_def ByteArray_new_def)
  ultimately show ?thesis using writeToFile_exact [of ?b] by simp
qed

text \<open>\<open>readFromFile\<close> writes the whole file at the position as long as it does not reach the end of
  the capacity; started one block before that end with a file longer than a block, it crashes.\<close>

theorem readFromFile_exact:
  assumes "ba_inv ba"
  shows "(m_position ba + length bytes < m_capacity ba \<and> length bytes < 2 ^ 31 \<longrightarrow>
       (\<exists>ba'. readFromFile (Some bytes) ba = (Inr True, ba') \<and> ba_inv ba'
          \<and> content ba' = overwrite (content ba) (m_position ba) bytes
          \<and> m_position ba' = m_position ba + length bytes))
    \<and> (m_position ba + m_basesize ba = m_capacity ba \<and> m_basesize ba < length bytes \<and> m_basesize ba < 2 ^ 31 \<longrightarrow>
       fst (readFromFile (Some bytes) ba) = Inl Null_Deref)"
  using read_file_loop_spec [OF assms, of bytes "m_basesize ba"] readFromFile_full [OF assms, of bytes]
  by (auto simp: readFromFile_def thn_run)

lemma readFromFile_exact_witness:
  "fst (readFromFile (Some [1, 2, 3]) (ByteArray_new 2 (\<lambda>_. 0))) = Inl Null_Deref"
  using readFromFile_exact [OF ba_inv_new, of 2 "\<lambda>_. 0" "[1, 2, 3]"] by (simp add: ByteArray_new_def)

end
