(* ===== verification/Coroutine.thy ===== *)
theory Coroutine
  imports Prelude
begin

text \<open>
  \<open>src/src/coroutine.h\<close> and \<open>src/src/coroutine.cpp\<close>: the state machine of a coroutine. A
  \<open>Coroutine*\<close> is an address into a store of objects; the thread-local variables and the global
  counters are fields of the record \<open>runtime\<close>. The machine contexts of \<open>ucontext\<close> are not modelled:
  switching into a coroutine runs its body, an argument, up to the point where it gives up the
  processor, and \<open>leave\<close> says how it did.
\<close>

section \<open>State\<close>

datatype State = INIT | HOLD | EXEC | TERM' | READY | EXCEPT

record 'cb coroutine =
  c_id :: u64
  c_stacksize :: u32
  c_state :: State
  c_stack :: bool
  c_cb :: "'cb option"
  c_name :: string

record 'cb runtime =
  c_objs :: "nat \<Rightarrow> 'cb coroutine"
  c_fresh :: nat
  s_coroutine_id :: u64
  s_coroutine_count :: u64
  t_coroutine :: "nat option"
  t_thread_coroutine :: "nat option"
  t_scheduler_coroutine :: "nat option"

definition update_co :: "nat \<Rightarrow> ('cb coroutine \<Rightarrow> 'cb coroutine) \<Rightarrow> ('cb, 'a) runtime_scheme \<Rightarrow> ('cb, 'a) runtime_scheme" where
  "update_co p f rt = rt\<lparr>c_objs := (c_objs rt)(p := f (c_objs rt p))\<rparr>"

definition set_state :: "State \<Rightarrow> nat \<Rightarrow> ('cb, 'a) runtime_scheme \<Rightarrow> ('cb, 'a) runtime_scheme" where
  "set_state s p = update_co p (\<lambda>c. c\<lparr>c_state := s\<rparr>)"

definition getState :: "nat \<Rightarrow> ('cb, 'a) runtime_scheme \<Rightarrow> State" where
  "getState p rt = c_state (c_objs rt p)"

definition SetThis :: "nat option \<Rightarrow> ('cb, 'a) runtime_scheme \<Rightarrow> ('cb, 'a) runtime_scheme" where
  "SetThis cor rt = rt\<lparr>t_coroutine := cor\<rparr>"

section \<open>Construction and destruction\<close>

definition Coroutine_main :: "('cb, 'a) runtime_scheme \<Rightarrow> nat \<times> ('cb, 'a) runtime_scheme" where
  "Coroutine_main rt =
     (let p = c_fresh rt;
          c = \<lparr>c_id = s_coroutine_id rt, c_stacksize = 0, c_state = EXEC, c_stack = False, c_cb = None,
              c_name = ''Main Coroutine''\<rparr>
      in (p, SetThis (Some p) (rt\<lparr>c_objs := (c_objs rt)(p := c), c_fresh := Suc p,
            s_coroutine_id := s_coroutine_id rt + 1, s_coroutine_count := s_coroutine_count rt + 1\<rparr>)))"

text \<open>\<open>stack_size\<close> is the value of the configuration variable \<open>coroutine.stack_size\<close>.\<close>

definition Coroutine_new ::
    "u32 \<Rightarrow> 'cb option \<Rightarrow> u32 \<Rightarrow> string \<Rightarrow> ('cb, 'a) runtime_scheme \<Rightarrow> nat \<times> ('cb, 'a) runtime_scheme" where
  "Coroutine_new stack_size cb stacksize name rt =
     (let p = c_fresh rt;
          c = \<lparr>c_id = s_coroutine_id rt, c_stacksize = (if stacksize \<noteq> 0 then stacksize else stack_size),
              c_state = INIT, c_stack = True, c_cb = cb, c_name = name\<rparr>
      in (p, rt\<lparr>c_objs := (c_objs rt)(p := c), c_fresh := Suc p,
            s_coroutine_id := s_coroutine_id rt + 1, s_coroutine_count := s_coroutine_count rt + 1\<rparr>))"

definition finished :: "State \<Rightarrow> bool" where
  "finished s \<longleftrightarrow> s = TERM' \<or> s = INIT \<or> s = EXCEPT"

definition Coroutine_delete :: "nat \<Rightarrow> (('cb, 'a) runtime_scheme, unit) op" where
  "Coroutine_delete p rt =
     (let rt1 = rt\<lparr>s_coroutine_count := s_coroutine_count rt - 1\<rparr>; c = c_objs rt p in
      if c_stack c then (if finished (c_state c) then (Inr (), rt1) else (Inl Assert_Failed, rt1))
      else if c_cb c \<noteq> None then (Inl Assert_Failed, rt1)
      else if c_state c \<noteq> EXEC then (Inl Assert_Failed, rt1)
      else (Inr (), if t_coroutine rt1 = Some p then SetThis None rt1 else rt1))"

definition Coroutine_reset :: "'cb option \<Rightarrow> string \<Rightarrow> nat \<Rightarrow> (('cb, 'a) runtime_scheme, unit) op" where
  "Coroutine_reset cb name p rt =
     (let c = c_objs rt p in
      if c_stacksize c = 0 then (Inl Assert_Failed, rt)
      else if \<not> finished (c_state c) then (Inl Assert_Failed, rt)
      else (Inr (), update_co p (\<lambda>c. c\<lparr>c_cb := cb, c_name := name, c_state := INIT\<rparr>) rt))"

definition GetThis :: "('cb, 'a) runtime_scheme \<Rightarrow> nat \<times> ('cb, 'a) runtime_scheme" where
  "GetThis rt =
     (case t_coroutine rt of
        Some p \<Rightarrow> (p, rt)
      | None \<Rightarrow> (let (p, rt1) = Coroutine_main rt in (p, rt1\<lparr>t_thread_coroutine := Some p\<rparr>)))"

definition GetCoroutineId :: "('cb, 'a) runtime_scheme \<Rightarrow> u64" where
  "GetCoroutineId rt = (case t_coroutine rt of Some p \<Rightarrow> c_id (c_objs rt p) | None \<Rightarrow> 0)"

definition TotalCoroutine :: "('cb, 'a) runtime_scheme \<Rightarrow> u64" where
  "TotalCoroutine rt = s_coroutine_count rt"

section \<open>Switching\<close>

text \<open>Leaving: by \<open>YieldToReady\<close>, by \<open>YieldToHold\<close>, by returning from the function, by an exception.\<close>

datatype exit = Yield_Ready | Yield_Hold | Returned | Threw

definition swapOut :: "('cb, 'a) runtime_scheme \<Rightarrow> ('cb, 'a) runtime_scheme" where
  "swapOut rt = SetThis (t_scheduler_coroutine rt) rt"

definition YieldToReady :: "('cb, 'a) runtime_scheme \<Rightarrow> ('cb, 'a) runtime_scheme" where
  "YieldToReady rt = (let (cur, rt1) = GetThis rt in swapOut (set_state READY cur rt1))"

definition YieldToHold :: "('cb, 'a) runtime_scheme \<Rightarrow> ('cb, 'a) runtime_scheme" where
  "YieldToHold rt = (let (cur, rt1) = GetThis rt in swapOut (set_state HOLD cur rt1))"

text \<open>
  The end of \<open>MainFunc\<close>: the state after a normal return or an exception (which keeps the
  function), then back to the coroutine of the scheduler, or of the thread when the scheduler's own
  coroutine ends.
\<close>

definition MainFunc_end :: "bool \<Rightarrow> ('cb, 'a) runtime_scheme \<Rightarrow> ('cb, 'a) runtime_scheme" where
  "MainFunc_end returned rt =
     (let (cur, rt1) = GetThis rt;
          rt2 = (if returned then update_co cur (\<lambda>c. c\<lparr>c_cb := None, c_state := TERM'\<rparr>) rt1
                 else set_state EXCEPT cur rt1)
      in if Some cur = t_scheduler_coroutine rt2 then SetThis (t_thread_coroutine rt2) rt2 else swapOut rt2)"

fun leave :: "exit \<Rightarrow> ('cb, 'a) runtime_scheme \<Rightarrow> ('cb, 'a) runtime_scheme" where
  "leave Yield_Ready rt = YieldToReady rt"
| "leave Yield_Hold rt = YieldToHold rt"
| "leave Returned rt = MainFunc_end True rt"
| "leave Threw rt = MainFunc_end False rt"

text \<open>
  \<open>swapIn\<close> up to the point where it returns. A coroutine entered for the first time calls its
  function, and an empty one throws \<open>bad_function_call\<close> at once.
\<close>

definition swapIn ::
    "(nat \<Rightarrow> ('cb, 'a) runtime_scheme \<Rightarrow> exit \<times> ('cb, 'a) runtime_scheme) \<Rightarrow> nat \<Rightarrow> (('cb, 'a) runtime_scheme, unit) op" where
  "swapIn body p rt =
     (let rt1 = SetThis (Some p) rt; first = (getState p rt1 = INIT) in
      if getState p rt1 = EXEC then (Inl Assert_Failed, rt1)
      else let rt2 = set_state EXEC p rt1 in
        if t_scheduler_coroutine rt2 = None then (Inl Null_Deref, rt2)
        else let (how, rt3) = (if first \<and> c_cb (c_objs rt2 p) = None then (Threw, rt2) else body p rt2)
             in (Inr (), leave how rt3))"

text \<open>The coroutine of the scheduler itself is entered from the thread's with \<open>call\<close>.\<close>

definition call ::
    "(nat \<Rightarrow> ('cb, 'a) runtime_scheme \<Rightarrow> exit \<times> ('cb, 'a) runtime_scheme) \<Rightarrow> nat \<Rightarrow> (('cb, 'a) runtime_scheme, unit) op" where
  "call body p rt =
     (let rt1 = set_state EXEC p (SetThis (Some p) rt) in
      if t_thread_coroutine rt1 = None then (Inl Null_Deref, rt1)
      else let (how, rt2) = body p rt1 in (Inr (), leave how rt2))"

definition coroutine_back :: "(('cb, 'a) runtime_scheme, unit) op" where
  "coroutine_back rt = (let rt1 = SetThis (t_thread_coroutine rt) rt in
     if t_thread_coroutine rt = None then (Inl Null_Deref, rt1) else (Inr (), rt1))"

section \<open>The contract of a body\<close>

text \<open>
  What the code of a coroutine leaves alone while it runs: it is the current coroutine and in state
  \<open>EXEC\<close> when it gives up the processor, and the scheduler's coroutine stays what it is. Everything
  else (other coroutines, queues) it may change.
\<close>

definition well_behaved :: "(nat \<Rightarrow> ('cb, 'a) runtime_scheme \<Rightarrow> exit \<times> ('cb, 'a) runtime_scheme) \<Rightarrow> bool" where
  "well_behaved body \<longleftrightarrow> (\<forall>p rt. t_coroutine rt = Some p \<longrightarrow> getState p rt = EXEC \<longrightarrow>
     t_coroutine (snd (body p rt)) = Some p \<and> getState p (snd (body p rt)) = EXEC
     \<and> t_scheduler_coroutine (snd (body p rt)) = t_scheduler_coroutine rt)"

fun state_after :: "exit \<Rightarrow> State" where
  "state_after Yield_Ready = READY"
| "state_after Yield_Hold = HOLD"
| "state_after Returned = TERM'"
| "state_after Threw = EXCEPT"

lemma co_sel [simp]:
  "t_coroutine (SetThis x rt) = x" "c_objs (SetThis x rt) = c_objs rt"
  "t_scheduler_coroutine (SetThis x rt) = t_scheduler_coroutine rt"
  "t_thread_coroutine (SetThis x rt) = t_thread_coroutine rt"
  "t_coroutine (update_co p f rt) = t_coroutine rt"
  "t_scheduler_coroutine (update_co p f rt) = t_scheduler_coroutine rt"
  "t_thread_coroutine (update_co p f rt) = t_thread_coroutine rt"
  "c_objs (update_co p f rt) = (c_objs rt)(p := f (c_objs rt p))"
  "t_coroutine (set_state s p rt) = t_coroutine rt"
  "t_scheduler_coroutine (set_state s p rt) = t_scheduler_coroutine rt"
  "t_thread_coroutine (set_state s p rt) = t_thread_coroutine rt"
  by (simp_all add: SetThis_def update_co_def set_state_def)

lemma getState_sel [simp]:
  "getState p (SetThis x rt) = getState p rt"
  "getState p (set_state s q rt) = (if p = q then s else getState p rt)"
  by (simp_all add: getState_def set_state_def)

lemma runtime_more [simp]:
  "runtime.more (SetThis x rt) = runtime.more rt" "runtime.more (set_state s p rt) = runtime.more rt"
  "runtime.more (update_co p f rt) = runtime.more rt"
  by (simp_all add: SetThis_def update_co_def set_state_def)

lemma GetThis_current: "t_coroutine rt = Some p \<Longrightarrow> GetThis rt = (p, rt)"
  by (simp add: GetThis_def)

text \<open>However a coroutine leaves, its state tells how, and the scheduler's coroutine is current
  again (unless it is the one that ended).\<close>

lemma leave_eq:
  assumes "t_coroutine rt = Some p"
  shows "leave how rt =
    SetThis (if (how = Returned \<or> how = Threw) \<and> t_scheduler_coroutine rt = Some p
             then t_thread_coroutine rt else t_scheduler_coroutine rt)
      (update_co p (\<lambda>c. c\<lparr>c_cb := (if how = Returned then None else c_cb c), c_state := state_after how\<rparr>) rt)"
proof (cases how)
  case Returned
  then show ?thesis
    by (auto simp: GetThis_current [OF assms] MainFunc_end_def swapOut_def set_state_def)
next
  case Threw
  then show ?thesis
    by (auto simp: GetThis_current [OF assms] MainFunc_end_def swapOut_def set_state_def)
qed (simp_all add: GetThis_current [OF assms] YieldToReady_def YieldToHold_def swapOut_def set_state_def)

lemma leave_spec:
  assumes "t_coroutine rt = Some p"
  shows "getState p (leave how rt) = state_after how"
    and "q \<noteq> p \<Longrightarrow> getState q (leave how rt) = getState q rt"
    and "t_scheduler_coroutine rt \<noteq> Some p \<Longrightarrow> t_coroutine (leave how rt) = t_scheduler_coroutine rt"
    and "t_scheduler_coroutine (leave how rt) = t_scheduler_coroutine rt"
    and "runtime.more (leave how rt) = runtime.more rt"
  unfolding leave_eq [OF assms] by (simp_all add: getState_def)

lemma swapIn_spec:
  assumes "well_behaved body" "getState p rt \<noteq> EXEC" "t_scheduler_coroutine rt = Some m" "m \<noteq> p"
  shows "\<exists>how rt'. swapIn body p rt = (Inr (), rt') \<and> getState p rt' = state_after how
    \<and> t_coroutine rt' = Some m \<and> t_scheduler_coroutine rt' = Some m
    \<and> (getState p rt = INIT \<and> c_cb (c_objs rt p) = None \<longrightarrow> how = Threw)"
proof -
  let ?rt2 = "set_state EXEC p (SetThis (Some p) rt)"
  obtain how rt3 where b: "(if getState p rt = INIT \<and> c_cb (c_objs ?rt2 p) = None then (Threw, ?rt2) else body p ?rt2) = (how, rt3)"
    by fastforce
  have keep: "c_cb (c_objs ?rt2 p) = c_cb (c_objs rt p)" by (simp add: set_state_def)
  then have thr: "getState p rt = INIT \<and> c_cb (c_objs rt p) = None \<longrightarrow> how = Threw"
    using b by (auto split: if_splits)
  have "t_coroutine rt3 = Some p \<and> t_scheduler_coroutine rt3 = Some m"
  proof (cases "getState p rt = INIT \<and> c_cb (c_objs ?rt2 p) = None")
    case True
    then show ?thesis using b assms by auto
  next
    case False
    then have "body p ?rt2 = (how, rt3)" using b by argo
    then show ?thesis using assms(1,3) unfolding well_behaved_def by (auto dest!: spec [of _ p] spec [of _ ?rt2])
  qed
  moreover have "swapIn body p rt = (Inr (), leave how rt3)"
    using b assms(2,3) by (simp add: swapIn_def Let_def)
  ultimately show ?thesis using leave_spec(1,3,4) [of rt3 p] assms(4) thr by (intro exI [of _ how] exI [of _ "leave how rt3"]) simp
qed



end
