(* ===== verification/Scheduler.thy ===== *)
theory Scheduler
  imports Coroutine
begin

text \<open>
  \<open>src/src/scheduler.h\<close> and \<open>src/src/scheduler.cpp\<close>: the queue of coroutines and callbacks and the
  loop in which a worker thread takes them off and runs them. One iteration of \<open>Scheduler::run\<close> is
  \<open>run_iter\<close>; its arguments are the id of the thread, the virtual \<open>stopping()\<close>, what coroutines do
  when they are entered (see \<open>Coroutine\<close>), and \<open>shared\<close>: whether somebody besides the loop and the
  queue holds a \<open>shared_ptr\<close> to a coroutine (dropping the last one runs the destructor).
\<close>

section \<open>State\<close>

record 'cb task =
  ct_coroutine :: "nat option"
  ct_cb :: "'cb option"
  ct_threadId :: int

record 'cb sched = "'cb runtime" +
  m_coroutines :: "'cb task list"
  m_activeCoroutineCount :: u64
  m_stopping :: bool
  m_idleFlag :: bool
  m_threads :: "nat list"
  m_threadIds :: "int list"
  m_threadCount :: nat
  m_mainThreadId :: int
  m_mainCoroutine :: "nat option"
  m_notifies :: nat

definition task_co :: "nat option \<Rightarrow> int \<Rightarrow> 'cb task" where
  "task_co c thr = \<lparr>ct_coroutine = c, ct_cb = None, ct_threadId = thr\<rparr>"

definition task_cb :: "'cb option \<Rightarrow> int \<Rightarrow> 'cb task" where
  "task_cb f thr = \<lparr>ct_coroutine = None, ct_cb = f, ct_threadId = thr\<rparr>"

definition empty_task :: "'cb task \<Rightarrow> bool" where
  "empty_task ct \<longleftrightarrow> ct_coroutine ct = None \<and> ct_cb ct = None"

section \<open>Scheduling\<close>

definition scheduleNoLock :: "'cb task \<Rightarrow> 'cb sched \<Rightarrow> bool \<times> 'cb sched" where
  "scheduleNoLock ct s =
     (m_coroutines s = [],
      if ct_coroutine ct \<noteq> None \<or> ct_cb ct \<noteq> None then s\<lparr>m_coroutines := m_coroutines s @ [ct]\<rparr> else s)"

definition notify_if :: "bool \<Rightarrow> 'cb sched \<Rightarrow> 'cb sched" where
  "notify_if b s = (if b then s\<lparr>m_notifies := Suc (m_notifies s)\<rparr> else s)"

definition schedule :: "'cb task \<Rightarrow> 'cb sched \<Rightarrow> 'cb sched" where
  "schedule ct s = (let (need_tickle, s1) = scheduleNoLock ct s in notify_if need_tickle s1)"

fun schedule_loop :: "'cb task list \<Rightarrow> bool \<Rightarrow> 'cb sched \<Rightarrow> bool \<times> 'cb sched" where
  "schedule_loop [] need s = (need, s)"
| "schedule_loop (ct # cts) need s =
     (let (b, s1) = scheduleNoLock ct s in schedule_loop cts (b \<or> need) s1)"

definition schedule_range :: "'cb task list \<Rightarrow> 'cb sched \<Rightarrow> 'cb sched" where
  "schedule_range cts s = (let (need_tickle, s1) = schedule_loop cts False s in notify_if need_tickle s1)"

section \<open>Life cycle\<close>

text \<open>
  The constructor: with \<open>use_caller\<close> the calling thread gets a coroutine for \<open>run\<close> and one thread
  less is started. \<open>this_sched\<close> says whether the thread already has a scheduler, \<open>tid\<close> is its id,
  \<open>run_cb\<close> the bound member function \<open>run\<close>.
\<close>

definition Scheduler_new ::
    "nat \<Rightarrow> bool \<Rightarrow> bool \<Rightarrow> bool \<Rightarrow> int \<Rightarrow> u32 \<Rightarrow> 'cb \<Rightarrow> ('cb sched, unit) op" where
  "Scheduler_new threads use_caller idleFlag this_sched tid stack_size run_cb s0 =
     (let s1 = s0\<lparr>m_coroutines := [], m_activeCoroutineCount := 0, m_stopping := False, m_idleFlag := idleFlag,
                  m_threads := [], m_threadIds := [], m_mainCoroutine := None, m_notifies := 0\<rparr>
      in if threads = 0 then (Inl Assert_Failed, s1)
         else if use_caller then
           let (_, s2) = GetThis s1 in
           if this_sched then (Inl Assert_Failed, s2)
           else let (p, s3) = Coroutine_new stack_size (Some run_cb) 0 ''Scheduler coroutine'' s2
                in (Inr (), s3\<lparr>m_mainCoroutine := Some p, t_scheduler_coroutine := Some p, m_mainThreadId := tid,
                              m_threadIds := m_threadIds s3 @ [tid], m_threadCount := threads - 1\<rparr>)
         else (Inr (), s1\<lparr>m_mainThreadId := -1, m_threadCount := threads\<rparr>))"

text \<open>\<open>ids\<close> are the ids the kernel gives the new threads; the caller's part of \<open>start\<close>, entering the
  main coroutine, is \<^const>\<open>call\<close>.\<close>

definition start :: "int list \<Rightarrow> ('cb sched, bool) op" where
  "start ids s =
     (if m_stopping s then (Inr False, s)
      else let s1 = s\<lparr>m_stopping := False\<rparr> in
        if m_threads s1 \<noteq> [] then (Inl Assert_Failed, s1)
        else (Inr (m_mainCoroutine s1 \<noteq> None),
              s1\<lparr>m_threads := [0 ..< m_threadCount s1], m_threadIds := m_threadIds s1 @ take (m_threadCount s1) ids\<rparr>))"

text \<open>\<open>stop\<close> returns the threads to join.\<close>

definition stop :: "'cb sched \<Rightarrow> nat list \<times> 'cb sched" where
  "stop s = (let s1 = s\<lparr>m_stopping := True, m_notifies := Suc (m_notifies s)\<rparr>
             in (m_threads s1, s1\<lparr>m_threads := []\<rparr>))"

definition stopping :: "'cb sched \<Rightarrow> bool" where
  "stopping s \<longleftrightarrow> m_stopping s \<and> m_coroutines s = []"

section \<open>The main loop\<close>

text \<open>The first task this thread may run: not pinned to another thread, and not a coroutine that is
  still executing. What stays in the queue keeps its order.\<close>

fun pick :: "int \<Rightarrow> (nat \<Rightarrow> State) \<Rightarrow> 'cb task list \<Rightarrow> fault + ('cb task \<times> 'cb task list) option" where
  "pick tid st [] = Inr None"
| "pick tid st (t # ts) =
     (let skip = (case pick tid st ts of
                    Inr (Some (ct, rest)) \<Rightarrow> Inr (Some (ct, t # rest))
                  | r \<Rightarrow> r) in
      if ct_threadId t \<noteq> -1 \<and> ct_threadId t \<noteq> tid then skip
      else if empty_task t then Inl Assert_Failed
      else case ct_coroutine t of
          Some p \<Rightarrow> if st p = EXEC then skip else Inr (Some (t, ts))
        | None \<Rightarrow> Inr (Some (t, ts)))"

datatype iteration = Continue | Exit | Blocked

definition ended :: "State \<Rightarrow> bool" where
  "ended s \<longleftrightarrow> s = TERM' \<or> s = EXCEPT"

definition count_active :: "u64 \<Rightarrow> ('cb sched, unit) op" where
  "count_active d = upd (\<lambda>s. s\<lparr>m_activeCoroutineCount := m_activeCoroutineCount s + d\<rparr>)"

text \<open>Dropping a \<open>shared_ptr\<close>.\<close>

definition drop_ref :: "(nat \<Rightarrow> 'cb sched \<Rightarrow> bool) \<Rightarrow> nat \<Rightarrow> ('cb sched, unit) op" where
  "drop_ref shared p s =
     (if shared p s \<or> (\<exists>ct \<in> set (m_coroutines s). ct_coroutine ct = Some p) then (Inr (), s)
      else Coroutine_delete p s)"

type_synonym 'cb body = "nat \<Rightarrow> 'cb sched \<Rightarrow> exit \<times> 'cb sched"

text \<open>After a coroutine has come back: rescheduled, put on hold, or left as ended.\<close>

definition settle_coroutine :: "nat \<Rightarrow> ('cb sched, unit) op" where
  "settle_coroutine p s =
     (if getState p s = READY then (Inr (), schedule (task_co (Some p) (-1)) s)
      else if \<not> ended (getState p s) then (Inr (), set_state HOLD p s)
      else (Inr (), s))"

definition settle_callback :: "nat \<Rightarrow> ('cb sched, unit) op" where
  "settle_callback p s =
     (if getState p s = READY then (Inr (), schedule (task_co (Some p) (-1)) s)
      else if ended (getState p s) then Coroutine_reset None '''' p s
      else (Inr (), set_state HOLD p s))"

definition run_coroutine :: "(nat \<Rightarrow> 'cb sched \<Rightarrow> bool) \<Rightarrow> 'cb body \<Rightarrow> nat \<Rightarrow> ('cb sched, iteration) op" where
  "run_coroutine shared body p =
     thn (swapIn body p)
    (thn (count_active (- 1))
    (thn (settle_coroutine p)
    (thn (drop_ref shared p) (ret Continue))))"

text \<open>
  A callback gets a coroutine of its own. The variable \<open>cb_coroutine\<close> that could be reused is null
  at the start of every iteration, since each path through this branch ends with its \<open>reset()\<close>.
\<close>

definition run_callback ::
    "(nat \<Rightarrow> 'cb sched \<Rightarrow> bool) \<Rightarrow> 'cb body \<Rightarrow> u32 \<Rightarrow> 'cb \<Rightarrow> ('cb sched, iteration) op" where
  "run_callback shared body stack_size cb =
     bnd (\<lambda>s. let (p, s1) = Coroutine_new stack_size (Some cb) 0 ''User Coroutine'' s in (Inr p, s1)) (\<lambda>p.
     thn (swapIn body p)
    (thn (count_active (- 1))
    (thn (settle_callback p)
    (thn (drop_ref shared p) (ret Continue)))))"

definition run_idle ::
    "(nat \<Rightarrow> 'cb sched \<Rightarrow> bool) \<Rightarrow> 'cb body \<Rightarrow> ('cb sched \<Rightarrow> bool) \<Rightarrow> nat \<Rightarrow> ('cb sched, iteration) op" where
  "run_idle shared body stops idle s =
     (if getState idle s = TERM' then (Inr Exit, s)
      else thn (count_active 1)
          (thn (swapIn body idle)
          (thn (count_active (- 1))
          (\<lambda>s. if stops s then (Inr Exit, s)
                else (Inr Continue, if \<not> ended (getState idle s) then set_state HOLD idle s else s)))) s)"

definition run_iter ::
    "(nat \<Rightarrow> 'cb sched \<Rightarrow> bool) \<Rightarrow> 'cb body \<Rightarrow> ('cb sched \<Rightarrow> bool) \<Rightarrow> u32 \<Rightarrow> nat \<Rightarrow> int \<Rightarrow> ('cb sched, iteration) op" where
  "run_iter shared body stops stack_size idle tid s =
     (if stops s then (Inr Exit, s)
      else if \<not> (m_coroutines s \<noteq> [] \<or> m_idleFlag s \<or> m_stopping s) then (Inr Blocked, s)
      else case pick tid (\<lambda>p. getState p s) (m_coroutines s) of
          Inl e \<Rightarrow> (Inl e, s)
        | Inr None \<Rightarrow> run_idle shared body stops idle s
        | Inr (Some (ct, rest)) \<Rightarrow>
            let s1 = s\<lparr>m_activeCoroutineCount := m_activeCoroutineCount s + 1, m_coroutines := rest\<rparr> in
            (case (ct_coroutine ct, ct_cb ct) of
               (Some p, _) \<Rightarrow>
                 if \<not> ended (getState p s1) then run_coroutine shared body p s1
                 else if ct_cb ct \<noteq> None then run_callback shared body stack_size (the (ct_cb ct)) s1
                 else run_idle shared body stops idle s1
             | (None, Some cb) \<Rightarrow> run_callback shared body stack_size cb s1
             | (None, None) \<Rightarrow> run_idle shared body stops idle s1))"

text \<open>The loop, for at most \<open>fuel\<close> iterations; a blocked thread waits for a notification.\<close>

fun run_loop ::
    "(nat \<Rightarrow> 'cb sched \<Rightarrow> bool) \<Rightarrow> 'cb body \<Rightarrow> ('cb sched \<Rightarrow> bool) \<Rightarrow> u32 \<Rightarrow> nat \<Rightarrow> int \<Rightarrow> nat \<Rightarrow> ('cb sched, iteration) op" where
  "run_loop shared body stops stack_size idle tid 0 s = (Inl Out_Of_Fuel, s)"
| "run_loop shared body stops stack_size idle tid (Suc fuel) s =
     (case run_iter shared body stops stack_size idle tid s of
        (Inr Continue, s1) \<Rightarrow> run_loop shared body stops stack_size idle tid fuel s1
      | r \<Rightarrow> r)"

text \<open>\<open>run()\<close>: the idle coroutine is created first and destroyed when the loop is left.\<close>

definition run :: "(nat \<Rightarrow> 'cb sched \<Rightarrow> bool) \<Rightarrow> 'cb body \<Rightarrow> ('cb sched \<Rightarrow> bool) \<Rightarrow> u32 \<Rightarrow> 'cb \<Rightarrow> int \<Rightarrow> nat \<Rightarrow> ('cb sched, iteration) op" where
  "run shared body stops stack_size idle_cb tid fuel s =
     (let s1 = (if tid \<noteq> m_mainThreadId s
                then let (p, s') = GetThis s in s'\<lparr>t_scheduler_coroutine := Some p\<rparr> else s);
          (idle, s2) = Coroutine_new stack_size (Some idle_cb) 0 ''idle coroutine'' s1
      in bnd (run_loop shared body stops stack_size idle tid fuel)
           (\<lambda>r. if r = Exit then thn (drop_ref shared idle) (ret r) else ret r) s2)"

section \<open>Picking a task\<close>

definition runnable :: "int \<Rightarrow> (nat \<Rightarrow> State) \<Rightarrow> 'cb task \<Rightarrow> bool" where
  "runnable tid st t \<longleftrightarrow> (ct_threadId t = -1 \<or> ct_threadId t = tid)
     \<and> (\<forall>p. ct_coroutine t = Some p \<longrightarrow> st p \<noteq> EXEC)"

definition no_empty :: "'cb task list \<Rightarrow> bool" where
  "no_empty ts \<longleftrightarrow> (\<forall>t \<in> set ts. \<not> empty_task t)"

lemma pick_skip: "\<not> runnable tid st t \<Longrightarrow> \<not> empty_task t \<Longrightarrow> pick tid st (t # ts) =
    (case pick tid st ts of Inr (Some (ct, rest)) \<Rightarrow> Inr (Some (ct, t # rest)) | r \<Rightarrow> r)"
  by (auto simp: runnable_def Let_def)

lemma pick_take: "runnable tid st t \<Longrightarrow> \<not> empty_task t \<Longrightarrow> pick tid st (t # ts) = Inr (Some (t, ts))"
  by (auto simp: runnable_def Let_def split: option.split)

lemma pick_none: "no_empty ts \<Longrightarrow> \<forall>t \<in> set ts. \<not> runnable tid st t \<Longrightarrow> pick tid st ts = Inr None"
proof (induction ts)
  case (Cons t ts)
  then show ?case using pick_skip [of tid st t ts] by (simp add: no_empty_def)
qed simp

lemma pick_first:
  "no_empty (pre @ t # post) \<Longrightarrow> \<forall>x \<in> set pre. \<not> runnable tid st x \<Longrightarrow> runnable tid st t \<Longrightarrow>
   pick tid st (pre @ t # post) = Inr (Some (t, pre @ post))"
proof (induction pre)
  case Nil
  then show ?case using pick_take [of tid st t post] by (simp add: no_empty_def)
next
  case (Cons x pre)
  then have "pick tid st (pre @ t # post) = Inr (Some (t, pre @ post))" by (simp add: no_empty_def)
  then show ?case using Cons.prems pick_skip [of tid st x "pre @ t # post"] by (simp add: no_empty_def)
qed

section \<open>Running a task\<close>

text \<open>What running code may do to the scheduler: add tasks at the end, create coroutines, stop it.\<close>

definition task_body :: "'cb body \<Rightarrow> bool" where
  "task_body body \<longleftrightarrow> (\<forall>p s. t_coroutine s = Some p \<longrightarrow> getState p s = EXEC \<longrightarrow>
     (let s' = snd (body p s) in
        t_coroutine s' = Some p \<and> getState p s' = EXEC
      \<and> t_scheduler_coroutine s' = t_scheduler_coroutine s
      \<and> c_stack (c_objs s' p) = c_stack (c_objs s p) \<and> c_stacksize (c_objs s' p) = c_stacksize (c_objs s p)
      \<and> c_fresh s \<le> c_fresh s' \<and> m_activeCoroutineCount s' = m_activeCoroutineCount s
      \<and> (m_stopping s \<longrightarrow> m_stopping s') \<and> (\<exists>added. no_empty added \<and> m_coroutines s' = m_coroutines s @ added)))"

text \<open>Code that runs to its end without giving up the processor and schedules nothing.\<close>

definition plain_body :: "'cb body \<Rightarrow> bool" where
  "plain_body body \<longleftrightarrow> (\<forall>p s. fst (body p s) = Returned \<and> m_coroutines (snd (body p s)) = m_coroutines s)"

definition over :: "exit \<Rightarrow> bool" where
  "over how \<longleftrightarrow> how = Returned \<or> how = Threw"

lemma sched_sel [simp]:
  "m_coroutines (set_state x p s) = m_coroutines s" "m_coroutines (SetThis y s) = m_coroutines s"
  "m_coroutines (update_co p f s) = m_coroutines s"
  "m_activeCoroutineCount (set_state x p s) = m_activeCoroutineCount s"
  "m_activeCoroutineCount (SetThis y s) = m_activeCoroutineCount s"
  "m_activeCoroutineCount (update_co p f s) = m_activeCoroutineCount s"
  "m_stopping (set_state x p s) = m_stopping s" "m_stopping (SetThis y s) = m_stopping s"
  "m_stopping (update_co p f s) = m_stopping s"
  "c_fresh (set_state x p s) = c_fresh s" "c_fresh (SetThis y s) = c_fresh s" "c_fresh (update_co p f s) = c_fresh s"
  "c_stack (c_objs (set_state x p s) q) = c_stack (c_objs s q)"
  "c_stacksize (c_objs (set_state x p s) q) = c_stacksize (c_objs s q)"
  by (simp_all add: set_state_def SetThis_def update_co_def)

lemma leave_sched:
  assumes "t_coroutine s = Some p"
  shows "m_coroutines (leave how s) = m_coroutines s" "m_activeCoroutineCount (leave how s) = m_activeCoroutineCount s"
    "m_stopping (leave how s) = m_stopping s" "c_fresh (leave how s) = c_fresh s"
    "c_stack (c_objs (leave how s) q) = c_stack (c_objs s q)"
    "c_stacksize (c_objs (leave how s) q) = c_stacksize (c_objs s q)"
  unfolding leave_eq [OF assms] by simp_all

text \<open>The state between entering a coroutine and the loop carrying on.\<close>

definition entered :: "'cb sched \<Rightarrow> nat \<Rightarrow> exit \<Rightarrow> 'cb sched \<Rightarrow> bool" where
  "entered s p how s' \<longleftrightarrow> getState p s' = state_after how
     \<and> t_coroutine s' = t_scheduler_coroutine s \<and> t_scheduler_coroutine s' = t_scheduler_coroutine s
     \<and> c_stack (c_objs s' p) = c_stack (c_objs s p) \<and> c_stacksize (c_objs s' p) = c_stacksize (c_objs s p)
     \<and> c_fresh s \<le> c_fresh s' \<and> m_activeCoroutineCount s' = m_activeCoroutineCount s
     \<and> (m_stopping s \<longrightarrow> m_stopping s') \<and> (\<exists>added. no_empty added \<and> m_coroutines s' = m_coroutines s @ added)"

lemma swapIn_entered:
  assumes body: "task_body body" and st: "getState p s \<noteq> EXEC" and m: "t_scheduler_coroutine s = Some m" "m \<noteq> p"
  shows "\<exists>how s'. swapIn body p s = (Inr (), s') \<and> entered s p how s'
    \<and> (plain_body body \<longrightarrow> over how \<and> m_coroutines s' = m_coroutines s)"
proof -
  let ?s2 = "set_state EXEC p (SetThis (Some p) s)"
  obtain how s3 where b: "(if getState p s = INIT \<and> c_cb (c_objs ?s2 p) = None then (Threw, ?s2) else body p ?s2) = (how, s3)"
    by fastforce
  have s3: "(plain_body body \<longrightarrow> over how \<and> m_coroutines s3 = m_coroutines s) \<and> t_coroutine s3 = Some p \<and> t_scheduler_coroutine s3 = Some m
      \<and> c_stack (c_objs s3 p) = c_stack (c_objs s p) \<and> c_stacksize (c_objs s3 p) = c_stacksize (c_objs s p)
      \<and> c_fresh s \<le> c_fresh s3 \<and> m_activeCoroutineCount s3 = m_activeCoroutineCount s
      \<and> (m_stopping s \<longrightarrow> m_stopping s3) \<and> (\<exists>added. no_empty added \<and> m_coroutines s3 = m_coroutines s @ added)"
  proof (cases "getState p s = INIT \<and> c_cb (c_objs ?s2 p) = None")
    case True
    then have "s3 = ?s2" "how = Threw" using b by auto
    then show ?thesis using m by (auto simp: no_empty_def over_def intro!: exI [of _ "[]"])
  next
    case False
    then have "body p ?s2 = (how, s3)" using b by argo
    moreover have "plain_body body \<longrightarrow> over how \<and> m_coroutines s3 = m_coroutines s"
      using \<open>body p ?s2 = (how, s3)\<close> unfolding plain_body_def over_def by (auto dest!: spec [of _ p] spec [of _ ?s2])
    ultimately show ?thesis using body m(1) unfolding task_body_def Let_def
      by (auto dest!: spec [of _ p] spec [of _ ?s2])
  qed
  moreover have "swapIn body p s = (Inr (), leave how s3)"
    using b st m(1) by (simp add: swapIn_def Let_def)
  ultimately show ?thesis
    using leave_spec(1,3,4) [of s3 p] leave_sched [of s3 p how] m
    by (intro exI [of _ how] exI [of _ "leave how s3"]) (simp add: entered_def)
qed

text \<open>What the loop makes of a coroutine that has come back.\<close>

definition rescheduled :: "nat \<Rightarrow> exit \<Rightarrow> 'cb task list" where
  "rescheduled p how = (if how = Yield_Ready then [task_co (Some p) (-1)] else [])"

lemma queue_schedule [simp]:
  "m_coroutines (schedule ct s) = m_coroutines s @ (if empty_task ct then [] else [ct])"
  "m_activeCoroutineCount (schedule ct s) = m_activeCoroutineCount s"
  "getState p (schedule ct s) = getState p s" "m_stopping (schedule ct s) = m_stopping s"
  "t_scheduler_coroutine (schedule ct s) = t_scheduler_coroutine s" "c_fresh (schedule ct s) = c_fresh s"
  by (auto simp: schedule_def scheduleNoLock_def notify_if_def empty_task_def getState_def)

lemma objs_schedule [simp]: "c_objs (schedule ct s) = c_objs s"
  by (auto simp: schedule_def scheduleNoLock_def notify_if_def)

lemma getState_update: "getState p (update_co q f s) = (if p = q then c_state (f (c_objs s q)) else getState p s)"
  by (simp add: getState_def)

lemma drop_ref_fields:
  "m_coroutines (snd (drop_ref shared p s)) = m_coroutines s"
  "m_activeCoroutineCount (snd (drop_ref shared p s)) = m_activeCoroutineCount s"
  "getState q (snd (drop_ref shared p s)) = getState q s"
  "t_scheduler_coroutine (snd (drop_ref shared p s)) = t_scheduler_coroutine s"
  "c_fresh (snd (drop_ref shared p s)) = c_fresh s"
  "m_stopping (snd (drop_ref shared p s)) = m_stopping s"
  by (simp_all add: drop_ref_def Coroutine_delete_def Let_def SetThis_def getState_def)

lemma drop_ref_result:
  "c_stack (c_objs s p) \<Longrightarrow> fst (drop_ref shared p s) =
    (if shared p s \<or> (\<exists>ct \<in> set (m_coroutines s). ct_coroutine ct = Some p) \<or> finished (getState p s)
     then Inr () else Inl Assert_Failed)"
  by (simp add: drop_ref_def Coroutine_delete_def Let_def getState_def)

lemma thn_drop_ret:
  "thn (drop_ref shared p) (ret x) s =
     (case fst (drop_ref shared p s) of Inl e \<Rightarrow> Inl e | Inr _ \<Rightarrow> Inr x, snd (drop_ref shared p s))"
  by (cases "drop_ref shared p s") (simp add: thn_run split: sum.split)

lemma run_coroutine_spec:
  assumes body: "task_body body" and st: "getState p s \<noteq> EXEC"
    and m: "t_scheduler_coroutine s = Some m" "m \<noteq> p" and stk: "c_stack (c_objs s p)"
  shows "\<exists>how added s'. run_coroutine shared body p s =
      (if how = Yield_Hold \<and> \<not> shared p s' \<and> (\<forall>ct \<in> set (m_coroutines s'). ct_coroutine ct \<noteq> Some p)
       then Inl Assert_Failed else Inr Continue, snd (drop_ref shared p s'))
    \<and> no_empty added \<and> m_coroutines s' = m_coroutines s @ added @ rescheduled p how
    \<and> m_activeCoroutineCount s' = m_activeCoroutineCount s - 1 \<and> getState p s' = state_after how"
proof -
  obtain how s1 where b: "swapIn body p s = (Inr (), s1)" and e: "entered s p how s1"
    using swapIn_entered [OF body st m] by blast
  obtain added where added: "no_empty added" "m_coroutines s1 = m_coroutines s @ added"
    using e by (auto simp: entered_def)
  define s2 where "s2 = s1\<lparr>m_activeCoroutineCount := m_activeCoroutineCount s1 + (- 1)\<rparr>"
  have count: "count_active (- 1) s1 = (Inr (), s2)" by (simp add: count_active_def s2_def)
  define s3 where "s3 = (if how = Yield_Ready then schedule (task_co (Some p) (-1)) s2
      else if how = Yield_Hold then set_state HOLD p s2 else s2)"
  have s1: "getState p s1 = state_after how" "c_stack (c_objs s1 p)" using e stk by (simp_all add: entered_def)
  then have g2: "getState p s2 = state_after how" "c_stack (c_objs s2 p)" by (simp_all add: s2_def getState_def)
  have step: "settle_coroutine p s2 = (Inr (), s3)"
    unfolding settle_coroutine_def g2 s3_def by (cases how) (simp_all add: ended_def)
  have g3: "getState p s3 = state_after how" "c_stack (c_objs s3 p)"
    using g2 by (cases how; simp add: s3_def)+
  have q3: "m_coroutines s3 = m_coroutines s @ added @ rescheduled p how"
    by (simp add: s3_def rescheduled_def s2_def added task_co_def empty_task_def)
  have a3: "m_activeCoroutineCount s3 = m_activeCoroutineCount s - 1"
    using e by (simp add: s3_def s2_def entered_def)
  have "run_coroutine shared body p s = thn (drop_ref shared p) (ret Continue) s3"
    unfolding run_coroutine_def thn_ok [of "swapIn body p", OF b] thn_ok [of "count_active (- 1)", OF count]
      thn_ok [of "settle_coroutine p", OF step] ..
  moreover have "(\<exists>ct \<in> set (m_coroutines s3). ct_coroutine ct = Some p) \<or> how \<noteq> Yield_Ready"
    unfolding q3 by (auto simp: rescheduled_def task_co_def)
  then have "fst (drop_ref shared p s3) =
      (if how = Yield_Hold \<and> \<not> shared p s3 \<and> (\<forall>ct \<in> set (m_coroutines s3). ct_coroutine ct \<noteq> Some p)
       then Inl Assert_Failed else Inr ())"
    unfolding drop_ref_result [OF g3(2)] g3(1) by (cases how) (auto simp: finished_def)
  then have "thn (drop_ref shared p) (ret Continue) s3 =
      (if how = Yield_Hold \<and> \<not> shared p s3 \<and> (\<forall>ct \<in> set (m_coroutines s3). ct_coroutine ct \<noteq> Some p)
       then Inl Assert_Failed else Inr Continue, snd (drop_ref shared p s3))"
    unfolding thn_drop_ret by simp
  ultimately show ?thesis
    using q3 a3 g3(1) added(1) by (intro exI [of _ how] exI [of _ added] exI [of _ s3] conjI) (simp_all only:)
qed

lemma run_callback_spec:
  assumes body: "task_body body" and m: "t_scheduler_coroutine s = Some m" "m < c_fresh s" and sz: "stack_size \<noteq> 0"
  shows "\<exists>how added s'. run_callback shared body stack_size cb s =
      (if how = Yield_Hold \<and> \<not> shared (c_fresh s) s' \<and> (\<forall>ct \<in> set (m_coroutines s'). ct_coroutine ct \<noteq> Some (c_fresh s))
       then Inl Assert_Failed else Inr Continue, snd (drop_ref shared (c_fresh s) s'))
    \<and> no_empty added \<and> m_coroutines s' = m_coroutines s @ added @ rescheduled (c_fresh s) how
    \<and> m_activeCoroutineCount s' = m_activeCoroutineCount s - 1
    \<and> t_scheduler_coroutine s' = Some m \<and> m < c_fresh s' \<and> (m_stopping s \<longrightarrow> m_stopping s')
    \<and> (plain_body body \<longrightarrow> over how \<and> added = [])"
proof -
  let ?p = "c_fresh s"
  define s0 where "s0 = snd (Coroutine_new stack_size (Some cb) 0 ''User Coroutine'' s)"
  have new: "Coroutine_new stack_size (Some cb) 0 ''User Coroutine'' s = (?p, s0)"
    by (simp add: s0_def Coroutine_new_def Let_def)
  have s0: "m_coroutines s0 = m_coroutines s" "m_activeCoroutineCount s0 = m_activeCoroutineCount s"
    "getState ?p s0 = INIT" "t_scheduler_coroutine s0 = Some m" "c_stack (c_objs s0 ?p)"
    "c_stacksize (c_objs s0 ?p) = stack_size" "c_fresh s0 = Suc (c_fresh s)" "m_stopping s0 = m_stopping s"
    using m by (simp_all add: s0_def Coroutine_new_def Let_def getState_def)
  obtain how s1 where b: "swapIn body ?p s0 = (Inr (), s1)" and e: "entered s0 ?p how s1"
    and pl: "plain_body body \<longrightarrow> over how \<and> m_coroutines s1 = m_coroutines s0"
    using swapIn_entered [OF body _ s0(4), of ?p] s0(3) m(2) by auto
  obtain added where added: "no_empty added" "m_coroutines s1 = m_coroutines s @ added"
    using e s0 by (auto simp: entered_def)
  define s2 where "s2 = s1\<lparr>m_activeCoroutineCount := m_activeCoroutineCount s1 + (- 1)\<rparr>"
  have count: "count_active (- 1) s1 = (Inr (), s2)" by (simp add: count_active_def s2_def)
  define s3 where "s3 = (if how = Yield_Ready then schedule (task_co (Some ?p) (-1)) s2
      else if how = Yield_Hold then set_state HOLD ?p s2
      else update_co ?p (\<lambda>c. c\<lparr>c_cb := None, c_name := '''', c_state := INIT\<rparr>) s2)"
  have g2: "getState ?p s2 = state_after how" "c_stack (c_objs s2 ?p)" "c_stacksize (c_objs s2 ?p) \<noteq> 0"
    using e s0 sz by (simp_all add: s2_def getState_def entered_def)
  have step: "settle_callback ?p s2 = (Inr (), s3)"
    using g2 unfolding s3_def settle_callback_def
    by (cases how) (simp_all add: ended_def Coroutine_reset_def finished_def getState_def)
  have g3: "getState ?p s3 = (if how = Yield_Ready then READY else if how = Yield_Hold then HOLD else INIT)"
      "c_stack (c_objs s3 ?p)"
    using g2(1,2) by (cases how; simp add: s3_def getState_update)+
  have q3: "m_coroutines s3 = m_coroutines s @ added @ rescheduled ?p how"
    by (simp add: s3_def rescheduled_def s2_def added task_co_def empty_task_def)
  have rest: "m_activeCoroutineCount s3 = m_activeCoroutineCount s - 1" "t_scheduler_coroutine s3 = Some m"
    "m < c_fresh s3" "m_stopping s \<longrightarrow> m_stopping s3" "plain_body body \<longrightarrow> over how \<and> added = []"
    using e s0 m(2) pl added(2) by (simp_all add: s3_def s2_def entered_def)
  have "run_callback shared body stack_size cb s = thn (drop_ref shared ?p) (ret Continue) s3"
    unfolding run_callback_def
    by (simp add: bnd_run new thn_ok [of "swapIn body (c_fresh s)", OF b] thn_ok [of "count_active (- 1)", OF count]
        thn_ok [of "settle_callback (c_fresh s)", OF step])
  moreover have "(\<exists>ct \<in> set (m_coroutines s3). ct_coroutine ct = Some ?p) \<or> how \<noteq> Yield_Ready"
    unfolding q3 by (auto simp: rescheduled_def task_co_def)
  then have "fst (drop_ref shared ?p s3) =
      (if how = Yield_Hold \<and> \<not> shared ?p s3 \<and> (\<forall>ct \<in> set (m_coroutines s3). ct_coroutine ct \<noteq> Some ?p)
       then Inl Assert_Failed else Inr ())"
    unfolding drop_ref_result [OF g3(2)] g3(1) by (cases how) (auto simp: finished_def)
  then have "thn (drop_ref shared ?p) (ret Continue) s3 =
      (if how = Yield_Hold \<and> \<not> shared ?p s3 \<and> (\<forall>ct \<in> set (m_coroutines s3). ct_coroutine ct \<noteq> Some ?p)
       then Inl Assert_Failed else Inr Continue, snd (drop_ref shared ?p s3))"
    unfolding thn_drop_ret by simp
  ultimately show ?thesis
    using q3 rest added(1) by (intro exI [of _ how] exI [of _ added] exI [of _ s3] conjI) (simp_all only:)
qed

section \<open>Properties\<close>


text \<open>A body that returns at once, and a state with one coroutine in the queue.\<close>

definition returns_body :: "'cb body" where
  "returns_body p s = (Returned, s)"

lemma returns_body_ok: "task_body returns_body" "plain_body returns_body"
  by (auto simp: task_body_def plain_body_def returns_body_def no_empty_def intro: exI [of _ "[]"])

definition one_task :: "State \<Rightarrow> string sched" where
  "one_task st =
     \<lparr>c_objs = (\<lambda>p. \<lparr>c_id = of_nat p, c_stacksize = 1024, c_state = (if p = 5 then st else INIT), c_stack = True,
                   c_cb = Some ''f'', c_name = ''c''\<rparr>),
      c_fresh = 9, s_coroutine_id = 3, s_coroutine_count = 3, t_coroutine = Some 0, t_thread_coroutine = Some 0,
      t_scheduler_coroutine = Some 0, m_coroutines = [task_co (Some 5) (-1)], m_activeCoroutineCount = 0,
      m_stopping = False, m_idleFlag = True, m_threads = [], m_threadIds = [], m_threadCount = 1,
      m_mainThreadId = 7, m_mainCoroutine = None, m_notifies = 0\<rparr>"

lemma one_task_sel [simp]:
  "m_coroutines (one_task st) = [task_co (Some 5) (-1)]" "t_scheduler_coroutine (one_task st) = Some 0"
  "getState 5 (one_task st) = st" "getState 2 (one_task st) = INIT" "c_stack (c_objs (one_task st) p)"
  "m_activeCoroutineCount (one_task st) = 0" "m_stopping (one_task st) = False" "m_idleFlag (one_task st) = True"
  "c_fresh (one_task st) = 9"
  by (simp_all add: one_task_def getState_def)


text \<open>A coroutine that has already ended is still taken off the queue and counted as active, but
  the iteration then goes to the idle branch, and the count is never taken back: each such task
  raises \<open>m_activeCoroutineCount\<close> by one for good.\<close>

theorem ended_task_leaks_count:
  assumes "task_body body" "\<not> stops s" and queue: "m_coroutines s = t # ts" "\<not> empty_task t" "ct_threadId t = -1"
    and co: "ct_coroutine t = Some p" "ended (getState p s)" "ct_cb t = None"
    and idle: "getState idle s \<noteq> TERM'" "getState idle s \<noteq> EXEC" "t_scheduler_coroutine s = Some m" "m \<noteq> idle"
  shows "\<exists>r s'. run_iter shared body stops stack_size idle tid s = (Inr r, s')
    \<and> m_activeCoroutineCount s' = m_activeCoroutineCount s + 1
    \<and> (\<exists>added. m_coroutines s' = ts @ added)"
proof -
  define s1 where "s1 = s\<lparr>m_activeCoroutineCount := m_activeCoroutineCount s + 1, m_coroutines := ts\<rparr>"
  define s2 where "s2 = s1\<lparr>m_activeCoroutineCount := m_activeCoroutineCount s1 + 1\<rparr>"
  have "runnable tid (\<lambda>p. getState p s) t" using queue co by (auto simp: runnable_def ended_def)
  then have "pick tid (\<lambda>p. getState p s) (m_coroutines s) = Inr (Some (t, ts))"
    unfolding queue(1) using queue(2) by (rule pick_take)
  then have run: "run_iter shared body stops stack_size idle tid s = run_idle shared body stops idle s1"
    using assms(2) queue(1) co by (simp add: run_iter_def s1_def Let_def getState_def)
  have s1: "getState idle s1 = getState idle s" by (simp add: s1_def getState_def)
  have c1: "count_active 1 s1 = (Inr (), s2)" by (simp add: count_active_def s2_def)
  have s2: "getState idle s2 \<noteq> EXEC" "t_scheduler_coroutine s2 = Some m"
    using idle by (simp_all add: s2_def s1_def getState_def)
  obtain how s3 where b: "swapIn body idle s2 = (Inr (), s3)" and e: "entered s2 idle how s3"
    using swapIn_entered [OF assms(1) s2(1,2) idle(4)] by blast
  define s4 where "s4 = s3\<lparr>m_activeCoroutineCount := m_activeCoroutineCount s3 + (- 1)\<rparr>"
  have c4: "count_active (- 1) s3 = (Inr (), s4)" by (simp add: count_active_def s4_def)
  have "run_idle shared body stops idle s1 =
      (if stops s4 then (Inr Exit, s4) else (Inr Continue, if \<not> ended (getState idle s4) then set_state HOLD idle s4 else s4))"
    unfolding run_idle_def s1 thn_ok [of "count_active 1", OF c1] thn_ok [of "swapIn body idle", OF b]
      thn_ok [of "count_active (- 1)", OF c4] using idle(1) by simp
  moreover have "m_activeCoroutineCount s4 = m_activeCoroutineCount s + 1" "\<exists>added. m_coroutines s4 = ts @ added"
    using e by (auto simp: s4_def s2_def s1_def entered_def)
  ultimately show ?thesis unfolding run by (cases "stops s4") auto
qed

lemma ended_task_leaks_count_witness:
  "\<exists>r s'. run_iter (\<lambda>_ _. True) returns_body stopping 1024 2 7 (one_task TERM') = (Inr r, s') \<and> m_activeCoroutineCount s' = 1"
  using ended_task_leaks_count [OF returns_body_ok(1), of stopping "one_task TERM'" "task_co (Some 5) (-1)" "[]" 5 2 0
      "\<lambda>_ _. True" 1024 7]
  by (auto simp: stopping_def empty_task_def task_co_def ended_def)



end
