(* ===== verification/Fd_Manager.thy ===== *)
theory Fd_Manager
  imports Prelude
begin

text \<open>
  \<open>src/src/fd_manager.h\<close> and \<open>src/src/fd_manager.cpp\<close>: what the hooks know about a file descriptor,
  and the table of these contexts. The kernel's answers are the record \<open>kernel\<close>: \<open>k_socket\<close> is
  \<open>fstat\<close> (\<open>None\<close> when it fails, otherwise whether the descriptor is a socket), \<open>k_flags\<close> the status
  flags \<open>F_GETFL\<close> reports. A context is a value, as all accesses to it go through the table.
\<close>

section \<open>Contexts\<close>

record fd_ctx =
  m_isInit :: bool
  m_isSocket :: bool
  m_sysNonblock :: bool
  m_userNonblock :: bool
  m_isClosed :: bool
  m_fd :: int
  m_recvTimeout :: u64
  m_sendTimeout :: u64

record kernel =
  k_socket :: "int \<Rightarrow> bool option"
  k_flags :: "int \<Rightarrow> u32"

definition O_NONBLOCK :: u32 where "O_NONBLOCK = 0x800"
definition SO_RCVTIMEO :: int where "SO_RCVTIMEO = 20"
definition SO_SNDTIMEO :: int where "SO_SNDTIMEO = 21"

text \<open>\<open>init\<close> also puts a socket into non-blocking mode: the result says which flags it sets, if any.\<close>

definition FdCtx_init :: "kernel \<Rightarrow> fd_ctx \<Rightarrow> u32 option \<times> fd_ctx" where
  "FdCtx_init k c =
     (if m_isInit c then (None, c)
      else let c1 = (case k_socket k (m_fd c) of
                       None \<Rightarrow> c\<lparr>m_isInit := False, m_isSocket := False\<rparr>
                     | Some s \<Rightarrow> c\<lparr>m_isInit := True, m_isSocket := s\<rparr>);
               flag = k_flags k (m_fd c);
               call = (if m_isSocket c1 \<and> flag AND O_NONBLOCK = 0 then Some (flag OR O_NONBLOCK) else None)
           in (call, c1\<lparr>m_sysNonblock := m_isSocket c1, m_userNonblock := False, m_isClosed := False\<rparr>))"

definition FdCtx_new :: "kernel \<Rightarrow> int \<Rightarrow> u32 option \<times> fd_ctx" where
  "FdCtx_new k fd = FdCtx_init k
     \<lparr>m_isInit = False, m_isSocket = False, m_sysNonblock = False, m_userNonblock = False, m_isClosed = False,
      m_fd = fd, m_recvTimeout = -1, m_sendTimeout = -1\<rparr>"

definition setTimeout :: "int \<Rightarrow> u64 \<Rightarrow> fd_ctx \<Rightarrow> fd_ctx" where
  "setTimeout type v c = (if type = SO_RCVTIMEO then c\<lparr>m_recvTimeout := v\<rparr> else c\<lparr>m_sendTimeout := v\<rparr>)"

definition getTimeout :: "int \<Rightarrow> fd_ctx \<Rightarrow> u64" where
  "getTimeout type c = (if type = SO_RCVTIMEO then m_recvTimeout c else m_sendTimeout c)"

definition setUserNonblock :: "bool \<Rightarrow> fd_ctx \<Rightarrow> fd_ctx" where
  "setUserNonblock v c = c\<lparr>m_userNonblock := v\<rparr>"

lemma getTimeout_setTimeout:
  "getTimeout SO_RCVTIMEO (setTimeout SO_RCVTIMEO v c) = v" "getTimeout SO_SNDTIMEO (setTimeout SO_SNDTIMEO v c) = v"
  "getTimeout SO_SNDTIMEO (setTimeout SO_RCVTIMEO v c) = getTimeout SO_SNDTIMEO c"
  "getTimeout SO_RCVTIMEO (setTimeout SO_SNDTIMEO v c) = getTimeout SO_RCVTIMEO c"
  by (simp_all add: getTimeout_def setTimeout_def SO_RCVTIMEO_def SO_SNDTIMEO_def)

section \<open>The table\<close>

type_synonym fd_table = "fd_ctx option list"

definition FdManager_new :: fd_table where
  "FdManager_new = replicate 64 None"

definition resize :: "nat \<Rightarrow> fd_table \<Rightarrow> fd_table" where
  "resize n ds = take n ds @ replicate (n - length ds) None"

text \<open>\<open>fd * 1.5\<close> is computed in \<open>double\<close> and truncated; a negative descriptor other than -1 passes the
  range check and indexes the vector.\<close>

definition fdm_get :: "kernel \<Rightarrow> int \<Rightarrow> bool \<Rightarrow> (fd_table, fd_ctx option) op" where
  "fdm_get k fd auto_create ds =
     (if fd = -1 then (Inr None, ds)
      else if fd \<ge> int (length ds) \<and> \<not> auto_create then (Inr None, ds)
      else if fd < 0 then (Inl Bad_Index, ds)
      else if fd < int (length ds) \<and> ds ! nat fd \<noteq> None then (Inr (ds ! nat fd), ds)
      else let (_, ctx) = FdCtx_new k fd;
               ds1 = (if auto_create then resize (3 * nat fd div 2) ds else ds)
           in if nat fd < length ds1 then (Inr (Some ctx), ds1[nat fd := Some ctx]) else (Inl Bad_Index, ds1))"

definition fdm_del :: "int \<Rightarrow> (fd_table, unit) op" where
  "fdm_del fd ds =
     (if fd \<ge> int (length ds) then (Inr (), ds)
      else if fd < 0 then (Inl Bad_Index, ds)
      else (Inr (), ds[nat fd := None]))"

definition lookup :: "int \<Rightarrow> fd_table \<Rightarrow> fd_ctx option" where
  "lookup fd ds = (if 0 \<le> fd \<and> fd < int (length ds) then ds ! nat fd else None)"

lemma length_fds_resize [simp]: "length (resize n ds) = n"
  by (simp add: resize_def)

lemma lookup_resize: "lookup fd (resize n ds) = (if fd < int n then lookup fd ds else None)"
  by (auto simp: lookup_def resize_def nth_append min_def)

lemma lookup_update:
  "0 \<le> fd \<Longrightarrow> fd < int (length ds) \<Longrightarrow> lookup fd' (ds[nat fd := x]) = (if fd' = fd then x else lookup fd' ds)"
  by (auto simp: lookup_def nth_list_update nat_eq_iff)

lemma m_fd_new: "m_fd (snd (FdCtx_new k fd)) = fd"
  by (simp add: FdCtx_new_def FdCtx_init_def Let_def split: option.split)

lemma fdm_get_hit:
  "fd \<noteq> -1 \<Longrightarrow> lookup fd ds = Some c \<Longrightarrow> fdm_get k fd auto_create ds = (Inr (Some c), ds)"
  by (auto simp: fdm_get_def lookup_def split: if_splits)

section \<open>Properties\<close>

text \<open>Every context in the table is at its own descriptor.\<close>

definition fdm_inv :: "fd_table \<Rightarrow> bool" where
  "fdm_inv ds \<longleftrightarrow> (\<forall>fd c. lookup fd ds = Some c \<longrightarrow> m_fd c = fd)"

lemma fdm_inv_new: "fdm_inv FdManager_new"
  by (simp add: fdm_inv_def lookup_def FdManager_new_def nat_less_iff)

text \<open>Asking for a descriptor from 2 on that has no context, with \<open>auto_create\<close>, creates one at its
  place and returns it, and it is found from then on; but the table is resized to one and a half
  times the descriptor, also when that is smaller than it was, and every context from there on is
  lost. For descriptors 0 and 1 the resized table is too small and is indexed out of bounds.\<close>

theorem fdm_get_creates:
  assumes "fdm_inv ds" "0 \<le> fd" "lookup fd ds = None"
  shows "if fd < 2 then fst (fdm_get k fd True ds) = Inl Bad_Index
     else \<exists>c ds'. fdm_get k fd True ds = (Inr (Some c), ds') \<and> m_fd c = fd \<and> fdm_inv ds'
       \<and> fdm_get k fd a ds' = (Inr (Some c), ds')
       \<and> length ds' = nat (3 * fd div 2)
       \<and> (\<forall>fd'. fd' \<noteq> fd \<longrightarrow> lookup fd' ds' = (if fd' < 3 * fd div 2 then lookup fd' ds else None))"
proof (cases "fd < 2")
  case True
  then have "fd = 0 \<or> fd = 1" using assms(2) by linarith
  then show ?thesis using assms by (auto simp: fdm_get_def lookup_def split: prod.split)
next
  case False
  let ?n = "3 * nat fd div 2"
  obtain call ctx where new: "FdCtx_new k fd = (call, ctx)" by fastforce
  let ?ds = "(resize ?n ds)[nat fd := Some ctx]"
  have n: "nat fd < ?n" "int ?n = 3 * fd div 2" "nat (3 * fd div 2) = ?n" "fd < 3 * fd div 2" using False assms(2) by linarith+
  have run: "fdm_get k fd True ds = (Inr (Some ctx), ?ds)"
    using assms(2,3) n(1) False by (auto simp: fdm_get_def lookup_def new)
  have look: "lookup fd' ?ds = (if fd' = fd then Some ctx else if fd' < 3 * fd div 2 then lookup fd' ds else None)" for fd'
    using assms(2) n by (subst lookup_update) (auto simp: lookup_resize)
  have mfd: "m_fd ctx = fd" using m_fd_new [of k fd] new by simp
  then have "fdm_inv ?ds" using assms(1) unfolding fdm_inv_def look by auto
  moreover have "fdm_get k fd a ?ds = (Inr (Some ctx), ?ds)"
    using assms(2) by (intro fdm_get_hit) (simp_all add: look)
  ultimately show ?thesis using False run mfd look n(3) by (intro if_not_P [THEN iffD2]) auto
qed

definition socket_kernel :: kernel where
  "socket_kernel = \<lparr>k_socket = (\<lambda>_. Some True), k_flags = (\<lambda>_. 2)\<rparr>"

lemma fdm_get_creates_witness:
  "\<exists>c ds'. fdm_get socket_kernel 10 True FdManager_new = (Inr (Some c), ds') \<and> length ds' = 15"
  using fdm_get_creates [OF fdm_inv_new, of 10 socket_kernel True]
  by (auto simp: lookup_def FdManager_new_def)

text \<open>Without \<open>auto_create\<close>, too, a context is created for a descriptor inside the table that has
  none; only beyond the table nothing is returned. What is in the table is returned as it is.\<close>

theorem fdm_get_without_create:
  assumes "fdm_inv ds" "0 \<le> fd"
  shows "if fd \<ge> int (length ds) then fdm_get k fd False ds = (Inr None, ds)
     else \<exists>c ds'. fdm_get k fd False ds = (Inr (Some c), ds') \<and> m_fd c = fd
       \<and> (\<forall>c'. lookup fd ds = Some c' \<longrightarrow> c = c' \<and> ds' = ds)
       \<and> (lookup fd ds = None \<longrightarrow> c = snd (FdCtx_new k fd) \<and> ds' = ds[nat fd := Some c])"
proof (cases "fd \<ge> int (length ds)")
  case True
  then show ?thesis using assms(2) by (simp add: fdm_get_def)
next
  case False
  show ?thesis
  proof (cases "lookup fd ds")
    case None
    then have "fdm_get k fd False ds = (Inr (Some (snd (FdCtx_new k fd))), ds[nat fd := Some (snd (FdCtx_new k fd))])"
      using assms(2) False by (auto simp: fdm_get_def lookup_def split: prod.split)
    then show ?thesis using False None m_fd_new by (auto intro!: exI)
  next
    case (Some c)
    then have "m_fd c = fd" using assms(1) by (simp add: fdm_inv_def)
    then show ?thesis using False Some fdm_get_hit [OF _ Some, of k False] assms(2) by auto
  qed
qed

lemma fdm_get_without_create_witness:
  "\<exists>c ds'. fdm_get socket_kernel 10 False FdManager_new = (Inr (Some c), ds') \<and> m_fd c = 10"
  using fdm_get_without_create [OF fdm_inv_new, of 10 socket_kernel] by (auto simp: FdManager_new_def)

end
