(* ===== verification/Ordered_Set.thy ===== *)
theory Ordered_Set
  imports Prelude
begin

text \<open>
  \<open>std::set\<close> with a user-supplied comparator, as the list of its elements in iteration order. Two
  elements neither of which is before the other are the same element for the container. The locale
  \<open>comparator\<close> states the requirement the standard puts on the comparator (a strict weak order) and
  derives what the code relies on.
\<close>

section \<open>The operations\<close>

fun set_insert :: "('a \<Rightarrow> 'a \<Rightarrow> bool) \<Rightarrow> 'a \<Rightarrow> 'a list \<Rightarrow> 'a list" where
  "set_insert lt x [] = [x]"
| "set_insert lt x (y # ys) =
     (if lt x y then x # y # ys else if lt y x then y # set_insert lt x ys else y # ys)"

fun set_find :: "('a \<Rightarrow> 'a \<Rightarrow> bool) \<Rightarrow> 'a \<Rightarrow> 'a list \<Rightarrow> 'a option" where
  "set_find lt x [] = None"
| "set_find lt x (y # ys) =
     (if lt y x then set_find lt x ys else if lt x y then None else Some y)"

text \<open>The elements before \<open>lower_bound(x)\<close>, and those from it on.\<close>

fun before_bound :: "('a \<Rightarrow> 'a \<Rightarrow> bool) \<Rightarrow> 'a \<Rightarrow> 'a list \<Rightarrow> 'a list" where
  "before_bound lt x [] = []"
| "before_bound lt x (y # ys) = (if lt y x then y # before_bound lt x ys else [])"

fun from_bound :: "('a \<Rightarrow> 'a \<Rightarrow> bool) \<Rightarrow> 'a \<Rightarrow> 'a list \<Rightarrow> 'a list" where
  "from_bound lt x [] = []"
| "from_bound lt x (y # ys) = (if lt y x then from_bound lt x ys else y # ys)"

lemma bound_split: "before_bound lt x ys @ from_bound lt x ys = ys"
  by (induction ys) auto

lemma set_insert_cong:
  "(\<And>y. y \<in> set ys \<Longrightarrow> lt x y = lt' x y \<and> lt y x = lt' y x) \<Longrightarrow> set_insert lt x ys = set_insert lt' x ys"
  by (induction ys) auto

lemma sorted_wrt_cong:
  "(\<And>x y. x \<in> set ys \<Longrightarrow> y \<in> set ys \<Longrightarrow> lt x y = lt' x y) \<Longrightarrow> sorted_wrt lt ys = sorted_wrt lt' ys"
  by (induction ys) auto

section \<open>The contract of a comparator\<close>

locale comparator =
  fixes lt :: "'a \<Rightarrow> 'a \<Rightarrow> bool"
  assumes irrefl: "\<not> lt x x"
    and trans: "lt x y \<Longrightarrow> lt y z \<Longrightarrow> lt x z"
    and incomparable_trans: "\<not> lt x y \<Longrightarrow> \<not> lt y x \<Longrightarrow> \<not> lt y z \<Longrightarrow> \<not> lt z y \<Longrightarrow> \<not> lt x z \<and> \<not> lt z x"
begin

abbreviation equiv :: "'a \<Rightarrow> 'a \<Rightarrow> bool" where
  "equiv x y \<equiv> \<not> lt x y \<and> \<not> lt y x"

lemma asym: "lt x y \<Longrightarrow> \<not> lt y x"
  using irrefl trans by blast

lemma lt_equiv: "lt x y \<Longrightarrow> equiv y z \<Longrightarrow> lt x z"
  using asym trans incomparable_trans by metis

lemma equiv_lt: "equiv x y \<Longrightarrow> lt y z \<Longrightarrow> lt x z"
  using asym trans incomparable_trans by metis

lemma set_insert_subset: "set (set_insert lt x ys) \<subseteq> insert x (set ys)"
  by (induction ys) auto

lemma set_insert_superset: "set ys \<subseteq> set (set_insert lt x ys)"
  by (induction ys) auto

lemma set_insert_present:
  "sorted_wrt lt ys \<Longrightarrow> y \<in> set ys \<Longrightarrow> equiv x y \<Longrightarrow> set_insert lt x ys = ys"
proof (induction ys)
  case (Cons z zs)
  then consider "y = z" | "y \<in> set zs" by auto
  then show ?case
  proof cases
    case 1 with Cons.prems show ?thesis by simp
  next
    case 2
    with Cons.prems have "lt z x" using lt_equiv by auto
    then show ?thesis using 2 Cons asym by auto
  qed
qed simp

lemma set_insert_fresh:
  "(\<And>y. y \<in> set ys \<Longrightarrow> \<not> equiv x y) \<Longrightarrow> set (set_insert lt x ys) = insert x (set ys)"
  by (induction ys) auto

lemma sorted_insert: "sorted_wrt lt ys \<Longrightarrow> sorted_wrt lt (set_insert lt x ys)"
proof (induction ys)
  case (Cons y ys)
  then have IH: "sorted_wrt lt (set_insert lt x ys)" by simp
  show ?case
    using Cons.prems IH set_insert_subset [of x ys] trans by (auto dest: subsetD)
qed simp

lemma find_Some_iff:
  "sorted_wrt lt ys \<Longrightarrow> set_find lt x ys = Some y \<longleftrightarrow> y \<in> set ys \<and> equiv x y"
proof (induction ys)
  case (Cons z zs)
  consider "lt z x" | "\<not> lt z x" "lt x z" | "equiv z x" by blast
  then show ?case
  proof cases
    case 1
    then show ?thesis using Cons by auto
  next
    case 2
    then have "lt x w" if "w \<in> set zs" for w using that Cons.prems trans [of x z w] by simp
    with 2 show ?thesis by auto
  next
    case 3
    then have "lt x w" if "w \<in> set zs" for w using that Cons.prems equiv_lt [of x z w] by simp
    with 3 show ?thesis by auto
  qed
qed simp

lemma find_self: "sorted_wrt lt ys \<Longrightarrow> x \<in> set ys \<Longrightarrow> set_find lt x ys = Some x"
  using find_Some_iff irrefl by blast

lemma before_bound_lt: "y \<in> set (before_bound lt x ys) \<Longrightarrow> lt y x"
proof (induction ys)
  case (Cons z zs)
  then show ?case by (cases "lt z x") auto
qed simp

lemma from_bound_not_lt:
  "sorted_wrt lt ys \<Longrightarrow> y \<in> set (from_bound lt x ys) \<Longrightarrow> \<not> lt y x"
proof (induction ys)
  case (Cons z zs)
  show ?case
  proof (cases "lt z x")
    case True with Cons show ?thesis by simp
  next
    case False
    then have "\<not> lt w x" if "w \<in> set zs" for w using that Cons.prems trans [of z w x] by auto
    with False Cons.prems show ?thesis by auto
  qed
qed simp

lemma sorted_distinct: "sorted_wrt lt ys \<Longrightarrow> distinct ys"
  by (induction ys) (use irrefl in \<open>auto\<close>)

lemma first_least: "sorted_wrt lt (y # ys) \<Longrightarrow> z \<in> set (y # ys) \<Longrightarrow> \<not> lt z y"
  using irrefl [of y] asym [of y z] by auto

end

end
