(* ===== verification/Timer.thy ===== *)
theory Timer
  imports Ordered_Set
begin

text \<open>
  \<open>src/src/timer.h\<close> and \<open>src/src/timer.cpp\<close>: one-shot and recurring timers in a \<open>std::set\<close> ordered
  by deadline and address. A \<open>Timer*\<close> is its address (a natural number, for the address order of the
  comparator); the objects are a map from addresses to records. \<open>Utils::GetCurrentMS()\<close> is the
  argument \<open>now\<close>, the address of a new object is an argument chosen by the allocator. Times are
  \<open>uint64_t\<close> words and wrap around. The virtual \<open>onTimerInsertedAtFront\<close> is counted in \<open>m_fronts\<close>.
\<close>

section \<open>State\<close>

record 'cb timer =
  m_recuring :: bool
  m_ms :: u64
  m_next :: u64
  m_cb :: "'cb option"

record 'cb timer_manager =
  m_objs :: "nat \<Rightarrow> 'cb timer"
  m_timers :: "nat list"
  m_tickled :: bool
  m_previousTime :: u64
  m_fronts :: nat

definition Timer_new :: "u64 \<Rightarrow> 'cb option \<Rightarrow> bool \<Rightarrow> u64 \<Rightarrow> 'cb timer" where
  "Timer_new ms cb recuring now = \<lparr>m_recuring = recuring, m_ms = ms, m_next = now + ms, m_cb = cb\<rparr>"

definition Timer_at :: "u64 \<Rightarrow> 'cb timer" where
  "Timer_at nxt = \<lparr>m_recuring = False, m_ms = 0, m_next = nxt, m_cb = None\<rparr>"

definition TimerManager_new :: "u64 \<Rightarrow> 'cb timer_manager" where
  "TimerManager_new now =
     \<lparr>m_objs = (\<lambda>_. Timer_at 0), m_timers = [], m_tickled = False, m_previousTime = now, m_fronts = 0\<rparr>"

text \<open>
  The comparator tests \<open>rhs\<close> twice and \<open>lhs\<close> never: a null \<open>lhs\<close> against a non-null \<open>rhs\<close> is followed.
\<close>

definition Comparator :: "(nat \<Rightarrow> 'cb timer) \<Rightarrow> nat option \<Rightarrow> nat option \<Rightarrow> fault + bool" where
  "Comparator objs lhs rhs =
     (if lhs = None \<and> rhs = None then Inr False
      else case rhs of
          None \<Rightarrow> Inr True
        | Some r \<Rightarrow>
            (case lhs of
               None \<Rightarrow> Inl Null_Deref
             | Some l \<Rightarrow>
                 if m_next (objs l) < m_next (objs r) then Inr True
                 else if m_next (objs r) < m_next (objs l) then Inr False
                 else Inr (l < r)))"

definition before :: "(nat \<Rightarrow> 'cb timer) \<Rightarrow> nat \<Rightarrow> nat \<Rightarrow> bool" where
  "before objs l r =
     (if m_next (objs l) < m_next (objs r) then True
      else if m_next (objs r) < m_next (objs l) then False
      else l < r)"

lemma Comparator_before: "Comparator objs (Some l) (Some r) = Inr (before objs l r)"
  by (simp add: Comparator_def before_def)

section \<open>Operations\<close>

definition set_obj :: "nat \<Rightarrow> 'cb timer \<Rightarrow> 'cb timer_manager \<Rightarrow> 'cb timer_manager" where
  "set_obj p t tm = tm\<lparr>m_objs := (m_objs tm)(p := t)\<rparr>"

text \<open>\<open>m_timers.insert\<close>, \<open>find\<close> and \<open>erase\<close>; erasing \<open>end()\<close> is undefined.\<close>

definition queue_insert :: "nat \<Rightarrow> 'cb timer_manager \<Rightarrow> 'cb timer_manager" where
  "queue_insert p tm = tm\<lparr>m_timers := set_insert (before (m_objs tm)) p (m_timers tm)\<rparr>"

definition queue_find :: "nat \<Rightarrow> 'cb timer_manager \<Rightarrow> nat option" where
  "queue_find p tm = set_find (before (m_objs tm)) p (m_timers tm)"

definition queue_erase :: "nat \<Rightarrow> 'cb timer_manager \<Rightarrow> 'cb timer_manager" where
  "queue_erase p tm = tm\<lparr>m_timers := filter (\<lambda>x. x \<noteq> p) (m_timers tm)\<rparr>"

definition addTimer_locked :: "nat \<Rightarrow> 'cb timer_manager \<Rightarrow> 'cb timer_manager" where
  "addTimer_locked val tm =
     (let tm1 = queue_insert val tm;
          at_front = (hd (m_timers tm1) = val \<and> \<not> m_tickled tm1)
      in if at_front then tm1\<lparr>m_tickled := True, m_fronts := Suc (m_fronts tm1)\<rparr> else tm1)"

definition addTimer :: "nat \<Rightarrow> u64 \<Rightarrow> 'cb option \<Rightarrow> bool \<Rightarrow> u64 \<Rightarrow> 'cb timer_manager \<Rightarrow> 'cb timer_manager" where
  "addTimer p ms cb recuring now tm = addTimer_locked p (set_obj p (Timer_new ms cb recuring now) tm)"

text \<open>\<open>std::bind(&OnTimer, weak_cond, cb)\<close> calls \<open>cb\<close> only while the condition is alive.\<close>

datatype ('w, 'f) callback = Plain 'f | Guarded 'w 'f

fun OnTimer :: "('w \<Rightarrow> bool) \<Rightarrow> ('w, 'f) callback \<Rightarrow> 'f list" where
  "OnTimer alive (Plain cb) = [cb]"
| "OnTimer alive (Guarded weak_cond cb) = (if alive weak_cond then [cb] else [])"

definition addConditionTimer ::
    "nat \<Rightarrow> u64 \<Rightarrow> 'f \<Rightarrow> 'w \<Rightarrow> bool \<Rightarrow> u64 \<Rightarrow> ('w, 'f) callback timer_manager \<Rightarrow> ('w, 'f) callback timer_manager" where
  "addConditionTimer p ms cb weak_cond recuring now = addTimer p ms (Some (Guarded weak_cond cb)) recuring now"

definition timer_cancel :: "nat \<Rightarrow> ('cb timer_manager, bool) op" where
  "timer_cancel p tm =
     (if m_cb (m_objs tm p) \<noteq> None then
        let tm1 = set_obj p ((m_objs tm p)\<lparr>m_cb := None\<rparr>) tm
        in case queue_find p tm1 of
             None \<Rightarrow> (Inl Bad_Iterator, tm1)
           | Some it \<Rightarrow> (Inr True, queue_erase it tm1)
      else (Inr False, tm))"

definition timer_refresh :: "nat \<Rightarrow> u64 \<Rightarrow> 'cb timer_manager \<Rightarrow> bool \<times> 'cb timer_manager" where
  "timer_refresh p now tm =
     (if m_cb (m_objs tm p) = None then (False, tm)
      else case queue_find p tm of
          None \<Rightarrow> (False, tm)
        | Some it \<Rightarrow>
            let tm1 = queue_erase it tm;
                t = m_objs tm1 p
            in (True, queue_insert p (set_obj p (t\<lparr>m_next := now + m_ms t\<rparr>) tm1)))"

definition timer_reset :: "nat \<Rightarrow> u64 \<Rightarrow> bool \<Rightarrow> u64 \<Rightarrow> 'cb timer_manager \<Rightarrow> bool \<times> 'cb timer_manager" where
  "timer_reset p ms from_now now tm =
     (if ms = m_ms (m_objs tm p) \<and> \<not> from_now then (True, tm)
      else if m_cb (m_objs tm p) = None then (False, tm)
      else case queue_find p tm of
          None \<Rightarrow> (False, tm)
        | Some it \<Rightarrow>
            let tm1 = queue_erase it tm;
                t = m_objs tm1 p;
                start = (if from_now then now else m_next t - m_ms t)
            in (True, addTimer_locked p (set_obj p (t\<lparr>m_ms := ms, m_next := start + ms\<rparr>) tm1)))"

definition getNextTimer :: "u64 \<Rightarrow> 'cb timer_manager \<Rightarrow> u64 \<times> 'cb timer_manager" where
  "getNextTimer now tm =
     (let tm1 = tm\<lparr>m_tickled := False\<rparr> in
      case m_timers tm1 of
        [] \<Rightarrow> (NOT 0, tm1)
      | p # _ \<Rightarrow> (if m_next (m_objs tm1 p) \<le> now then 0 else m_next (m_objs tm1 p) - now, tm1))"

definition hasTimer :: "'cb timer_manager \<Rightarrow> bool" where
  "hasTimer tm \<longleftrightarrow> m_timers tm \<noteq> []"

definition detectClockRoller :: "u64 \<Rightarrow> 'cb timer_manager \<Rightarrow> bool \<times> 'cb timer_manager" where
  "detectClockRoller now_ms tm =
     (now_ms < m_previousTime tm \<and> now_ms < m_previousTime tm - 60 * 60 * 1000,
      tm\<lparr>m_previousTime := now_ms\<rparr>)"

text \<open>The loop over the expired timers: note \<open>m_next += now_ms + m_ms\<close>.\<close>

fun fire :: "u64 \<Rightarrow> nat list \<Rightarrow> 'cb timer_manager \<Rightarrow> 'cb option list \<times> 'cb timer_manager" where
  "fire now_ms [] tm = ([], tm)"
| "fire now_ms (p # ps) tm =
     (let t = m_objs tm p;
          tm1 = (if m_recuring t
                 then queue_insert p (set_obj p (t\<lparr>m_next := m_next t + (now_ms + m_ms t)\<rparr>) tm)
                 else set_obj p (t\<lparr>m_cb := None\<rparr>) tm);
          (cbs, tm2) = fire now_ms ps tm1
      in (m_cb t # cbs, tm2))"

text \<open>\<open>lower_bound(now_timer)\<close> with the temporary object at address \<open>q\<close>, then past the timers due now.\<close>

definition due_prefix :: "u64 \<Rightarrow> nat \<Rightarrow> 'cb timer_manager \<Rightarrow> nat list" where
  "due_prefix now_ms q tm =
     (let lt = before ((m_objs tm)(q := Timer_at now_ms))
      in before_bound lt q (m_timers tm)
         @ takeWhile (\<lambda>p. m_next (m_objs tm p) = now_ms) (from_bound lt q (m_timers tm)))"

definition listExpiredCb :: "nat \<Rightarrow> u64 \<Rightarrow> 'cb timer_manager \<Rightarrow> 'cb option list \<times> 'cb timer_manager" where
  "listExpiredCb q now_ms tm =
     (if m_timers tm = [] then ([], tm)
      else let (rollover, tm1) = detectClockRoller now_ms tm in
        if \<not> rollover \<and> m_next (m_objs tm1 (hd (m_timers tm1))) > now_ms then ([], tm1)
        else let expired = (if rollover then m_timers tm1 else due_prefix now_ms q tm1)
             in fire now_ms expired (tm1\<lparr>m_timers := drop (length expired) (m_timers tm1)\<rparr>))"

section \<open>The comparator orders the timers\<close>

lemma before_iff:
  "before objs l r \<longleftrightarrow> m_next (objs l) < m_next (objs r) \<or> m_next (objs l) = m_next (objs r) \<and> l < r"
  by (cases "m_next (objs l)" "m_next (objs r)" rule: linorder_cases) (auto simp: before_def)

lemma before_total: "\<not> before objs l r \<Longrightarrow> \<not> before objs r l \<Longrightarrow> l = r"
  unfolding before_iff by (meson less_linear)

lemma before_irrefl: "\<not> before objs l l"
  by (simp add: before_iff)

lemma before_trans: "before objs a b \<Longrightarrow> before objs b c \<Longrightarrow> before objs a c"
  unfolding before_iff by (elim disjE conjE) (auto dest: less_trans)

interpretation by_deadline: comparator "before objs" for objs :: "nat \<Rightarrow> 'cb timer"
  by unfold_locales (use before_irrefl before_trans before_total in blast)+

section \<open>The invariant\<close>

text \<open>The queue is in the order of the comparator, and every timer whose callback is set is in it.\<close>

definition tm_inv :: "'cb timer_manager \<Rightarrow> bool" where
  "tm_inv tm \<longleftrightarrow> sorted_wrt (before (m_objs tm)) (m_timers tm)
     \<and> (\<forall>p. m_cb (m_objs tm p) \<noteq> None \<longrightarrow> p \<in> set (m_timers tm))"

lemma tm_invD:
  assumes "tm_inv tm"
  shows "sorted_wrt (before (m_objs tm)) (m_timers tm)"
    and "m_cb (m_objs tm p) \<noteq> None \<Longrightarrow> p \<in> set (m_timers tm)"
    and "distinct (m_timers tm)"
  using assms by_deadline.sorted_distinct by (auto simp: tm_inv_def)

lemma before_upd: "l \<noteq> p \<Longrightarrow> r \<noteq> p \<Longrightarrow> before (objs(p := t)) l r = before objs l r"
  by (simp add: before_def)

lemma sorted_upd:
  "p \<notin> set ts \<Longrightarrow> sorted_wrt (before (objs(p := t))) ts = sorted_wrt (before objs) ts"
  by (rule sorted_wrt_cong, rule before_upd) auto

lemma set_queue_insert: "set (set_insert (before objs) p ts) = insert p (set ts)"
proof (cases "p \<in> set ts")
  case True
  then show ?thesis
    using by_deadline.set_insert_subset [of objs p ts] by_deadline.set_insert_superset [of ts objs p] by blast
next
  case False
  then show ?thesis by (intro by_deadline.set_insert_fresh) (use before_total in fastforce)
qed

lemma queue_find_iff:
  assumes "sorted_wrt (before (m_objs tm)) (m_timers tm)"
  shows "queue_find p tm = (if p \<in> set (m_timers tm) then Some p else None)"
proof (cases "queue_find p tm")
  case None
  then show ?thesis using by_deadline.find_self [OF assms] by (auto simp: queue_find_def)
next
  case (Some q)
  then have "q \<in> set (m_timers tm)" "q = p"
    using by_deadline.find_Some_iff [OF assms] before_total by (auto simp: queue_find_def)
  then show ?thesis using Some by simp
qed

lemma before_same_next: "(\<And>x. m_next (objs x) = m_next (objs' x)) \<Longrightarrow> before objs = before objs'"
  by (simp add: fun_eq_iff before_def)

lemma set_obj_sel [simp]:
  "m_timers (set_obj p t tm) = m_timers tm" "m_objs (set_obj p t tm) = (m_objs tm)(p := t)"
  "m_tickled (set_obj p t tm) = m_tickled tm" "m_previousTime (set_obj p t tm) = m_previousTime tm"
  "m_fronts (set_obj p t tm) = m_fronts tm"
  by (simp_all add: set_obj_def)

lemma queue_insert_sel [simp]:
  "m_objs (queue_insert p tm) = m_objs tm" "set (m_timers (queue_insert p tm)) = insert p (set (m_timers tm))"
  "m_tickled (queue_insert p tm) = m_tickled tm" "m_previousTime (queue_insert p tm) = m_previousTime tm"
  "m_fronts (queue_insert p tm) = m_fronts tm"
  by (simp_all add: queue_insert_def set_queue_insert)

lemma queue_erase_sel [simp]:
  "m_objs (queue_erase p tm) = m_objs tm" "m_timers (queue_erase p tm) = filter (\<lambda>x. x \<noteq> p) (m_timers tm)"
  "m_tickled (queue_erase p tm) = m_tickled tm" "m_previousTime (queue_erase p tm) = m_previousTime tm"
  "m_fronts (queue_erase p tm) = m_fronts tm"
  by (simp_all add: queue_erase_def)

lemma sorted_queue_insert:
  "sorted_wrt (before (m_objs tm)) (m_timers tm) \<Longrightarrow>
   sorted_wrt (before (m_objs (queue_insert p tm))) (m_timers (queue_insert p tm))"
  by (simp add: queue_insert_def by_deadline.sorted_insert)

lemma sorted_requeue:
  assumes "sorted_wrt (before (m_objs tm)) (m_timers tm)" "p \<notin> set (m_timers tm)"
  shows "sorted_wrt (before ((m_objs tm)(p := t))) (m_timers (queue_insert p (set_obj p t tm)))"
  using sorted_queue_insert [of "set_obj p t tm" p] assms by (simp add: sorted_upd)

text \<open>Changing an object outside the queue and inserting it keeps the invariant.\<close>

lemma tm_inv_requeue:
  assumes "sorted_wrt (before (m_objs tm)) (m_timers tm)" "p \<notin> set (m_timers tm)"
    and "\<And>r. r \<noteq> p \<Longrightarrow> m_cb (m_objs tm r) \<noteq> None \<Longrightarrow> r \<in> set (m_timers tm)"
  shows "tm_inv (queue_insert p (set_obj p t tm))"
proof -
  have "sorted_wrt (before (m_objs (set_obj p t tm))) (m_timers (set_obj p t tm))"
    using assms(1,2) by (simp add: sorted_upd)
  from sorted_queue_insert [OF this] show ?thesis
    using assms(3) unfolding tm_inv_def by auto
qed

lemma addTimer_locked_cases:
  "\<exists>b n. addTimer_locked p tm = (queue_insert p tm)\<lparr>m_tickled := b, m_fronts := n\<rparr>"
  by (cases "queue_insert p tm") (auto simp: addTimer_locked_def Let_def intro: exI [of _ "m_tickled tm"] exI [of _ "m_fronts tm"])

lemma tm_inv_flags [simp]: "tm_inv (tm\<lparr>m_tickled := b, m_fronts := n\<rparr>) = tm_inv tm"
  by (simp add: tm_inv_def)

lemma tm_inv_addTimer_locked: "tm_inv (queue_insert p tm) \<Longrightarrow> tm_inv (addTimer_locked p tm)"
  using addTimer_locked_cases [of p tm] by auto

lemma tm_inv_new: "tm_inv (TimerManager_new now)"
  by (simp add: tm_inv_def TimerManager_new_def Timer_at_def)

lemma tm_inv_addTimer: "tm_inv tm \<Longrightarrow> p \<notin> set (m_timers tm) \<Longrightarrow> tm_inv (addTimer p ms cb rec now tm)"
  unfolding addTimer_def by (intro tm_inv_addTimer_locked tm_inv_requeue) (auto dest: tm_invD)

lemma tm_inv_cancel:
  assumes "tm_inv tm"
  shows "\<exists>tm'. timer_cancel p tm = (Inr (m_cb (m_objs tm p) \<noteq> None), tm') \<and> tm_inv tm'
    \<and> m_cb (m_objs tm' p) = None \<and> (m_cb (m_objs tm p) \<noteq> None \<longrightarrow> p \<notin> set (m_timers tm'))
    \<and> m_timers tm' = filter (\<lambda>x. x = p \<longrightarrow> m_cb (m_objs tm p) = None) (m_timers tm)"
proof (cases "m_cb (m_objs tm p) = None")
  case True
  with assms show ?thesis by (simp add: timer_cancel_def)
next
  case False
  let ?tm1 = "set_obj p ((m_objs tm p)\<lparr>m_cb := None\<rparr>) tm"
  have same: "before (m_objs ?tm1) = before (m_objs tm)" by (rule before_same_next) simp
  have "queue_find p ?tm1 = Some p"
    using queue_find_iff [of ?tm1 p] tm_invD(1,2) [OF assms] False same by simp
  then have "timer_cancel p tm = (Inr True, queue_erase p ?tm1)"
    using False by (simp add: timer_cancel_def)
  moreover have "tm_inv (queue_erase p ?tm1)"
    using assms same unfolding tm_inv_def by (auto simp: sorted_wrt_filter)
  ultimately show ?thesis using False by (auto intro: filter_cong)
qed

text \<open>Taking a queued timer out, changing it and putting it back.\<close>

lemma tm_inv_take_out:
  assumes "tm_inv tm"
  shows "tm_inv (queue_insert p (set_obj p t (queue_erase p tm)))"
  by (rule tm_inv_requeue) (use assms in \<open>auto dest: tm_invD intro: sorted_wrt_filter tm_invD\<close>)

lemma tm_inv_refresh: "tm_inv tm \<Longrightarrow> tm_inv (snd (timer_refresh p now tm))"
  using queue_find_iff [of tm p]
  by (auto simp: timer_refresh_def Let_def tm_invD intro: tm_inv_take_out)

lemma tm_inv_reset: "tm_inv tm \<Longrightarrow> tm_inv (snd (timer_reset p ms from_now now tm))"
  using queue_find_iff [of tm p]
  by (auto simp: timer_reset_def Let_def tm_invD intro!: tm_inv_addTimer_locked tm_inv_take_out)

lemma tm_inv_getNextTimer: "tm_inv tm \<Longrightarrow> tm_inv (snd (getNextTimer now tm))"
  by (auto simp: getNextTimer_def tm_inv_def Let_def split: list.split)

section \<open>Expiry\<close>

lemma due_prefix_filter:
  assumes inv: "tm_inv tm" and q: "q \<notin> set (m_timers tm)"
  shows "due_prefix now q tm = filter (\<lambda>p. m_next (m_objs tm p) \<le> now) (m_timers tm)
    \<and> m_timers tm = due_prefix now q tm @ filter (\<lambda>p. \<not> m_next (m_objs tm p) \<le> now) (m_timers tm)"
proof -
  let ?next = "\<lambda>p. m_next (m_objs tm p)"
  let ?objs = "(m_objs tm)(q := Timer_at now)"
  let ?a = "before_bound (before ?objs) q (m_timers tm)"
  let ?b = "from_bound (before ?objs) q (m_timers tm)"
  have ts: "?a @ ?b = m_timers tm" by (rule bound_split)
  have sorted: "sorted_wrt (before ?objs) (m_timers tm)" using inv q by (simp add: sorted_upd tm_invD)
  have nx: "?next p \<le> ?next r" if "before (m_objs tm) p r" for p r using that by (auto simp: before_iff)
  have a: "?next p \<le> now" if "p \<in> set ?a" for p
  proof -
    have "p \<noteq> q" using that q ts by (metis UnI1 set_append)
    then show ?thesis using by_deadline.before_bound_lt [OF that] by (auto simp: before_iff Timer_at_def)
  qed
  have b: "now \<le> ?next p" if "p \<in> set ?b" for p
  proof -
    have "p \<noteq> q" using that q ts by (metis UnI2 set_append)
    then show ?thesis using by_deadline.from_bound_not_lt [OF sorted that] by (auto simp: before_iff Timer_at_def)
  qed
  have sb: "sorted_wrt (\<lambda>p r. ?next p \<le> ?next r) ?b"
  proof -
    have "sorted_wrt (before (m_objs tm)) (?a @ ?b)" unfolding ts using inv by (rule tm_invD)
    then have "sorted_wrt (before (m_objs tm)) ?b" by (simp only: sorted_wrt_append)
    then show ?thesis by (rule sorted_wrt_mono_rel [rotated]) (rule nx)
  qed
  have split: "takeWhile (\<lambda>p. ?next p = now) xs = filter (\<lambda>p. ?next p \<le> now) xs
      \<and> xs = takeWhile (\<lambda>p. ?next p = now) xs @ filter (\<lambda>p. \<not> ?next p \<le> now) xs"
    if "sorted_wrt (\<lambda>p r. ?next p \<le> ?next r) xs" "\<forall>p \<in> set xs. now \<le> ?next p" for xs
    using that
  proof (induction xs)
    case (Cons x xs)
    show ?case
    proof (cases "?next x = now")
      case False
      then have "\<not> ?next p \<le> now" if "p \<in> set (x # xs)" for p
        using that Cons.prems by fastforce
      then have "filter (\<lambda>p. ?next p \<le> now) (x # xs) = []" "filter (\<lambda>p. \<not> ?next p \<le> now) (x # xs) = x # xs"
        by (auto simp only: filter_empty_conv filter_id_conv)
      with False show ?thesis by simp
    qed (use Cons in auto)
  qed simp
  have "filter (\<lambda>p. ?next p \<le> now) ?a = ?a" "filter (\<lambda>p. \<not> ?next p \<le> now) ?a = []"
    using a by (auto simp: filter_id_conv filter_empty_conv)
  then show ?thesis
    using split [OF sb] b ts unfolding due_prefix_def Let_def by (metis append_assoc filter_append append_Nil)
qed

text \<open>What the loop makes of a timer.\<close>

definition fired :: "u64 \<Rightarrow> 'cb timer \<Rightarrow> 'cb timer" where
  "fired now t = (if m_recuring t then t\<lparr>m_next := m_next t + (now + m_ms t)\<rparr> else t\<lparr>m_cb := None\<rparr>)"

lemma fire_spec:
  assumes "distinct ps" "set ps \<inter> set (m_timers tm) = {}"
    and "sorted_wrt (before (m_objs tm)) (m_timers tm)"
    and "\<And>r. m_cb (m_objs tm r) \<noteq> None \<Longrightarrow> r \<in> set (m_timers tm) \<union> set ps"
  shows "fst (fire now ps tm) = map (\<lambda>p. m_cb (m_objs tm p)) ps
    \<and> tm_inv (snd (fire now ps tm))
    \<and> set (m_timers (snd (fire now ps tm))) = set (m_timers tm) \<union> {p \<in> set ps. m_recuring (m_objs tm p)}
    \<and> (\<forall>p. m_objs (snd (fire now ps tm)) p = (if p \<in> set ps then fired now (m_objs tm p) else m_objs tm p))"
  using assms
proof (induction ps arbitrary: tm)
  case Nil
  then show ?case by (auto simp: tm_inv_def)
next
  case (Cons p ps)
  let ?t = "m_objs tm p"
  define tm1 where "tm1 = (if m_recuring ?t then queue_insert p (set_obj p (fired now ?t) tm)
      else set_obj p (fired now ?t) tm)"
  have p: "p \<notin> set ps" "p \<notin> set (m_timers tm)" using Cons.prems by auto
  have objs: "m_objs tm1 = (m_objs tm)(p := fired now ?t)"
    by (simp add: tm1_def)
  have timers: "set (m_timers tm1) = set (m_timers tm) \<union> {r. r = p \<and> m_recuring ?t}"
    by (auto simp: tm1_def)
  have sorted: "sorted_wrt (before (m_objs tm1)) (m_timers tm1)"
    unfolding tm1_def using Cons.prems(3) p(2)
    by (simp add: sorted_upd sorted_requeue)
  have run: "fire now (p # ps) tm = (m_cb ?t # fst (fire now ps tm1), snd (fire now ps tm1))"
    by (simp add: tm1_def fired_def case_prod_beta Let_def)
  have IH: "fst (fire now ps tm1) = map (\<lambda>p. m_cb (m_objs tm1 p)) ps
    \<and> tm_inv (snd (fire now ps tm1))
    \<and> set (m_timers (snd (fire now ps tm1))) = set (m_timers tm1) \<union> {p \<in> set ps. m_recuring (m_objs tm1 p)}
    \<and> (\<forall>p. m_objs (snd (fire now ps tm1)) p = (if p \<in> set ps then fired now (m_objs tm1 p) else m_objs tm1 p))"
  proof (rule Cons.IH)
    show "r \<in> set (m_timers tm1) \<union> set ps" if "m_cb (m_objs tm1 r) \<noteq> None" for r
      using that Cons.prems(4) [of r] unfolding objs timers by (auto simp: fired_def split: if_splits)
  qed (use Cons.prems p sorted timers in auto)
  have "map (\<lambda>p. m_cb (m_objs tm1 p)) ps = map (\<lambda>p. m_cb (m_objs tm p)) ps"
    "{r \<in> set ps. m_recuring (m_objs tm1 r)} = {r \<in> set ps. m_recuring (m_objs tm r)}"
    using p(1) by (auto simp: objs)
  moreover have "(if r \<in> set ps then fired now (m_objs tm1 r) else m_objs tm1 r)
      = (if r \<in> set (p # ps) then fired now (m_objs tm r) else m_objs tm r)" for r
    using p(1) by (simp add: objs)
  ultimately show ?case
    using IH unfolding run by (auto simp: timers)
qed

text \<open>The state before the loop, and what \<open>listExpiredCb\<close> does in each of its branches.\<close>

lemma fire_expired:
  assumes inv: "tm_inv tm" and ts: "m_timers tm = expired @ rest"
    and res: "res = fire now expired (tm\<lparr>m_previousTime := t, m_timers := rest\<rparr>)"
  shows "fst res = map (\<lambda>p. m_cb (m_objs tm p)) expired \<and> tm_inv (snd res)
    \<and> set (m_timers (snd res)) = set rest \<union> {p \<in> set expired. m_recuring (m_objs tm p)}
    \<and> (\<forall>p. m_objs (snd res) p = (if p \<in> set expired then fired now (m_objs tm p) else m_objs tm p))"
proof -
  have d: "distinct (expired @ rest)" "sorted_wrt (before (m_objs tm)) (expired @ rest)"
    using tm_invD(1,3) [OF inv] ts by simp_all
  define tm' where "tm' = tm\<lparr>m_previousTime := t, m_timers := rest\<rparr>"
  have tm': "m_objs tm' = m_objs tm" "m_timers tm' = rest" by (simp_all add: tm'_def)
  have "r \<in> set rest \<union> set expired" if "m_cb (m_objs tm r) \<noteq> None" for r
    using tm_invD(2) [OF inv that] by (auto simp: ts)
  then show ?thesis
    unfolding res tm'_def [symmetric]
    using fire_spec [of expired tm' now] d unfolding tm' by (simp add: sorted_wrt_append)
qed

definition rolled_back :: "u64 \<Rightarrow> 'cb timer_manager \<Rightarrow> bool" where
  "rolled_back now tm \<longleftrightarrow> fst (detectClockRoller now tm)"

lemma tm_inv_previousTime [simp]: "tm_inv (tm\<lparr>m_previousTime := t\<rparr>) = tm_inv tm"
  by (simp add: tm_inv_def)

lemma due_prefix_previousTime [simp]: "due_prefix now q (tm\<lparr>m_previousTime := t\<rparr>) = due_prefix now q tm"
  by (simp add: due_prefix_def)

lemma listExpiredCb_spec:
  assumes inv: "tm_inv tm" and q: "q \<notin> set (m_timers tm)"
    and due_def: "due = (\<lambda>p. rolled_back now tm \<or> m_next (m_objs tm p) \<le> now)"
    and res_def: "res = listExpiredCb q now tm"
  shows "fst res = map (\<lambda>p. m_cb (m_objs tm p)) (filter due (m_timers tm)) \<and> tm_inv (snd res)
    \<and> set (m_timers (snd res)) = {p \<in> set (m_timers tm). \<not> due p \<or> m_recuring (m_objs tm p)}
    \<and> (\<forall>p. m_objs (snd res) p =
         (if p \<in> set (m_timers tm) \<and> due p then fired now (m_objs tm p) else m_objs tm p))"
proof (cases "m_timers tm = []")
  case True
  then show ?thesis using inv by (simp add: res_def listExpiredCb_def)
next
  case False
  define first where "first = hd (m_timers tm)"
  have detect: "detectClockRoller now tm = (rolled_back now tm, tm\<lparr>m_previousTime := now\<rparr>)"
    by (simp add: rolled_back_def detectClockRoller_def)
  have least: "m_next (m_objs tm first) \<le> m_next (m_objs tm p)" if "p \<in> set (m_timers tm)" for p
    using by_deadline.first_least [of "m_objs tm" first "tl (m_timers tm)" p] tm_invD(1) [OF inv] that False
    by (auto simp: first_def before_iff not_less)
  consider (roll) "rolled_back now tm" | (early) "\<not> rolled_back now tm" "m_next (m_objs tm first) > now"
    | (some) "\<not> rolled_back now tm" "m_next (m_objs tm first) \<le> now"
    by fastforce
  then show ?thesis
  proof cases
    case roll
    then have "res = fire now (m_timers tm) (tm\<lparr>m_previousTime := now, m_timers := []\<rparr>)"
      using False by (simp add: res_def listExpiredCb_def detect)
    then show ?thesis
      using fire_expired [OF inv, of "m_timers tm" "[]" res now now] roll by (simp add: due_def)
  next
    case early
    then have none: "\<not> due p" if "p \<in> set (m_timers tm)" for p
      using least [OF that] by (simp add: due_def)
    have "res = ([], tm\<lparr>m_previousTime := now\<rparr>)"
      using False early by (simp add: res_def listExpiredCb_def detect first_def)
    then show ?thesis using none inv by (auto simp: filter_empty_conv)
  next
    case some
    let ?e = "due_prefix now q tm"
    have due: "due = (\<lambda>p. m_next (m_objs tm p) \<le> now)" using some(1) by (simp add: due_def)
    have e: "?e = filter due (m_timers tm)" "m_timers tm = ?e @ filter (\<lambda>p. \<not> due p) (m_timers tm)"
      using due_prefix_filter [OF inv q, of now] unfolding due by blast+
    have "drop (length ?e) (m_timers tm) = filter (\<lambda>p. \<not> due p) (m_timers tm)"
      by (subst e(2)) simp
    moreover have "\<not> now < m_next (m_objs tm (hd (m_timers tm)))" using some(2) by (simp add: first_def not_less)
    ultimately have "res = fire now ?e (tm\<lparr>m_previousTime := now, m_timers := filter (\<lambda>p. \<not> due p) (m_timers tm)\<rparr>)"
      using False some by (simp add: res_def listExpiredCb_def detect)
    then show ?thesis
      using fire_expired [OF inv e(2), of res now now] by (auto simp: e(1))
  qed
qed

section \<open>Properties\<close>

inductive tm_step :: "'cb timer_manager \<Rightarrow> 'cb timer_manager \<Rightarrow> bool" where
  step_add: "p \<notin> set (m_timers tm) \<Longrightarrow> tm_step tm (addTimer p ms cb rec now tm)"
| step_cancel: "timer_cancel p tm = (Inr b, tm') \<Longrightarrow> tm_step tm tm'"
| step_refresh: "tm_step tm (snd (timer_refresh p now tm))"
| step_reset: "tm_step tm (snd (timer_reset p ms from_now now tm))"
| step_next: "tm_step tm (snd (getNextTimer now tm))"
| step_expire: "q \<notin> set (m_timers tm) \<Longrightarrow> tm_step tm (snd (listExpiredCb q now tm))"

inductive tm_reachable :: "'cb timer_manager \<Rightarrow> bool" where
  tm_init: "tm_reachable (TimerManager_new now)"
| tm_next: "tm_reachable tm \<Longrightarrow> tm_step tm tm' \<Longrightarrow> tm_reachable tm'"

inductive_cases tm_stepE: "tm_step tm tm'"

lemma tm_inv_expire: "tm_inv tm \<Longrightarrow> q \<notin> set (m_timers tm) \<Longrightarrow> tm_inv (snd (listExpiredCb q now tm))"
  using listExpiredCb_spec by blast

lemma tm_inv_cancelled: "tm_inv tm \<Longrightarrow> timer_cancel p tm = (Inr b, tm') \<Longrightarrow> tm_inv tm'"
  using tm_inv_cancel [of tm p] by auto

lemma tm_inv_step: "tm_step tm tm' \<Longrightarrow> tm_inv tm \<Longrightarrow> tm_inv tm'"
  by (elim tm_stepE) (auto intro: tm_inv_cancelled tm_inv_addTimer tm_inv_refresh tm_inv_reset tm_inv_getNextTimer tm_inv_expire)

lemma tm_reachable_inv: "tm_reachable tm \<Longrightarrow> tm_inv tm"
  by (induction rule: tm_reachable.induct) (auto intro: tm_inv_new tm_inv_step)

text \<open>C7: in every state the timer manager can reach, the queue is sorted by deadline without
  duplicates and holds every timer whose callback is set; hence \<open>cancel\<close> never erases \<open>end()\<close>: it
  succeeds, reports whether the timer was armed, and leaves it unarmed and out of the queue.\<close>

theorem timers_reachable_cancel:
  assumes "tm_reachable tm"
  shows "tm_inv tm \<and> distinct (m_timers tm)
    \<and> (\<exists>tm'. timer_cancel p tm = (Inr (m_cb (m_objs tm p) \<noteq> None), tm')
         \<and> m_cb (m_objs tm' p) = None \<and> timer_cancel p tm' = (Inr False, tm')
         \<and> (m_cb (m_objs tm p) \<noteq> None \<longrightarrow> p \<notin> set (m_timers tm')))"
proof -
  have inv: "tm_inv tm" using assms by (rule tm_reachable_inv)
  obtain tm' where t: "timer_cancel p tm = (Inr (m_cb (m_objs tm p) \<noteq> None), tm')" "tm_inv tm'"
    "m_cb (m_objs tm' p) = None" "m_cb (m_objs tm p) \<noteq> None \<longrightarrow> p \<notin> set (m_timers tm')"
    using tm_inv_cancel [OF inv] by blast
  moreover have "timer_cancel p tm' = (Inr False, tm')" using t(3) by (simp add: timer_cancel_def)
  ultimately show ?thesis using inv tm_invD(3) [OF inv] by blast
qed

lemma timers_reachable_cancel_witness:
  "\<exists>tm'. timer_cancel 7 (addTimer 7 100 (Some ''f'') False 5 (TimerManager_new 0)) = (Inr True, tm') \<and> 7 \<notin> set (m_timers tm')"
proof -
  have "tm_reachable (addTimer 7 100 (Some ''f'') False 5 (TimerManager_new 0))"
    by (rule tm_next [OF tm_init step_add]) (simp add: TimerManager_new_def)
  from timers_reachable_cancel [OF this, of 7]
  show ?thesis by (auto simp: addTimer_def addTimer_locked_def queue_insert_def set_obj_def TimerManager_new_def Timer_new_def Let_def)
qed

text \<open>C8: \<open>listExpiredCb\<close> hands out, in deadline order, the callbacks of exactly the timers whose
  deadline has passed (of all timers when the clock went back), unschedules the one-shot ones,
  keeps the rest untouched, and puts a recurring one back with its old deadline plus the time now
  plus its period.\<close>

theorem expired_exactly:
  fixes now :: u64 and tm :: "'cb timer_manager"
  assumes "tm_reachable tm" "q \<notin> set (m_timers tm)"
  defines "due \<equiv> filter (\<lambda>p. rolled_back now tm \<or> m_next (m_objs tm p) \<le> now) (m_timers tm)"
  shows "fst (listExpiredCb q now tm) = map (\<lambda>p. m_cb (m_objs tm p)) due
    \<and> set (m_timers (snd (listExpiredCb q now tm))) = set (m_timers tm) - {p \<in> set due. \<not> m_recuring (m_objs tm p)}
    \<and> (\<forall>p. p \<notin> set due \<longrightarrow> m_objs (snd (listExpiredCb q now tm)) p = m_objs tm p)
    \<and> (\<forall>p \<in> set due. m_recuring (m_objs tm p) \<longrightarrow>
         m_next (m_objs (snd (listExpiredCb q now tm)) p) = m_next (m_objs tm p) + now + m_ms (m_objs tm p))"
  using listExpiredCb_spec [OF tm_reachable_inv [OF assms(1)] assms(2) refl refl, of now]
  by (auto simp: due_def fired_def add.assoc)

lemma expired_exactly_witness:
  "fst (listExpiredCb 9 200 (addTimer 7 100 (Some ''f'') True 5 (TimerManager_new 0))) = [Some ''f'']
   \<and> m_next (m_objs (snd (listExpiredCb 9 200 (addTimer 7 100 (Some ''f'') True 5 (TimerManager_new 0)))) 7) = 405"
proof -
  let ?tm = "addTimer 7 100 (Some ''f'') True 5 (TimerManager_new 0)"
  have "tm_reachable ?tm" by (rule tm_next [OF tm_init step_add]) (simp add: TimerManager_new_def)
  moreover have "m_timers ?tm = [7]" "m_objs ?tm 7 = \<lparr>m_recuring = True, m_ms = 100, m_next = 105, m_cb = Some ''f''\<rparr>"
    by (simp_all add: addTimer_def addTimer_locked_def queue_insert_def set_obj_def TimerManager_new_def Timer_new_def Let_def)
  ultimately show ?thesis using expired_exactly [of ?tm 9 200] by simp
qed

text \<open>The time to wait that \<open>getNextTimer\<close> reports is the largest value that makes no queued timer
  late: \<open>~0\<close> without timers, 0 when one is due, and otherwise the distance to the earliest deadline.\<close>

theorem getNextTimer_least:
  assumes "tm_reachable tm"
  shows "fst (getNextTimer now tm) =
      (if m_timers tm = [] then NOT 0
       else if \<exists>p \<in> set (m_timers tm). m_next (m_objs tm p) \<le> now then 0
       else Min ((\<lambda>p. m_next (m_objs tm p)) ` set (m_timers tm)) - now)
    \<and> \<not> m_tickled (snd (getNextTimer now tm)) \<and> m_timers (snd (getNextTimer now tm)) = m_timers tm"
proof (cases "m_timers tm")
  case Nil
  then show ?thesis by (simp add: getNextTimer_def)
next
  case (Cons p ps)
  have "m_next (m_objs tm p) \<le> m_next (m_objs tm r)" if "r \<in> set (m_timers tm)" for r
    using by_deadline.first_least [of "m_objs tm" p ps r] tm_invD(1) [OF tm_reachable_inv [OF assms]] that
    by (auto simp: Cons before_iff not_less)
  then have "Min ((\<lambda>p. m_next (m_objs tm p)) ` set (m_timers tm)) = m_next (m_objs tm p)"
    and "(\<exists>p \<in> set (m_timers tm). m_next (m_objs tm p) \<le> now) = (m_next (m_objs tm p) \<le> now)"
    by (auto intro!: Min_eqI simp: Cons intro: order_trans)
  then show ?thesis by (simp add: getNextTimer_def Cons)
qed

lemma getNextTimer_least_witness:
  "fst (getNextTimer 50 (addTimer 7 100 (Some ''f'') True 5 (TimerManager_new 0))) = 55"
proof -
  let ?tm = "addTimer 7 100 (Some ''f'') True 5 (TimerManager_new 0)"
  have "tm_reachable ?tm" by (rule tm_next [OF tm_init step_add]) (simp add: TimerManager_new_def)
  moreover have "m_timers ?tm = [7]" "m_objs ?tm 7 = \<lparr>m_recuring = True, m_ms = 100, m_next = 105, m_cb = Some ''f''\<rparr>"
    by (simp_all add: addTimer_def addTimer_locked_def queue_insert_def set_obj_def TimerManager_new_def Timer_new_def Let_def)
  ultimately show ?thesis using getNextTimer_least [of ?tm 50] by simp
qed

end
