(* ===== verification/IO_Manager.thy ===== *)
theory IO_Manager
  imports Timer
begin

text \<open>
  \<open>src/src/iomanager.h\<close> and \<open>src/src/iomanager.cpp\<close>: file-descriptor events on top of epoll. A
  \<open>FdContext*\<close> is its index in \<open>m_fdContexts\<close> (the code gives every index a context of its own and
  never frees one before the destructor). Calls of \<open>Scheduler::schedule\<close> are recorded in order in
  \<open>io_scheduled\<close>, with the scheduler they are made on. The kernel is an argument of the operations:
  whether \<open>epoll_ctl\<close> succeeds, and the events \<open>epoll_wait\<close> delivers; so are the running scheduler
  and coroutine (\<open>env\<close>).
\<close>

section \<open>State\<close>

record 'cb event_context =
  ec_scheduler :: "nat option"
  ec_coroutine :: "nat option"
  ec_cb :: "'cb option"

record 'cb fd_context =
  fc_fd :: nat
  fc_read :: "'cb event_context"
  fc_write :: "'cb event_context"
  fc_event :: u32

datatype 'cb io_task = Resume nat | Callback 'cb

record 'cb iomanager =
  io_timers :: "'cb timer_manager"
  m_fdContexts :: "'cb fd_context list"
  m_pendingEventCount :: u64
  m_eventfd :: u64
  io_scheduled :: "(nat \<times> 'cb io_task) list"

definition NONE :: u32 where "NONE = 0"
definition READ :: u32 where "READ = 1"
definition WRITE :: u32 where "WRITE = 4"

definition EPOLLIN :: u32 where "EPOLLIN = 1"
definition EPOLLOUT :: u32 where "EPOLLOUT = 4"
definition EPOLLERR :: u32 where "EPOLLERR = 8"
definition EPOLLHUP :: u32 where "EPOLLHUP = 16"

lemmas event_bits = NONE_def READ_def WRITE_def EPOLLIN_def EPOLLOUT_def EPOLLERR_def EPOLLHUP_def

record io_env =
  env_scheduler :: "nat option"
  env_coroutine :: nat
  env_exec :: bool

definition EventContext_new :: "'cb event_context" where
  "EventContext_new = \<lparr>ec_scheduler = None, ec_coroutine = None, ec_cb = None\<rparr>"

definition FdContext_new :: "nat \<Rightarrow> 'cb fd_context" where
  "FdContext_new i = \<lparr>fc_fd = i, fc_read = EventContext_new, fc_write = EventContext_new, fc_event = NONE\<rparr>"

definition contextResize :: "nat \<Rightarrow> 'cb iomanager \<Rightarrow> 'cb iomanager" where
  "contextResize sz io = io\<lparr>m_fdContexts :=
     take sz (m_fdContexts io) @ map FdContext_new [length (m_fdContexts io) ..< sz]\<rparr>"

definition IOManager_new :: "u64 \<Rightarrow> 'cb iomanager" where
  "IOManager_new now = contextResize 32
     \<lparr>io_timers = TimerManager_new now, m_fdContexts = [], m_pendingEventCount = 0, m_eventfd = 0, io_scheduled = []\<rparr>"

section \<open>Contexts\<close>

text \<open>\<open>getContext\<close> asserts on anything but a single \<open>READ\<close> or \<open>WRITE\<close>.\<close>

definition getContext :: "u32 \<Rightarrow> 'cb fd_context \<Rightarrow> fault + 'cb event_context" where
  "getContext event ctx =
     (if event = READ then Inr (fc_read ctx) else if event = WRITE then Inr (fc_write ctx) else Inl Assert_Failed)"

definition put_context :: "u32 \<Rightarrow> 'cb event_context \<Rightarrow> 'cb fd_context \<Rightarrow> 'cb fd_context" where
  "put_context event ec ctx = (if event = READ then ctx\<lparr>fc_read := ec\<rparr> else ctx\<lparr>fc_write := ec\<rparr>)"

definition resetContext :: "'cb event_context" where
  "resetContext = \<lparr>ec_scheduler = None, ec_coroutine = None, ec_cb = None\<rparr>"

text \<open>What \<open>schedule\<close> is given: nothing is queued for a null coroutine.\<close>

definition task_of :: "'cb event_context \<Rightarrow> 'cb io_task list" where
  "task_of ec = (case ec_cb ec of
     Some cb \<Rightarrow> [Callback cb]
   | None \<Rightarrow> (case ec_coroutine ec of Some c \<Rightarrow> [Resume c] | None \<Rightarrow> []))"

text \<open>\<open>triggerEvent\<close> clears the event and the scheduler, but keeps callback and coroutine.\<close>

definition triggerEvent :: "u32 \<Rightarrow> 'cb fd_context \<Rightarrow> (fault + (nat \<times> 'cb io_task) list) \<times> 'cb fd_context" where
  "triggerEvent ev ctx =
     (let ctx1 = ctx\<lparr>fc_event := fc_event ctx AND NOT ev\<rparr> in
      case getContext ev ctx1 of
        Inl e \<Rightarrow> (Inl e, ctx1)
      | Inr ec \<Rightarrow>
          (case ec_scheduler ec of
             None \<Rightarrow> (Inl Null_Deref, ctx1)
           | Some sch \<Rightarrow> (Inr (map (Pair sch) (task_of ec)), put_context ev (ec\<lparr>ec_scheduler := None\<rparr>) ctx1)))"

definition put_ctx :: "nat \<Rightarrow> 'cb fd_context \<Rightarrow> 'cb iomanager \<Rightarrow> 'cb iomanager" where
  "put_ctx fd ctx io = io\<lparr>m_fdContexts := (m_fdContexts io)[fd := ctx]\<rparr>"

text \<open>\<open>triggerEvent(ev); --m_pendingEventCount;\<close>\<close>

definition trigger :: "nat \<Rightarrow> u32 \<Rightarrow> ('cb iomanager, unit) op" where
  "trigger fd ev io =
     (case triggerEvent ev (m_fdContexts io ! fd) of
        (Inl e, ctx) \<Rightarrow> (Inl e, put_ctx fd ctx io)
      | (Inr ts, ctx) \<Rightarrow> (Inr (), (put_ctx fd ctx io)\<lparr>io_scheduled := io_scheduled io @ ts,
                                     m_pendingEventCount := m_pendingEventCount io - 1\<rparr>))"

section \<open>Operations\<close>

text \<open>\<open>(int)m_fdContexts.size() > fd\<close> also holds for a negative \<open>fd\<close>, which then indexes the vector.\<close>

definition index_ok :: "int \<Rightarrow> 'cb iomanager \<Rightarrow> bool" where
  "index_ok fd io \<longleftrightarrow> 0 \<le> fd \<and> fd < int (length (m_fdContexts io))"

definition addEvent :: "io_env \<Rightarrow> bool \<Rightarrow> int \<Rightarrow> u32 \<Rightarrow> 'cb option \<Rightarrow> ('cb iomanager, int) op" where
  "addEvent env ep fd event cb io0 =
     (let io = (if int (length (m_fdContexts io0)) > fd then io0 else contextResize (nat (3 * fd div 2)) io0) in
      if \<not> index_ok fd io then (Inl Bad_Index, io)
      else let ctx = m_fdContexts io ! nat fd in
        if fc_event ctx AND event \<noteq> 0 then (Inl Assert_Failed, io)
        else if \<not> ep then (Inr (-1), io)
        else let ctx1 = ctx\<lparr>fc_event := fc_event ctx OR event\<rparr>;
                 io1 = put_ctx (nat fd) ctx1 (io\<lparr>m_pendingEventCount := m_pendingEventCount io + 1\<rparr>)
             in case getContext event ctx1 of
               Inl e \<Rightarrow> (Inl e, io1)
             | Inr ec \<Rightarrow>
                 if ec_scheduler ec \<noteq> None then (Inl Assert_Failed, io1)
                 else if \<not> (ec_coroutine ec = None \<or> ec_cb ec = None) then (Inl Assert_Failed, io1)
                 else let ec1 = ec\<lparr>ec_scheduler := env_scheduler env\<rparr> in
                   if cb \<noteq> None then (Inr 0, put_ctx (nat fd) (put_context event (ec1\<lparr>ec_cb := cb\<rparr>) ctx1) io1)
                   else let io2 = put_ctx (nat fd) (put_context event (ec1\<lparr>ec_coroutine := Some (env_coroutine env)\<rparr>) ctx1) io1
                        in if env_exec env then (Inr 0, io2) else (Inl Assert_Failed, io2))"

definition delEvent :: "bool \<Rightarrow> int \<Rightarrow> u32 \<Rightarrow> ('cb iomanager, bool) op" where
  "delEvent ep fd event io =
     (if int (length (m_fdContexts io)) < fd then (Inr False, io)
      else if \<not> index_ok fd io then (Inl Bad_Index, io)
      else let ctx = m_fdContexts io ! nat fd in
        if fc_event ctx AND event = 0 then (Inr False, io)
        else if \<not> ep then (Inr False, io)
        else let ctx1 = ctx\<lparr>fc_event := fc_event ctx AND NOT event\<rparr>;
                 io1 = put_ctx (nat fd) ctx1 (io\<lparr>m_pendingEventCount := m_pendingEventCount io - 1\<rparr>)
             in case getContext event ctx1 of
               Inl e \<Rightarrow> (Inl e, io1)
             | Inr _ \<Rightarrow> (Inr True, put_ctx (nat fd) (put_context event resetContext ctx1) io1))"

definition cancelEvent :: "bool \<Rightarrow> int \<Rightarrow> u32 \<Rightarrow> ('cb iomanager, bool) op" where
  "cancelEvent ep fd event io =
     (if int (length (m_fdContexts io)) < fd then (Inr False, io)
      else if \<not> index_ok fd io then (Inl Bad_Index, io)
      else if fc_event (m_fdContexts io ! nat fd) AND event = 0 then (Inr False, io)
      else if \<not> ep then (Inr False, io)
      else thn (trigger (nat fd) event) (ret True) io)"

definition trigger_if :: "nat \<Rightarrow> u32 \<Rightarrow> u32 \<Rightarrow> ('cb iomanager, unit) op" where
  "trigger_if fd events ev = (if events AND ev \<noteq> 0 then trigger fd ev else ret ())"

definition cancelAll :: "bool \<Rightarrow> int \<Rightarrow> ('cb iomanager, bool) op" where
  "cancelAll ep fd io =
     (if int (length (m_fdContexts io)) < fd then (Inr False, io)
      else if \<not> index_ok fd io then (Inl Bad_Index, io)
      else if fc_event (m_fdContexts io ! nat fd) = 0 then (Inr False, io)
      else if \<not> ep then (Inr False, io)
      else thn (\<lambda>io. trigger_if (nat fd) (fc_event (m_fdContexts io ! nat fd)) READ io)
          (thn (\<lambda>io. trigger_if (nat fd) (fc_event (m_fdContexts io ! nat fd)) WRITE io)
          (\<lambda>io. if fc_event (m_fdContexts io ! nat fd) = 0 then (Inr True, io) else (Inl Assert_Failed, io))) io)"

section \<open>Waking up and waiting\<close>

text \<open>The eventfd counter: a write adds to it, a read returns 8 and clears it, or fails (-1, \<open>EAGAIN\<close>)
  when it is 0; epoll reports the descriptor only while it is not.\<close>

definition eventfd_write :: "u64 \<Rightarrow> 'cb iomanager \<Rightarrow> int \<times> 'cb iomanager" where
  "eventfd_write val io = (8, io\<lparr>m_eventfd := m_eventfd io + val\<rparr>)"

definition eventfd_read :: "'cb iomanager \<Rightarrow> int \<times> 'cb iomanager" where
  "eventfd_read io = (if m_eventfd io = 0 then (-1, io) else (8, io\<lparr>m_eventfd := 0\<rparr>))"

definition tickle :: "('cb iomanager, unit) op" where
  "tickle io = (let (rt, io1) = eventfd_write 0 io in if rt = 8 then (Inr (), io1) else (Inl Assert_Failed, io1))"

text \<open>\<open>while(read(m_eventfd, &val, sizeof(val)));\<close>\<close>

fun drain_eventfd :: "nat \<Rightarrow> ('cb iomanager, unit) op" where
  "drain_eventfd 0 io = (Inl Out_Of_Fuel, io)"
| "drain_eventfd (Suc fuel) io =
     (let (rt, io1) = eventfd_read io in if rt = 0 then (Inr (), io1) else drain_eventfd fuel io1)"

text \<open>Timers: \<open>onTimerInsertedAtFront\<close> tickles.\<close>

definition io_addTimer :: "nat \<Rightarrow> u64 \<Rightarrow> 'cb option \<Rightarrow> bool \<Rightarrow> u64 \<Rightarrow> ('cb iomanager, unit) op" where
  "io_addTimer p ms cb recuring now io =
     (let tm = addTimer p ms cb recuring now (io_timers io); io1 = io\<lparr>io_timers := tm\<rparr>
      in if m_fronts tm \<noteq> m_fronts (io_timers io) then tickle io1 else (Inr (), io1))"

definition io_stopping :: "u64 \<Rightarrow> bool \<Rightarrow> 'cb iomanager \<Rightarrow> (bool \<times> u64) \<times> 'cb iomanager" where
  "io_stopping now sched_stopping io =
     (let (timeout, tm) = getNextTimer now (io_timers io); io1 = io\<lparr>io_timers := tm\<rparr>
      in ((timeout = NOT 0 \<and> m_pendingEventCount io1 = 0 \<and> sched_stopping, timeout), io1))"

text \<open>The timeout handed to \<open>epoll_wait\<close>, an \<open>int\<close>.\<close>

definition MAX_TIMEOUT :: int where "MAX_TIMEOUT = 3000"

definition epoll_timeout :: "u64 \<Rightarrow> int" where
  "epoll_timeout next_timeout =
     (let t = (if next_timeout \<noteq> NOT 0 \<and> next_timeout > 0
               then if sint (ucast next_timeout :: u32) > MAX_TIMEOUT then 3000 else next_timeout
               else 3000)
      in sint (ucast t :: u32))"

text \<open>One event of \<open>epoll_wait\<close>, and a round of the loop in \<open>idle\<close>.\<close>

datatype epoll_data = From_Eventfd | From_Context nat

definition real_events :: "u32 \<Rightarrow> u32" where
  "real_events events =
     (let ev = (if events AND (EPOLLERR OR EPOLLHUP) \<noteq> 0 then events AND (EPOLLIN OR EPOLLOUT) else events)
      in (if ev AND EPOLLIN \<noteq> 0 then READ else NONE) OR (if ev AND EPOLLOUT \<noteq> 0 then WRITE else NONE))"

definition handle_event :: "nat \<Rightarrow> epoll_data \<times> u32 \<Rightarrow> ('cb iomanager, unit) op" where
  "handle_event fuel event io =
     (case fst event of
        From_Eventfd \<Rightarrow> drain_eventfd fuel io
      | From_Context fd \<Rightarrow>
          let real = real_events (snd event) in
          if fc_event (m_fdContexts io ! fd) AND real = NONE then (Inr (), io)
          else thn (trigger_if fd real READ) (trigger_if fd real WRITE) io)"

fun handle_events :: "nat \<Rightarrow> (epoll_data \<times> u32) list \<Rightarrow> ('cb iomanager, unit) op" where
  "handle_events fuel [] = ret ()"
| "handle_events fuel (e # es) = thn (handle_event fuel e) (handle_events fuel es)"

definition schedule_expired :: "nat \<Rightarrow> nat \<Rightarrow> u64 \<Rightarrow> 'cb iomanager \<Rightarrow> 'cb iomanager" where
  "schedule_expired self q now io =
     (let (cbs, tm) = listExpiredCb q now (io_timers io)
      in io\<lparr>io_timers := tm,
            io_scheduled := io_scheduled io @ map (\<lambda>cb. (self, Callback cb)) (List.map_filter id cbs)\<rparr>)"

text \<open>Up to where the idle coroutine yields; the result is whether it stays in its loop.\<close>

definition idle_round ::
    "nat \<Rightarrow> nat \<Rightarrow> nat \<Rightarrow> u64 \<Rightarrow> u64 \<Rightarrow> bool \<Rightarrow> (epoll_data \<times> u32) list \<Rightarrow> ('cb iomanager, bool) op" where
  "idle_round fuel self q before_wait after_wait sched_stopping events io =
     (let ((stop, _), io1) = io_stopping before_wait sched_stopping io in
      if stop then (Inr False, io1)
      else thn (handle_events fuel events) (ret True) (schedule_expired self q after_wait io1))"

section \<open>The invariant\<close>

definition slot :: "u32 \<Rightarrow> 'cb fd_context \<Rightarrow> 'cb event_context" where
  "slot ev c = (if ev = READ then fc_read c else fc_write c)"

definition registered :: "u32 \<Rightarrow> 'cb fd_context \<Rightarrow> bool" where
  "registered ev c \<longleftrightarrow> fc_event c AND ev \<noteq> 0"

text \<open>An event is registered exactly when its context has a scheduler to run it on.\<close>

definition ctx_inv :: "nat \<Rightarrow> 'cb fd_context \<Rightarrow> bool" where
  "ctx_inv i c \<longleftrightarrow> fc_fd c = i \<and> fc_event c \<in> {0, 1, 4, 5}
     \<and> (\<forall>ev \<in> {READ, WRITE}. registered ev c \<longleftrightarrow> ec_scheduler (slot ev c) \<noteq> None)"

definition n_events :: "'cb fd_context \<Rightarrow> nat" where
  "n_events c = (if registered READ c then 1 else 0) + (if registered WRITE c then 1 else 0)"

definition io_inv :: "'cb iomanager \<Rightarrow> bool" where
  "io_inv io \<longleftrightarrow> 32 \<le> length (m_fdContexts io)
     \<and> (\<forall>i < length (m_fdContexts io). ctx_inv i (m_fdContexts io ! i))
     \<and> m_pendingEventCount io = of_nat (sum_list (map n_events (m_fdContexts io)))"

lemma io_invD:
  assumes "io_inv io"
  shows "32 \<le> length (m_fdContexts io)" "i < length (m_fdContexts io) \<Longrightarrow> ctx_inv i (m_fdContexts io ! i)"
    and "m_pendingEventCount io = of_nat (sum_list (map n_events (m_fdContexts io)))"
  using assms by (auto simp: io_inv_def)

text \<open>The set of registered events as a word.\<close>

lemma event_and: "(0::u32) AND x = 0" "(1::u32) AND 4 = 0" "(4::u32) AND 1 = 0" "(5::u32) AND 1 = 1" "(5::u32) AND 4 = 4"
  by simp_all

lemma event_not: "(1::u32) AND NOT 1 = 0" "(4::u32) AND NOT 4 = 0" "(5::u32) AND NOT 1 = 4" "(5::u32) AND NOT 4 = 1"
  by simp_all

lemma put_context_sel [simp]:
  "fc_fd (put_context ev ec c) = fc_fd c" "fc_event (put_context ev ec c) = fc_event c"
  "ev \<in> {READ, WRITE} \<Longrightarrow> ev' \<in> {READ, WRITE} \<Longrightarrow> slot ev' (put_context ev ec c) = (if ev' = ev then ec else slot ev' c)"
  by (auto simp: put_context_def slot_def event_bits)

lemma getContext_slot: "ev \<in> {READ, WRITE} \<Longrightarrow> getContext ev c = Inr (slot ev c)"
  by (auto simp: getContext_def slot_def)

lemma put_ctx_sel [simp]:
  "m_fdContexts (put_ctx fd c io) = (m_fdContexts io)[fd := c]"
  "m_pendingEventCount (put_ctx fd c io) = m_pendingEventCount io" "io_scheduled (put_ctx fd c io) = io_scheduled io"
  "io_timers (put_ctx fd c io) = io_timers io" "m_eventfd (put_ctx fd c io) = m_eventfd io"
  by (simp_all add: put_ctx_def)

lemma sum_n_events:
  assumes "fd < length cs"
  shows "of_nat (sum_list (map n_events (cs[fd := c]))) =
    (of_nat (sum_list (map n_events cs)) + of_nat (n_events c) - of_nat (n_events (cs ! fd)) :: u64)"
proof -
  have "cs = take fd cs @ cs ! fd # drop (Suc fd) cs" using assms by (rule id_take_nth_drop)
  then have "sum_list (map n_events cs) =
      sum_list (map n_events (take fd cs)) + n_events (cs ! fd) + sum_list (map n_events (drop (Suc fd) cs))"
    by (metis add.assoc list.simps(9) map_append sum_list.Cons sum_list_append)
  moreover have "sum_list (map n_events (cs[fd := c])) =
      sum_list (map n_events (take fd cs)) + n_events c + sum_list (map n_events (drop (Suc fd) cs))"
    using assms by (simp add: upd_conv_take_nth_drop)
  ultimately show ?thesis by simp
qed

lemma io_inv_put:
  assumes "io_inv io" "fd < length (m_fdContexts io)" "ctx_inv fd c"
    and "m_fdContexts io' = (m_fdContexts io)[fd := c]"
    and "m_pendingEventCount io' = m_pendingEventCount io + of_nat (n_events c) - of_nat (n_events (m_fdContexts io ! fd))"
  shows "io_inv io'"
  using assms sum_n_events [OF assms(2), of c] unfolding io_inv_def by (auto simp: nth_list_update)

text \<open>Clearing or setting one event.\<close>

lemma clear_event:
  fixes c :: "'cb fd_context" and ec :: "'cb event_context"
  assumes "ctx_inv i c" "ev \<in> {READ, WRITE}" "registered ev c"
  defines "c' \<equiv> put_context ev ec (c\<lparr>fc_event := fc_event c AND NOT ev\<rparr>)"
  shows "ec_scheduler ec = None \<Longrightarrow> ctx_inv i c'" "n_events c = Suc (n_events c')" "\<not> registered ev c'"
    and "ev' \<in> {READ, WRITE} \<Longrightarrow> ev' \<noteq> ev \<Longrightarrow> registered ev' c' = registered ev' c"
  using assms(1-3) unfolding c'_def ctx_inv_def
  by (elim conjE insertE emptyE; simp add: registered_def n_events_def put_context_def slot_def event_bits)+

lemma set_event:
  fixes c :: "'cb fd_context" and ec :: "'cb event_context"
  assumes "ctx_inv i c" "ev \<in> {READ, WRITE}" "\<not> registered ev c"
  defines "c' \<equiv> put_context ev ec (c\<lparr>fc_event := fc_event c OR ev\<rparr>)"
  shows "ec_scheduler ec \<noteq> None \<Longrightarrow> ctx_inv i c'" "n_events c' = Suc (n_events c)" "registered ev c'"
    and "ev' \<in> {READ, WRITE} \<Longrightarrow> ev' \<noteq> ev \<Longrightarrow> registered ev' c' = registered ev' c"
  using assms(1-3) unfolding c'_def ctx_inv_def
  by (elim conjE insertE emptyE; simp add: registered_def n_events_def put_context_def slot_def event_bits)+

lemma registered_ctx: "fc_event c = e \<Longrightarrow> registered ev c = (e AND ev \<noteq> 0)"
  by (simp add: registered_def)

section \<open>Operations keep the invariant\<close>

definition cleared :: "u32 \<Rightarrow> 'cb fd_context \<Rightarrow> 'cb fd_context" where
  "cleared ev c = put_context ev ((slot ev c)\<lparr>ec_scheduler := None\<rparr>) (c\<lparr>fc_event := fc_event c AND NOT ev\<rparr>)"

lemma slot_event [simp]: "slot ev (c\<lparr>fc_event := e\<rparr>) = slot ev c"
  by (simp add: slot_def)

lemma trigger_spec:
  assumes inv: "io_inv io" and fd: "fd < length (m_fdContexts io)" and ev: "ev \<in> {READ, WRITE}"
    and reg: "registered ev (m_fdContexts io ! fd)"
  shows "\<exists>sch io'. ec_scheduler (slot ev (m_fdContexts io ! fd)) = Some sch \<and> trigger fd ev io = (Inr (), io')
    \<and> io_inv io' \<and> m_fdContexts io' = (m_fdContexts io)[fd := cleared ev (m_fdContexts io ! fd)]
    \<and> io_scheduled io' = io_scheduled io @ map (Pair sch) (task_of (slot ev (m_fdContexts io ! fd)))
    \<and> io_timers io' = io_timers io \<and> m_eventfd io' = m_eventfd io"
proof -
  let ?c = "m_fdContexts io ! fd"
  have ci: "ctx_inv fd ?c" using io_invD(2) [OF inv fd] .
  then obtain sch where sch: "ec_scheduler (slot ev ?c) = Some sch"
    using ev reg unfolding ctx_inv_def by blast
  define io' where "io' = (put_ctx fd (cleared ev ?c) io)\<lparr>
      io_scheduled := io_scheduled io @ map (Pair sch) (task_of (slot ev ?c)),
      m_pendingEventCount := m_pendingEventCount io - 1\<rparr>"
  have run: "trigger fd ev io = (Inr (), io')"
    by (simp add: trigger_def triggerEvent_def Let_def getContext_slot [OF ev] sch io'_def cleared_def)
  have c: "ctx_inv fd (cleared ev ?c)" "n_events ?c = Suc (n_events (cleared ev ?c))"
    using clear_event(1,2) [OF ci ev reg, of "(slot ev ?c)\<lparr>ec_scheduler := None\<rparr>"] by (simp_all add: cleared_def)
  have "io_inv io'" by (rule io_inv_put [OF inv fd c(1)]) (simp_all add: io'_def c(2))
  with run sch show ?thesis by (simp add: io'_def)
qed

lemma ctx_inv_new: "ctx_inv i (FdContext_new i)" "n_events (FdContext_new i) = 0"
  by (simp_all add: ctx_inv_def FdContext_new_def EventContext_new_def registered_def slot_def n_events_def event_bits)

lemma io_inv_resize: "io_inv io \<Longrightarrow> length (m_fdContexts io) \<le> n \<Longrightarrow> io_inv (contextResize n io)"
  unfolding io_inv_def contextResize_def
  by (auto simp: nth_append ctx_inv_new o_def)

lemma length_resize: "length (m_fdContexts io) \<le> n \<Longrightarrow> length (m_fdContexts (contextResize n io)) = n"
  by (simp add: contextResize_def)

lemma io_inv_new: "io_inv (IOManager_new now)"
  unfolding io_inv_def IOManager_new_def contextResize_def
  by (auto simp: ctx_inv_new o_def)

text \<open>After the resize a descriptor from 0 on has a context.\<close>

definition with_room :: "int \<Rightarrow> 'cb iomanager \<Rightarrow> 'cb iomanager" where
  "with_room fd io = (if int (length (m_fdContexts io)) > fd then io else contextResize (nat (3 * fd div 2)) io)"

lemma with_room_ok:
  assumes "io_inv io" "0 \<le> fd"
  shows "io_inv (with_room fd io)" "index_ok fd (with_room fd io)"
    "m_pendingEventCount (with_room fd io) = m_pendingEventCount io"
    "io_scheduled (with_room fd io) = io_scheduled io"
    "nat fd < length (m_fdContexts io) \<Longrightarrow> with_room fd io = io"
    "\<not> nat fd < length (m_fdContexts io) \<Longrightarrow> m_fdContexts (with_room fd io) ! nat fd = FdContext_new (nat fd)"
proof -
  have "\<not> int (length (m_fdContexts io)) > fd \<Longrightarrow> fd < 3 * fd div 2 \<and> length (m_fdContexts io) \<le> nat (3 * fd div 2)"
    using io_invD(1) [OF assms(1)] by linarith
  then show "io_inv (with_room fd io)" "index_ok fd (with_room fd io)"
    "\<not> nat fd < length (m_fdContexts io) \<Longrightarrow> m_fdContexts (with_room fd io) ! nat fd = FdContext_new (nat fd)"
    using assms io_inv_resize [OF assms(1)] length_resize [of io]
    by (auto simp: with_room_def index_ok_def contextResize_def nth_append not_less nat_less_iff)
qed (use assms in \<open>auto simp: with_room_def contextResize_def\<close>)

text \<open>The context \<open>addEvent\<close> leaves behind.\<close>

definition added_ctx :: "io_env \<Rightarrow> u32 \<Rightarrow> 'cb option \<Rightarrow> 'cb fd_context \<Rightarrow> 'cb fd_context" where
  "added_ctx env ev cb c = put_context ev
     (let ec = (slot ev c)\<lparr>ec_scheduler := env_scheduler env\<rparr>
      in if cb \<noteq> None then ec\<lparr>ec_cb := cb\<rparr> else ec\<lparr>ec_coroutine := Some (env_coroutine env)\<rparr>)
     (c\<lparr>fc_event := fc_event c OR ev\<rparr>)"

lemma put_put_ctx: "put_ctx fd c (put_ctx fd c' io) = put_ctx fd c io"
  by (simp add: put_ctx_def)

lemma addEvent_eq:
  assumes inv: "io_inv io" and fd: "0 \<le> fd" and ev: "ev \<in> {READ, WRITE}"
  defines "io1 \<equiv> with_room fd io"
  defines "c \<equiv> m_fdContexts io1 ! nat fd"
  shows "registered ev c \<Longrightarrow> addEvent env ep fd ev cb io = (Inl Assert_Failed, io1)"
    and "\<not> registered ev c \<Longrightarrow> \<not> ep \<Longrightarrow> addEvent env ep fd ev cb io = (Inr (-1), io1)"
    and "\<not> registered ev c \<Longrightarrow> ep \<Longrightarrow> ec_coroutine (slot ev c) \<noteq> None \<Longrightarrow> ec_cb (slot ev c) \<noteq> None \<Longrightarrow>
      fst (addEvent env ep fd ev cb io) = Inl Assert_Failed"
    and "\<not> registered ev c \<Longrightarrow> ep \<Longrightarrow> ec_coroutine (slot ev c) = None \<or> ec_cb (slot ev c) = None \<Longrightarrow> cb \<noteq> None \<or> env_exec env \<Longrightarrow>
      addEvent env ep fd ev cb io =
        (Inr 0, put_ctx (nat fd) (added_ctx env ev cb c) (io1\<lparr>m_pendingEventCount := m_pendingEventCount io1 + 1\<rparr>))"
proof -
  have ok: "index_ok fd io1" using with_room_ok(2) [OF inv fd] by (simp add: io1_def)
  then have len: "nat fd < length (m_fdContexts io1)" by (auto simp: index_ok_def)
  have ci: "ctx_inv (nat fd) c" using io_invD(2) [OF with_room_ok(1) [OF inv fd]] len by (simp add: c_def io1_def)
  note simps = addEvent_def with_room_def [symmetric] io1_def [symmetric] c_def [symmetric] Let_def ok getContext_slot [OF ev]
  show "addEvent env ep fd ev cb io = (Inl Assert_Failed, io1)" if "registered ev c"
    using that by (simp add: simps registered_def)
  assume nr: "\<not> registered ev c"
  show "addEvent env ep fd ev cb io = (Inr (-1), io1)" if "\<not> ep"
    using that nr by (simp add: simps registered_def)
  have sch: "ec_scheduler (slot ev c) = None" using nr ci ev unfolding ctx_inv_def by blast
  show "fst (addEvent env ep fd ev cb io) = Inl Assert_Failed"
    if "ep" "ec_coroutine (slot ev c) \<noteq> None" "ec_cb (slot ev c) \<noteq> None"
    using that nr sch by (simp add: simps registered_def)
  show "addEvent env ep fd ev cb io =
      (Inr 0, put_ctx (nat fd) (added_ctx env ev cb c) (io1\<lparr>m_pendingEventCount := m_pendingEventCount io1 + 1\<rparr>))"
    if "ep" "ec_coroutine (slot ev c) = None \<or> ec_cb (slot ev c) = None" "cb \<noteq> None \<or> env_exec env"
    using that nr sch by (auto simp: simps registered_def added_ctx_def put_put_ctx)
qed

lemma io_inv_added:
  assumes inv: "io_inv io" and fd: "fd < length (m_fdContexts io)" and ev: "ev \<in> {READ, WRITE}"
    and nr: "\<not> registered ev (m_fdContexts io ! fd)" and env: "env_scheduler env \<noteq> None"
  shows "io_inv (put_ctx fd (added_ctx env ev cb (m_fdContexts io ! fd)) (io\<lparr>m_pendingEventCount := m_pendingEventCount io + 1\<rparr>))"
proof -
  let ?c = "m_fdContexts io ! fd"
  have ci: "ctx_inv fd ?c" using io_invD(2) [OF inv fd] .
  have c: "ctx_inv fd (added_ctx env ev cb ?c)" "n_events (added_ctx env ev cb ?c) = Suc (n_events ?c)"
    unfolding added_ctx_def using set_event(1,2) [OF ci ev nr] env by (auto simp: Let_def)
  show ?thesis by (rule io_inv_put [OF inv fd c(1)]) (simp_all add: c(2))
qed

lemma io_inv_addEvent:
  assumes "io_inv io" "0 \<le> fd" "ev \<in> {READ, WRITE}" "env_scheduler env \<noteq> None"
    and "addEvent env ep fd ev cb io = (Inr r, io')"
  shows "io_inv io'"
proof -
  let ?io1 = "with_room fd io" and ?c = "m_fdContexts (with_room fd io) ! nat fd"
  have io1: "io_inv ?io1" "nat fd < length (m_fdContexts ?io1)"
    using with_room_ok(1,2) [OF assms(1,2)] by (auto simp: index_ok_def)
  note eq = addEvent_eq [OF assms(1-3), where env = env and ep = ep and cb = cb]
  have nr: "\<not> registered ev ?c" using eq(1) assms(5) by auto
  show ?thesis
  proof (cases ep)
    case False
    then show ?thesis using eq(2) nr assms(5) io1 by simp
  next
    case True
    then have free: "ec_coroutine (slot ev ?c) = None \<or> ec_cb (slot ev ?c) = None" using eq(3) nr assms(5) by fastforce
    have "cb \<noteq> None \<or> env_exec env"
    proof (rule ccontr)
      assume "\<not> ?thesis"
      then have "fst (addEvent env ep fd ev cb io) = Inl Assert_Failed \<or> fst (addEvent env ep fd ev cb io) = Inl Bad_Index"
        using True nr by (simp add: addEvent_def with_room_def [symmetric] Let_def getContext_slot [OF assms(3)] registered_def)
      then show False using assms(5) by simp
    qed
    then show ?thesis using eq(4) nr True free assms(5) io_inv_added [OF io1 assms(3) nr assms(4)] by auto
  qed
qed

lemma single_event: "getContext ev c = Inr x \<Longrightarrow> ev \<in> {READ, WRITE}"
  by (auto simp: getContext_def split: if_splits)

lemma io_inv_delEvent:
  assumes inv: "io_inv io" and r: "delEvent ep fd ev io = (Inr r, io')"
  shows "io_inv io'"
proof (cases "int (length (m_fdContexts io)) < fd \<or> fc_event (m_fdContexts io ! nat fd) AND ev = 0 \<or> \<not> ep")
  case True
  then show ?thesis using assms by (auto simp: delEvent_def Let_def split: if_splits)
next
  case False
  let ?c = "m_fdContexts io ! nat fd"
  have fd: "nat fd < length (m_fdContexts io)" using r False by (auto simp: delEvent_def index_ok_def split: if_splits)
  have reg: "registered ev ?c" using False by (simp add: registered_def)
  obtain x where "getContext ev (?c\<lparr>fc_event := fc_event ?c AND NOT ev\<rparr>) = Inr x"
    using r False by (auto simp: delEvent_def Let_def split: if_splits sum.splits)
  then have ev: "ev \<in> {READ, WRITE}" and x: "getContext ev (?c\<lparr>fc_event := fc_event ?c AND NOT ev\<rparr>) = Inr x"
    using single_event by auto
  let ?c' = "put_context ev resetContext (?c\<lparr>fc_event := fc_event ?c AND NOT ev\<rparr>)"
  have io': "io' = put_ctx (nat fd) ?c' (io\<lparr>m_pendingEventCount := m_pendingEventCount io - 1\<rparr>)"
    using r False x by (auto simp: delEvent_def Let_def put_put_ctx split: if_splits)
  have c: "ctx_inv (nat fd) ?c'" "n_events ?c = Suc (n_events ?c')"
    using clear_event(1,2) [OF io_invD(2) [OF inv fd] ev reg, of resetContext] by (simp_all add: resetContext_def)
  show ?thesis by (rule io_inv_put [OF inv fd c(1)]) (simp_all add: io' c(2))
qed

lemma io_inv_trigger:
  assumes "io_inv io" "fd < length (m_fdContexts io)" "ev \<in> {READ, WRITE}" "registered ev (m_fdContexts io ! fd)"
    and "trigger fd ev io = (r, io')"
  shows "r = Inr ()" "io_inv io'" "m_fdContexts io' = (m_fdContexts io)[fd := cleared ev (m_fdContexts io ! fd)]"
  using trigger_spec [OF assms(1-4)] assms(5) by auto

lemma cleared_registered:
  "ctx_inv i c \<Longrightarrow> ev \<in> {READ, WRITE} \<Longrightarrow> registered ev c \<Longrightarrow> \<not> registered ev (cleared ev c)"
  "ctx_inv i c \<Longrightarrow> ev \<in> {READ, WRITE} \<Longrightarrow> registered ev c \<Longrightarrow> ev' \<in> {READ, WRITE} \<Longrightarrow> ev' \<noteq> ev \<Longrightarrow>
    registered ev' (cleared ev c) = registered ev' c"
  unfolding cleared_def using clear_event(3,4) by blast+

lemma io_inv_cancelEvent:
  assumes inv: "io_inv io" and r: "cancelEvent ep fd ev io = (Inr r, io')"
  shows "io_inv io'"
proof (cases "int (length (m_fdContexts io)) < fd \<or> fc_event (m_fdContexts io ! nat fd) AND ev = 0 \<or> \<not> ep")
  case True
  then show ?thesis using assms by (auto simp: cancelEvent_def split: if_splits)
next
  case False
  let ?c = "m_fdContexts io ! nat fd"
  have fd: "nat fd < length (m_fdContexts io)" using r False by (auto simp: cancelEvent_def index_ok_def split: if_splits)
  have reg: "registered ev ?c" using False by (simp add: registered_def)
  have t: "thn (trigger (nat fd) ev) (ret True) io = (Inr r, io')"
    using r False by (auto simp: cancelEvent_def split: if_splits)
  obtain r0 io1 where tr: "trigger (nat fd) ev io = (r0, io1)" by fastforce
  have "\<exists>x. getContext ev (?c\<lparr>fc_event := fc_event ?c AND NOT ev\<rparr>) = Inr x"
    using t by (auto simp: thn_run trigger_def triggerEvent_def Let_def split: sum.splits option.splits)
  then have ev: "ev \<in> {READ, WRITE}" using single_event by auto
  show ?thesis using io_inv_trigger [OF inv fd ev reg tr] t by (auto simp: thn_run tr split: sum.splits)
qed

text \<open>The two guarded triggers in a row, for a set of events that is registered.\<close>

lemma io_inv_trigger_if:
  assumes "io_inv io" "fd < length (m_fdContexts io)" "ev \<in> {READ, WRITE}"
    and "e AND ev \<noteq> 0 \<Longrightarrow> registered ev (m_fdContexts io ! fd)"
  shows "\<exists>io'. trigger_if fd e ev io = (Inr (), io') \<and> io_inv io' \<and> length (m_fdContexts io') = length (m_fdContexts io)
    \<and> (\<forall>ev' \<in> {READ, WRITE}. registered ev' (m_fdContexts io' ! fd) \<longleftrightarrow>
          registered ev' (m_fdContexts io ! fd) \<and> (ev' = ev \<longrightarrow> e AND ev = 0))
    \<and> (ev' \<in> {READ, WRITE} \<longrightarrow> ev' \<noteq> ev \<longrightarrow> slot ev' (m_fdContexts io' ! fd) = slot ev' (m_fdContexts io ! fd))"
proof (cases "e AND ev = 0")
  case True
  then show ?thesis using assms(1) by (auto simp: trigger_if_def)
next
  case False
  note reg = assms(4) [OF False]
  have ci: "ctx_inv fd (m_fdContexts io ! fd)" using io_invD(2) [OF assms(1,2)] .
  obtain io' where io': "trigger fd ev io = (Inr (), io')" "io_inv io'"
    "m_fdContexts io' = (m_fdContexts io)[fd := cleared ev (m_fdContexts io ! fd)]"
    using trigger_spec [OF assms(1-3) reg] by blast
  have "slot ev' (cleared ev (m_fdContexts io ! fd)) = slot ev' (m_fdContexts io ! fd)" if "ev' \<in> {READ, WRITE}" "ev' \<noteq> ev"
    using that assms(3) by (simp add: cleared_def)
  then show ?thesis
    using io' False assms(2) cleared_registered [OF ci assms(3) reg] reg
    by (auto simp: trigger_if_def)
qed

lemma io_inv_cancelAll:
  assumes inv: "io_inv io" and r: "cancelAll ep fd io = (Inr r, io')"
  shows "io_inv io'"
proof (cases "int (length (m_fdContexts io)) < fd \<or> fc_event (m_fdContexts io ! nat fd) = 0 \<or> \<not> ep")
  case True
  then show ?thesis using assms by (auto simp: cancelAll_def split: if_splits)
next
  case False
  have fd: "nat fd < length (m_fdContexts io)" "index_ok fd io"
    using r False by (auto simp: cancelAll_def index_ok_def split: if_splits)
  obtain io1 where 1: "trigger_if (nat fd) (fc_event (m_fdContexts io ! nat fd)) READ io = (Inr (), io1)"
    "io_inv io1" "length (m_fdContexts io1) = length (m_fdContexts io)"
    using io_inv_trigger_if [OF inv fd(1), of READ "fc_event (m_fdContexts io ! nat fd)"] by (auto simp: registered_def)
  obtain io2 where 2: "trigger_if (nat fd) (fc_event (m_fdContexts io1 ! nat fd)) WRITE io1 = (Inr (), io2)" "io_inv io2"
    using io_inv_trigger_if [OF 1(2), of "nat fd" WRITE "fc_event (m_fdContexts io1 ! nat fd)"] fd(1) 1(3)
    by (auto simp: registered_def)
  show ?thesis
    using r False fd(2) 1(1) 2 by (simp add: cancelAll_def thn_run split: if_splits)
qed

text \<open>Events the kernel reports for a descriptor only as far as they are registered for it.\<close>

definition reported :: "epoll_data \<times> u32 \<Rightarrow> 'cb iomanager \<Rightarrow> bool" where
  "reported event io \<longleftrightarrow> (case fst event of
     From_Eventfd \<Rightarrow> False
   | From_Context fd \<Rightarrow> fd < length (m_fdContexts io)
       \<and> (\<forall>ev \<in> {READ, WRITE}. real_events (snd event) AND ev \<noteq> 0 \<longrightarrow> registered ev (m_fdContexts io ! fd)))"

lemma io_inv_handle_event:
  assumes inv: "io_inv io" and rep: "reported event io"
  shows "\<exists>io'. handle_event fuel event io = (Inr (), io') \<and> io_inv io'"
proof (cases "fst event")
  case From_Eventfd
  then show ?thesis using rep by (simp add: reported_def)
next
  case (From_Context fd)
  let ?real = "real_events (snd event)"
  have fd: "fd < length (m_fdContexts io)"
    and reg: "\<And>ev. ev \<in> {READ, WRITE} \<Longrightarrow> ?real AND ev \<noteq> 0 \<Longrightarrow> registered ev (m_fdContexts io ! fd)"
    using rep From_Context by (auto simp: reported_def)
  obtain io1 where 1: "trigger_if fd ?real READ io = (Inr (), io1)" "io_inv io1"
    "length (m_fdContexts io1) = length (m_fdContexts io)"
    "registered WRITE (m_fdContexts io1 ! fd) \<longleftrightarrow> registered WRITE (m_fdContexts io ! fd)"
    using io_inv_trigger_if [OF inv fd, of READ ?real] reg by (auto simp: event_bits)
  obtain io2 where 2: "trigger_if fd ?real WRITE io1 = (Inr (), io2)" "io_inv io2"
    using io_inv_trigger_if [OF 1(2), of fd WRITE ?real] fd 1(3,4) reg by auto
  show ?thesis
    using inv 1(1) 2 by (simp add: handle_event_def From_Context Let_def thn_run)
qed

section \<open>Properties\<close>

inductive io_step :: "'cb iomanager \<Rightarrow> 'cb iomanager \<Rightarrow> bool" where
  step_addEvent: "addEvent env ep fd ev cb io = (Inr r, io') \<Longrightarrow> 0 \<le> fd \<Longrightarrow> ev \<in> {READ, WRITE} \<Longrightarrow>
    env_scheduler env \<noteq> None \<Longrightarrow> io_step io io'"
| step_delEvent: "delEvent ep fd ev io = (Inr b, io') \<Longrightarrow> io_step io io'"
| step_cancelEvent: "cancelEvent ep fd ev io = (Inr b, io') \<Longrightarrow> io_step io io'"
| step_cancelAll: "cancelAll ep fd io = (Inr b, io') \<Longrightarrow> io_step io io'"
| step_event: "reported event io \<Longrightarrow> io_step io (snd (handle_event fuel event io))"
| step_tickle: "io_step io (snd (tickle io))"
| step_timers: "io_step io (io\<lparr>io_timers := tm\<rparr>)"
| step_expired: "io_step io (schedule_expired self q now io)"

inductive io_reachable :: "'cb iomanager \<Rightarrow> bool" where
  io_init: "io_reachable (IOManager_new now)"
| io_next: "io_reachable io \<Longrightarrow> io_step io io' \<Longrightarrow> io_reachable io'"

inductive_cases io_stepE: "io_step io io'"

lemma io_inv_other:
  "m_fdContexts io' = m_fdContexts io \<Longrightarrow> m_pendingEventCount io' = m_pendingEventCount io \<Longrightarrow> io_inv io \<Longrightarrow> io_inv io'"
  by (simp add: io_inv_def)

lemma io_inv_step: "io_step io io' \<Longrightarrow> io_inv io \<Longrightarrow> io_inv io'"
proof (induction rule: io_step.induct)
  case (step_addEvent env ep fd ev cb io r io')
  then show ?case using io_inv_addEvent by blast
next
  case (step_delEvent ep fd ev io b io')
  then show ?case using io_inv_delEvent by blast
next
  case (step_cancelEvent ep fd ev io b io')
  then show ?case using io_inv_cancelEvent by blast
next
  case (step_cancelAll ep fd io b io')
  then show ?case using io_inv_cancelAll by blast
next
  case (step_event event io fuel)
  then show ?case using io_inv_handle_event [of io event fuel] by auto
next
  case (step_tickle io)
  then show ?case by (auto simp: tickle_def eventfd_write_def intro: io_inv_other)
next
  case (step_timers io tm)
  then show ?case by (auto intro: io_inv_other)
next
  case (step_expired io self q now)
  then show ?case by (auto simp: schedule_expired_def Let_def split: prod.splits intro: io_inv_other)
qed

lemma io_reachable_inv: "io_reachable io \<Longrightarrow> io_inv io"
  by (induction rule: io_reachable.induct) (auto intro: io_inv_new io_inv_step)



text \<open>Registering an event and the kernel reporting it.\<close>

definition epoll_bit :: "u32 \<Rightarrow> u32" where
  "epoll_bit ev = (if ev = READ then EPOLLIN else EPOLLOUT)"

definition armed :: "io_env \<Rightarrow> 'cb option \<Rightarrow> 'cb event_context \<Rightarrow> 'cb event_context" where
  "armed env cb ec = (if cb \<noteq> None then ec\<lparr>ec_scheduler := env_scheduler env, ec_cb := cb\<rparr>
     else ec\<lparr>ec_scheduler := env_scheduler env, ec_coroutine := Some (env_coroutine env)\<rparr>)"

lemma real_epoll_bit: "ev \<in> {READ, WRITE} \<Longrightarrow> real_events (epoll_bit ev) = ev"
  by (auto simp: real_events_def epoll_bit_def event_bits)

lemma fire_single:
  assumes "ev \<in> {READ, WRITE}" "registered ev (m_fdContexts io ! fd)"
  shows "handle_event fuel (From_Context fd, epoll_bit ev) io = trigger fd ev io"
proof -
  have "READ AND WRITE = 0" "WRITE AND READ = 0" "READ AND READ \<noteq> 0" "WRITE AND WRITE \<noteq> 0" by (simp_all add: event_bits)
  moreover have "thn m (ret ()) io = m io" for m :: "('a iomanager, unit) op"
    by (cases "m io") (simp add: thn_run split: sum.split)
  ultimately show ?thesis
    using assms by (auto simp: handle_event_def real_epoll_bit registered_def NONE_def trigger_if_def)
qed

lemma slot_added_ctx: "ev \<in> {READ, WRITE} \<Longrightarrow> slot ev (added_ctx env ev cb c) = armed env cb (slot ev c)"
  by (simp add: added_ctx_def armed_def Let_def)

lemma registered_added_ctx:
  "ctx_inv i c \<Longrightarrow> ev \<in> {READ, WRITE} \<Longrightarrow> \<not> registered ev c \<Longrightarrow> registered ev (added_ctx env ev cb c)"
  unfolding added_ctx_def by (rule set_event(3))

lemma add_then_fire:
  assumes inv: "io_inv io" and fd: "fd < length (m_fdContexts io)" and ev: "ev \<in> {READ, WRITE}"
    and nr: "\<not> registered ev (m_fdContexts io ! fd)" and env: "env_scheduler env = Some sch" "cb \<noteq> None \<or> env_exec env"
    and free: "ec_coroutine (slot ev (m_fdContexts io ! fd)) = None \<or> ec_cb (slot ev (m_fdContexts io ! fd)) = None"
  defines "ec \<equiv> armed env cb (slot ev (m_fdContexts io ! fd))"
  shows "\<exists>io1 io2. addEvent env True (int fd) ev cb io = (Inr 0, io1)
    \<and> handle_event fuel (From_Context fd, epoll_bit ev) io1 = (Inr (), io2)
    \<and> io_inv io2 \<and> io_scheduled io2 = io_scheduled io @ map (Pair sch) (task_of ec)
    \<and> length (m_fdContexts io2) = length (m_fdContexts io) \<and> slot ev (m_fdContexts io2 ! fd) = ec\<lparr>ec_scheduler := None\<rparr>
    \<and> \<not> registered ev (m_fdContexts io2 ! fd) \<and> m_pendingEventCount io2 = m_pendingEventCount io
    \<and> reported (From_Context fd, epoll_bit ev) io1"
proof -
  let ?c = "m_fdContexts io ! fd"
  have room: "with_room (int fd) io = io" using with_room_ok(5) [OF inv, of "int fd"] fd by simp
  define io1 where "io1 = put_ctx fd (added_ctx env ev cb ?c) (io\<lparr>m_pendingEventCount := m_pendingEventCount io + 1\<rparr>)"
  have add: "addEvent env True (int fd) ev cb io = (Inr 0, io1)"
    using addEvent_eq(4) [OF inv _ ev, of "int fd" True cb env] nr free env(2) by (simp add: room io1_def)
  have inv1: "io_inv io1" unfolding io1_def using env(1) by (intro io_inv_added [OF inv fd ev nr]) simp
  have c1: "m_fdContexts io1 ! fd = added_ctx env ev cb ?c" "length (m_fdContexts io1) = length (m_fdContexts io)"
    using fd by (simp_all add: io1_def)
  have ci: "ctx_inv fd ?c" using io_invD(2) [OF inv fd] .
  have reg1: "registered ev (m_fdContexts io1 ! fd)" unfolding c1 using registered_added_ctx [OF ci ev nr] .
  have slot1: "slot ev (m_fdContexts io1 ! fd) = ec" unfolding c1 ec_def by (rule slot_added_ctx [OF ev])
  have fd1: "fd < length (m_fdContexts io1)" using fd c1(2) by simp
  obtain sch' io2 where t: "ec_scheduler ec = Some sch'" "trigger fd ev io1 = (Inr (), io2)" "io_inv io2"
    "m_fdContexts io2 = (m_fdContexts io1)[fd := cleared ev (m_fdContexts io1 ! fd)]"
    "io_scheduled io2 = io_scheduled io1 @ map (Pair sch') (task_of ec)"
    using trigger_spec [OF inv1 fd1 ev reg1] unfolding slot1 by blast
  have "sch' = sch" using t(1) env(1) by (auto simp: ec_def armed_def split: if_splits)
  moreover have c2: "m_fdContexts io2 ! fd = cleared ev (m_fdContexts io1 ! fd)" using t(4) fd1 by simp
  then have "slot ev (m_fdContexts io2 ! fd) = ec\<lparr>ec_scheduler := None\<rparr>"
    unfolding c2 cleared_def slot1 using ev by simp
  moreover have "\<not> registered ev (m_fdContexts io2 ! fd)"
    unfolding c2 using cleared_registered(1) [OF io_invD(2) [OF inv1 fd1] ev reg1] .
  moreover have "m_pendingEventCount io2 = m_pendingEventCount io"
  proof -
    have "snd (trigger fd ev io1) = io2" using t(2) by simp
    then have "m_pendingEventCount io2 = m_pendingEventCount io1 - 1"
      using t(1) slot1 by (auto simp: trigger_def triggerEvent_def Let_def getContext_slot [OF ev])
    then show ?thesis by (simp add: io1_def)
  qed
  moreover have "io_scheduled io1 = io_scheduled io" by (simp add: io1_def)
  moreover have "reported (From_Context fd, epoll_bit ev) io1"
    using fd1 reg1 ev by (auto simp: reported_def real_epoll_bit event_bits)
  ultimately show ?thesis
    using add t c1(2) fire_single [OF ev reg1] by (intro exI [of _ io1] exI [of _ io2]) simp
qed

text \<open>C13: an event registered on a fresh context and then reported by the kernel schedules its
  callback, or resumes the coroutine that registered it, exactly once and on the scheduler it was
  registered from, and is no longer registered or counted.\<close>

theorem event_delivered:
  assumes "io_reachable io" "fd < length (m_fdContexts io)" "ev \<in> {READ, WRITE}"
    and "\<not> registered ev (m_fdContexts io ! fd)" "slot ev (m_fdContexts io ! fd) = EventContext_new"
    and "env_scheduler env = Some sch" "env_exec env"
  shows "\<exists>io1 io2. addEvent env True (int fd) ev cb io = (Inr 0, io1)
    \<and> handle_event fuel (From_Context fd, epoll_bit ev) io1 = (Inr (), io2)
    \<and> io_scheduled io2 = io_scheduled io @
        [(sch, case cb of Some f \<Rightarrow> Callback f | None \<Rightarrow> Resume (env_coroutine env))]
    \<and> \<not> registered ev (m_fdContexts io2 ! fd) \<and> m_pendingEventCount io2 = m_pendingEventCount io"
proof -
  have "task_of (armed env cb EventContext_new) = [case cb of Some f \<Rightarrow> Callback f | None \<Rightarrow> Resume (env_coroutine env)]"
    by (cases cb) (simp_all add: task_of_def armed_def EventContext_new_def)
  then show ?thesis
    using add_then_fire [OF io_reachable_inv [OF assms(1)] assms(2-4,6), of cb fuel] assms(5,7)
    by (auto simp: EventContext_new_def)
qed

lemma fresh_manager:
  "fd < 32 \<Longrightarrow> m_fdContexts (IOManager_new 0) ! fd = FdContext_new fd" "length (m_fdContexts (IOManager_new 0)) = 32"
  "\<not> registered ev (FdContext_new fd)" "slot ev (FdContext_new fd) = EventContext_new"
  by (simp_all add: IOManager_new_def contextResize_def registered_def FdContext_new_def NONE_def slot_def)

lemma event_delivered_witness:
  "\<exists>io1 io2. addEvent \<lparr>env_scheduler = Some 3, env_coroutine = 8, env_exec = True\<rparr> True (int 6) WRITE (None :: string option) (IOManager_new 0)
      = (Inr 0, io1)
    \<and> handle_event 1 (From_Context 6, epoll_bit WRITE) io1 = (Inr (), io2)
    \<and> io_scheduled io2 = [(3, Resume 8)]"
proof -
  let ?io = "IOManager_new 0" and ?env = "\<lparr>env_scheduler = Some 3, env_coroutine = 8, env_exec = True\<rparr>"
  have a: "6 < length (m_fdContexts ?io)" "\<not> registered WRITE (m_fdContexts ?io ! 6)"
    "slot WRITE (m_fdContexts ?io ! 6) = EventContext_new"
    by (simp_all add: fresh_manager)
  have e: "env_scheduler ?env = Some 3" "env_exec ?env" by simp_all
  have ev: "WRITE \<in> {READ, WRITE}" by simp
  obtain io1 io2 where r: "addEvent ?env True (int 6) WRITE (None :: string option) ?io = (Inr 0, io1)"
    "handle_event 1 (From_Context 6, epoll_bit WRITE) io1 = (Inr (), io2)"
    "io_scheduled io2 = io_scheduled ?io @ [(3, case None of Some f \<Rightarrow> Callback f | None \<Rightarrow> Resume (env_coroutine ?env))]"
    using event_delivered [OF io_init a(1) ev a(2,3) e, of None 1] by (elim exE conjE) (rule that)
  have "io_scheduled io2 = [(3, Resume 8)]" unfolding r(3) by (simp add: IOManager_new_def contextResize_def)
  with r(1,2) show ?thesis by blast
qed

text \<open>A fired context keeps its callback. When a coroutine later waits for the same event of the
  same descriptor, the event runs the old callback again instead of resuming the coroutine, and the
  registration after that fails an assertion.\<close>

theorem stale_callback_runs_again:
  assumes "io_reachable io" "fd < length (m_fdContexts io)" "ev \<in> {READ, WRITE}"
    and "\<not> registered ev (m_fdContexts io ! fd)" "ec_cb (slot ev (m_fdContexts io ! fd)) = Some f"
    and "ec_coroutine (slot ev (m_fdContexts io ! fd)) = None"
    and "env_scheduler env = Some sch" "env_exec env"
  shows "\<exists>io1 io2. addEvent env True (int fd) ev None io = (Inr 0, io1)
    \<and> handle_event fuel (From_Context fd, epoll_bit ev) io1 = (Inr (), io2)
    \<and> io_scheduled io2 = io_scheduled io @ [(sch, Callback f)]
    \<and> fst (addEvent env True (int fd) ev cb io2) = Inl Assert_Failed"
proof -
  let ?ec = "armed env (None :: 'a option) (slot ev (m_fdContexts io ! fd))"
  obtain io1 io2 where a: "addEvent env True (int fd) ev None io = (Inr 0, io1)"
    "handle_event fuel (From_Context fd, epoll_bit ev) io1 = (Inr (), io2)" "io_inv io2"
    "io_scheduled io2 = io_scheduled io @ map (Pair sch) (task_of ?ec)"
    "length (m_fdContexts io2) = length (m_fdContexts io)" "slot ev (m_fdContexts io2 ! fd) = ?ec\<lparr>ec_scheduler := None\<rparr>"
    "\<not> registered ev (m_fdContexts io2 ! fd)"
    using add_then_fire [OF io_reachable_inv [OF assms(1)] assms(2-4,7), of None fuel] assms(6,8) by blast
  have "task_of ?ec = [Callback f]" using assms(5) by (simp add: task_of_def armed_def)
  moreover have "fst (addEvent env True (int fd) ev cb io2) = Inl Assert_Failed"
    using addEvent_eq(3) [OF a(3) _ assms(3), of "int fd" True env cb] with_room_ok(5) [OF a(3), of "int fd"]
      a(5-7) assms(2,5) by (simp add: armed_def)
  ultimately show ?thesis using a(1,2,4) by auto
qed

lemma stale_callback_runs_again_witness:
  "\<exists>io io1 io2. addEvent \<lparr>env_scheduler = Some 3, env_coroutine = 8, env_exec = True\<rparr> True (int 6) READ None io = (Inr 0, io1)
    \<and> handle_event 1 (From_Context 6, epoll_bit READ) io1 = (Inr (), io2)
    \<and> io_scheduled io2 = [(3, Callback ''f''), (3, Callback ''f'')]"
proof -
  let ?io = "IOManager_new 0 :: string iomanager" and ?env = "\<lparr>env_scheduler = Some 3, env_coroutine = 8, env_exec = True\<rparr>"
  have a: "6 < length (m_fdContexts ?io)" "\<not> registered READ (m_fdContexts ?io ! 6)"
    "slot READ (m_fdContexts ?io ! 6) = EventContext_new" "io_scheduled ?io = []"
    by (simp_all add: fresh_manager) (simp add: IOManager_new_def contextResize_def)
  have ev: "READ \<in> {READ, WRITE}" and e: "env_scheduler ?env = Some 3" "env_exec ?env" by simp_all
  have free: "ec_coroutine (slot READ (m_fdContexts ?io ! 6)) = None \<or> ec_cb (slot READ (m_fdContexts ?io ! 6)) = None"
    "Some ''f'' \<noteq> None \<or> env_exec ?env"
    by (simp_all add: a(3) EventContext_new_def)
  obtain io1 io2 where r: "addEvent ?env True (int 6) READ (Some ''f'') ?io = (Inr 0, io1)"
    "handle_event 1 (From_Context 6, epoll_bit READ) io1 = (Inr (), io2)"
    "io_scheduled io2 = io_scheduled ?io @ map (Pair 3) (task_of (armed ?env (Some ''f'') (slot READ (m_fdContexts ?io ! 6))))"
    "length (m_fdContexts io2) = length (m_fdContexts ?io)"
    "slot READ (m_fdContexts io2 ! 6) = (armed ?env (Some ''f'') (slot READ (m_fdContexts ?io ! 6)))\<lparr>ec_scheduler := None\<rparr>"
    "\<not> registered READ (m_fdContexts io2 ! 6)" "reported (From_Context 6, epoll_bit READ) io1"
    using add_then_fire [OF io_inv_new a(1) ev a(2) e(1) free(2,1), of 1] by (elim exE conjE) (rule that)
  have "io_reachable io1" by (rule io_next [OF io_init step_addEvent [OF r(1)]]) simp_all
  from io_next [OF this step_event [OF r(7), of 1]] have reach: "io_reachable io2" unfolding r(2) by simp
  have s2: "ec_cb (slot READ (m_fdContexts io2 ! 6)) = Some ''f''" "ec_coroutine (slot READ (m_fdContexts io2 ! 6)) = None"
    "io_scheduled io2 = [(3, Callback ''f'')]" "6 < length (m_fdContexts io2)"
    unfolding r(3-5) a(3) using a(1,4) by (simp_all add: armed_def EventContext_new_def task_of_def)
  from stale_callback_runs_again [OF reach s2(4) ev r(6) s2(1,2) e, of 1 None] s2(3)
  show ?thesis by (simp only: append_Cons append_Nil) blast
qed

text \<open>Waking up does not work: \<open>tickle\<close> adds 0 to the eventfd and changes nothing, so the
  descriptor never becomes readable; were it readable, the loop that drains it would never end, its
  condition holding for the error result as well; and with a timer due at once the wait is the
  maximum of three seconds.\<close>

theorem tickle_has_no_effect:
  "tickle io = (Inr (), io) \<and> fst (drain_eventfd fuel io) = Inl Out_Of_Fuel \<and> epoll_timeout 0 = MAX_TIMEOUT"
proof -
  have "fst (drain_eventfd fuel io) = Inl Out_Of_Fuel" for io :: "'a iomanager"
    by (induction fuel arbitrary: io) (simp_all add: eventfd_read_def)
  then show ?thesis
    by (simp add: tickle_def eventfd_write_def epoll_timeout_def MAX_TIMEOUT_def)
qed

text \<open>The failures of the event interface: a descriptor equal to the number of contexts passes the
  range check of \<open>delEvent\<close>, \<open>cancelEvent\<close> and \<open>cancelAll\<close> and indexes past the end; an event the
  kernel reports together with one that is not registered (any more) crashes on the missing
  scheduler; an event that is only an error or a hang-up is dropped, and whoever waits is not woken.\<close>

theorem event_failures:
  assumes "io_reachable io"
  shows "fst (delEvent ep (int (length (m_fdContexts io))) ev io) = Inl Bad_Index
    \<and> fst (cancelEvent ep (int (length (m_fdContexts io))) ev io) = Inl Bad_Index
    \<and> fst (cancelAll ep (int (length (m_fdContexts io))) io) = Inl Bad_Index
    \<and> (fd < length (m_fdContexts io) \<and> registered WRITE (m_fdContexts io ! fd) \<and> \<not> registered READ (m_fdContexts io ! fd) \<longrightarrow>
        fst (handle_event fuel (From_Context fd, EPOLLIN OR EPOLLOUT) io) = Inl Null_Deref)
    \<and> handle_event fuel (From_Context fd, EPOLLERR OR EPOLLHUP) io = (Inr (), io)"
proof -
  have "fst (handle_event fuel (From_Context fd, EPOLLIN OR EPOLLOUT) io) = Inl Null_Deref"
    if fd: "fd < length (m_fdContexts io)" and r: "registered WRITE (m_fdContexts io ! fd)" "\<not> registered READ (m_fdContexts io ! fd)"
  proof -
    have "ctx_inv fd (m_fdContexts io ! fd)" using io_invD(2) [OF io_reachable_inv [OF assms] fd] .
    then have "ec_scheduler (fc_read (m_fdContexts io ! fd)) = None" and e: "fc_event (m_fdContexts io ! fd) = 4"
      using r by (auto simp: ctx_inv_def slot_def registered_def event_bits)
    then have "fst (trigger fd READ io) = Inl Null_Deref"
      by (simp add: trigger_def triggerEvent_def Let_def getContext_def)
    moreover have "real_events (EPOLLIN OR EPOLLOUT) = 5" by (simp add: real_events_def event_bits)
    ultimately show ?thesis
      using e by (cases "trigger fd READ io") (simp add: handle_event_def trigger_if_def thn_run event_bits)
  qed
  moreover have "handle_event fuel (From_Context fd, EPOLLERR OR EPOLLHUP) io = (Inr (), io)"
    by (simp add: handle_event_def real_events_def event_bits)
  ultimately show ?thesis
    by (simp add: delEvent_def cancelEvent_def cancelAll_def index_ok_def)
qed

lemma event_failures_witness:
  "fst (delEvent True 32 READ (IOManager_new 0 :: string iomanager)) = Inl Bad_Index"
  using event_failures [of "IOManager_new 0 :: string iomanager" True READ 0 0] by (simp add: fresh_manager io_init)

end
