(* ===== verification/Hook.thy ===== *)
theory Hook
  imports Fd_Manager IO_Manager Endian "HOL-Library.Signed_Division"
begin

text \<open>
  \<open>src/src/hook.h\<close> and \<open>src/src/hook.cpp\<close>: the blocking system calls replaced by versions that suspend
  the calling coroutine. The original functions (\<open>read_f\<close>, \<open>connect_f\<close> and so on) are the kernel:
  \<open>h_results\<close> holds the results, with the \<open>errno\<close> that goes with -1, of the calls to come, and
  \<open>h_calls\<close> collects the calls made. A coroutine that yields is resumed by others: what they do to
  the state meanwhile is \<open>t_during\<close> of a \<open>turn\<close>, which also gives the time, the address of a new timer
  and the answer of \<open>epoll_ctl\<close> (0, or the \<open>errno\<close> of its failure).
\<close>

section \<open>State\<close>

datatype hook_cb = Timeout_Cb nat int u32 | Schedule_Cb nat

type_synonym hook_callback = "(nat, hook_cb) callback"

datatype sys_call =
    Sys_io string int
  | Sys_sleep u32
  | Sys_usleep u32
  | Sys_nanosleep int int
  | Sys_socket int int int
  | Sys_connect int
  | Sys_close int
  | Sys_fcntl int int "u32 option"
  | Sys_ioctl int u64 u32
  | Sys_getsockopt int int int
  | Sys_setsockopt int int int "byte list"
  | Sys_bind int
  | Sys_listen int int
  | Sys_getsockname int
  | Sys_getpeername int

record hooks =
  t_hook_enable :: bool
  h_errno :: int
  h_fds :: fd_table
  h_io :: "hook_callback iomanager"
  h_tinfo :: "nat \<Rightarrow> int option"
  h_results :: "(int \<times> int) list"
  h_calls :: "sys_call list"

record turn =
  t_now :: u64
  t_addr :: nat
  t_epoll :: int
  t_during :: "hooks \<Rightarrow> hooks"

definition EINTR :: int where "EINTR = 4"
definition EBADF :: int where "EBADF = 9"
definition EAGAIN :: int where "EAGAIN = 11"
definition ETIMEDOUT :: int where "ETIMEDOUT = 110"
definition EINPROGRESS :: int where "EINPROGRESS = 115"

lemmas errnos = EINTR_def EBADF_def EAGAIN_def ETIMEDOUT_def EINPROGRESS_def

definition is_hook_enable :: "hooks \<Rightarrow> bool" where
  "is_hook_enable h = t_hook_enable h"

definition set_hook_enable :: "bool \<Rightarrow> hooks \<Rightarrow> hooks" where
  "set_hook_enable flag h = h\<lparr>t_hook_enable := flag\<rparr>"

text \<open>An original function, and the two other parts of the state an operation can work on.\<close>

definition sys :: "sys_call \<Rightarrow> (hooks, int) op" where
  "sys c h =
     (case h_results h of
        [] \<Rightarrow> (Inl Out_Of_Fuel, h)
      | (n, e) # rs \<Rightarrow> (Inr n, h\<lparr>h_results := rs, h_calls := h_calls h @ [c], h_errno := (if n = -1 then e else h_errno h)\<rparr>))"

definition on_io :: "(hook_callback iomanager, 'a) op \<Rightarrow> (hooks, 'a) op" where
  "on_io m h = (let (r, io) = m (h_io h) in (r, h\<lparr>h_io := io\<rparr>))"

definition on_fds :: "(fd_table, 'a) op \<Rightarrow> (hooks, 'a) op" where
  "on_fds m h = (let (r, ds) = m (h_fds h) in (r, h\<lparr>h_fds := ds\<rparr>))"

definition cancel_timer :: "nat \<Rightarrow> (hooks, unit) op" where
  "cancel_timer p = on_io (\<lambda>io. case timer_cancel p (io_timers io) of
     (Inl e, tm) \<Rightarrow> (Inl e, io\<lparr>io_timers := tm\<rparr>)
   | (Inr _, tm) \<Rightarrow> (Inr (), io\<lparr>io_timers := tm\<rparr>))"

text \<open>A context reached through its pointer is changed in its place.\<close>

definition put_fd :: "int \<Rightarrow> fd_ctx \<Rightarrow> hooks \<Rightarrow> hooks" where
  "put_fd fd ctx h = h\<lparr>h_fds := (h_fds h)[nat fd := Some ctx]\<rparr>"

section \<open>\<open>do_io\<close>\<close>

text \<open>The call, repeated while it is interrupted.\<close>

fun eintr_loop :: "sys_call \<Rightarrow> (int \<times> int) list \<Rightarrow> (hooks, int) op" where
  "eintr_loop c [] h = (Inl Out_Of_Fuel, h)"
| "eintr_loop c (r # rs) h =
     (let (n, h1) = sys c h in
      if n = Inr (-1) \<and> h_errno h1 = EINTR then eintr_loop c rs h1 else (n, h1))"

definition call_eintr :: "sys_call \<Rightarrow> (hooks, int) op" where
  "call_eintr c h = eintr_loop c (h_results h) h"

text \<open>The callback of the timer, and arming it: no timer when the timeout is -1.\<close>

definition timeout_cb :: "bool \<Rightarrow> nat \<Rightarrow> int \<Rightarrow> u32 \<Rightarrow> (hooks, unit) op" where
  "timeout_cb ep tid fd event h =
     (case h_tinfo h tid of
        None \<Rightarrow> (Inr (), h)
      | Some c \<Rightarrow>
          if c \<noteq> 0 then (Inr (), h)
          else bnd (on_io (cancelEvent ep fd event)) (\<lambda>_. ret ()) (h\<lparr>h_tinfo := (h_tinfo h)(tid \<mapsto> ETIMEDOUT)\<rparr>))"

definition arm :: "turn \<Rightarrow> nat \<Rightarrow> u64 \<Rightarrow> int \<Rightarrow> u32 \<Rightarrow> (hooks, unit) op" where
  "arm t tid to fd event =
     (if to \<noteq> -1 then on_io (io_addTimer (t_addr t) to (Some (Guarded tid (Timeout_Cb tid fd event))) False (t_now t))
      else ret ())"

definition disarm :: "turn \<Rightarrow> u64 \<Rightarrow> (hooks, unit) op" where
  "disarm t to = (if to \<noteq> -1 then cancel_timer (t_addr t) else ret ())"

text \<open>\<open>IOManager::GetThis()\<close> is null outside a scheduler.\<close>

definition has_iom :: "io_env \<Rightarrow> (hooks, unit) op" where
  "has_iom env = (if env_scheduler env = None then raise Null_Deref else ret ())"

text \<open>From \<open>EAGAIN\<close> to where the coroutine is resumed: \<open>None\<close> is \<open>goto retry\<close>.\<close>

definition wait_event :: "io_env \<Rightarrow> nat \<Rightarrow> u64 \<Rightarrow> int \<Rightarrow> u32 \<Rightarrow> turn \<Rightarrow> (hooks, int option) op" where
  "wait_event env tid to fd event t =
     thn (has_iom env)
    (thn (arm t tid to fd event)
    (bnd (on_io (addEvent env (t_epoll t = 0) fd event None)) (\<lambda>rt.
       if rt \<noteq> 0 then
         thn (upd (h_errno_update (\<lambda>_. t_epoll t)))
        (thn (disarm t to) (ret (Some (-1))))
       else
         thn (upd (t_during t))
        (thn (disarm t to)
        (\<lambda>h. case h_tinfo h tid of
           None \<Rightarrow> (Inl Null_Deref, h)
         | Some c \<Rightarrow> if c \<noteq> 0 then (Inr (Some (-1)), h\<lparr>h_errno := c\<rparr>) else (Inr None, h))))))"

definition would_block :: "int \<Rightarrow> hooks \<Rightarrow> bool" where
  "would_block n h \<longleftrightarrow> n = -1 \<and> h_errno h = EAGAIN"

fun do_io_retry :: "io_env \<Rightarrow> nat \<Rightarrow> u64 \<Rightarrow> sys_call \<Rightarrow> int \<Rightarrow> u32 \<Rightarrow> turn list \<Rightarrow> (hooks, int) op" where
  "do_io_retry env tid to c fd event [] =
     bnd (call_eintr c) (\<lambda>n h. if would_block n h then (Inl Out_Of_Fuel, h) else (Inr n, h))"
| "do_io_retry env tid to c fd event (t # ts) =
     bnd (call_eintr c) (\<lambda>n h.
       if would_block n h then
         bnd (wait_event env tid to fd event t)
             (\<lambda>r. case r of Some m \<Rightarrow> ret m | None \<Rightarrow> do_io_retry env tid to c fd event ts) h
       else (Inr n, h))"

text \<open>\<open>tid\<close> is the address of the \<open>timer_info\<close>, which lives until the function returns.\<close>

definition with_tinfo :: "nat \<Rightarrow> (hooks, 'a) op \<Rightarrow> (hooks, 'a) op" where
  "with_tinfo tid m h =
     (let (r, h1) = m (h\<lparr>h_tinfo := (h_tinfo h)(tid \<mapsto> 0)\<rparr>) in (r, h1\<lparr>h_tinfo := (h_tinfo h1)(tid := None)\<rparr>))"

definition do_io :: "kernel \<Rightarrow> io_env \<Rightarrow> nat \<Rightarrow> turn list \<Rightarrow> string \<Rightarrow> u32 \<Rightarrow> int \<Rightarrow> int \<Rightarrow> (hooks, int) op" where
  "do_io k env tid turns name event timeout_so fd h0 =
     (if \<not> t_hook_enable h0 then sys (Sys_io name fd) h0
      else bnd (on_fds (fdm_get k fd False)) (\<lambda>ctx h. case ctx of
          None \<Rightarrow> sys (Sys_io name fd) h
        | Some c \<Rightarrow>
            if m_isClosed c then (Inr (-1), h\<lparr>h_errno := EBADF\<rparr>)
            else if \<not> m_isSocket c \<or> m_userNonblock c then sys (Sys_io name fd) h
            else with_tinfo tid
              (do_io_retry env tid (getTimeout timeout_so c) (Sys_io name fd) fd event turns) h) h0)"

definition read where "read k env tid turns = do_io k env tid turns ''read'' READ SO_RCVTIMEO"
definition readv where "readv k env tid turns = do_io k env tid turns ''readv'' READ SO_RCVTIMEO"
definition recv where "recv k env tid turns = do_io k env tid turns ''recv'' READ SO_RCVTIMEO"
definition recvfrom where "recvfrom k env tid turns = do_io k env tid turns ''recvfrom'' READ SO_RCVTIMEO"
definition recvmsg where "recvmsg k env tid turns = do_io k env tid turns ''recvmsg'' READ SO_RCVTIMEO"
definition hook_write where "hook_write k env tid turns = do_io k env tid turns ''write'' WRITE SO_SNDTIMEO"
definition writev where "writev k env tid turns = do_io k env tid turns ''writev'' WRITE SO_SNDTIMEO"
definition send where "send k env tid turns = do_io k env tid turns ''send'' WRITE SO_SNDTIMEO"
definition sendto where "sendto k env tid turns = do_io k env tid turns ''sendto'' WRITE SO_SNDTIMEO"
definition sendmsg where "sendmsg k env tid turns = do_io k env tid turns ''sendmsg'' WRITE SO_SNDTIMEO"

text \<open>A descriptor that \<open>accept\<close> or \<open>socket\<close> returns gets its context at once.\<close>

definition accept :: "kernel \<Rightarrow> io_env \<Rightarrow> nat \<Rightarrow> turn list \<Rightarrow> int \<Rightarrow> (hooks, int) op" where
  "accept k env tid turns sockfd =
     bnd (do_io k env tid turns ''accept'' READ SO_RCVTIMEO sockfd) (\<lambda>fd.
       if fd \<ge> 0 then thn (on_fds (fdm_get k fd True)) (ret fd) else ret fd)"

definition socket :: "kernel \<Rightarrow> int \<Rightarrow> int \<Rightarrow> int \<Rightarrow> (hooks, int) op" where
  "socket k domain type protocol h =
     (if \<not> t_hook_enable h then sys (Sys_socket domain type protocol) h
      else bnd (sys (Sys_socket domain type protocol)) (\<lambda>fd.
        if fd = -1 then ret fd else thn (on_fds (fdm_get k fd True)) (ret fd)) h)"

section \<open>\<open>connect\<close>\<close>

text \<open>The error of the connection, once the socket is writable: \<open>so_error\<close> is what \<open>getsockopt\<close> stores.\<close>

definition connect_result :: "int \<Rightarrow> int \<Rightarrow> (hooks, int) op" where
  "connect_result fd so_error =
     bnd (sys (Sys_getsockopt fd 1 4)) (\<lambda>r.
       if r = -1 then ret (-1)
       else if so_error = 0 then ret 0
       else thn (upd (h_errno_update (\<lambda>_. so_error))) (ret (-1)))"

definition connect_wait :: "io_env \<Rightarrow> nat \<Rightarrow> turn \<Rightarrow> int \<Rightarrow> int \<Rightarrow> u64 \<Rightarrow> (hooks, int) op" where
  "connect_wait env tid t so_error fd timeout_ms =
     thn (has_iom env)
    (thn (arm t tid timeout_ms fd WRITE)
    (bnd (on_io (addEvent env (t_epoll t = 0) fd WRITE None)) (\<lambda>rt.
       if rt = 0 then
         thn (upd (t_during t))
        (thn (disarm t timeout_ms)
        (\<lambda>h. case h_tinfo h tid of
           None \<Rightarrow> (Inl Null_Deref, h)
         | Some c \<Rightarrow> if c \<noteq> 0 then (Inr (-1), h\<lparr>h_errno := c\<rparr>) else connect_result fd so_error h))
       else
         thn (disarm t timeout_ms) (connect_result fd so_error))))"

definition connect_with_timeout ::
    "kernel \<Rightarrow> io_env \<Rightarrow> nat \<Rightarrow> turn \<Rightarrow> int \<Rightarrow> int \<Rightarrow> u64 \<Rightarrow> (hooks, int) op" where
  "connect_with_timeout k env tid t so_error fd timeout_ms h0 =
     (if \<not> t_hook_enable h0 then sys (Sys_connect fd) h0
      else bnd (on_fds (fdm_get k fd False)) (\<lambda>ctx h. case ctx of
          None \<Rightarrow> (Inr (-1), h\<lparr>h_errno := EBADF\<rparr>)
        | Some c \<Rightarrow>
            if m_isClosed c then (Inr (-1), h\<lparr>h_errno := EBADF\<rparr>)
            else if \<not> m_isSocket c then sys (Sys_connect fd) h
            else if m_userNonblock c then sys (Sys_connect fd) h
            else bnd (sys (Sys_connect fd)) (\<lambda>n h1.
              if n = 0 then (Inr 0, h1)
              else if n \<noteq> -1 \<or> h_errno h1 \<noteq> EINPROGRESS then (Inr n, h1)
              else with_tinfo tid (connect_wait env tid t so_error fd timeout_ms) h1) h) h0)"

text \<open>\<open>s_connect_timeout\<close> is the value of the configuration variable \<open>tcp.connect.timeout\<close>, an \<open>int\<close>.\<close>

definition s_connect_timeout :: "32 word \<Rightarrow> u64" where
  "s_connect_timeout new_value = scast new_value"

definition connect :: "kernel \<Rightarrow> io_env \<Rightarrow> nat \<Rightarrow> turn \<Rightarrow> int \<Rightarrow> 32 word \<Rightarrow> int \<Rightarrow> (hooks, int) op" where
  "connect k env tid t so_error tcp_connect_timeout sockfd =
     connect_with_timeout k env tid t so_error sockfd (s_connect_timeout tcp_connect_timeout)"

section \<open>Sleeping\<close>

definition sleep_for :: "io_env \<Rightarrow> turn \<Rightarrow> u64 \<Rightarrow> (hooks, int) op" where
  "sleep_for env t ms =
     thn (has_iom env)
    (thn (on_io (io_addTimer (t_addr t) ms (Some (Plain (Schedule_Cb (env_coroutine env)))) False (t_now t)))
    (thn (upd (t_during t)) (ret 0)))"

definition sleep :: "io_env \<Rightarrow> turn \<Rightarrow> u32 \<Rightarrow> (hooks, int) op" where
  "sleep env t seconds h =
     (if \<not> t_hook_enable h then sys (Sys_sleep seconds) h
      else sleep_for env t (ucast (seconds * 1000)) h)"

definition usleep :: "io_env \<Rightarrow> turn \<Rightarrow> u32 \<Rightarrow> (hooks, int) op" where
  "usleep env t usec h =
     (if \<not> t_hook_enable h then sys (Sys_usleep usec) h
      else sleep_for env t (ucast (usec div 1000)) h)"

definition nanosleep_ms :: "int \<Rightarrow> int \<Rightarrow> 32 word" where
  "nanosleep_ms tv_sec tv_nsec = word_of_int (tv_sec * 1000 + tv_nsec sdiv 1000 sdiv 1000)"

definition nanosleep :: "io_env \<Rightarrow> turn \<Rightarrow> int \<Rightarrow> int \<Rightarrow> (hooks, int) op" where
  "nanosleep env t tv_sec tv_nsec h =
     (if \<not> t_hook_enable h then sys (Sys_nanosleep tv_sec tv_nsec) h
      else sleep_for env t (scast (nanosleep_ms tv_sec tv_nsec)) h)"

section \<open>Descriptors\<close>

definition close :: "kernel \<Rightarrow> io_env \<Rightarrow> bool \<Rightarrow> int \<Rightarrow> (hooks, int) op" where
  "close k env ep fd h0 =
     (if \<not> t_hook_enable h0 then sys (Sys_close fd) h0
      else bnd (on_fds (fdm_get k fd False)) (\<lambda>ctx.
        if ctx \<noteq> None then
          thn (if env_scheduler env \<noteq> None then thn (on_io (cancelAll ep fd)) (ret ()) else ret ())
         (thn (on_fds (fdm_del fd)) (sys (Sys_close fd)))
        else sys (Sys_close fd)) h0)"

definition F_SETFL :: int where "F_SETFL = 4"

text \<open>The commands that pass on an integer or a pointer, and those that take no argument; any other
  command is passed on without its argument. A pointer is passed on as it is, \<open>arg\<close> stands for it.\<close>

definition fcntl_with_arg :: "int list" where
  "fcntl_with_arg = [0, 1030, 2, 8, 10, 1024, 1026, 1031] @ [6, 7, 5] @ [16, 15]"

definition fcntl_no_arg :: "int list" where
  "fcntl_no_arg = [1, 3, 9, 11, 1025, 1032]"

definition fcntl :: "kernel \<Rightarrow> int \<Rightarrow> int \<Rightarrow> u32 \<Rightarrow> (hooks, int) op" where
  "fcntl k fd cmd arg =
     (if cmd = F_SETFL then
        bnd (on_fds (fdm_get k fd False)) (\<lambda>ctx h. case ctx of
            None \<Rightarrow> sys (Sys_fcntl fd cmd (Some arg)) h
          | Some c \<Rightarrow>
              if m_isClosed c \<or> \<not> m_isSocket c then sys (Sys_fcntl fd cmd (Some arg)) h
              else let c1 = setUserNonblock (arg AND O_NONBLOCK \<noteq> 0) c;
                       arg1 = (if m_sysNonblock c1 then arg OR O_NONBLOCK else arg AND NOT O_NONBLOCK)
                   in sys (Sys_fcntl fd cmd (Some arg1)) (put_fd fd c1 h))
      else if cmd \<in> set fcntl_with_arg then sys (Sys_fcntl fd cmd (Some arg))
      else if cmd \<in> set fcntl_no_arg then sys (Sys_fcntl fd cmd None)
      else sys (Sys_fcntl fd cmd None))"

definition FIONBIO :: u64 where "FIONBIO = 0x5421"

definition ioctl :: "kernel \<Rightarrow> int \<Rightarrow> u64 \<Rightarrow> u32 \<Rightarrow> (hooks, int) op" where
  "ioctl k fd op_code arg =
     (if op_code = FIONBIO then
        bnd (on_fds (fdm_get k fd False)) (\<lambda>ctx h. case ctx of
            None \<Rightarrow> sys (Sys_ioctl fd op_code arg) h
          | Some c \<Rightarrow>
              if m_isClosed c \<or> \<not> m_isSocket c then sys (Sys_ioctl fd op_code arg) h
              else sys (Sys_ioctl fd op_code arg) (put_fd fd (setUserNonblock (arg \<noteq> 0) c) h))
      else sys (Sys_ioctl fd op_code arg))"

definition getsockopt :: "int \<Rightarrow> int \<Rightarrow> int \<Rightarrow> (hooks, int) op" where
  "getsockopt sockfd level optname = sys (Sys_getsockopt sockfd level optname)"

text \<open>\<open>optname == SO_RCVTIMEO || SO_SNDTIMEO\<close> always holds, so that the value of every option of the
  level \<open>SOL_SOCKET\<close> is read as a \<open>timeval\<close> of 16 bytes; \<open>optval\<close> is the object passed, and reading
  past it is undefined.\<close>

definition SOL_SOCKET :: int where "SOL_SOCKET = 1"

definition timeval_ms :: "byte list \<Rightarrow> u64" where
  "timeval_ms v = word_of_int (sint (of_le_bytes (take 8 v) :: u64) * 1000 + sint (of_le_bytes (take 8 (drop 8 v)) :: u64) sdiv 1000)"

definition setsockopt :: "kernel \<Rightarrow> int \<Rightarrow> int \<Rightarrow> int \<Rightarrow> byte list \<Rightarrow> (hooks, int) op" where
  "setsockopt k sockfd level optname optval h0 =
     (if \<not> t_hook_enable h0 then sys (Sys_setsockopt sockfd level optname optval) h0
      else if level = SOL_SOCKET \<and> (optname = SO_RCVTIMEO \<or> SO_SNDTIMEO \<noteq> 0) then
        bnd (on_fds (fdm_get k sockfd False)) (\<lambda>ctx h. case ctx of
            None \<Rightarrow> sys (Sys_setsockopt sockfd level optname optval) h
          | Some c \<Rightarrow>
              if length optval < 16 then (Inl Bad_Index, h)
              else sys (Sys_setsockopt sockfd level optname optval) (put_fd sockfd (setTimeout optname (timeval_ms optval) c) h)) h0
      else sys (Sys_setsockopt sockfd level optname optval) h0)"

section \<open>Properties\<close>

lemma hooks_sel [simp]:
  "h_results (snd (on_io m h)) = h_results h" "h_calls (snd (on_io m h)) = h_calls h" "h_tinfo (snd (on_io m h)) = h_tinfo h"
  "h_results (snd (on_fds m2 h)) = h_results h" "h_calls (snd (on_fds m2 h)) = h_calls h" "h_tinfo (snd (on_fds m2 h)) = h_tinfo h"
  by (simp_all add: on_io_def on_fds_def split: prod.split)

lemma on_io_run: "on_io m h = (r, h') \<Longrightarrow> m (h_io h) = (r, h_io h') \<and> h' = h\<lparr>h_io := h_io h'\<rparr>"
  by (auto simp: on_io_def split: prod.splits)

text \<open>The results a blocked or interrupted call has given.\<close>

definition unsettled :: "int \<times> int \<Rightarrow> bool" where
  "unsettled r \<longleftrightarrow> fst r = -1 \<and> snd r \<in> {EINTR, EAGAIN}"

lemma sys_Cons:
  "h_results h = (n, e) # rs \<Longrightarrow>
   sys c h = (Inr n, h\<lparr>h_results := rs, h_calls := h_calls h @ [c], h_errno := (if n = -1 then e else h_errno h)\<rparr>)"
  by (simp add: sys_def)

lemma eintr_loop_spec:
  assumes "eintr_loop c (h_results h) h = (Inr n, h')"
  shows "\<exists>pre e. h_results h = pre @ (n, e) # h_results h' \<and> (\<forall>r \<in> set pre. r = (-1, EINTR))
     \<and> \<not> (n = -1 \<and> e = EINTR) \<and> h_calls h' = h_calls h @ replicate (Suc (length pre)) c
     \<and> (n = -1 \<longrightarrow> h_errno h' = e) \<and> h_io h' = h_io h \<and> h_fds h' = h_fds h \<and> h_tinfo h' = h_tinfo h"
  using assms
proof (induction "h_results h" arbitrary: h)
  case Nil
  then show ?case by (metis Inl_Inr_False Pair_inject eintr_loop.simps(1))
next
  case (Cons r rs)
  obtain m e where r: "r = (m, e)" by (cases r)
  let ?h1 = "h\<lparr>h_results := rs, h_calls := h_calls h @ [c], h_errno := (if m = -1 then e else h_errno h)\<rparr>"
  have s: "sys c h = (Inr m, ?h1)" using Cons.hyps(2) r by (intro sys_Cons) simp
  have hr: "h_results h = (m, e) # rs" using Cons.hyps(2) r by simp
  show ?case
  proof (cases "m = -1 \<and> e = EINTR")
    case True
    then have "eintr_loop c (h_results ?h1) ?h1 = (Inr n, h')" using Cons.prems hr s by simp
    from Cons.hyps(1) [OF _ this] obtain pre e' where
      "rs = pre @ (n, e') # h_results h'" "\<forall>r \<in> set pre. r = (-1, EINTR)" "\<not> (n = -1 \<and> e' = EINTR)"
      "h_calls h' = h_calls h @ [c] @ replicate (Suc (length pre)) c" "n = -1 \<longrightarrow> h_errno h' = e'"
      "h_io h' = h_io h" "h_fds h' = h_fds h" "h_tinfo h' = h_tinfo h" by auto
    then show ?thesis using hr True by (intro exI [of _ "(m, e) # pre"] exI [of _ e']) simp
  next
    case False
    then have "Inr m = (Inr n :: fault + int)" "h' = ?h1" using Cons.prems hr s by (auto split: if_splits)
    then show ?thesis using hr False by (intro exI [of _ "[]"] exI [of _ e]) auto
  qed
qed

text \<open>What others do while the coroutine is suspended: the calls recorded are those of this operation,
  and only its timer sets its \<open>timer_info\<close>.\<close>

definition apart :: "nat \<Rightarrow> (hooks \<Rightarrow> hooks) \<Rightarrow> bool" where
  "apart tid f \<longleftrightarrow> (\<forall>h. h_results (f h) = h_results h \<and> h_calls (f h) = h_calls h
     \<and> (h_tinfo h tid \<in> {Some 0, Some ETIMEDOUT} \<longrightarrow> h_tinfo (f h) tid \<in> {Some 0, Some ETIMEDOUT}))"

lemma arm_spec: "arm t tid to fd event h = (Inr x, h') \<Longrightarrow> h_results h' = h_results h \<and> h_calls h' = h_calls h \<and> h_tinfo h' = h_tinfo h"
  by (auto simp: arm_def on_io_def split: if_splits prod.splits)

lemma disarm_spec: "disarm t to h = (Inr x, h') \<Longrightarrow>
   h_results h' = h_results h \<and> h_calls h' = h_calls h \<and> h_tinfo h' = h_tinfo h \<and> h_errno h' = h_errno h"
  by (auto simp: disarm_def cancel_timer_def on_io_def split: if_splits prod.splits)

lemma wait_event_spec:
  assumes run: "wait_event env tid to fd event t h = (Inr r, h')"
    and f: "apart tid (t_during t)" "h_tinfo h tid = Some 0"
  shows "h_results h' = h_results h \<and> h_calls h' = h_calls h
    \<and> (r = None \<and> h_tinfo h' tid = Some 0
       \<or> r = Some (-1) \<and> (h_errno h' = ETIMEDOUT \<or> t_epoll t \<noteq> 0 \<and> h_errno h' = t_epoll t))"
proof -
  obtain h1 rt h2 where a: "arm t tid to fd event h = (Inr (), h1)"
      "on_io (addEvent env (t_epoll t = 0) fd event None) h1 = (Inr rt, h2)"
    and k: "(if rt \<noteq> 0
      then thn (upd (h_errno_update (\<lambda>_. t_epoll t))) (thn (disarm t to) (ret (Some (-1))))
      else thn (upd (t_during t)) (thn (disarm t to)
        (\<lambda>h. case h_tinfo h tid of
           None \<Rightarrow> (Inl Null_Deref, h)
         | Some c \<Rightarrow> if c \<noteq> 0 then (Inr (Some (-1)), h\<lparr>h_errno := c\<rparr>) else (Inr None, h)))) h2 = (Inr r, h')"
    using run by (auto simp: wait_event_def has_iom_def run_back split: if_splits)
  have e: "h_results h2 = h_results h" "h_calls h2 = h_calls h" "h_tinfo h2 tid = Some 0"
    using arm_spec [OF a(1)] hooks_sel(1-3) [of "addEvent env (t_epoll t = 0) fd event None" h1] a(2) f(2) by simp_all
  show ?thesis
  proof (cases "rt = 0")
    case False
    then have rt: "t_epoll t \<noteq> 0" using on_io_run [OF a(2)]
      by (auto simp: addEvent_def Let_def split: if_splits sum.splits)
    obtain h3 where "disarm t to (h2\<lparr>h_errno := t_epoll t\<rparr>) = (Inr (), h3)" "r = Some (-1)" "h' = h3"
      using k False by (auto simp: run_back)
    then show ?thesis using disarm_spec [of t to "h2\<lparr>h_errno := t_epoll t\<rparr>"] e rt by auto
  next
    case True
    obtain h3 where d: "disarm t to (t_during t h2) = (Inr (), h3)"
      and c: "(case h_tinfo h3 tid of
           None \<Rightarrow> (Inl Null_Deref, h3)
         | Some c \<Rightarrow> if c \<noteq> 0 then (Inr (Some (-1)), h3\<lparr>h_errno := c\<rparr>) else (Inr None, h3)) = (Inr r, h')"
      using k True by (auto simp: run_back)
    have "h_tinfo (t_during t h2) tid \<in> {Some 0, Some ETIMEDOUT}" "h_results (t_during t h2) = h_results h"
      "h_calls (t_during t h2) = h_calls h" using f(1) e by (auto simp: apart_def)
    then show ?thesis using disarm_spec [OF d] c by (auto simp: ETIMEDOUT_def split: if_splits)
  qed
qed

text \<open>How a call that is retried ends: with the first result that is neither interrupted nor blocked, or
  because a wait ended in a timeout or could not be registered.\<close>

definition settles :: "sys_call \<Rightarrow> turn list \<Rightarrow> hooks \<Rightarrow> int \<Rightarrow> hooks \<Rightarrow> bool" where
  "settles c turns h n h' \<longleftrightarrow>
     (\<exists>pre. (\<forall>r \<in> set pre. unsettled r) \<and>
       ((\<exists>e. h_results h = pre @ (n, e) # h_results h' \<and> \<not> unsettled (n, e) \<and> (n = -1 \<longrightarrow> h_errno h' = e)
             \<and> h_calls h' = h_calls h @ replicate (Suc (length pre)) c)
        \<or> n = -1 \<and> h_results h = pre @ h_results h' \<and> h_calls h' = h_calls h @ replicate (length pre) c
             \<and> (h_errno h' = ETIMEDOUT \<or> (\<exists>t \<in> set turns. t_epoll t \<noteq> 0 \<and> h_errno h' = t_epoll t))))"

lemma settles_now:
  assumes "h_results h = pre @ (n, e) # h_results h'" "\<forall>r \<in> set pre. unsettled r" "\<not> unsettled (n, e)"
    "n = -1 \<longrightarrow> h_errno h' = e" "h_calls h' = h_calls h @ replicate (Suc (length pre)) c"
  shows "settles c turns h n h'"
  unfolding settles_def using assms by (intro exI [of _ pre] conjI disjI1 exI [of _ e])

lemma settles_aborted:
  assumes "h_results h = pre @ h_results h'" "\<forall>r \<in> set pre. unsettled r" "n = -1"
    "h_calls h' = h_calls h @ replicate (length pre) c"
    "h_errno h' = ETIMEDOUT \<or> (\<exists>t \<in> set turns. t_epoll t \<noteq> 0 \<and> h_errno h' = t_epoll t)"
  shows "settles c turns h n h'"
  unfolding settles_def by (rule exI [of _ pre], rule conjI, rule assms(2), rule disjI2) (intro conjI assms)

lemma settles_later:
  assumes "h_results h = pre @ h_results h1" "\<forall>r \<in> set pre. unsettled r" "h_calls h1 = h_calls h @ replicate (length pre) c"
    and "settles c ts h1 n h'" "set ts \<subseteq> set turns"
  shows "settles c turns h n h'"
proof -
  from assms(4) obtain pre1 where p: "\<forall>r \<in> set pre1. unsettled r"
    "(\<exists>e. h_results h1 = pre1 @ (n, e) # h_results h' \<and> \<not> unsettled (n, e) \<and> (n = -1 \<longrightarrow> h_errno h' = e)
             \<and> h_calls h' = h_calls h1 @ replicate (Suc (length pre1)) c)
        \<or> n = -1 \<and> h_results h1 = pre1 @ h_results h' \<and> h_calls h' = h_calls h1 @ replicate (length pre1) c
             \<and> (h_errno h' = ETIMEDOUT \<or> (\<exists>t \<in> set ts. t_epoll t \<noteq> 0 \<and> h_errno h' = t_epoll t))"
    unfolding settles_def by (elim exE conjE) (rule that)
  have r: "replicate (length pre) c @ replicate m c = replicate (length pre + m) c" for m by (simp add: replicate_add)
  have all: "\<forall>r \<in> set (pre @ pre1). unsettled r" using assms(2) p(1) by auto
  from p(2) show ?thesis
  proof (rule disjE)
    assume "\<exists>e. h_results h1 = pre1 @ (n, e) # h_results h' \<and> \<not> unsettled (n, e) \<and> (n = -1 \<longrightarrow> h_errno h' = e)
             \<and> h_calls h' = h_calls h1 @ replicate (Suc (length pre1)) c"
    then obtain e where e: "h_results h1 = pre1 @ (n, e) # h_results h'" "\<not> unsettled (n, e)" "n = -1 \<longrightarrow> h_errno h' = e"
      "h_calls h' = h_calls h1 @ replicate (Suc (length pre1)) c"
      by (elim exE conjE) (rule that)
    have "h_results h = (pre @ pre1) @ (n, e) # h_results h'" using assms(1) e(1) by simp
    moreover have "h_calls h' = h_calls h @ replicate (Suc (length (pre @ pre1))) c"
      unfolding e(4) assms(3) append_assoc r by (simp only: length_append add_Suc_right)
    ultimately show ?thesis using all e(2,3) by (intro settles_now)
  next
    assume "n = -1 \<and> h_results h1 = pre1 @ h_results h' \<and> h_calls h' = h_calls h1 @ replicate (length pre1) c
             \<and> (h_errno h' = ETIMEDOUT \<or> (\<exists>t \<in> set ts. t_epoll t \<noteq> 0 \<and> h_errno h' = t_epoll t))"
    then have e: "n = -1" "h_results h1 = pre1 @ h_results h'" "h_calls h' = h_calls h1 @ replicate (length pre1) c"
      "h_errno h' = ETIMEDOUT \<or> (\<exists>t \<in> set ts. t_epoll t \<noteq> 0 \<and> h_errno h' = t_epoll t)" by simp_all
    have "h_results h = (pre @ pre1) @ h_results h'" using assms(1) e(2) by simp
    moreover have "h_calls h' = h_calls h @ replicate (length (pre @ pre1)) c"
      unfolding e(3) assms(3) append_assoc r by (simp only: length_append)
    moreover have "h_errno h' = ETIMEDOUT \<or> (\<exists>t \<in> set turns. t_epoll t \<noteq> 0 \<and> h_errno h' = t_epoll t)"
      using e(4) assms(5) by (elim disjE bexE) (rule disjI1, assumption, rule disjI2, blast)
    ultimately show ?thesis by (intro settles_aborted [OF _ all e(1)])
  qed
qed

lemma unsettled_eintr: "\<forall>r \<in> set pre. r = (-1, EINTR) \<Longrightarrow> \<forall>r \<in> set pre. unsettled r"
  by (auto simp: unsettled_def)

lemma do_io_retry_settles:
  assumes "do_io_retry env tid to c fd event turns h = (Inr n, h')"
    and "\<forall>t \<in> set turns. apart tid (t_during t)" "h_tinfo h tid = Some 0"
  shows "settles c turns h n h'"
  using assms
proof (induction turns arbitrary: h)
  case Nil
  then obtain h1 where h1: "call_eintr c h = (Inr n, h1)" "\<not> would_block n h1" "h1 = h'"
    by (auto simp: run_back split: if_splits)
  from eintr_loop_spec [OF h1(1) [unfolded call_eintr_def]] h1(2,3) show ?case
    by (elim exE conjE) (rule settles_now, simp, rule unsettled_eintr, assumption, auto simp: unsettled_def would_block_def)
next
  case (Cons t ts)
  then obtain m h1 where h1: "call_eintr c h = (Inr m, h1)"
    and k: "(if would_block m h1 then
         bnd (wait_event env tid to fd event t)
             (\<lambda>r. case r of Some m \<Rightarrow> ret m | None \<Rightarrow> do_io_retry env tid to c fd event ts) h1
       else (Inr m, h1)) = (Inr n, h')" by (auto simp: run_back)
  obtain pre e where p: "h_results h = pre @ (m, e) # h_results h1" "\<forall>r \<in> set pre. r = (-1, EINTR)"
    "\<not> (m = -1 \<and> e = EINTR)" "h_calls h1 = h_calls h @ replicate (Suc (length pre)) c" "m = -1 \<longrightarrow> h_errno h1 = e"
    "h_tinfo h1 = h_tinfo h"
    using eintr_loop_spec [OF h1 [unfolded call_eintr_def]] by (elim exE conjE) (rule that)
  show ?case
  proof (cases "would_block m h1")
    case False
    then have "n = m" "h' = h1" using k by auto
    then show ?thesis using p False
      by (intro settles_now [of h pre n e]) (auto simp: unsettled_def would_block_def)
  next
    case True
    let ?pre = "pre @ [(m, e)]"
    have pre: "h_results h = ?pre @ h_results h1" "\<forall>r \<in> set ?pre. unsettled r"
      "h_calls h1 = h_calls h @ replicate (length ?pre) c"
      using p True by (auto simp: unsettled_def would_block_def)
    obtain r h2 where w: "wait_event env tid to fd event t h1 = (Inr r, h2)"
      and k2: "(case r of Some m \<Rightarrow> ret m | None \<Rightarrow> do_io_retry env tid to c fd event ts) h2 = (Inr n, h')"
      using k True by (auto simp: run_back)
    have f: "apart tid (t_during t)" "h_tinfo h1 tid = Some 0" using Cons.prems(2,3) p(6) by auto
    from wait_event_spec [OF w f] have e2: "h_results h2 = h_results h1" "h_calls h2 = h_calls h1"
      and "r = None \<and> h_tinfo h2 tid = Some 0
       \<or> r = Some (-1) \<and> (h_errno h2 = ETIMEDOUT \<or> t_epoll t \<noteq> 0 \<and> h_errno h2 = t_epoll t)" by auto
    then consider "r = None" "h_tinfo h2 tid = Some 0" |
      "r = Some (-1)" "h_errno h2 = ETIMEDOUT \<or> t_epoll t \<noteq> 0 \<and> h_errno h2 = t_epoll t" by blast
    then show ?thesis
    proof cases
      case 1
      then have "settles c ts h2 n h'" using Cons.IH [of h2] k2 Cons.prems(2) by simp
      then show ?thesis using settles_later [of h ?pre h2 c ts n h' "t # ts"] pre e2 by auto
    next
      case 2
      then have "n = -1" "h' = h2" using k2 by auto
      moreover have "h_errno h' = ETIMEDOUT \<or> (\<exists>t' \<in> set (t # ts). t_epoll t' \<noteq> 0 \<and> h_errno h' = t_epoll t')"
        using 2(2) \<open>h' = h2\<close> by auto
      ultimately show ?thesis using pre e2 by (intro settles_aborted [of h ?pre]) auto
    qed
  qed
qed

lemma with_tinfo_run:
  assumes "with_tinfo tid m h = (Inr n, h')"
  shows "\<exists>h1. m (h\<lparr>h_tinfo := (h_tinfo h)(tid \<mapsto> 0)\<rparr>) = (Inr n, h1) \<and> h_results h' = h_results h1
    \<and> h_calls h' = h_calls h1 \<and> h_errno h' = h_errno h1"
  using assms by (auto simp: with_tinfo_def split: prod.splits)

text \<open>A descriptor the hooks manage: a socket with a context, in blocking mode for the user.\<close>

definition managed :: "int \<Rightarrow> fd_ctx \<Rightarrow> hooks \<Rightarrow> bool" where
  "managed fd c h \<longleftrightarrow> t_hook_enable h \<and> fd \<noteq> -1 \<and> lookup fd (h_fds h) = Some c
     \<and> \<not> m_isClosed c \<and> m_isSocket c \<and> \<not> m_userNonblock c"

lemma do_io_managed:
  "managed fd c h \<Longrightarrow> do_io k env tid turns name event timeout_so fd h =
     with_tinfo tid (do_io_retry env tid (getTimeout timeout_so c) (Sys_io name fd) fd event turns) h"
  using fdm_get_hit [of fd "h_fds h" c k False]
  by (simp add: do_io_def managed_def bnd_def on_fds_def)

text \<open>C16: an I/O call on a socket the hooks manage never returns \<open>EINTR\<close> or \<open>EAGAIN\<close> to the program. Its
  calls of the original function are the ones that were interrupted or blocked and then, as the
  last, the one whose result it returns; or it returns -1 after the last blocked one, and \<open>errno\<close> is
  \<open>ETIMEDOUT\<close> or the reason why epoll refused the descriptor.\<close>

theorem do_io_settles:
  assumes "managed fd c h" "\<forall>t \<in> set turns. apart tid (t_during t)"
    and "do_io k env tid turns name event timeout_so fd h = (Inr n, h')"
  shows "settles (Sys_io name fd) turns h n h'"
proof -
  obtain h1 where "do_io_retry env tid (getTimeout timeout_so c) (Sys_io name fd) fd event turns
      (h\<lparr>h_tinfo := (h_tinfo h)(tid \<mapsto> 0)\<rparr>) = (Inr n, h1)"
    and e: "h_results h' = h_results h1" "h_calls h' = h_calls h1" "h_errno h' = h_errno h1"
    using with_tinfo_run [OF assms(3) [unfolded do_io_managed [OF assms(1)]]] by (elim exE conjE) (rule that)
  from do_io_retry_settles [OF this(1) assms(2)] show ?thesis by (simp add: settles_def e)
qed


text \<open>The timers due at \<open>now\<close> fire while the coroutine is suspended: the idle coroutine schedules their
  callbacks, and the workers run them.\<close>

definition run_hook_cb :: "bool \<Rightarrow> hook_cb \<Rightarrow> hooks \<Rightarrow> hooks" where
  "run_hook_cb ep cb h =
     (case cb of
        Timeout_Cb tid fd event \<Rightarrow> snd (timeout_cb ep tid fd event h)
      | Schedule_Cb co \<Rightarrow> h\<lparr>h_io := (h_io h)\<lparr>io_scheduled := io_scheduled (h_io h) @ [(0, Resume co)]\<rparr>\<rparr>)"

definition run_task :: "bool \<Rightarrow> hook_callback io_task \<Rightarrow> hooks \<Rightarrow> hooks" where
  "run_task ep task h =
     (case task of
        Resume _ \<Rightarrow> h
      | Callback cb \<Rightarrow> fold (run_hook_cb ep) (OnTimer (\<lambda>tid. h_tinfo h tid \<noteq> None) cb) h)"

definition run_due :: "bool \<Rightarrow> nat \<Rightarrow> u64 \<Rightarrow> hooks \<Rightarrow> hooks" where
  "run_due ep q now h =
     (let io = schedule_expired 0 q now (h_io h);
          tasks = drop (length (io_scheduled (h_io h))) (io_scheduled io)
      in fold (run_task ep) (map snd tasks) (h\<lparr>h_io := io\<rparr>))"

lemma io_addTimer_eq:
  "io_addTimer p ms cb recuring now io = (Inr (), io\<lparr>io_timers := addTimer p ms cb recuring now (io_timers io)\<rparr>)"
  by (cases io) (simp add: io_addTimer_def Let_def tickle_def eventfd_write_def)

lemma addTimer_only:
  assumes "m_timers tm = []"
  shows "m_timers (addTimer p ms cb recuring now tm) = [p]"
    "m_objs (addTimer p ms cb recuring now tm) = (m_objs tm)(p := Timer_new ms cb recuring now)"
    "m_previousTime (addTimer p ms cb recuring now tm) = m_previousTime tm"
  using assms by (simp_all add: addTimer_def addTimer_locked_def Let_def queue_insert_def set_obj_def)

lemma expire_only:
  assumes "tm_inv tm" "m_timers tm = [p]" "q \<noteq> p" "m_next (m_objs tm p) \<le> now" "\<not> m_recuring (m_objs tm p)"
  shows "\<exists>tm'. listExpiredCb q now tm = ([m_cb (m_objs tm p)], tm') \<and> m_timers tm' = [] \<and> m_cb (m_objs tm' p) = None"
proof -
  obtain cbs tm' where r: "listExpiredCb q now tm = (cbs, tm')" by fastforce
  note spec = listExpiredCb_spec [OF assms(1) _ refl refl, of q now, unfolded r fst_conv snd_conv]
  have "set (m_timers tm') = {}" using spec assms(2-5) by (auto simp del: set_empty)
  then have "m_timers tm' = []" by simp
  then show ?thesis using spec assms(2-5) by (auto simp: r fired_def)
qed

lemma cancelEvent_registered:
  assumes "io_inv io" "fd < length (m_fdContexts io)" "ev \<in> {READ, WRITE}" "registered ev (m_fdContexts io ! fd)"
    and "ec_scheduler (slot ev (m_fdContexts io ! fd)) = Some sch"
  shows "\<exists>io'. cancelEvent True (int fd) ev io = (Inr True, io') \<and> io_inv io'
    \<and> m_pendingEventCount io' = m_pendingEventCount io - 1
    \<and> io_scheduled io' = io_scheduled io @ map (Pair sch) (task_of (slot ev (m_fdContexts io ! fd)))
    \<and> \<not> registered ev (m_fdContexts io' ! fd) \<and> io_timers io' = io_timers io"
proof -
  obtain io' where t: "trigger fd ev io = (Inr (), io')" "io_inv io'"
    "m_fdContexts io' = (m_fdContexts io)[fd := cleared ev (m_fdContexts io ! fd)]"
    "io_scheduled io' = io_scheduled io @ map (Pair sch) (task_of (slot ev (m_fdContexts io ! fd)))"
    "io_timers io' = io_timers io"
    using trigger_spec [OF assms(1-4)] assms(5) by auto
  have "snd (trigger fd ev io) = io'" using t(1) by simp
  then have "m_pendingEventCount io' = m_pendingEventCount io - 1"
    using assms(5) by (auto simp: trigger_def triggerEvent_def Let_def getContext_slot [OF assms(3)])
  moreover have "\<not> registered ev (m_fdContexts io' ! fd)"
    using cleared_registered(1) [OF io_invD(2) [OF assms(1,2)] assms(3,4)] t(3) assms(2) by simp
  moreover have "cancelEvent True (int fd) ev io = (Inr True, io')"
    using assms(2,4) t(1) by (simp add: cancelEvent_def index_ok_def registered_def thn_run)
  ultimately show ?thesis using t by blast
qed

text \<open>What a wait that ends in its timeout leaves.\<close>

lemma wait_times_out:
  fixes h :: hooks and fd :: nat
  defines "io \<equiv> h_io h"
  defines "ctx \<equiv> m_fdContexts io ! fd"
  assumes inv: "io_inv io" "tm_inv (io_timers io)" and idle: "m_timers (io_timers io) = []"
    and fd: "fd < length (m_fdContexts io)" and ev: "ev \<in> {READ, WRITE}"
    and free: "\<not> registered ev ctx" "slot ev ctx = EventContext_new"
    and env: "env_scheduler env = Some sch" "env_exec env"
    and t: "t_epoll t = 0" "t_during t = run_due True q now" "q \<noteq> t_addr t" "t_now t + to \<le> now" "to \<noteq> -1"
    and ti: "h_tinfo h tid = Some 0"
  shows "\<exists>h'. wait_event env tid to (int fd) ev t h = (Inr (Some (-1)), h')
    \<and> h_errno h' = ETIMEDOUT \<and> h_results h' = h_results h \<and> h_fds h' = h_fds h \<and> io_inv (h_io h')
    \<and> m_timers (io_timers (h_io h')) = [] \<and> \<not> registered ev (m_fdContexts (h_io h') ! fd)
    \<and> m_pendingEventCount (h_io h') = m_pendingEventCount io
    \<and> io_scheduled (h_io h') = io_scheduled io @
        [(0, Callback (Guarded tid (Timeout_Cb tid (int fd) ev))), (sch, Resume (env_coroutine env))]"
proof -
  define cb where "cb = Guarded tid (Timeout_Cb tid (int fd) ev)"
  define tm1 where "tm1 = addTimer (t_addr t) to (Some cb) False (t_now t) (io_timers io)"
  define io1 where "io1 = io\<lparr>io_timers := tm1\<rparr>"
  define io2 where "io2 = put_ctx fd (added_ctx env ev None ctx) (io1\<lparr>m_pendingEventCount := m_pendingEventCount io1 + 1\<rparr>)"
  have inv1: "io_inv io1" using inv(1) by (simp add: io1_def io_inv_other)
  have c1: "m_fdContexts io1 = m_fdContexts io" "length (m_fdContexts io1) = length (m_fdContexts io)" by (simp_all add: io1_def)
  have room: "with_room (int fd) io1 = io1" using with_room_ok(5) [OF inv1, of "int fd"] fd c1 by simp
  have ctx1: "m_fdContexts io1 ! fd = ctx" by (simp add: io1_def ctx_def)
  have arm: "arm t tid to (int fd) ev h = (Inr (), h\<lparr>h_io := io1\<rparr>)"
    using t(5) by (simp add: arm_def on_io_def io_addTimer_eq io1_def tm1_def cb_def io_def)
  have add: "addEvent env True (int fd) ev None io1 = (Inr 0, io2)"
    using addEvent_eq(4) [OF inv1 _ ev, of "int fd" True None env] free env(2)
    by (simp add: room io2_def ctx1 EventContext_new_def)
  have inv2: "io_inv io2" unfolding io2_def
    using io_inv_added [OF inv1 _ ev, of fd env None] fd c1 ctx1 free(1) env(1) by simp
  have tm1: "m_timers tm1 = [t_addr t]" "m_objs tm1 (t_addr t) = Timer_new to (Some cb) False (t_now t)" "tm_inv tm1"
    using addTimer_only [OF idle, of "t_addr t" to "Some cb" False "t_now t"]
      tm_inv_addTimer [OF inv(2), of "t_addr t"] idle by (simp_all add: tm1_def)
  obtain tm2 where tm2: "listExpiredCb q now tm1 = ([Some cb], tm2)" "m_timers tm2 = []" "m_cb (m_objs tm2 (t_addr t)) = None"
    using expire_only [OF tm1(3,1) t(3), of now] t(4) tm1(2) by (auto simp: Timer_new_def)
  define io3 where "io3 = io2\<lparr>io_timers := tm2, io_scheduled := io_scheduled io @ [(0, Callback cb)]\<rparr>"
  have timers2: "io_timers io2 = tm1" "io_scheduled io2 = io_scheduled io" by (simp_all add: io2_def io1_def)
  have exp: "schedule_expired 0 q now io2 = io3"
    using tm2(1) by (simp add: schedule_expired_def timers2 io3_def List.map_filter_def)
  have inv3: "io_inv io3" using inv2 by (simp add: io3_def io_inv_other)
  have c3: "m_fdContexts io3 ! fd = added_ctx env ev None ctx" "length (m_fdContexts io3) = length (m_fdContexts io)"
    using fd by (simp_all add: io3_def io2_def c1)
  have ci: "ctx_inv fd ctx" unfolding ctx_def using io_invD(2) [OF inv(1) fd] .
  have reg3: "registered ev (m_fdContexts io3 ! fd)" unfolding c3 using registered_added_ctx [OF ci ev free(1)] .
  have slot3: "slot ev (m_fdContexts io3 ! fd) = armed env None EventContext_new"
    unfolding c3 using slot_added_ctx [OF ev, of env None ctx] free(2) by simp
  have sch: "ec_scheduler (slot ev (m_fdContexts io3 ! fd)) = Some sch"
    "task_of (slot ev (m_fdContexts io3 ! fd)) = [Resume (env_coroutine env)]"
    unfolding slot3 using env(1) by (simp_all add: armed_def task_of_def EventContext_new_def)
  obtain io4 where io4: "cancelEvent True (int fd) ev io3 = (Inr True, io4)" "io_inv io4"
    "m_pendingEventCount io4 = m_pendingEventCount io3 - 1"
    "io_scheduled io4 = io_scheduled io3 @ [(sch, Resume (env_coroutine env))]"
    "\<not> registered ev (m_fdContexts io4 ! fd)" "io_timers io4 = io_timers io3"
    using cancelEvent_registered [OF inv3 _ ev reg3 sch(1)] fd c3(2) sch(2) by auto
  define h2 where "h2 = h\<lparr>h_io := io2\<rparr>"
  define h4 where "h4 = h\<lparr>h_io := io4, h_tinfo := (h_tinfo h)(tid \<mapsto> ETIMEDOUT)\<rparr>"
  have during: "t_during t h2 = h4"
    using ti by (simp add: t(2) run_due_def h2_def exp io3_def timers2 run_task_def cb_def run_hook_cb_def timeout_cb_def
      on_io_def bnd_def io4(1) [unfolded io3_def cb_def] h4_def)
  have dis: "disarm t to h4 = (Inr (), h4)"
    using tm2(3) io4(6) t(5) by (simp add: disarm_def cancel_timer_def on_io_def h4_def timer_cancel_def io3_def)
  have on: "on_io (addEvent env (t_epoll t = 0) (int fd) ev None) (h\<lparr>h_io := io1\<rparr>) = (Inr 0, h2)"
    using add t(1) by (simp add: on_io_def h2_def)
  have "wait_event env tid to (int fd) ev t h = (Inr (Some (-1)), h4\<lparr>h_errno := ETIMEDOUT\<rparr>)"
    unfolding wait_event_def has_iom_def using env(1) arm on during dis
    by (simp add: h4_def ETIMEDOUT_def)
  moreover have "m_pendingEventCount io4 = m_pendingEventCount io" by (simp add: io4(3) io3_def io2_def io1_def)
  ultimately show ?thesis
    using io4(2,4-6) tm2(2) by (intro exI [of _ "h4\<lparr>h_errno := ETIMEDOUT\<rparr>"]) (simp add: h4_def io3_def cb_def)
qed


text \<open>A socket 5 with a receive timeout of 100, on a fresh manager.\<close>

definition demo_fds :: fd_table where
  "demo_fds = (replicate 64 None)[5 := Some \<lparr>m_isInit = True, m_isSocket = True, m_sysNonblock = True,
     m_userNonblock = False, m_isClosed = False, m_fd = 5, m_recvTimeout = 100, m_sendTimeout = -1\<rparr>]"

definition demo_hooks :: "(int \<times> int) list \<Rightarrow> hooks" where
  "demo_hooks results = \<lparr>t_hook_enable = True, h_errno = 0, h_fds = demo_fds, h_io = IOManager_new 0,
     h_tinfo = (\<lambda>_. None), h_results = results, h_calls = []\<rparr>"

definition demo_env :: io_env where
  "demo_env = \<lparr>env_scheduler = Some 0, env_coroutine = 3, env_exec = True\<rparr>"

lemma demo_managed: "managed 5 (the (demo_fds ! 5)) (demo_hooks rs)"
  by (simp add: managed_def demo_hooks_def demo_fds_def lookup_def)

lemma do_io_settles_witness:
  "\<exists>h'. do_io socket_kernel demo_env 9 [] ''recv'' READ SO_RCVTIMEO 5 (demo_hooks [(-1, EINTR), (7, 0)]) = (Inr 7, h')
     \<and> settles (Sys_io ''recv'' 5) [] (demo_hooks [(-1, EINTR), (7, 0)]) 7 h'"
proof -
  obtain h' where "do_io socket_kernel demo_env 9 [] ''recv'' READ SO_RCVTIMEO 5 (demo_hooks [(-1, EINTR), (7, 0)]) = (Inr 7, h')"
    unfolding do_io_managed [OF demo_managed]
    by (simp add: with_tinfo_def bnd_def call_eintr_def demo_hooks_def sys_def errnos would_block_def)
  with do_io_settles [OF demo_managed _ this] show ?thesis by simp
qed



text \<open>A sleep: a one-shot timer of \<open>ms\<close> milliseconds that resumes the coroutine is in the queue when it
  is suspended, and 0 is returned once it is resumed.\<close>

definition slept :: "io_env \<Rightarrow> turn \<Rightarrow> u64 \<Rightarrow> (fault + int) \<times> hooks \<Rightarrow> bool" where
  "slept env t ms res \<longleftrightarrow> (\<exists>h1. res = (Inr 0, t_during t h1)
     \<and> t_addr t \<in> set (m_timers (io_timers (h_io h1)))
     \<and> m_objs (io_timers (h_io h1)) (t_addr t)
         = Timer_new ms (Some (Plain (Schedule_Cb (env_coroutine env)))) False (t_now t))"

lemma sleep_for_slept: "env_scheduler env \<noteq> None \<Longrightarrow> slept env t ms (sleep_for env t ms h)"
  using addTimer_locked_cases [of "t_addr t" "set_obj (t_addr t) (Timer_new ms (Some (Plain (Schedule_Cb (env_coroutine env)))) False (t_now t)) (io_timers (h_io h))"]
  by (auto simp: slept_def sleep_for_def has_iom_def on_io_def io_addTimer_eq thn_run addTimer_def)

lemma nanosleep_small:
  assumes "0 \<le> tv_sec" "0 \<le> tv_nsec"
  shows "nanosleep_ms tv_sec tv_nsec = word_of_int (tv_sec * 1000 + tv_nsec div 1000000)"
  using assms by (simp add: nanosleep_ms_def signed_divide_int_def sgn_if zdiv_zmult2_eq [of 1000 tv_nsec 1000, simplified])

lemma scast_32_64: "scast (word_of_int i :: 32 word) = (word_of_int i :: u64)" if "- (2 ^ 31) \<le> i" "i < 2 ^ 31"
proof -
  have "signed_take_bit 31 i = i" using that by (simp add: signed_take_bit_int_eq_self)
  then show ?thesis by (simp add: signed_of_int)
qed

text \<open>How long a coroutine sleeps. \<open>sleep\<close> multiplies in 32 bits, so that the duration is exact below
  4294968 seconds and wraps from there on; \<open>usleep\<close> rounds down to milliseconds; \<open>nanosleep\<close> does, too, and
  keeps the milliseconds in an \<open>int\<close>: from \<open>2 ^ 31\<close> on they become negative and, as an unsigned timeout,
  move the deadline into the past.\<close>

theorem sleep_durations:
  assumes "t_hook_enable h" "env_scheduler env \<noteq> None" "0 \<le> tv_sec" "0 \<le> tv_nsec"
  defines "ms \<equiv> tv_sec * 1000 + tv_nsec div 1000000"
  shows "slept env t (of_nat (unat seconds * 1000 mod 2 ^ 32)) (sleep env t seconds h)
    \<and> slept env t (of_nat (unat usec div 1000)) (usleep env t usec h)
    \<and> (ms < 2 ^ 31 \<longrightarrow> slept env t (word_of_int ms) (nanosleep env t tv_sec tv_nsec h))
    \<and> (2 ^ 31 \<le> ms \<and> ms < 2 ^ 32 \<longrightarrow> slept env t (word_of_int (ms - 2 ^ 32)) (nanosleep env t tv_sec tv_nsec h))"
proof (intro conjI impI)
  note s = sleep_for_slept [OF assms(2)]
  have "ucast (seconds * 1000) = (of_nat (unat seconds * 1000 mod 2 ^ 32) :: u64)"
    by (subst of_nat_unat [symmetric]) (simp add: unat_word_ariths)
  then show "slept env t (of_nat (unat seconds * 1000 mod 2 ^ 32)) (sleep env t seconds h)"
    using s [of t "ucast (seconds * 1000)"] assms(1) by (simp add: sleep_def)
  have "ucast (usec div 1000) = (of_nat (unat usec div 1000) :: u64)"
    by (subst of_nat_unat [symmetric]) (simp add: unat_div)
  then show "slept env t (of_nat (unat usec div 1000)) (usleep env t usec h)"
    using s [of t "ucast (usec div 1000)"] assms(1) by (simp add: usleep_def)
  have n: "nanosleep env t tv_sec tv_nsec h = sleep_for env t (scast (word_of_int ms :: 32 word)) h"
    using assms(1,3,4) by (simp add: nanosleep_def nanosleep_small ms_def)
  have "0 \<le> ms" using assms(3,4) by (simp add: ms_def)
  show "slept env t (word_of_int ms) (nanosleep env t tv_sec tv_nsec h)" if "ms < 2 ^ 31"
    using s [of t "word_of_int ms"] that \<open>0 \<le> ms\<close> unfolding n by (simp add: scast_32_64)
  show "slept env t (word_of_int (ms - 2 ^ 32)) (nanosleep env t tv_sec tv_nsec h)" if "2 ^ 31 \<le> ms \<and> ms < 2 ^ 32"
  proof -
    have "(word_of_int ms :: 32 word) = word_of_int (ms - 2 ^ 32)" by (simp add: word_of_int_eq_iff take_bit_eq_mod)
    moreover have "scast (word_of_int (ms - 2 ^ 32) :: 32 word) = (word_of_int (ms - 2 ^ 32) :: u64)"
      using that by (intro scast_32_64) simp_all
    ultimately show ?thesis using s [of t "word_of_int (ms - 2 ^ 32)"] unfolding n by (simp only:)
  qed
qed

lemma sleep_durations_witness:
  "slept demo_env \<lparr>t_now = 50, t_addr = 2, t_epoll = 0, t_during = id\<rparr> 704
     (sleep demo_env \<lparr>t_now = 50, t_addr = 2, t_epoll = 0, t_during = id\<rparr> 4294968 (demo_hooks []))"
  using sleep_durations [of "demo_hooks []" demo_env 0 0 "\<lparr>t_now = 50, t_addr = 2, t_epoll = 0, t_during = id\<rparr>" 4294968 0]
  by (simp add: demo_hooks_def demo_env_def)

text \<open>Every option of the level \<open>SOL_SOCKET\<close> set on a descriptor with a context is taken for a timeout.
  The receive timeout is stored for \<open>SO_RCVTIMEO\<close>; for \<open>SO_SNDTIMEO\<close> and any other option the value
  overwrites the send timeout, and a value shorter than 16 bytes, such as an \<open>int\<close>, is read out of bounds.\<close>

theorem setsockopt_timeouts:
  assumes "t_hook_enable h" "sockfd \<noteq> -1" "lookup sockfd (h_fds h) = Some c"
  shows "if length optval < 16 then fst (setsockopt k sockfd SOL_SOCKET optname optval h) = Inl Bad_Index
    else \<exists>c'. lookup sockfd (h_fds (snd (setsockopt k sockfd SOL_SOCKET optname optval h))) = Some c'
      \<and> getTimeout SO_RCVTIMEO c' = (if optname = SO_RCVTIMEO then timeval_ms optval else getTimeout SO_RCVTIMEO c)
      \<and> getTimeout SO_SNDTIMEO c' = (if optname = SO_RCVTIMEO then getTimeout SO_SNDTIMEO c else timeval_ms optval)"
proof -
  have fd: "0 \<le> sockfd" "sockfd < int (length (h_fds h))" using assms(3) by (auto simp: lookup_def split: if_splits)
  have get: "on_fds (fdm_get k sockfd False) h = (Inr (Some c), h)"
    using fdm_get_hit [OF assms(2,3)] by (simp add: on_fds_def)
  have fds: "h_fds (snd (sys call h1)) = h_fds h1" for call h1
    by (simp add: sys_def split: list.split prod.split)
  let ?c1 = "setTimeout optname (timeval_ms optval) c"
  have "lookup sockfd (h_fds (put_fd sockfd ?c1 h)) = Some ?c1"
    using fd by (simp add: put_fd_def lookup_update)
  moreover have "getTimeout SO_RCVTIMEO ?c1 = (if optname = SO_RCVTIMEO then timeval_ms optval else getTimeout SO_RCVTIMEO c)"
    "getTimeout SO_SNDTIMEO ?c1 = (if optname = SO_RCVTIMEO then getTimeout SO_SNDTIMEO c else timeval_ms optval)"
    by (simp_all add: getTimeout_def setTimeout_def SO_RCVTIMEO_def SO_SNDTIMEO_def)
  ultimately show ?thesis
    using assms(1) by (simp add: setsockopt_def SO_SNDTIMEO_def get fds)
qed

lemma setsockopt_timeouts_witness:
  "fst (setsockopt socket_kernel 5 SOL_SOCKET 2 [1, 0, 0, 0] (demo_hooks [(0, 0)])) = Inl Bad_Index"
  using setsockopt_timeouts [of "demo_hooks [(0, 0)]" 5 "the (demo_fds ! 5)" "[1, 0, 0, 0]" socket_kernel 2]
  by (simp add: demo_hooks_def demo_fds_def lookup_def)

text \<open>\<open>fcntl(F_SETFL)\<close> on a socket keeps the mode the user asks for apart from the one the descriptor
  is in: the first is remembered, and the flags passed on contain \<open>O_NONBLOCK\<close> exactly when the hooks put
  the socket into that mode, whatever the user asks, with all other flags as given. From then on the I/O
  calls on it wait in the scheduler, or not, as the user asked.\<close>

theorem fcntl_keeps_modes:
  assumes "t_hook_enable h" "fd \<noteq> -1" "lookup fd (h_fds h) = Some c" "m_isSocket c" "\<not> m_isClosed c" "h_results h = (n, e) # rs"
  shows "\<exists>h' arg' c'. fcntl k fd F_SETFL arg h = (Inr n, h') \<and> h_calls h' = h_calls h @ [Sys_fcntl fd F_SETFL (Some arg')]
    \<and> arg' AND O_NONBLOCK = (if m_sysNonblock c then O_NONBLOCK else 0)
    \<and> arg' AND NOT O_NONBLOCK = arg AND NOT O_NONBLOCK
    \<and> lookup fd (h_fds h') = Some c' \<and> m_sysNonblock c' = m_sysNonblock c
    \<and> (managed fd c' h' \<longleftrightarrow> arg AND O_NONBLOCK = 0)"
proof -
  have fd: "0 \<le> fd" "fd < int (length (h_fds h))" using assms(3) by (auto simp: lookup_def split: if_splits)
  have get: "on_fds (fdm_get k fd False) h = (Inr (Some c), h)"
    using fdm_get_hit [OF assms(2,3)] by (simp add: on_fds_def)
  let ?c1 = "setUserNonblock (arg AND O_NONBLOCK \<noteq> 0) c"
  let ?arg = "if m_sysNonblock c then arg OR O_NONBLOCK else arg AND NOT O_NONBLOCK"
  let ?h1 = "put_fd fd ?c1 h"
  let ?h2 = "?h1\<lparr>h_results := rs, h_calls := h_calls h @ [Sys_fcntl fd F_SETFL (Some ?arg)], h_errno := (if n = -1 then e else h_errno h)\<rparr>"
  have run: "fcntl k fd F_SETFL arg h = (Inr n, ?h2)"
    using assms(4-6) by (simp add: fcntl_def get Let_def setUserNonblock_def sys_def put_fd_def)
  have look: "lookup fd (h_fds ?h2) = Some ?c1" using fd by (simp add: put_fd_def lookup_update)
  have "?arg AND O_NONBLOCK = (if m_sysNonblock c then O_NONBLOCK else 0)" "?arg AND NOT O_NONBLOCK = arg AND NOT O_NONBLOCK"
    by (auto intro: bit_eqI simp: bit_simps)
  moreover have "managed fd ?c1 ?h2 \<longleftrightarrow> arg AND O_NONBLOCK = 0"
    using assms(1,2,4,5) look by (simp add: managed_def setUserNonblock_def put_fd_def)
  ultimately show ?thesis using run look
    by (intro exI [of _ ?h2] exI [of _ ?arg] exI [of _ ?c1]) (simp add: setUserNonblock_def)
qed

lemma fcntl_keeps_modes_witness:
  "\<exists>h' arg'. fcntl socket_kernel 5 F_SETFL 2 (demo_hooks [(0, 0)]) = (Inr 0, h')
     \<and> h_calls h' = [Sys_fcntl 5 F_SETFL (Some arg')] \<and> arg' AND O_NONBLOCK = O_NONBLOCK"
  using fcntl_keeps_modes [of "demo_hooks [(0, 0)]" 5 "the (demo_fds ! 5)" 0 0 "[]" socket_kernel 2]
  by (auto simp: demo_hooks_def demo_fds_def lookup_def)

end
