(* ===== verification/Text_Format.thy ===== *)
theory Text_Format
  imports Prelude "HOL-Library.Char_ord"
begin

text \<open>
  Text as the code writes and searches it: numbers as \<open>operator<<\<close> prints them, in decimal or, after
  \<open>std::hex\<close>, in hexadecimal, and \<open>memchr\<close>, whose result is the rest of the string from the character on.
\<close>

section \<open>Numbers\<close>

definition digit_char :: "nat \<Rightarrow> char" where
  "digit_char d = ''0123456789abcdef'' ! d"

function show_nat :: "nat \<Rightarrow> nat \<Rightarrow> string" where
  "show_nat b n = (if n < b \<or> b < 2 then [digit_char n] else show_nat b (n div b) @ [digit_char (n mod b)])"
  by auto
termination by (relation "measure snd") (auto simp: div_less_dividend)

declare show_nat.simps [simp del]

definition dec :: "nat \<Rightarrow> string" where "dec n = show_nat 10 n"
definition hex :: "nat \<Rightarrow> string" where "hex n = show_nat 16 n"

text \<open>Reading the digits again.\<close>

definition digit_val :: "char \<Rightarrow> nat" where
  "digit_val c = (if of_char c < (58::nat) then of_char c - 48 else of_char c - 87)"

definition read_nat :: "nat \<Rightarrow> string \<Rightarrow> nat" where
  "read_nat b s = foldl (\<lambda>n c. n * b + digit_val c) 0 s"

lemma digit_val_char: "d < 16 \<Longrightarrow> digit_val (digit_char d) = d"
proof -
  have "list_all (\<lambda>d. digit_val (digit_char d) = d) [0..<16]" by code_simp
  then show "d < 16 \<Longrightarrow> digit_val (digit_char d) = d" by (simp add: list_all_iff)
qed

lemma read_show:
  assumes "2 \<le> b" "b \<le> 16"
  shows "read_nat b (show_nat b n) = n"
  using assms
proof (induction b n rule: show_nat.induct)
  case (1 b n)
  show ?case
  proof (cases "n < b")
    case True
    then show ?thesis using "1.prems" by (simp add: show_nat.simps [of b n] read_nat_def digit_val_char)
  next
    case False
    then have "read_nat b (show_nat b (n div b)) = n div b" using 1 by simp
    moreover have "n mod b < 16" using "1.prems" by (intro less_le_trans [OF mod_less_divisor]) auto
    ultimately show ?thesis using False "1.prems"
      by (simp add: show_nat.simps [of b n] read_nat_def digit_val_char)
  qed
qed

lemma show_nat_inject: "2 \<le> b \<Longrightarrow> b \<le> 16 \<Longrightarrow> show_nat b n = show_nat b m \<longleftrightarrow> n = m"
  by (metis read_show)

definition digit :: "char \<Rightarrow> bool" where
  "digit c \<longleftrightarrow> c \<in> set ''0123456789abcdef''"

lemma digit_digit_char: "d < 16 \<Longrightarrow> digit (digit_char d)"
  unfolding digit_def digit_char_def by (intro nth_mem) simp

lemma show_nat_digits: "2 \<le> b \<Longrightarrow> b \<le> 16 \<Longrightarrow> c \<in> set (show_nat b n) \<Longrightarrow> digit c"
proof (induction b n rule: show_nat.induct)
  case (1 b n)
  have "n mod b < b" using "1.prems" by (intro mod_less_divisor) simp
  then have d: "digit (digit_char (n mod b))" "n < b \<Longrightarrow> digit (digit_char n)"
    using "1.prems"(2) by (auto intro: digit_digit_char)
  show ?case
  proof (cases "n < b \<or> b < 2")
    case True
    then show ?thesis using "1.prems" d by (auto simp: show_nat.simps [of b n])
  next
    case False
    then show ?thesis using "1.prems" "1.IH" d(1) by (auto simp: show_nat.simps [of b n])
  qed
qed

lemma dec_digits: "c \<in> set (dec n) \<Longrightarrow> digit c"
  unfolding dec_def by (rule show_nat_digits [of 10]) simp_all

lemma hex_digits: "c \<in> set (hex n) \<Longrightarrow> digit c"
  unfolding hex_def by (rule show_nat_digits [of 16]) simp_all

lemma dec_inject [simp]: "dec n = dec m \<longleftrightarrow> n = m"
  by (simp add: dec_def show_nat_inject)

lemma hex_inject [simp]: "hex n = hex m \<longleftrightarrow> n = m"
  by (simp add: hex_def show_nat_inject)

text \<open>Two texts that begin with digits and go on with the same separator agree piecewise.\<close>

lemma digits_split:
  assumes "xs @ c # ys = xs' @ c # ys'" "\<And>d. d \<in> set xs \<Longrightarrow> digit d" "\<And>d. d \<in> set xs' \<Longrightarrow> digit d" "\<not> digit c"
  shows "xs = xs' \<and> ys = ys'"
proof -
  have "takeWhile digit (xs @ c # ys) = xs" "takeWhile digit (xs' @ c # ys') = xs'"
    using assms(2-4) by (simp_all add: takeWhile_append)
  then show ?thesis using assms(1) by auto
qed

section \<open>Searching\<close>

definition memchr :: "char \<Rightarrow> string \<Rightarrow> string option" where
  "memchr c s = (case dropWhile (\<lambda>x. x \<noteq> c) s of [] \<Rightarrow> None | t \<Rightarrow> Some t)"

definition before_char :: "char \<Rightarrow> string \<Rightarrow> string" where
  "before_char c s = takeWhile (\<lambda>x. x \<noteq> c) s"

lemma memchr_found [simp]: "c \<notin> set a \<Longrightarrow> memchr c (a @ c # b) = Some (c # b)"
  by (induction a) (auto simp: memchr_def)

lemma memchr_None [simp]: "memchr c s = None \<longleftrightarrow> c \<notin> set s"
proof (cases "c \<in> set s")
  case True
  then obtain a b where "s = a @ c # b" "c \<notin> set a" by (meson split_list_first)
  then show ?thesis by simp
next
  case False
  then have nil: "dropWhile (\<lambda>x. x \<noteq> c) s = []" by (auto simp: dropWhile_eq_Nil_conv)
  from False show ?thesis unfolding memchr_def nil by simp
qed

lemma memchr_absent [simp]: "c \<notin> set s \<Longrightarrow> memchr c s = None"
  by simp

lemma before_char_found [simp]: "c \<notin> set a \<Longrightarrow> before_char c (a @ c # b) = a"
  by (induction a) (auto simp: before_char_def)

text \<open>What a \<open>const char*\<close> shows of a string: up to the first null byte.\<close>

definition c_str :: "string \<Rightarrow> string" where
  "c_str s = before_char (CHR 0x00) s"

lemma c_str_plain [simp]: "CHR 0x00 \<notin> set s \<Longrightarrow> c_str s = s"
  by (auto simp: c_str_def before_char_def takeWhile_eq_all_conv)

section \<open>Case\<close>

definition tolower :: "char \<Rightarrow> char" where
  "tolower c = (if CHR ''A'' \<le> c \<and> c \<le> CHR ''Z'' then char_of (of_char c + 32 :: nat) else c)"

end
