(* ===== verification/Address.thy ===== *)
theory Address
  imports Text_Format Endian
begin

text \<open>
  \<open>src/src/address.h\<close> and \<open>src/src/address.cpp\<close>: socket addresses. The structures of the system are
  records with the fields as the host reads them from memory (\<open>sin_port\<close>, \<open>s_addr\<close> are in network order,
  so byte-swapped values); \<open>getAddr\<close> is their image in memory. \<open>getaddrinfo\<close>, \<open>inet_pton\<close> and
  \<open>getifaddrs\<close> are arguments. A shared pointer that may be null is an option.
\<close>

section \<open>Addresses\<close>

record sockaddr_in =
  sin_family :: u16
  sin_port :: u16
  sin_addr :: u32
  sin_zero :: "byte list"

record sockaddr_in6 =
  sin6_family :: u16
  sin6_port :: u16
  sin6_flowinfo :: u32
  sin6_addr :: "byte list"
  sin6_scope_id :: u32

record sockaddr_un =
  sun_family :: u16
  sun_path :: "byte list"

record sockaddr =
  sa_family :: u16
  sa_data :: "byte list"

datatype address =
    IPv4Address sockaddr_in
  | IPv6Address sockaddr_in6
  | UnixAddress sockaddr_un u32
  | UnknowAddress sockaddr

definition AF_UNSPEC :: u16 where "AF_UNSPEC = 0"
definition AF_UNIX :: u16 where "AF_UNIX = 1"
definition AF_INET :: u16 where "AF_INET = 2"
definition AF_INET6 :: u16 where "AF_INET6 = 10"

lemmas families = AF_UNSPEC_def AF_UNIX_def AF_INET_def AF_INET6_def

fun getAddr :: "address \<Rightarrow> byte list" where
  "getAddr (IPv4Address a) = le_bytes 2 (sin_family a) @ le_bytes 2 (sin_port a) @ le_bytes 4 (sin_addr a) @ sin_zero a"
| "getAddr (IPv6Address a) = le_bytes 2 (sin6_family a) @ le_bytes 2 (sin6_port a) @ le_bytes 4 (sin6_flowinfo a)
     @ sin6_addr a @ le_bytes 4 (sin6_scope_id a)"
| "getAddr (UnixAddress a len) = le_bytes 2 (sun_family a) @ sun_path a"
| "getAddr (UnknowAddress a) = le_bytes 2 (sa_family a) @ sa_data a"

fun getAddrLen :: "address \<Rightarrow> u32" where
  "getAddrLen (IPv4Address a) = 16"
| "getAddrLen (IPv6Address a) = 28"
| "getAddrLen (UnixAddress a len) = len"
| "getAddrLen (UnknowAddress a) = 16"

fun wf_address :: "address \<Rightarrow> bool" where
  "wf_address (IPv4Address a) \<longleftrightarrow> sin_family a = AF_INET \<and> length (sin_zero a) = 8"
| "wf_address (IPv6Address a) \<longleftrightarrow> sin6_family a = AF_INET6 \<and> length (sin6_addr a) = 16"
| "wf_address (UnixAddress a len) \<longleftrightarrow> sun_family a = AF_UNIX \<and> length (sun_path a) = 108 \<and> len \<le> 110"
| "wf_address (UnknowAddress a) \<longleftrightarrow> sa_family a \<notin> {AF_INET, AF_INET6} \<and> length (sa_data a) = 14"

definition getFamily :: "address \<Rightarrow> u16" where
  "getFamily a = of_le_bytes (take 2 (getAddr a))"

section \<open>Masks\<close>

text \<open>\<open>(1 << (sizeof(T) * 8 - bits)) - 1\<close> is computed as an \<open>int\<close>: for 32-bit masks the shift is out of range
  for a prefix of 0 or above 32, and for 1 the difference overflows.\<close>

definition CreateMask32 :: "u32 \<Rightarrow> fault + u32" where
  "CreateMask32 bits =
     (if bits \<le> 1 \<or> bits > 32 then Inl Undefined_Arith
      else Inr (push_bit (32 - unat bits) 1 - 1))"

definition CreateMask8 :: "u32 \<Rightarrow> fault + byte" where
  "CreateMask8 bits =
     (if bits > 8 then Inl Undefined_Arith
      else Inr (ucast (push_bit (8 - unat bits) 1 - 1 :: u32)))"

function CountBytes :: "'a::len word \<Rightarrow> u32" where
  "CountBytes v = (if v = 0 then 0 else 1 + CountBytes (v AND (v - 1)))"
  by auto
termination
proof (relation "measure unat")
  fix v :: "'a word"
  assume "v \<noteq> 0"
  have "unat (v AND (v - 1)) \<le> unat (v - 1)" by (simp add: word_and_le1 flip: word_le_nat_alt)
  also have "unat (v - 1) < unat v" using \<open>v \<noteq> 0\<close> by (rule measure_unat)
  finally show "(v AND (v - 1), v) \<in> measure unat" by simp
qed simp

declare CountBytes.simps [simp del]

section \<open>IPv4\<close>

definition IPv4_new :: "u32 \<Rightarrow> u32 \<Rightarrow> sockaddr_in" where
  "IPv4_new address port = \<lparr>sin_family = AF_INET, sin_port = ucast (byteswapOnLittleEndian32 port),
     sin_addr = byteswapOnLittleEndian32 address, sin_zero = replicate 8 0\<rparr>"

text \<open>\<open>pton\<close> is \<open>inet_pton\<close>: its result, and the address it stored. Only a negative result is an error.\<close>

definition IPv4_Create :: "(string \<Rightarrow> int \<times> u32 option) \<Rightarrow> string \<Rightarrow> u32 \<Rightarrow> sockaddr_in option" where
  "IPv4_Create pton address port =
     (let rt = (IPv4_new 0 0)\<lparr>sin_port := ucast (byteswapOnLittleEndian32 port)\<rparr>;
          (result, stored) = pton address;
          rt1 = (case stored of Some a \<Rightarrow> rt\<lparr>sin_addr := a\<rparr> | None \<Rightarrow> rt)
      in if result < 0 then None else Some rt1)"

definition getPort4 :: "sockaddr_in \<Rightarrow> u32" where
  "getPort4 a = ucast (byteswapOnLittleEndian16 (sin_port a))"

definition setPort4 :: "u16 \<Rightarrow> sockaddr_in \<Rightarrow> sockaddr_in" where
  "setPort4 port a = a\<lparr>sin_port := byteswapOnLittleEndian16 port\<rparr>"

definition dotted :: "u32 \<Rightarrow> string" where
  "dotted addr = dec (unat (drop_bit 24 addr AND 0xff)) @ ''.'' @ dec (unat (drop_bit 16 addr AND 0xff)) @ ''.''
     @ dec (unat (drop_bit 8 addr AND 0xff)) @ ''.'' @ dec (unat (addr AND 0xff))"

definition insert4 :: "sockaddr_in \<Rightarrow> string" where
  "insert4 a = dotted (byteswapOnLittleEndian32 (sin_addr a)) @ '':'' @ dec (unat (byteswapOnLittleEndian16 (sin_port a)))"

definition broadcastAddress4 :: "u32 \<Rightarrow> sockaddr_in \<Rightarrow> fault + sockaddr_in option" where
  "broadcastAddress4 prefix_len a =
     (if prefix_len > 32 then Inr None
      else case CreateMask32 prefix_len of
          Inl e \<Rightarrow> Inl e
        | Inr m \<Rightarrow> Inr (Some (a\<lparr>sin_addr := sin_addr a OR byteswapOnLittleEndian32 m\<rparr>)))"

definition networkAddress4 :: "u32 \<Rightarrow> sockaddr_in \<Rightarrow> fault + sockaddr_in option" where
  "networkAddress4 prefix_len a =
     (if prefix_len > 32 then Inr None
      else case CreateMask32 prefix_len of
          Inl e \<Rightarrow> Inl e
        | Inr m \<Rightarrow> Inr (Some (a\<lparr>sin_addr := sin_addr a AND byteswapOnLittleEndian32 (NOT m)\<rparr>)))"

definition subnetMask4 :: "u32 \<Rightarrow> fault + sockaddr_in" where
  "subnetMask4 prefix_len =
     (case CreateMask32 prefix_len of
        Inl e \<Rightarrow> Inl e
      | Inr m \<Rightarrow> Inr \<lparr>sin_family = AF_INET, sin_port = 0, sin_addr = NOT (byteswapOnLittleEndian32 m), sin_zero = replicate 8 0\<rparr>)"

section \<open>IPv6\<close>

definition IPv6_default :: sockaddr_in6 where
  "IPv6_default = \<lparr>sin6_family = AF_INET6, sin6_port = 0, sin6_flowinfo = 0, sin6_addr = replicate 16 0, sin6_scope_id = 0\<rparr>"

definition IPv6_new :: "byte list \<Rightarrow> u32 \<Rightarrow> sockaddr_in6" where
  "IPv6_new address port = IPv6_default\<lparr>sin6_port := ucast (byteswapOnLittleEndian32 port), sin6_addr := take 16 address\<rparr>"

definition IPv6_Create :: "(string \<Rightarrow> int \<times> byte list option) \<Rightarrow> string \<Rightarrow> u32 \<Rightarrow> sockaddr_in6 option" where
  "IPv6_Create pton address port =
     (let rt = IPv6_default\<lparr>sin6_port := ucast (byteswapOnLittleEndian32 port)\<rparr>;
          (result, stored) = pton address;
          rt1 = (case stored of Some a \<Rightarrow> rt\<lparr>sin6_addr := a\<rparr> | None \<Rightarrow> rt)
      in if result < 0 then None else Some rt1)"

definition getPort6 :: "sockaddr_in6 \<Rightarrow> u32" where
  "getPort6 a = ucast (byteswapOnLittleEndian16 (sin6_port a))"

definition setPort6 :: "u16 \<Rightarrow> sockaddr_in6 \<Rightarrow> sockaddr_in6" where
  "setPort6 port a = a\<lparr>sin6_port := byteswapOnLittleEndian16 port\<rparr>"

text \<open>The eight groups as the \<open>uint16_t\<close> view of the address reads them.\<close>

definition u6_addr16 :: "sockaddr_in6 \<Rightarrow> u16 list" where
  "u6_addr16 a = map (\<lambda>i. of_le_bytes (take 2 (drop (2 * i) (sin6_addr a)))) [0..<8]"

text \<open>One round of the loop: the text so far, and whether the zeros have been abbreviated.\<close>

definition group_step :: "u16 list \<Rightarrow> nat \<Rightarrow> string \<times> bool \<Rightarrow> string \<times> bool" where
  "group_step addr i st =
     (let (os, use_zero) = st in
      if addr ! i = 0 \<and> \<not> use_zero then (os, use_zero)
      else let (os1, use_zero1) = (if i \<noteq> 0 \<and> addr ! (i - 1) = 0 \<and> \<not> use_zero then (os @ '':'', True) else (os, use_zero));
               os2 = (if i \<noteq> 0 then os1 @ '':'' else os1)
           in (os2 @ hex (unat (byteswapOnLittleEndian16 (addr ! i))), use_zero1))"

definition groups_text :: "u16 list \<Rightarrow> string" where
  "groups_text addr =
     (let (os, use_zero) = fold (group_step addr) [0..<8] ([], False)
      in if \<not> use_zero \<and> addr ! 7 = 0 then os @ ''::'' else os)"

text \<open>\<open>std::hex\<close> stays in force for the port, once a group has been printed.\<close>

definition insert6 :: "sockaddr_in6 \<Rightarrow> string" where
  "insert6 a =
     (let port = unat (byteswapOnLittleEndian16 (sin6_port a));
          hexed = (\<exists>g \<in> set (u6_addr16 a). g \<noteq> 0)
      in ''['' @ groups_text (u6_addr16 a) @ '']'' @ (if hexed then hex port else dec port))"

text \<open>Setting the bytes a loop runs over.\<close>

definition set_bytes :: "nat list \<Rightarrow> byte \<Rightarrow> byte list \<Rightarrow> byte list" where
  "set_bytes js b bs = fold (\<lambda>j xs. xs[j := b]) js bs"

definition on_byte :: "u32 \<Rightarrow> (byte \<Rightarrow> byte list \<Rightarrow> byte list) \<Rightarrow> sockaddr_in6 \<Rightarrow> fault + sockaddr_in6" where
  "on_byte prefix_len f a =
     (if unat prefix_len div 8 \<ge> 16 then Inl Bad_Index
      else case CreateMask8 (prefix_len mod 8) of
          Inl e \<Rightarrow> Inl e
        | Inr m \<Rightarrow> Inr (a\<lparr>sin6_addr := f m (sin6_addr a)\<rparr>))"

definition broadcastAddress6 :: "u32 \<Rightarrow> sockaddr_in6 \<Rightarrow> fault + sockaddr_in6" where
  "broadcastAddress6 prefix_len =
     (let i = unat prefix_len div 8 in
      on_byte prefix_len (\<lambda>m bs. set_bytes [i + 1..<16] 0xff (bs[i := bs ! i OR m])))"

definition networkAddress6 :: "u32 \<Rightarrow> sockaddr_in6 \<Rightarrow> fault + sockaddr_in6" where
  "networkAddress6 prefix_len =
     (let i = unat prefix_len div 8 in
      on_byte prefix_len (\<lambda>m bs. set_bytes [i + 1..<16] 0 (bs[i := bs ! i AND NOT m])))"

definition subnetMask6 :: "u32 \<Rightarrow> sockaddr_in6 \<Rightarrow> fault + sockaddr_in6" where
  "subnetMask6 prefix_len =
     (let i = unat prefix_len div 8 in
      on_byte prefix_len (\<lambda>m bs. set_bytes [0..<i] 0xff (set_bytes (rev [i + 1..<16]) 0 (bs[i := NOT m]))))"

section \<open>Unix and other addresses\<close>

definition UnixAddress_default :: address where
  "UnixAddress_default = UnixAddress \<lparr>sun_family = AF_UNIX, sun_path = replicate 108 0\<rparr> (2 + 107)"

text \<open>\<open>path.c_str()\<close> has a null byte after the path, which is copied unless the path begins with one.\<close>

definition UnixAddress_new :: "byte list \<Rightarrow> fault + address" where
  "UnixAddress_new path =
     (let m_length = (if path \<noteq> [] \<and> hd path = 0 then length path else length path + 1)
      in if m_length > 108 then Inl Logic_Error
         else Inr (UnixAddress \<lparr>sun_family = AF_UNIX, sun_path = overwrite (replicate 108 0) 0 (take m_length (path @ [0]))\<rparr>
                     (of_nat (m_length + 2))))"

definition setAddrLen :: "u32 \<Rightarrow> address \<Rightarrow> address" where
  "setAddrLen v a = (case a of UnixAddress s _ \<Rightarrow> UnixAddress s v | _ \<Rightarrow> a)"

definition char_of_byte :: "byte \<Rightarrow> char" where
  "char_of_byte b = char_of (unat b)"

definition insert_unix :: "sockaddr_un \<Rightarrow> u32 \<Rightarrow> string" where
  "insert_unix a m_length =
     (if m_length > 2 \<and> sun_path a ! 0 = 0
      then CHR 0x5C # ''0'' @ map char_of_byte (take (unat m_length - 2 - 1) (drop 1 (sun_path a)))
      else map char_of_byte (takeWhile (\<lambda>b. b \<noteq> 0) (sun_path a)))"

definition UnknowAddress_new :: "int \<Rightarrow> address" where
  "UnknowAddress_new family = UnknowAddress \<lparr>sa_family = word_of_int family, sa_data = replicate 14 0\<rparr>"

fun address_toString :: "address \<Rightarrow> string" where
  "address_toString (IPv4Address a) = insert4 a"
| "address_toString (IPv6Address a) = insert6 a"
| "address_toString (UnixAddress a len) = insert_unix a len"
| "address_toString (UnknowAddress a) = ''[UnknowAddress family='' @ dec (unat (sa_family a)) @ '']''"

section \<open>Comparison\<close>

text \<open>\<open>memcmp\<close> over the first \<open>n\<close> bytes of two objects; reading past either is undefined.\<close>

fun cmp_bytes :: "byte list \<Rightarrow> byte list \<Rightarrow> int" where
  "cmp_bytes (x # xs) (y # ys) = (if x < y then -1 else if y < x then 1 else cmp_bytes xs ys)"
| "cmp_bytes _ _ = 0"

definition memcmp :: "byte list \<Rightarrow> byte list \<Rightarrow> u32 \<Rightarrow> fault + int" where
  "memcmp xs ys n = (if unat n > min (length xs) (length ys) then Inl Bad_Index
     else Inr (cmp_bytes (take (unat n) xs) (take (unat n) ys)))"

definition address_less :: "address \<Rightarrow> address \<Rightarrow> fault + bool" where
  "address_less a b =
     (case memcmp (getAddr a) (getAddr b) (min (getAddrLen a) (getAddrLen b)) of
        Inl e \<Rightarrow> Inl e
      | Inr result \<Rightarrow>
          if result < 0 then Inr True
          else if result > 0 then Inr False
          else if getAddrLen a < getAddrLen b then Inr True
          else Inr False)"

definition address_equal :: "address \<Rightarrow> address \<Rightarrow> fault + bool" where
  "address_equal a b =
     (if getAddrLen a \<noteq> getAddrLen b then Inr False
      else map_sum id (\<lambda>r. r = 0) (memcmp (getAddr a) (getAddr b) (getAddrLen a)))"

definition address_not_equal :: "address \<Rightarrow> address \<Rightarrow> fault + bool" where
  "address_not_equal a b = map_sum id Not (address_equal a b)"

section \<open>Creating and looking up\<close>

text \<open>\<open>Create\<close> goes by the family and ignores the length given; reading past the object is undefined.\<close>

definition Create :: "byte list option \<Rightarrow> u32 \<Rightarrow> fault + address option" where
  "Create addr addrlen =
     (case addr of
        None \<Rightarrow> Inr None
      | Some bs \<Rightarrow>
          if length bs < 2 then Inl Bad_Index
          else let family = (of_le_bytes (take 2 bs) :: u16) in
            if family = AF_INET then
              if length bs < 16 then Inl Bad_Index
              else Inr (Some (IPv4Address \<lparr>sin_family = family, sin_port = of_le_bytes (take 2 (drop 2 bs)),
                     sin_addr = of_le_bytes (take 4 (drop 4 bs)), sin_zero = take 8 (drop 8 bs)\<rparr>))
            else if family = AF_INET6 then
              if length bs < 28 then Inl Bad_Index
              else Inr (Some (IPv6Address \<lparr>sin6_family = family, sin6_port = of_le_bytes (take 2 (drop 2 bs)),
                     sin6_flowinfo = of_le_bytes (take 4 (drop 4 bs)), sin6_addr = take 16 (drop 8 bs),
                     sin6_scope_id = of_le_bytes (take 4 (drop 24 bs))\<rparr>))
            else if length bs < 16 then Inl Bad_Index
            else Inr (Some (UnknowAddress \<lparr>sa_family = family, sa_data = take 14 (drop 2 bs)\<rparr>)))"

text \<open>How \<open>Lookup\<close> takes the host apart. A pointer into the string is the rest of it; the pointer to the
  service is left at the first colon when there is a second one.\<close>

definition bracketed :: "string \<Rightarrow> string \<times> string option" where
  "bracketed host =
     (case host of
        c # rest \<Rightarrow>
          if c = CHR ''['' then
            case memchr CHR '']'' rest of
              None \<Rightarrow> ([], None)
            | Some endipv6 \<Rightarrow> (before_char CHR '']'' rest,
                case tl endipv6 of d # service \<Rightarrow> if d = CHR '':'' then Some service else None | [] \<Rightarrow> None)
          else ([], None)
      | [] \<Rightarrow> ([], None))"

definition node_service :: "string \<Rightarrow> string \<times> string option" where
  "node_service host =
     (case memchr CHR '':'' host of
        None \<Rightarrow> ([], None)
      | Some service \<Rightarrow>
          if memchr CHR '':'' (tl service) = None then (before_char CHR '':'' host, Some (tl service))
          else ([], Some service))"

definition split_host :: "string \<Rightarrow> string \<times> string option" where
  "split_host host =
     (let (node, service) = bracketed host;
          (node1, service1) = (if node = [] then node_service host else (node, service));
          node2 = (if node1 = [] then host else node1)
      in (c_str node2, map_option c_str service1))"

record hints =
  ai_flags :: int
  ai_family :: int
  ai_socktype :: int
  ai_protocol :: int

type_synonym resolver = "string \<Rightarrow> string option \<Rightarrow> hints \<Rightarrow> int + (byte list \<times> u32) list"

fun create_all :: "(byte list \<times> u32) list \<Rightarrow> fault + address option list" where
  "create_all [] = Inr []"
| "create_all ((addr, len) # rs) =
     (case Create (Some addr) len of
        Inl e \<Rightarrow> Inl e
      | Inr a \<Rightarrow> map_sum id (Cons a) (create_all rs))"

definition Lookup :: "resolver \<Rightarrow> address option list \<Rightarrow> string \<Rightarrow> int \<Rightarrow> int \<Rightarrow> int \<Rightarrow> fault + bool \<times> address option list" where
  "Lookup getaddrinfo result host family type protocol =
     (let (node, service) = split_host host in
      case getaddrinfo node service \<lparr>ai_flags = 0, ai_family = family, ai_socktype = type, ai_protocol = protocol\<rparr> of
        Inl error \<Rightarrow> Inr (False, result)
      | Inr results \<Rightarrow> map_sum id (\<lambda>as. (result @ as \<noteq> [], result @ as)) (create_all results))"

definition LookupAny :: "resolver \<Rightarrow> string \<Rightarrow> int \<Rightarrow> int \<Rightarrow> int \<Rightarrow> fault + address option" where
  "LookupAny getaddrinfo host family type protocol =
     map_sum id (\<lambda>(ok, result). if ok then hd result else None) (Lookup getaddrinfo [] host family type protocol)"

definition is_IPAddress :: "address option \<Rightarrow> bool" where
  "is_IPAddress a \<longleftrightarrow> (case a of Some (IPv4Address _) \<Rightarrow> True | Some (IPv6Address _) \<Rightarrow> True | _ \<Rightarrow> False)"

definition LookupAnyIPAddress :: "resolver \<Rightarrow> string \<Rightarrow> int \<Rightarrow> int \<Rightarrow> int \<Rightarrow> fault + address option" where
  "LookupAnyIPAddress getaddrinfo host family type protocol =
     map_sum id (\<lambda>(ok, result). if ok then (case List.find is_IPAddress result of Some v \<Rightarrow> v | None \<Rightarrow> None) else None)
       (Lookup getaddrinfo [] host family type protocol)"

definition setPort :: "u16 \<Rightarrow> address \<Rightarrow> address" where
  "setPort port a = (case a of IPv4Address s \<Rightarrow> IPv4Address (setPort4 port s) | IPv6Address s \<Rightarrow> IPv6Address (setPort6 port s) | _ \<Rightarrow> a)"

definition IPAddress_Create :: "resolver \<Rightarrow> string \<Rightarrow> u32 \<Rightarrow> fault + address option" where
  "IPAddress_Create getaddrinfo address port =
     (case getaddrinfo address None \<lparr>ai_flags = 4, ai_family = 0, ai_socktype = 0, ai_protocol = 0\<rparr> of
        Inl error \<Rightarrow> Inr None
      | Inr [] \<Rightarrow> Inl Null_Deref
      | Inr ((addr, len) # _) \<Rightarrow>
          map_sum id (\<lambda>a. if is_IPAddress a then map_option (setPort (ucast port)) a else None) (Create (Some addr) len))"

section \<open>Interfaces\<close>

record ifaddrs =
  ifa_name :: string
  ifa_addr :: "byte list option"
  ifa_netmask :: "byte list option"

definition prefix_length6 :: "byte list \<Rightarrow> u32" where
  "prefix_length6 s6_addr = fold (\<lambda>i n. n + CountBytes (s6_addr ! i)) [0..<16] 0"

text \<open>One interface: nothing, or the name with the address and the length of its prefix. An interface
  without address or netmask is dereferenced all the same.\<close>

definition interface :: "u16 \<Rightarrow> ifaddrs \<Rightarrow> fault + (string \<times> address option \<times> u32) list" where
  "interface family ifa =
     (case ifa_addr ifa of
        None \<Rightarrow> Inl Null_Deref
      | Some bs \<Rightarrow>
          let f = (of_le_bytes (take 2 bs) :: u16) in
          if family \<noteq> AF_UNSPEC \<and> family \<noteq> f then Inr []
          else if f = AF_INET then
            case ifa_netmask ifa of
              None \<Rightarrow> Inl Null_Deref
            | Some m \<Rightarrow> map_sum id (\<lambda>a. [(ifa_name ifa, a, CountBytes (of_le_bytes (take 4 (drop 4 m)) :: u32))]) (Create (Some bs) 16)
          else if f = AF_INET6 then
            case ifa_netmask ifa of
              None \<Rightarrow> Inl Null_Deref
            | Some m \<Rightarrow> map_sum id (\<lambda>a. [(ifa_name ifa, a, prefix_length6 (take 16 (drop 8 m)))]) (Create (Some bs) 28)
          else Inr [])"

fun interfaces :: "u16 \<Rightarrow> ifaddrs list \<Rightarrow> fault + (string \<times> address option \<times> u32) list" where
  "interfaces family [] = Inr []"
| "interfaces family (i # is) =
     (case interface family i of Inl e \<Rightarrow> Inl e | Inr xs \<Rightarrow> map_sum id (\<lambda>ys. xs @ ys) (interfaces family is))"

text \<open>\<open>getifaddrs\<close> fails or returns the list of the system; the multimap keeps the entries of a name in
  the order of their insertion.\<close>

definition GetInterfaceAddresses ::
    "ifaddrs list option \<Rightarrow> (string \<times> address option \<times> u32) list \<Rightarrow> u16 \<Rightarrow> fault + bool \<times> (string \<times> address option \<times> u32) list" where
  "GetInterfaceAddresses getifaddrs result family =
     (case getifaddrs of
        None \<Rightarrow> Inr (False, result)
      | Some is \<Rightarrow> map_sum id (\<lambda>xs. (result @ xs \<noteq> [], result @ xs)) (interfaces family is))"

definition GetInterfaceAddresses_of ::
    "ifaddrs list option \<Rightarrow> (address option \<times> u32) list \<Rightarrow> string \<Rightarrow> u16 \<Rightarrow> fault + bool \<times> (address option \<times> u32) list" where
  "GetInterfaceAddresses_of getifaddrs result iface family =
     (if iface = [] \<or> iface = ''*'' then
        Inr (True, result
          @ (if family = AF_INET \<or> family = AF_UNSPEC then [(Some (IPv4Address (IPv4_new 0 0)), 0)] else [])
          @ (if family = AF_INET6 \<or> family = AF_UNSPEC then [(Some (IPv6Address IPv6_default), 0)] else []))
      else case GetInterfaceAddresses getifaddrs [] family of
          Inl e \<Rightarrow> Inl e
        | Inr (ok, results) \<Rightarrow>
            if \<not> ok then Inr (False, result)
            else let found = map snd (filter (\<lambda>r. fst r = iface) results)
                 in Inr (result @ found \<noteq> [], result @ found))"

section \<open>Properties\<close>

lemma CountBytes_clear_lowest:
  fixes v :: "'a::len word"
  assumes "bit v k" "\<And>n. n < k \<Longrightarrow> \<not> bit v n"
  shows "bit (v AND (v - 1)) n \<longleftrightarrow> bit v n \<and> n \<noteq> k"
proof -
  have k: "k < LENGTH('a)" using assms(1) by (rule bit_imp_le_length)
  obtain l where l: "l = k + 1" by simp
  let ?m = "drop_bit l v"
  have kl: "k < l" and le: "\<And>n. l \<le> n \<longleftrightarrow> k < n" by (auto simp: l)
  have "bit v n \<longleftrightarrow> bit (push_bit k 1 OR push_bit l ?m) n" if "n < LENGTH('a)" for n
  proof -
    consider "n < k" | "n = k" | "l \<le> n" using l by linarith
    then show ?thesis using that assms k kl by cases (auto simp: bit_simps)
  qed
  then have "v = push_bit k 1 OR push_bit l ?m" by (rule bit_word_eqI)
  also have "\<dots> = push_bit k 1 + push_bit l ?m"
    by (rule disjunctive_add [symmetric]) (use kl in \<open>auto simp: bit_simps\<close>)
  finally have "v - 1 = (push_bit k 1 - 1) + push_bit l ?m" by (metis add_diff_eq add.commute)
  also have "push_bit k 1 - 1 = (mask k :: 'a word)" by (simp add: mask_eq_decr_exp push_bit_eq_mult)
  also have "mask k + push_bit l ?m = mask k OR push_bit l ?m"
    by (rule disjunctive_add) (use kl in \<open>auto simp: bit_simps\<close>)
  finally have eq: "v - 1 = mask k OR push_bit l ?m" .
  have "bit (v - 1) n \<longleftrightarrow> n < k \<or> n > k \<and> bit v n" for n
    unfolding eq using kl k le [of n] le_add_diff_inverse [of l n]
    by (cases "l \<le> n") (auto simp: bit_simps dest: bit_imp_le_length)
  then show ?thesis using assms by (auto simp: bit_and_iff nat_neq_iff)
qed

lemma CountBytes_0 [simp]: "CountBytes (0 :: 'a::len word) = 0"
  by (simp add: CountBytes.simps)

text \<open>C20: the loop that clears the lowest bit until nothing is left ends, and counts the bits of a netmask.\<close>

theorem CountBytes_counts: "CountBytes (v :: 'a::len word) = of_nat (card {n. bit v n})"
proof (induction v rule: CountBytes.induct)
  case (1 v)
  show ?case
  proof (cases "v = 0")
    case False
    then obtain n where "bit v n" by (auto simp: bit_eq_iff)
    then obtain k where k: "bit v k" "\<And>n. n < k \<Longrightarrow> \<not> bit v n" using exists_least_iff [of "bit v"] by blast
    have fin: "finite {n. bit v n}"
      by (rule finite_subset [of _ "{..<LENGTH('a)}"]) (auto dest: bit_imp_le_length)
    have "{n. bit (v AND (v - 1)) n} = {n. bit v n} - {k}"
      using CountBytes_clear_lowest [OF k] by auto
    then have "card {n. bit v n} = Suc (card {n. bit (v AND (v - 1)) n})"
      using card_Suc_Diff1 [OF fin, of k] k(1) by simp
    then show ?thesis using False 1 by (simp add: CountBytes.simps [of v])
  qed simp
qed

text \<open>Bit \<open>j\<close> of an address, counted from the left as in a prefix.\<close>

definition addr_bit4 :: "sockaddr_in \<Rightarrow> nat \<Rightarrow> bool" where
  "addr_bit4 a j = bit (byteswapOnLittleEndian32 (sin_addr a)) (31 - j)"

definition addr_bit6 :: "sockaddr_in6 \<Rightarrow> nat \<Rightarrow> bool" where
  "addr_bit6 a j = bit (sin6_addr a ! (j div 8)) (7 - j mod 8)"

lemma CreateMask32_bits:
  assumes "2 \<le> p" "p \<le> 32"
  shows "\<exists>m. CreateMask32 (of_nat p) = Inr m \<and> (\<forall>n. bit m n \<longleftrightarrow> n < 32 - p)"
proof -
  have u: "unat (of_nat p :: u32) = p" using assms by (simp add: unat_of_nat)
  have "push_bit (32 - p) 1 - 1 = (mask (32 - p) :: u32)" by (simp add: mask_eq_decr_exp push_bit_eq_mult)
  then have "CreateMask32 (of_nat p) = Inr (mask (32 - p))"
    using assms u by (simp add: CreateMask32_def word_le_nat_alt word_less_nat_alt)
  moreover have "bit (mask (32 - p) :: u32) n \<longleftrightarrow> n < 32 - p" for n using assms by (auto simp: bit_simps)
  ultimately show ?thesis by blast
qed

text \<open>C18: for a prefix of 2 to 32 bits the IPv4 network and broadcast addresses keep the bits of the prefix
  and clear or set the others, with the port as it was, and the subnet mask is the ones of the prefix.
  A longer prefix gives no network or broadcast address; a prefix of 0 or 1, and a longer one for the
  subnet mask, is undefined arithmetic.\<close>

theorem ipv4_prefix:
  "(2 \<le> p \<and> p \<le> 32 \<longrightarrow> (\<exists>b n m. broadcastAddress4 (of_nat p) a = Inr (Some b) \<and> networkAddress4 (of_nat p) a = Inr (Some n)
      \<and> subnetMask4 (of_nat p) = Inr m \<and> getPort4 b = getPort4 a \<and> getPort4 n = getPort4 a
      \<and> (\<forall>j < 32. addr_bit4 b j = (j < p \<longrightarrow> addr_bit4 a j) \<and> addr_bit4 n j = (j < p \<and> addr_bit4 a j) \<and> addr_bit4 m j = (j < p))))
   \<and> (p \<le> 1 \<longrightarrow> broadcastAddress4 (of_nat p) a = Inl Undefined_Arith \<and> networkAddress4 (of_nat p) a = Inl Undefined_Arith
        \<and> subnetMask4 (of_nat p) = Inl Undefined_Arith)
   \<and> (32 < p \<and> p < 2 ^ 32 \<longrightarrow> broadcastAddress4 (of_nat p) a = Inr None \<and> networkAddress4 (of_nat p) a = Inr None
        \<and> subnetMask4 (of_nat p) = Inl Undefined_Arith)"
proof (intro conjI impI)
  assume p: "2 \<le> p \<and> p \<le> 32"
  then obtain m where m: "CreateMask32 (of_nat p) = Inr m" "\<forall>n. bit m n \<longleftrightarrow> n < 32 - p" using CreateMask32_bits by blast
  have u: "\<not> (of_nat p :: u32) > 32" using p by (simp add: word_less_nat_alt unat_of_nat)
  have "j < p \<longleftrightarrow> \<not> 31 - j < 32 - p" if "j < 32" for j using that p by linarith
  then show "\<exists>b n m. broadcastAddress4 (of_nat p) a = Inr (Some b) \<and> networkAddress4 (of_nat p) a = Inr (Some n)
      \<and> subnetMask4 (of_nat p) = Inr m \<and> getPort4 b = getPort4 a \<and> getPort4 n = getPort4 a
      \<and> (\<forall>j < 32. addr_bit4 b j = (j < p \<longrightarrow> addr_bit4 a j) \<and> addr_bit4 n j = (j < p \<and> addr_bit4 a j) \<and> addr_bit4 m j = (j < p))"
    using m u by (auto simp: broadcastAddress4_def networkAddress4_def subnetMask4_def getPort4_def addr_bit4_def
      byteswapOnLittleEndian32_def bswap32_or bswap32_and bswap32_not bit_simps)
next
  assume "p \<le> 1"
  then have "p = 0 \<or> p = 1" by linarith
  then show "broadcastAddress4 (of_nat p) a = Inl Undefined_Arith" "networkAddress4 (of_nat p) a = Inl Undefined_Arith"
    "subnetMask4 (of_nat p) = Inl Undefined_Arith"
    by (auto simp: broadcastAddress4_def networkAddress4_def subnetMask4_def CreateMask32_def)
next
  assume "32 < p \<and> p < 2 ^ 32"
  then have "(of_nat p :: u32) > 32" by (simp add: word_less_nat_alt unat_of_nat)
  then show "broadcastAddress4 (of_nat p) a = Inr None" "networkAddress4 (of_nat p) a = Inr None"
    "subnetMask4 (of_nat p) = Inl Undefined_Arith"
    by (auto simp: broadcastAddress4_def networkAddress4_def subnetMask4_def CreateMask32_def)
qed

definition demo_in :: sockaddr_in where
  "demo_in = IPv4_new 0xC0A80A37 0"

lemma ipv4_prefix_witness:
  "\<exists>b n m. broadcastAddress4 (of_nat 24) demo_in = Inr (Some b) \<and> networkAddress4 (of_nat 24) demo_in = Inr (Some n)
     \<and> subnetMask4 (of_nat 24) = Inr m \<and> (\<forall>j < 32. addr_bit4 m j = (j < 24))"
  using ipv4_prefix [of 24 demo_in] by auto

lemma set_bytes_nth:
  "length (set_bytes js b bs) = length bs"
  "i < length bs \<Longrightarrow> set_bytes js b bs ! i = (if i \<in> set js then b else bs ! i)"
  unfolding set_bytes_def by (induction js arbitrary: bs) (auto simp: nth_list_update)

lemma CreateMask8_bits:
  assumes "p < 8"
  shows "\<exists>m. CreateMask8 (of_nat p) = Inr m \<and> (\<forall>n. bit m n \<longleftrightarrow> n < 8 - p)"
proof -
  have u: "unat (of_nat p :: u32) = p" using assms by (simp add: unat_of_nat)
  have "push_bit (8 - p) 1 - 1 = (mask (8 - p) :: u32)" by (simp add: mask_eq_decr_exp push_bit_eq_mult)
  then have "CreateMask8 (of_nat p) = Inr (ucast (mask (8 - p) :: u32))"
    using assms u by (simp add: CreateMask8_def word_less_nat_alt)
  moreover have "bit (ucast (mask (8 - p) :: u32) :: byte) n \<longleftrightarrow> n < 8 - p" for n using assms by (auto simp: bit_simps)
  ultimately show ?thesis by blast
qed

lemma on_byte_in:
  assumes "p < 128"
  shows "\<exists>m. (\<forall>n. bit m n \<longleftrightarrow> n < 8 - p mod 8) \<and> (\<forall>f a. on_byte (of_nat p) f a = Inr (a\<lparr>sin6_addr := f m (sin6_addr a)\<rparr>))"
proof -
  have u: "unat (of_nat p :: u32) = p" using assms by (simp add: unat_of_nat)
  have "of_nat p mod 8 = (of_nat (p mod 8) :: u32)"
    using assms by (simp add: word_unat_eq_iff unat_mod unat_of_nat)
  then obtain m where "CreateMask8 (of_nat p mod 8) = Inr m" "\<forall>n. bit m n \<longleftrightarrow> n < 8 - p mod 8"
    using CreateMask8_bits [of "p mod 8"] by auto
  then show ?thesis using assms u by (intro exI [of _ m]) (simp add: on_byte_def)
qed

text \<open>Bit \<open>j\<close> lies in a byte before, at or after the one the prefix ends in.\<close>

lemma prefix_bit_before: "j div 8 < p div 8 \<Longrightarrow> j < p" for p j :: nat
  by (meson div_le_mono not_le)

lemma prefix_bit_after: "p div 8 < j div 8 \<Longrightarrow> \<not> j < p" for p j :: nat
  by (meson div_le_mono less_imp_le not_le)

lemma prefix_bit_at:
  fixes p j :: nat
  assumes "j div 8 = p div 8"
  shows "j < p \<longleftrightarrow> \<not> 7 - j mod 8 < 8 - p mod 8"
proof -
  obtain q r s where "j = 8 * q + r" "p = 8 * q + s" "r < 8" "s < 8" "r = j mod 8" "s = p mod 8"
    using assms by (metis mod_less_divisor mult_div_mod_eq zero_less_numeral)
  then show ?thesis by linarith
qed

lemma bit_0xff: "bit (0xff :: byte) n \<longleftrightarrow> n < 8"
proof -
  have "(0xff :: byte) = mask 8" by (simp add: mask_eq_decr_exp)
  then have "bit (0xff :: byte) n \<longleftrightarrow> bit (mask 8 :: byte) n" by (rule arg_cong)
  also have "\<dots> \<longleftrightarrow> n < 8" by (auto simp: bit_mask_iff simp del: mask_eq_exp_minus_1)
  finally show ?thesis .
qed

text \<open>For a prefix below 128 bits the IPv6 network and broadcast addresses keep the bits of the prefix
  and clear or set the others, and the subnet mask is the ones of the prefix, all else in the address as
  it was. A prefix of 128 bits, that of a host, and any longer one indexes past the 16 bytes.\<close>

theorem ipv6_prefix:
  assumes "length (sin6_addr a) = 16"
  shows "if p < 128 then
      (\<exists>b n m. broadcastAddress6 (of_nat p) a = Inr b \<and> networkAddress6 (of_nat p) a = Inr n \<and> subnetMask6 (of_nat p) a = Inr m
        \<and> (\<forall>j < 128. addr_bit6 b j = (j < p \<longrightarrow> addr_bit6 a j) \<and> addr_bit6 n j = (j < p \<and> addr_bit6 a j) \<and> addr_bit6 m j = (j < p))
        \<and> (\<forall>x \<in> {b, n, m}. x\<lparr>sin6_addr := sin6_addr a\<rparr> = a \<and> length (sin6_addr x) = 16))
    else p < 2 ^ 32 \<longrightarrow> broadcastAddress6 (of_nat p) a = Inl Bad_Index \<and> networkAddress6 (of_nat p) a = Inl Bad_Index
        \<and> subnetMask6 (of_nat p) a = Inl Bad_Index"
proof (cases "p < 128")
  case True
  let ?i = "p div 8" and ?bs = "sin6_addr a"
  obtain m where m: "\<forall>n. bit m n \<longleftrightarrow> n < 8 - p mod 8"
    "\<And>f a. on_byte (of_nat p) f a = Inr (a\<lparr>sin6_addr := f m (sin6_addr a)\<rparr>)" using on_byte_in [OF True] by auto
  have u: "unat (of_nat p :: u32) = p" using True by (simp add: unat_of_nat)
  have i: "?i < 16" using True by simp
  let ?b = "set_bytes [?i + 1..<16] 0xff (?bs[?i := ?bs ! ?i OR m])"
  let ?n = "set_bytes [?i + 1..<16] 0 (?bs[?i := ?bs ! ?i AND NOT m])"
  let ?m = "set_bytes [0..<?i] 0xff (set_bytes (rev [?i + 1..<16]) 0 (?bs[?i := NOT m]))"
  have run: "broadcastAddress6 (of_nat p) a = Inr (a\<lparr>sin6_addr := ?b\<rparr>)" "networkAddress6 (of_nat p) a = Inr (a\<lparr>sin6_addr := ?n\<rparr>)"
    "subnetMask6 (of_nat p) a = Inr (a\<lparr>sin6_addr := ?m\<rparr>)"
    by (simp_all add: broadcastAddress6_def networkAddress6_def subnetMask6_def Let_def u m(2))
  have ones: "bit (0xff :: byte) (7 - j mod 8)" for j unfolding bit_0xff by linarith
  have bits: "addr_bit6 (a\<lparr>sin6_addr := ?b\<rparr>) j = (j < p \<longrightarrow> addr_bit6 a j) \<and> addr_bit6 (a\<lparr>sin6_addr := ?n\<rparr>) j = (j < p \<and> addr_bit6 a j)
      \<and> addr_bit6 (a\<lparr>sin6_addr := ?m\<rparr>) j = (j < p)" if "j < 128" for j
  proof -
    have j: "j div 8 < 16" using that by simp
    consider "j div 8 < ?i" | "j div 8 > ?i" | "j div 8 = ?i" by linarith
    then show ?thesis
    proof cases
      case 1
      with prefix_bit_before [OF 1] show ?thesis using assms i j ones by (simp add: addr_bit6_def set_bytes_nth)
    next
      case 2
      with prefix_bit_after [OF 2] show ?thesis using assms i j ones by (simp add: addr_bit6_def set_bytes_nth)
    next
      case 3
      have "7 - j mod 8 < 8" by linarith
      then show ?thesis using assms i prefix_bit_at [OF 3] m(1) by (auto simp: addr_bit6_def set_bytes_nth 3 bit_simps)
    qed
  qed
  have len: "length ?b = 16" "length ?n = 16" "length ?m = 16" using assms by (simp_all add: set_bytes_nth)
  have same: "a\<lparr>sin6_addr := bs\<rparr>\<lparr>sin6_addr := sin6_addr a\<rparr> = a" for bs by simp
  have rest: "\<forall>x \<in> {a\<lparr>sin6_addr := ?b\<rparr>, a\<lparr>sin6_addr := ?n\<rparr>, a\<lparr>sin6_addr := ?m\<rparr>}. x\<lparr>sin6_addr := sin6_addr a\<rparr> = a \<and> length (sin6_addr x) = 16"
    using len same by (intro ballI) (elim insertE emptyE, simp_all)
  show ?thesis unfolding if_P [OF True]
    by (intro exI conjI allI impI, rule run, rule run, rule run, use bits in blast, use bits in blast, use bits in blast, rule rest)
next
  case False
  have "unat (of_nat p :: u32) = p" if "p < 2 ^ 32" using that by (simp add: unat_of_nat)
  then show ?thesis using False
    by (auto simp: broadcastAddress6_def networkAddress6_def subnetMask6_def on_byte_def Let_def)
qed

lemma ipv6_prefix_witness:
  "\<exists>n. networkAddress6 (of_nat 64) IPv6_default = Inr n \<and> (\<forall>j < 128. addr_bit6 n j = (j < 64 \<and> addr_bit6 IPv6_default j))"
  using ipv6_prefix [of IPv6_default 64] by (auto simp: IPv6_default_def)

text \<open>The bytes an address is compared by, and their lexicographic order.\<close>

definition addr_data :: "address \<Rightarrow> byte list" where
  "addr_data a = take (unat (getAddrLen a)) (getAddr a)"

definition in_bounds :: "address \<Rightarrow> bool" where
  "in_bounds a \<longleftrightarrow> unat (getAddrLen a) \<le> length (getAddr a)"

lemma wf_in_bounds: "wf_address a \<Longrightarrow> in_bounds a"
  by (cases a) (simp_all add: in_bounds_def word_le_nat_alt)

lemma length_addr_data: "in_bounds a \<Longrightarrow> length (addr_data a) = unat (getAddrLen a)"
  by (simp add: addr_data_def in_bounds_def)

lemma cmp_bytes_lexordp:
  "cmp_bytes (take (min (length xs) (length ys)) xs) (take (min (length xs) (length ys)) ys) = r \<Longrightarrow>
   ord_class.lexordp xs ys \<longleftrightarrow> r < 0 \<or> r = 0 \<and> length xs < length ys"
proof (induction xs ys arbitrary: r rule: cmp_bytes.induct)
  case (1 x xs y ys)
  consider "x < y" "\<not> y < x" | "y < x" "\<not> x < y" | "x = y" by (metis less_asym linorder_cases)
  then show ?case using 1 by cases auto
qed auto

lemma cmp_bytes_eq: "length xs = length ys \<Longrightarrow> cmp_bytes xs ys = 0 \<longleftrightarrow> xs = ys"
  by (induction xs ys rule: cmp_bytes.induct) (auto simp: not_less_iff_gr_or_eq)

lemma memcmp_addr:
  assumes "in_bounds a" "in_bounds b"
  shows "memcmp (getAddr a) (getAddr b) (min (getAddrLen a) (getAddrLen b))
    = Inr (let n = min (length (addr_data a)) (length (addr_data b)) in cmp_bytes (take n (addr_data a)) (take n (addr_data b)))"
proof -
  have "unat (min (getAddrLen a) (getAddrLen b)) = min (unat (getAddrLen a)) (unat (getAddrLen b))"
    by (simp add: min_def word_le_nat_alt)
  then show ?thesis using assms length_addr_data [OF assms(1)] length_addr_data [OF assms(2)]
    by (simp add: memcmp_def in_bounds_def Let_def addr_data_def min_def)
qed

text \<open>C19: for addresses whose length does not exceed their structure, \<open>operator<\<close> is the lexicographic order
  of the bytes \<open>getAddrLen\<close> covers and \<open>operator==\<close> their equality: so \<open><\<close> orders addresses totally up to
  \<open>==\<close>, as a map or set of addresses needs. Beyond the structure, both read out of bounds.\<close>

theorem address_order:
  "(in_bounds a \<and> in_bounds b \<longrightarrow>
      address_less a b = Inr (ord_class.lexordp (addr_data a) (addr_data b))
      \<and> address_equal a b = Inr (addr_data a = addr_data b)
      \<and> address_not_equal a b = Inr (addr_data a \<noteq> addr_data b))
   \<and> (\<not> in_bounds a \<longrightarrow> address_equal a a = Inl Bad_Index \<and> address_less a a = Inl Bad_Index)"
proof (intro conjI impI)
  assume ab: "in_bounds a \<and> in_bounds b"
  let ?xs = "addr_data a" and ?ys = "addr_data b"
  let ?r = "let n = min (length ?xs) (length ?ys) in cmp_bytes (take n ?xs) (take n ?ys)"
  have len: "getAddrLen a < getAddrLen b \<longleftrightarrow> length ?xs < length ?ys" "getAddrLen a = getAddrLen b \<longleftrightarrow> length ?xs = length ?ys"
    using ab by (simp_all add: length_addr_data word_less_nat_alt word_unat_eq_iff)
  show "address_less a b = Inr (ord_class.lexordp ?xs ?ys)"
    using memcmp_addr ab cmp_bytes_lexordp [of ?xs ?ys ?r] len(1) by (simp add: address_less_def Let_def)
  show eq: "address_equal a b = Inr (?xs = ?ys)"
  proof (cases "getAddrLen a = getAddrLen b")
    case True
    then have "memcmp (getAddr a) (getAddr b) (getAddrLen a) = Inr ?r" using memcmp_addr [of a b] ab by simp
    then show ?thesis using True len(2) cmp_bytes_eq [of ?xs ?ys] by (simp add: address_equal_def Let_def)
  next
    case False
    then show ?thesis using len(2) by (auto simp: address_equal_def)
  qed
  then show "address_not_equal a b = Inr (?xs \<noteq> ?ys)" by (simp add: address_not_equal_def)
next
  assume "\<not> in_bounds a"
  then have "memcmp (getAddr a) (getAddr a) (getAddrLen a) = Inl Bad_Index" by (simp add: memcmp_def in_bounds_def)
  then show "address_equal a a = Inl Bad_Index" "address_less a a = Inl Bad_Index"
    by (simp_all add: address_equal_def address_less_def)
qed

definition demo_in6 :: sockaddr_in6 where
  "demo_in6 = IPv6_default\<lparr>sin6_addr := [0x20, 0x01, 0x0d, 0xb8, 0, 0, 0, 0, 0, 0, 0, 0, 0, 0, 0, 1]\<rparr>"

lemma address_order_witness:
  "address_equal (IPv4Address demo_in) (IPv4Address demo_in) = Inr True
   \<and> address_less (IPv4Address demo_in) (IPv6Address demo_in6)
     = Inr (ord_class.lexordp (addr_data (IPv4Address demo_in)) (addr_data (IPv6Address demo_in6)))"
  using address_order [of "IPv4Address demo_in" "IPv4Address demo_in"] address_order [of "IPv4Address demo_in" "IPv6Address demo_in6"]
  by (simp add: in_bounds_def demo_in_def IPv4_new_def demo_in6_def IPv6_default_def)

text \<open>An address made from the memory image of an IPv4, IPv6 or unknown address is that address again;
  from the image of a Unix address it is an unknown address of the first 14 bytes of the path.\<close>

theorem Create_getAddr:
  assumes "wf_address a"
  shows "Create (Some (getAddr a)) n =
    Inr (Some (case a of
        UnixAddress s _ \<Rightarrow> UnknowAddress \<lparr>sa_family = AF_UNIX, sa_data = take 14 (sun_path s)\<rparr>
      | _ \<Rightarrow> a))"
proof (cases a)
  case (IPv4Address s)
  then show ?thesis using assms
    by (cases s) (simp add: Create_def Let_def of_le_bytes_le_bytes families)
next
  case (IPv6Address s)
  then show ?thesis using assms
    by (cases s) (simp add: Create_def Let_def of_le_bytes_le_bytes families)
next
  case (UnixAddress s len)
  then show ?thesis using assms
    by (simp add: Create_def Let_def of_le_bytes_le_bytes families)
next
  case (UnknowAddress s)
  then show ?thesis using assms
    by (cases s) (simp add: Create_def Let_def of_le_bytes_le_bytes families)
qed

lemma Create_getAddr_witness: "Create (Some (getAddr (IPv6Address demo_in6))) 28 = Inr (Some (IPv6Address demo_in6))"
  using Create_getAddr [of "IPv6Address demo_in6" 28] by (simp add: demo_in6_def IPv6_default_def)

lemma bswap32_low:
  assumes "v < 2 ^ 16"
  shows "ucast (bswap32 v) = (0 :: u16)"
proof -
  have four: "le_bytes 4 v = le_bytes (Suc (Suc (Suc (Suc 0)))) v" by (rule arg_cong) simp
  have "unat v div 2 ^ 16 = 0" using assms by (simp add: word_less_nat_alt)
  then have "unat (drop_bit 16 v) = 0" by (subst unat_drop_bit_eq) (simp add: drop_bit_eq_div)
  then have z: "drop_bit 16 v = 0" by (simp only: unat_eq_zero)
  then have "drop_bit 8 (drop_bit 16 v) = 0" by (simp only: drop_bit_of_0)
  then have "rev (le_bytes 4 v) = [0, 0, ucast (drop_bit 8 v), ucast v]"
    unfolding four using z by (simp add: drop_bit_drop_bit)
  then have "bswap32 v = push_bit 16 (of_le_bytes [ucast (drop_bit 8 v), ucast v])"
    by (simp add: bswap32_def push_bit_push_bit)
  moreover have "ucast (push_bit 16 x :: u32) = (0 :: u16)" for x
    by (rule bit_word_eqI) (simp add: bit_unsigned_iff bit_push_bit_iff)
  ultimately show ?thesis by (simp only:)
qed

text \<open>A port given to \<open>setPort\<close>, or to \<open>IPAddress::Create\<close>, is the one \<open>getPort\<close> returns. Given to the
  constructors of \<open>IPv4Address\<close> and \<open>IPv6Address\<close> or to their \<open>Create\<close>, as 32 bits, its bytes are swapped
  before the upper half is cut off: any port below 65536 becomes 0.\<close>

theorem address_ports:
  "getPort4 (setPort4 port a) = ucast port \<and> getPort6 (setPort6 port b) = ucast port
   \<and> (wide < 2 ^ 16 \<longrightarrow> getPort4 (IPv4_new address wide) = 0 \<and> getPort6 (IPv6_new bytes wide) = 0
      \<and> (\<forall>a. IPv4_Create pton host wide = Some a \<longrightarrow> getPort4 a = 0)
      \<and> (\<forall>a. IPv6_Create pton6 host wide = Some a \<longrightarrow> getPort6 a = 0))"
proof -
  have "bswap16 0 = 0" by code_simp
  then show ?thesis
    by (auto simp: getPort4_def setPort4_def getPort6_def setPort6_def IPv4_new_def IPv6_new_def IPv4_Create_def IPv6_Create_def
      byteswapOnLittleEndian16_def byteswapOnLittleEndian32_def bswap32_low IPv6_default_def Let_def
      split: prod.splits if_splits option.splits)
qed

lemma address_ports_witness: "getPort4 (IPv4_new 0x7F000001 8080) = 0"
  using address_ports [where wide = 8080 and address = "0x7F000001"] by simp

text \<open>How \<open>Lookup\<close> takes a host apart, for text without null bytes: \<open>host\<close> alone, \<open>host:service\<close>,
  \<open>[address]\<close> and \<open>[address]:service\<close> as one expects; but in an IPv6 address without brackets, whose
  colons are more than one, the whole text is the node and the service is all from the first colon on.\<close>

theorem split_host_cases:
  assumes "CHR 0x00 \<notin> set node" "CHR 0x00 \<notin> set service" "node \<noteq> []"
  shows "(hd node \<noteq> CHR ''['' \<and> CHR '':'' \<notin> set node \<longrightarrow>
       split_host node = (node, None)
     \<and> (CHR '':'' \<notin> set service \<longrightarrow> split_host (node @ '':'' @ service) = (node, Some service))
     \<and> (CHR '':'' \<in> set service \<longrightarrow> split_host (node @ '':'' @ service) = (node @ '':'' @ service, Some ('':'' @ service))))
   \<and> (CHR '']'' \<notin> set node \<longrightarrow>
       split_host (''['' @ node @ '']'') = (node, None)
     \<and> split_host (''['' @ node @ '']:'' @ service) = (node, Some service))"
proof (intro conjI impI)
  have b: "memchr CHR '']'' (node @ CHR '']'' # rest) = Some (CHR '']'' # rest)"
    "before_char CHR '']'' (node @ CHR '']'' # rest) = node" if "CHR '']'' \<notin> set node" for rest
    using that by simp_all
  show "split_host (''['' @ node @ '']'') = (node, None)" if "CHR '']'' \<notin> set node"
    using b [OF that, of "[]"] assms by (simp add: split_host_def bracketed_def)
  show "split_host (''['' @ node @ '']:'' @ service) = (node, Some service)" if "CHR '']'' \<notin> set node"
    using b [OF that, of "CHR '':'' # service"] assms by (simp add: split_host_def bracketed_def)
next
  assume n: "hd node \<noteq> CHR ''['' \<and> CHR '':'' \<notin> set node"
  have br: "bracketed (node @ rest) = ([], None)" for rest
    using n assms(3) by (cases node) (simp_all add: bracketed_def)
  have none: "memchr CHR '':'' node = None" using n by simp
  show "split_host node = (node, None)"
    using br [of "[]"] none assms by (simp add: split_host_def node_service_def)
  have col: "memchr CHR '':'' (node @ CHR '':'' # service) = Some (CHR '':'' # service)" using n by simp
  show "split_host (node @ '':'' @ service) = (node, Some service)" if "CHR '':'' \<notin> set service"
  proof -
    have "memchr CHR '':'' service = None" using that by simp
    then show ?thesis using br [of "CHR '':'' # service"] col n assms by (simp add: split_host_def node_service_def)
  qed
  show "split_host (node @ '':'' @ service) = (node @ '':'' @ service, Some ('':'' @ service))" if "CHR '':'' \<in> set service"
  proof -
    have "memchr CHR '':'' service \<noteq> None" using that by simp
    then show ?thesis using br [of "CHR '':'' # service"] col assms by (auto simp: split_host_def node_service_def)
  qed
qed

lemma split_host_cases_witness:
  "split_host ''localhost:80'' = (''localhost'', Some ''80'') \<and> split_host ''fe80::1'' = (''fe80::1'', Some ''::1'')"
  using split_host_cases [of "''localhost''" "''80''"] split_host_cases [of "''fe80''" "'':1''"] by simp

lemma dec_split: "dec n @ c # r = dec m @ c # r' \<Longrightarrow> \<not> digit c \<Longrightarrow> n = m \<and> r = r'"
  using digits_split [of "dec n" c r "dec m" r'] dec_digits by auto

lemma dotted_parts:
  assumes "dec a @ CHR ''.'' # dec b @ CHR ''.'' # dec c @ CHR ''.'' # dec d @ CHR '':'' # dec p
    = dec a' @ CHR ''.'' # dec b' @ CHR ''.'' # dec c' @ CHR ''.'' # dec d' @ CHR '':'' # dec p'"
  shows "a = a'" "b = b'" "c = c'" "d = d'" "p = p'"
proof -
  have dot: "\<not> digit CHR ''.''" "\<not> digit CHR '':''" by (simp_all add: digit_def)
  from dec_split [OF assms dot(1)] have 1: "a = a'"
    "dec b @ CHR ''.'' # dec c @ CHR ''.'' # dec d @ CHR '':'' # dec p
      = dec b' @ CHR ''.'' # dec c' @ CHR ''.'' # dec d' @ CHR '':'' # dec p'" by (rule conjunct1, rule conjunct2)
  from dec_split [OF 1(2) dot(1)] have 2: "b = b'"
    "dec c @ CHR ''.'' # dec d @ CHR '':'' # dec p = dec c' @ CHR ''.'' # dec d' @ CHR '':'' # dec p'" by (rule conjunct1, rule conjunct2)
  from dec_split [OF 2(2) dot(1)] have 3: "c = c'" "dec d @ CHR '':'' # dec p = dec d' @ CHR '':'' # dec p'"
    by (rule conjunct1, rule conjunct2)
  from dec_split [OF 3(2) dot(2)] have 4: "d = d'" "dec p = dec p'" by (rule conjunct1, rule conjunct2)
  show "a = a'" "b = b'" "c = c'" "d = d'" "p = p'" using 1 2 3 4 by simp_all
qed

text \<open>The text of an IPv4 address, dotted bytes and port, determines the address and the port.\<close>

theorem insert4_injective:
  assumes "insert4 a = insert4 b"
  shows "sin_addr a = sin_addr b \<and> sin_port a = sin_port b"
proof -
  let ?h = "\<lambda>a. byteswapOnLittleEndian32 (sin_addr a)"
  let ?p = "\<lambda>a. byteswapOnLittleEndian16 (sin_port a)"
  have "dec (unat (drop_bit 24 (?h a) AND 0xff)) @ CHR ''.'' # dec (unat (drop_bit 16 (?h a) AND 0xff)) @ CHR ''.''
      # dec (unat (drop_bit 8 (?h a) AND 0xff)) @ CHR ''.'' # dec (unat (?h a AND 0xff)) @ CHR '':'' # dec (unat (?p a))
    = dec (unat (drop_bit 24 (?h b) AND 0xff)) @ CHR ''.'' # dec (unat (drop_bit 16 (?h b) AND 0xff)) @ CHR ''.''
      # dec (unat (drop_bit 8 (?h b) AND 0xff)) @ CHR ''.'' # dec (unat (?h b AND 0xff)) @ CHR '':'' # dec (unat (?p b))"
    using assms by (simp only: insert4_def dotted_def append_assoc append_Cons append_Nil)
  from dotted_parts [OF this]
  have e: "drop_bit 24 (?h a) AND 0xff = drop_bit 24 (?h b) AND 0xff" "drop_bit 16 (?h a) AND 0xff = drop_bit 16 (?h b) AND 0xff"
    "drop_bit 8 (?h a) AND 0xff = drop_bit 8 (?h b) AND 0xff" "?h a AND 0xff = ?h b AND 0xff" "?p a = ?p b"
    by (simp_all only: word_unat_eq_iff)
  have m: "(0xff :: u32) = mask 8" by (simp add: mask_eq_decr_exp)
  have byte: "bit (drop_bit k w AND 0xff) n \<longleftrightarrow> n < 8 \<and> bit w (k + n)" for k n and w :: u32
    unfolding m by (auto simp: bit_and_iff bit_mask_iff bit_drop_bit_eq)
  have "bit (?h a) i = bit (?h b) i" if "i < 32" for i
  proof -
    have "bit (drop_bit (8 * (i div 8)) (?h a) AND 0xff) (i mod 8) = bit (drop_bit (8 * (i div 8)) (?h b) AND 0xff) (i mod 8)"
    proof -
      have "i div 8 < 4" using that by simp
      then consider "i div 8 = 0" | "i div 8 = 1" | "i div 8 = 2" | "i div 8 = 3" by linarith
      then show ?thesis using e(1-4) by cases simp_all
    qed
    then show ?thesis unfolding byte by simp
  qed
  then have "?h a = ?h b" by (intro bit_word_eqI) simp
  then have "bswap32 (?h a) = bswap32 (?h b)" by simp
  moreover have "bswap16 (bswap16 (sin_port a)) = bswap16 (bswap16 (sin_port b))" using e(5) by (simp add: byteswapOnLittleEndian16_def)
  ultimately show ?thesis by (simp add: byteswapOnLittleEndian32_def)
qed

lemma insert4_injective_witness: "sin_port (setPort4 80 demo_in) = sin_port (setPort4 80 demo_in)"
  using insert4_injective [OF refl, of "setPort4 80 demo_in"] by simp

end
