(* ===== verification/Socket.thy ===== *)
theory Socket
  imports Hook Address
begin

text \<open>
  \<open>src/src/socket.h\<close> and \<open>src/src/socket.cpp\<close>: a socket object on top of the hooked calls. An operation
  works on the object and the state of the hooks. What the calls are given besides (the kernel, the
  running coroutine, what happens while it is suspended) is the record \<open>calls\<close>; \<open>c_local\<close> and \<open>c_remote\<close>
  are the addresses \<open>getsockname\<close> and \<open>getpeername\<close> store. \<open>bind\<close>, \<open>listen\<close> and these two are not hooked.
\<close>

section \<open>State\<close>

record socket_object =
  m_sock :: int
  m_family :: int
  m_type :: int
  m_protocol :: int
  m_isConnected :: bool
  m_localAddress :: "address option"
  m_remoteAddress :: "address option"

record calls =
  c_kernel :: kernel
  c_env :: io_env
  c_tid :: nat
  c_turns :: "turn list"
  c_turn :: turn
  c_so_error :: int
  c_connect_timeout :: "32 word"
  c_epoll :: bool
  c_local :: "int \<Rightarrow> address"
  c_remote :: "int \<Rightarrow> address"

definition TCP :: int where "TCP = 1"
definition UDP :: int where "UDP = 2"
definition IPv4 :: int where "IPv4 = 2"
definition IPv6 :: int where "IPv6 = 10"
definition UNIX :: int where "UNIX = 1"

lemmas socket_consts = TCP_def UDP_def IPv4_def IPv6_def UNIX_def

type_synonym sock_state = "socket_object \<times> hooks"

definition Socket_new :: "int \<Rightarrow> int \<Rightarrow> int \<Rightarrow> socket_object" where
  "Socket_new family type protocol =
     \<lparr>m_sock = -1, m_family = family, m_type = type, m_protocol = protocol, m_isConnected = False,
      m_localAddress = None, m_remoteAddress = None\<rparr>"

text \<open>Running a call of the hooks, changing the object, and the \<open>int\<close> a \<open>ssize_t\<close> becomes.\<close>

definition hooked :: "(hooks, 'a) op \<Rightarrow> (sock_state, 'a) op" where
  "hooked m st = (let (r, h) = m (snd st) in (r, (fst st, h)))"

definition set_sock :: "(socket_object \<Rightarrow> socket_object) \<Rightarrow> (sock_state, unit) op" where
  "set_sock f = upd (map_prod f id)"

definition with_sock :: "(socket_object \<Rightarrow> (sock_state, 'a) op) \<Rightarrow> (sock_state, 'a) op" where
  "with_sock f st = f (fst st) st"

definition to_int :: "int \<Rightarrow> int" where
  "to_int n = signed_take_bit 31 n"

definition isValid :: "socket_object \<Rightarrow> bool" where
  "isValid s \<longleftrightarrow> m_sock s \<noteq> -1"

definition isConnected :: "socket_object \<Rightarrow> bool" where
  "isConnected s \<longleftrightarrow> m_isConnected s"

section \<open>Options\<close>

definition setOption :: "calls \<Rightarrow> int \<Rightarrow> int \<Rightarrow> byte list \<Rightarrow> (sock_state, bool) op" where
  "setOption c level option value =
     with_sock (\<lambda>s. bnd (hooked (setsockopt (c_kernel c) (m_sock s) level option value)) (\<lambda>r. ret (r = 0)))"

definition getOption :: "int \<Rightarrow> int \<Rightarrow> (sock_state, bool) op" where
  "getOption level option =
     with_sock (\<lambda>s. bnd (hooked (getsockopt (m_sock s) level option)) (\<lambda>r. ret (r = 0)))"

text \<open>\<open>timeval{int(v / 1000), int(v % 1000 * 1000)}\<close>.\<close>

definition timeval_of :: "int \<Rightarrow> byte list" where
  "timeval_of v = le_bytes 8 (word_of_int (to_int (v sdiv 1000)) :: u64)
     @ le_bytes 8 (word_of_int (to_int (v smod 1000 * 1000)) :: u64)"

definition setSendTimeout :: "calls \<Rightarrow> int \<Rightarrow> (sock_state, unit) op" where
  "setSendTimeout c v = thn (setOption c SOL_SOCKET SO_SNDTIMEO (timeval_of v)) (ret ())"

definition setRecvTimeout :: "calls \<Rightarrow> int \<Rightarrow> (sock_state, unit) op" where
  "setRecvTimeout c v = thn (setOption c SOL_SOCKET SO_RCVTIMEO (timeval_of v)) (ret ())"

definition socket_timeout :: "calls \<Rightarrow> int \<Rightarrow> (sock_state, int) op" where
  "socket_timeout c type = with_sock (\<lambda>s. bnd (hooked (on_fds (fdm_get (c_kernel c) (m_sock s) False)))
     (\<lambda>ctx. ret (case ctx of Some x \<Rightarrow> sint (getTimeout type x) | None \<Rightarrow> -1)))"

definition getSendTimeout :: "calls \<Rightarrow> (sock_state, int) op" where
  "getSendTimeout c = socket_timeout c SO_SNDTIMEO"

definition getRecvTimeout :: "calls \<Rightarrow> (sock_state, int) op" where
  "getRecvTimeout c = socket_timeout c SO_RCVTIMEO"

definition getError :: "int \<Rightarrow> (sock_state, int) op" where
  "getError so_error =
     bnd (getOption SOL_SOCKET 4) (\<lambda>ok st. (Inr (if ok then so_error else h_errno (snd st)), st))"

text \<open>\<open>SO_REUSEADDR\<close>, and \<open>TCP_NODELAY\<close> for TCP, each set to an \<open>int\<close> of value 1.\<close>

definition int_one :: "byte list" where
  "int_one = le_bytes 4 (1 :: u32)"

definition initSock :: "calls \<Rightarrow> (sock_state, unit) op" where
  "initSock c =
     thn (setOption c SOL_SOCKET 2 int_one)
         (with_sock (\<lambda>s. if m_type s = TCP then thn (setOption c 6 1 int_one) (ret ()) else ret ()))"

definition newSock :: "calls \<Rightarrow> (sock_state, unit) op" where
  "newSock c =
     with_sock (\<lambda>s. bnd (hooked (socket (c_kernel c) (m_family s) (m_type s) (m_protocol s))) (\<lambda>fd.
       thn (set_sock (m_sock_update (\<lambda>_. fd))) (if fd \<noteq> -1 then initSock c else ret ())))"

section \<open>Creating\<close>

definition CreateTCP :: "address \<Rightarrow> socket_object" where
  "CreateTCP addr = Socket_new (uint (getFamily addr)) TCP 0"

definition connectionless :: "calls \<Rightarrow> (sock_state, unit) op" where
  "connectionless c = thn (newSock c) (set_sock (m_isConnected_update (\<lambda>_. True)))"

definition CreateUDP :: "calls \<Rightarrow> address \<Rightarrow> hooks \<Rightarrow> (fault + unit) \<times> sock_state" where
  "CreateUDP c addr h = connectionless c (Socket_new (uint (getFamily addr)) UDP 0, h)"

definition CreateTCPSocket :: socket_object where "CreateTCPSocket = Socket_new IPv4 TCP 0"
definition CreateTCPSocket6 :: socket_object where "CreateTCPSocket6 = Socket_new IPv6 TCP 0"
definition CreateUnixTCPSocket :: socket_object where "CreateUnixTCPSocket = Socket_new UNIX TCP 0"
definition CreateUnixUDPSocket :: socket_object where "CreateUnixUDPSocket = Socket_new UNIX UDP 0"

definition CreateUDPSocket :: "calls \<Rightarrow> hooks \<Rightarrow> (fault + unit) \<times> sock_state" where
  "CreateUDPSocket c h = connectionless c (Socket_new IPv4 UDP 0, h)"

definition CreateUDPSocket6 :: "calls \<Rightarrow> hooks \<Rightarrow> (fault + unit) \<times> sock_state" where
  "CreateUDPSocket6 c h = connectionless c (Socket_new IPv6 UDP 0, h)"

section \<open>Addresses\<close>

definition getRemoteAddress :: "calls \<Rightarrow> (sock_state, address) op" where
  "getRemoteAddress c =
     with_sock (\<lambda>s. case m_remoteAddress s of
         Some a \<Rightarrow> ret a
       | None \<Rightarrow> bnd (hooked (sys (Sys_getpeername (m_sock s)))) (\<lambda>r.
           if r \<noteq> 0 then ret (UnknowAddress_new (m_family s))
           else thn (set_sock (m_remoteAddress_update (\<lambda>_. Some (c_remote c (m_sock s))))) (ret (c_remote c (m_sock s)))))"

definition getLocalAddress :: "calls \<Rightarrow> (sock_state, address) op" where
  "getLocalAddress c =
     with_sock (\<lambda>s. case m_localAddress s of
         Some a \<Rightarrow> ret a
       | None \<Rightarrow> bnd (hooked (sys (Sys_getsockname (m_sock s)))) (\<lambda>r.
           if r \<noteq> 0 then ret (UnknowAddress_new (m_family s))
           else thn (set_sock (m_localAddress_update (\<lambda>_. Some (c_local c (m_sock s))))) (ret (c_local c (m_sock s)))))"

section \<open>Connections\<close>

definition sock_close :: "calls \<Rightarrow> (sock_state, bool) op" where
  "sock_close c =
     with_sock (\<lambda>s.
       if \<not> m_isConnected s \<and> m_sock s = -1 then ret True
       else thn (set_sock (m_isConnected_update (\<lambda>_. False)))
         (if m_sock s \<noteq> -1
          then thn (hooked (close (c_kernel c) (c_env c) (c_epoll c) (m_sock s)))
              (thn (set_sock (m_sock_update (\<lambda>_. -1))) (ret False))
          else ret False))"

definition sock_connect :: "calls \<Rightarrow> address \<Rightarrow> u64 \<Rightarrow> (sock_state, bool) op" where
  "sock_connect c addr timeout_ms =
     thn (set_sock (m_remoteAddress_update (\<lambda>_. Some addr)))
    (thn (with_sock (\<lambda>s. if isValid s then ret () else newSock c))
    (with_sock (\<lambda>s.
       if \<not> isValid s then ret False
       else if uint (getFamily addr) \<noteq> m_family s then ret False
       else bnd (hooked (if timeout_ms = -1
                         then connect (c_kernel c) (c_env c) (c_tid c) (c_turn c) (c_so_error c) (c_connect_timeout c) (m_sock s)
                         else connect_with_timeout (c_kernel c) (c_env c) (c_tid c) (c_turn c) (c_so_error c) (m_sock s) timeout_ms))
         (\<lambda>r. if r \<noteq> 0 then thn (sock_close c) (ret False)
              else thn (set_sock (m_isConnected_update (\<lambda>_. True)))
                  (thn (getRemoteAddress c) (thn (getLocalAddress c) (ret True)))))))"

definition is_unix :: "address \<Rightarrow> bool" where
  "is_unix a = (case a of UnixAddress _ _ \<Rightarrow> True | _ \<Rightarrow> False)"

text \<open>Binding to a Unix address first tries to connect to it, with a socket of its own.\<close>

definition already_served :: "calls \<Rightarrow> address \<Rightarrow> (sock_state, bool) op" where
  "already_served c addr st =
     (if is_unix addr then
        case sock_connect c addr (-1) (CreateUnixTCPSocket, snd st) of
          (Inl e, (sock, h)) \<Rightarrow> (Inl e, (fst st, h))
        | (Inr ok, (sock, h)) \<Rightarrow>
            (case sock_close c (sock, h) of
               (Inl e, (_, h1)) \<Rightarrow> (Inl e, (fst st, h1))
             | (Inr _, (_, h1)) \<Rightarrow> (Inr ok, (fst st, h1)))
      else (Inr False, st))"

definition sock_bind :: "calls \<Rightarrow> address \<Rightarrow> (sock_state, bool) op" where
  "sock_bind c addr =
     thn (with_sock (\<lambda>s. if isValid s then ret () else newSock c))
    (with_sock (\<lambda>s.
       if \<not> isValid s then ret False
       else if uint (getFamily addr) \<noteq> m_family s then ret False
       else bnd (already_served c addr) (\<lambda>served.
         if served then ret False
         else bnd (hooked (sys (Sys_bind (m_sock s)))) (\<lambda>r.
           if r \<noteq> 0 then ret False else thn (getLocalAddress c) (ret True)))))"

definition sock_listen :: "int \<Rightarrow> (sock_state, bool) op" where
  "sock_listen backlog =
     with_sock (\<lambda>s. if \<not> isValid s then ret False
       else bnd (hooked (sys (Sys_listen (m_sock s) backlog))) (\<lambda>r. ret (r = 0)))"

definition sock_init :: "calls \<Rightarrow> int \<Rightarrow> (sock_state, bool) op" where
  "sock_init c sock =
     bnd (hooked (on_fds (fdm_get (c_kernel c) sock False))) (\<lambda>ctx. case ctx of
         None \<Rightarrow> ret False
       | Some x \<Rightarrow>
           if m_isSocket x \<and> \<not> m_isClosed x then
             thn (set_sock (\<lambda>s. s\<lparr>m_sock := sock, m_isConnected := True\<rparr>))
            (thn (initSock c) (thn (getLocalAddress c) (thn (getRemoteAddress c) (ret True))))
           else ret False)"

text \<open>The result is the socket of the new connection.\<close>

definition sock_accept :: "calls \<Rightarrow> (sock_state, socket_object option) op" where
  "sock_accept c st =
     (let s = fst st in
      case accept (c_kernel c) (c_env c) (c_tid c) (c_turns c) (m_sock s) (snd st) of
        (Inl e, h) \<Rightarrow> (Inl e, (s, h))
      | (Inr nsk, h) \<Rightarrow>
          if nsk = -1 then (Inr None, (s, h))
          else case sock_init c nsk (Socket_new (m_family s) (m_type s) (m_protocol s), h) of
              (Inl e, (_, h1)) \<Rightarrow> (Inl e, (s, h1))
            | (Inr ok, (client, h1)) \<Rightarrow> (Inr (if ok then Some client else None), (s, h1)))"

section \<open>Data\<close>

text \<open>All eight calls are refused on a socket that is not connected.\<close>

definition transfer :: "(int \<Rightarrow> (hooks, int) op) \<Rightarrow> (sock_state, int) op" where
  "transfer call = with_sock (\<lambda>s. if isConnected s then bnd (hooked (call (m_sock s))) (\<lambda>r. ret (to_int r)) else ret (-1))"

definition sock_send where "sock_send c = transfer (send (c_kernel c) (c_env c) (c_tid c) (c_turns c))"
definition sock_send_iov where "sock_send_iov c = transfer (sendmsg (c_kernel c) (c_env c) (c_tid c) (c_turns c))"
definition sock_sendTo where "sock_sendTo c = transfer (sendto (c_kernel c) (c_env c) (c_tid c) (c_turns c))"
definition sock_sendTo_iov where "sock_sendTo_iov c = transfer (sendmsg (c_kernel c) (c_env c) (c_tid c) (c_turns c))"
definition sock_recv where "sock_recv c = transfer (recv (c_kernel c) (c_env c) (c_tid c) (c_turns c))"
definition sock_recv_iov where "sock_recv_iov c = transfer (recvmsg (c_kernel c) (c_env c) (c_tid c) (c_turns c))"
definition sock_recvFrom where "sock_recvFrom c = transfer (recvfrom (c_kernel c) (c_env c) (c_tid c) (c_turns c))"
definition sock_recvFrom_iov where "sock_recvFrom_iov c = transfer (recvmsg (c_kernel c) (c_env c) (c_tid c) (c_turns c))"

section \<open>Cancelling\<close>

definition iom_cancel :: "calls \<Rightarrow> (int \<Rightarrow> (hook_callback iomanager, bool) op) \<Rightarrow> (sock_state, bool) op" where
  "iom_cancel c f = with_sock (\<lambda>s. thn (hooked (has_iom (c_env c))) (hooked (on_io (f (m_sock s)))))"

definition cancelRead where "cancelRead c = iom_cancel c (\<lambda>fd. cancelEvent (c_epoll c) fd READ)"
definition cancelWrite where "cancelWrite c = iom_cancel c (\<lambda>fd. cancelEvent (c_epoll c) fd WRITE)"
definition cancelAccept where "cancelAccept c = iom_cancel c (\<lambda>fd. cancelEvent (c_epoll c) fd READ)"
definition sock_cancelAll where "sock_cancelAll c = iom_cancel c (cancelAll (c_epoll c))"

text \<open>The text of a socket.\<close>

definition show_int :: "int \<Rightarrow> string" where
  "show_int n = (if n < 0 then ''-'' @ dec (nat (- n)) else dec (nat n))"

definition sock_dump :: "socket_object \<Rightarrow> string" where
  "sock_dump s = ''[Socket sock='' @ show_int (m_sock s) @ '' is_connected='' @ (if m_isConnected s then ''1'' else ''0'')
     @ '' family='' @ show_int (m_family s) @ '' type='' @ show_int (m_type s) @ '' protocol='' @ show_int (m_protocol s)
     @ (case m_localAddress s of Some a \<Rightarrow> '' local_address='' @ address_toString a | None \<Rightarrow> [])
     @ (case m_remoteAddress s of Some a \<Rightarrow> '' remote_address='' @ address_toString a | None \<Rightarrow> []) @ '']''"

section \<open>Properties\<close>

lemma hooked_run: "m (snd st) = (r, h) \<Longrightarrow> hooked m st = (r, (fst st, h))"
  by (simp add: hooked_def)

lemma with_sock_run [simp]: "with_sock f st = f (fst st) st"
  by (simp add: with_sock_def)

lemma set_sock_run [simp]: "set_sock f st = (Inr (), (f (fst st), snd st))"
  by (cases st) (simp add: set_sock_def)

lemma on_fds_hit: "fd \<noteq> -1 \<Longrightarrow> lookup fd (h_fds h) = Some c \<Longrightarrow> on_fds (fdm_get k fd a) h = (Inr (Some c), h)"
  using fdm_get_hit [of fd "h_fds h" c k a] by (simp add: on_fds_def)

text \<open>A \<open>SOL_SOCKET\<close> option of four bytes on a descriptor with a context.\<close>

lemma int_option_overreads:
  assumes "t_hook_enable h" "fd \<noteq> -1" "lookup fd (h_fds h) = Some x" "length v < 16"
  shows "setsockopt k fd SOL_SOCKET option v h = (Inl Bad_Index, h)"
  using assms on_fds_hit [OF assms(2,3), of k False] by (simp add: setsockopt_def SO_SNDTIMEO_def bnd_def)

lemma fdm_get_known:
  assumes "fdm_get k fd True ds = (Inr x, ds')" "0 \<le> fd"
  shows "\<exists>c. lookup fd ds' = Some c"
  using assms by (auto simp: fdm_get_def lookup_def Let_def split: if_splits prod.splits) (metis option.exhaust)

text \<open>A socket made in a thread with hooks gets a context from the hooked \<open>socket\<close>, so that the option
  \<open>SO_REUSEADDR\<close> every new socket is given, an \<open>int\<close>, is read by the hooked \<open>setsockopt\<close> as a \<open>timeval\<close>,
  past its end: making a TCP or UDP socket is undefined. Without hooks it is made and set up.\<close>

theorem newSock_overreads:
  assumes "h_results h = (fd, e) # (r1, e1) # (r2, e2) # rs" "2 \<le> fd"
    and "fdm_get (c_kernel c) fd True (h_fds h) = (Inr x, ds)"
  shows "if t_hook_enable h then fst (newSock c (s, h)) = Inl Bad_Index
     else fst (newSock c (s, h)) = Inr () \<and> m_sock (fst (snd (newSock c (s, h)))) = fd"
proof (cases "t_hook_enable h")
  case True
  let ?call = "Sys_socket (m_family s) (m_type s) (m_protocol s)"
  let ?h1 = "h\<lparr>h_results := (r1, e1) # (r2, e2) # rs, h_calls := h_calls h @ [?call], h_errno := h_errno h, h_fds := ds\<rparr>"
  have sock: "socket (c_kernel c) (m_family s) (m_type s) (m_protocol s) h = (Inr fd, ?h1)"
    using assms True by (simp add: socket_def bnd_def sys_def thn_run on_fds_def)
  obtain y where y: "lookup fd (h_fds ?h1) = Some y" using fdm_get_known [OF assms(3)] assms(2) by auto
  have "setsockopt (c_kernel c) fd SOL_SOCKET 2 int_one ?h1 = (Inl Bad_Index, ?h1)"
    using True assms(2) by (intro int_option_overreads [OF _ _ y]) (simp_all add: int_one_def)
  then have "setOption c SOL_SOCKET 2 int_one (s\<lparr>m_sock := fd\<rparr>, ?h1) = (Inl Bad_Index, (s\<lparr>m_sock := fd\<rparr>, ?h1))"
    by (simp add: setOption_def bnd_def hooked_def)
  then have "fst (newSock c (s, h)) = Inl Bad_Index"
    using sock assms(2) by (simp add: newSock_def bnd_def hooked_def thn_run initSock_def)
  then show ?thesis using True by simp
next
  case False
  have "newSock c (s, h) = (Inr (), snd (newSock c (s, h))) \<and> m_sock (fst (snd (newSock c (s, h)))) = fd"
    using assms(1,2) False
    by (cases "m_type s = TCP")
      (simp_all add: newSock_def hooked_def bnd_def thn_run initSock_def setOption_def socket_def setsockopt_def sys_def)
  then show ?thesis using False by (metis fst_conv)
qed

definition demo_calls :: calls where
  "demo_calls = \<lparr>c_kernel = socket_kernel, c_env = demo_env, c_tid = 9, c_turns = [],
     c_turn = \<lparr>t_now = 0, t_addr = 2, t_epoll = 0, t_during = id\<rparr>, c_so_error = 0, c_connect_timeout = 5000,
     c_epoll = True, c_local = (\<lambda>_. IPv4Address demo_in), c_remote = (\<lambda>_. IPv4Address demo_in)\<rparr>"

lemma newSock_overreads_witness:
  "fst (newSock demo_calls (CreateTCPSocket, demo_hooks [(7, 0), (0, 0), (0, 0)])) = Inl Bad_Index"
proof -
  obtain call ctx where "FdCtx_new socket_kernel 7 = (call, ctx)" by fastforce
  then obtain x ds where "fdm_get socket_kernel 7 True demo_fds = (Inr x, ds)"
    by (simp add: fdm_get_def demo_fds_def Let_def)
  then show ?thesis
    using newSock_overreads [of "demo_hooks [(7, 0), (0, 0), (0, 0)]" 7 0 0 0 0 0 "[]" demo_calls x ds CreateTCPSocket]
    by (simp add: demo_hooks_def demo_calls_def)
qed

lemma le_bytes_64: "of_le_bytes (le_bytes 8 w) = (w :: u64)"
  by (rule of_le_bytes_le_bytes) simp

lemma to_int_small: "- (2 ^ 31) \<le> i \<Longrightarrow> i < 2 ^ 31 \<Longrightarrow> to_int i = i"
  by (simp add: to_int_def signed_take_bit_int_eq_self)

lemma sint_u64: "- (2 ^ 63) \<le> i \<Longrightarrow> i < 2 ^ 63 \<Longrightarrow> sint (word_of_int i :: u64) = i"
  by (simp add: signed_of_int signed_take_bit_int_eq_self)

lemma timeval_roundtrip:
  assumes "0 \<le> v" "v < 2 ^ 31 * 1000"
  shows "timeval_ms (timeval_of v) = word_of_int v" "length (timeval_of v) = 16"
proof -
  have d: "v sdiv 1000 = v div 1000" "v smod 1000 = v mod 1000"
    using assms(1) by (simp_all add: signed_divide_int_def signed_modulo_int_def sgn_if minus_mult_div_eq_mod)
  have sec: "0 \<le> v div 1000" "v div 1000 < 2 ^ 31" using assms by simp_all
  have "v mod 1000 < 1000" "0 \<le> v mod 1000" by simp_all
  then have usec: "0 \<le> v mod 1000 * 1000" "v mod 1000 * 1000 < 2 ^ 31" by simp_all
  have "to_int (v div 1000) = v div 1000" "to_int (v mod 1000 * 1000) = v mod 1000 * 1000"
    using sec usec by (simp_all add: to_int_small)
  moreover have "sint (word_of_int (v div 1000) :: u64) = v div 1000"
    "sint (word_of_int (v mod 1000 * 1000) :: u64) = v mod 1000 * 1000"
    using sec usec by (intro sint_u64; simp)+
  moreover have "v mod 1000 * 1000 sdiv 1000 = v mod 1000"
    using usec(1) by (simp add: signed_divide_int_def sgn_if)
  ultimately show "timeval_ms (timeval_of v) = word_of_int v"
    by (simp add: timeval_ms_def timeval_of_def d le_bytes_64 del: of_le_bytes.simps)
  show "length (timeval_of v) = 16" by (simp add: timeval_of_def)
qed

text \<open>On a socket with a context, in a thread with hooks, the receive timeout that is set is the one read
  back, in milliseconds up to \<open>2 ^ 31\<close> seconds, and the send timeout stays; likewise the other way round.\<close>

theorem timeouts_roundtrip:
  assumes "t_hook_enable h" "m_sock s \<noteq> -1" "lookup (m_sock s) (h_fds h) = Some x" "h_results h = (r, e) # rs"
    and "0 \<le> v" "v < 2 ^ 31 * 1000" "type \<in> {SO_RCVTIMEO, SO_SNDTIMEO}" "other \<in> {SO_RCVTIMEO, SO_SNDTIMEO}" "other \<noteq> type"
  shows "\<exists>st. (if type = SO_RCVTIMEO then setRecvTimeout c v else setSendTimeout c v) (s, h) = (Inr (), st)
    \<and> socket_timeout c type st = (Inr v, st)
    \<and> socket_timeout c other st = (Inr (sint (getTimeout other x)), st)"
proof -
  let ?x = "setTimeout type (word_of_int v) x"
  let ?h = "put_fd (m_sock s) ?x h"
  let ?h1 = "?h\<lparr>h_results := rs, h_calls := h_calls h @ [Sys_setsockopt (m_sock s) SOL_SOCKET type (timeval_of v)],
      h_errno := (if r = -1 then e else h_errno h)\<rparr>"
  have fd: "0 \<le> m_sock s" "m_sock s < int (length (h_fds h))" using assms(3) by (auto simp: lookup_def split: if_splits)
  have tv: "timeval_ms (timeval_of v) = word_of_int v" "length (timeval_of v) = 16"
    using timeval_roundtrip [OF assms(5,6)] by simp_all
  have set: "setsockopt (c_kernel c) (m_sock s) SOL_SOCKET type (timeval_of v) h = (Inr r, ?h1)"
    using assms(1,4) on_fds_hit [OF assms(2,3), of "c_kernel c" False] tv
    by (simp add: setsockopt_def SO_SNDTIMEO_def bnd_def sys_def put_fd_def)
  have look: "lookup (m_sock s) (h_fds ?h1) = Some ?x" using fd by (simp add: put_fd_def lookup_update)
  have get: "socket_timeout c t (s, ?h1) = (Inr (sint (getTimeout t ?x)), (s, ?h1))" for t
    using on_fds_hit [OF assms(2) look, of "c_kernel c" False] by (simp add: socket_timeout_def bnd_def hooked_def)
  have "sint (word_of_int v :: u64) = v" using assms(5,6) by (intro sint_u64) simp_all
  moreover have "getTimeout type ?x = word_of_int v" "getTimeout other ?x = getTimeout other x"
    using assms(7-9) getTimeout_setTimeout by auto
  moreover have "(if type = SO_RCVTIMEO then setRecvTimeout c v else setSendTimeout c v) (s, h) = (Inr (), (s, ?h1))"
    using assms(7) set by (auto simp: setRecvTimeout_def setSendTimeout_def setOption_def thn_run bnd_def hooked_def)
  ultimately show ?thesis using get by (intro exI [of _ "(s, ?h1)"]) simp
qed

lemma timeouts_roundtrip_witness:
  "\<exists>st. setRecvTimeout demo_calls 1500 (CreateTCPSocket\<lparr>m_sock := 5\<rparr>, demo_hooks [(0, 0)]) = (Inr (), st)
     \<and> socket_timeout demo_calls SO_RCVTIMEO st = (Inr 1500, st)"
  using timeouts_roundtrip [of "demo_hooks [(0, 0)]" "CreateTCPSocket\<lparr>m_sock := 5\<rparr>" "the (demo_fds ! 5)" 0 0 "[]" 1500
      SO_RCVTIMEO SO_SNDTIMEO demo_calls]
  by (auto simp: demo_hooks_def demo_fds_def lookup_def SO_RCVTIMEO_def SO_SNDTIMEO_def)

end
