(* ===== verification/Socket_Stream.thy ===== *)
theory Socket_Stream
  imports Socket ByteArray_Props
begin

text \<open>
  \<open>src/src/stream.h\<close>, \<open>src/src/stream.cpp\<close>, \<open>src/src/socket_stream.h\<close> and \<open>src/src/socket_stream.cpp\<close>: the
  loops that read or write a fixed number of bytes on any stream, with the stream's virtual \<open>read\<close> and
  \<open>write\<close> as arguments, and the stream of a socket. The loops may run for ever: they are partial
  functions, and \<open>None\<close> stands for a loop that does not end.
\<close>

section \<open>Reading and writing a fixed size\<close>

text \<open>\<open>read\<close> is given how many bytes are wanted; its result is the \<open>int\<close> returned and the bytes stored. The
  loop counts in \<open>size_t\<close>, so that a result of -1 is \<open>2 ^ 64 - 1\<close>, which is not \<open><= 0\<close>. The first component
  of the outcome is \<open>True\<close> when everything has been read, \<open>False\<close> when a \<open>read\<close> returned 0.\<close>

type_synonym 's reader = "nat \<Rightarrow> ('s, int \<times> byte list) op"
type_synonym 's writer = "byte list option \<Rightarrow> ('s, int) op"

partial_function (option) read_fix ::
    "'s reader \<Rightarrow> byte list \<Rightarrow> u64 \<Rightarrow> u64 \<Rightarrow> 's \<Rightarrow> ((fault + bool) \<times> byte list \<times> 's) option" where
  "read_fix rd buf offset rest_bytes s =
     (if rest_bytes = 0 then Some (Inr True, buf, s)
      else case rd (unat rest_bytes) s of
          (Inl e, s1) \<Rightarrow> Some (Inl e, buf, s1)
        | (Inr rb, s1) \<Rightarrow>
            let len = (word_of_int (fst rb) :: u64); bs = snd rb
            in if len = 0 then Some (Inr False, buf, s1)
               else if bs \<noteq> [] \<and> unat offset + length bs > length buf then Some (Inl Bad_Index, buf, s1)
               else read_fix rd (overwrite buf (unat offset) bs) (offset + len) (rest_bytes - len) s1)"

definition fix_result :: "nat \<Rightarrow> fault + bool \<Rightarrow> fault + int" where
  "fix_result n r = map_sum id (\<lambda>done. if done then to_int (int n) else 0) r"

definition readFixSize :: "'s reader \<Rightarrow> byte list \<Rightarrow> nat \<Rightarrow> 's \<Rightarrow> ((fault + int) \<times> byte list \<times> 's) option" where
  "readFixSize rd buf n s = map_option (map_prod (fix_result n) id) (read_fix rd buf 0 (of_nat n) s)"

text \<open>\<open>write\<close> is given the bytes from \<open>buffer + offset\<close> on, or nothing where these lie outside the buffer.\<close>

partial_function (option) write_fix ::
    "'s writer \<Rightarrow> byte list \<Rightarrow> u64 \<Rightarrow> u64 \<Rightarrow> 's \<Rightarrow> ((fault + bool) \<times> 's) option" where
  "write_fix wr buf offset rest_bytes s =
     (if rest_bytes = 0 then Some (Inr True, s)
      else let part = (if unat offset + unat rest_bytes \<le> length buf
                       then Some (take (unat rest_bytes) (drop (unat offset) buf)) else None);
               (r, s1) = wr part s
           in case r of
                Inl e \<Rightarrow> Some (Inl e, s1)
              | Inr n \<Rightarrow>
                  let len = (word_of_int n :: u64) in
                  if len = 0 then Some (Inr False, s1)
                  else write_fix wr buf (offset + len) (rest_bytes - len) s1)"

definition writeFixSize :: "'s writer \<Rightarrow> byte list \<Rightarrow> nat \<Rightarrow> 's \<Rightarrow> ((fault + int) \<times> 's) option" where
  "writeFixSize wr buf n s = map_option (map_prod (fix_result n) id) (write_fix wr buf 0 (of_nat n) s)"

text \<open>The versions on a \<open>ByteArray\<close>, which is part of the state of \<open>rd\<close> and \<open>wr\<close>.\<close>

partial_function (option) ba_fix ::
    "(nat \<Rightarrow> ('s, int) op) \<Rightarrow> u64 \<Rightarrow> 's \<Rightarrow> ((fault + bool) \<times> 's) option" where
  "ba_fix f rest_bytes s =
     (if rest_bytes = 0 then Some (Inr True, s)
      else case f (unat rest_bytes) s of
          (Inl e, s1) \<Rightarrow> Some (Inl e, s1)
        | (Inr n, s1) \<Rightarrow>
            let len = (word_of_int n :: u64) in
            if len = 0 then Some (Inr False, s1) else ba_fix f (rest_bytes - len) s1)"

definition readFixSize_ba :: "(nat \<Rightarrow> ('s, int) op) \<Rightarrow> nat \<Rightarrow> 's \<Rightarrow> ((fault + int) \<times> 's) option" where
  "readFixSize_ba rd n s = map_option (map_prod (fix_result n) id) (ba_fix rd (of_nat n) s)"

definition writeFixsize_ba :: "(nat \<Rightarrow> ('s, int) op) \<Rightarrow> nat \<Rightarrow> 's \<Rightarrow> ((fault + int) \<times> 's) option" where
  "writeFixsize_ba wr n s = map_option (map_prod (fix_result n) id) (ba_fix wr (of_nat n) s)"

section \<open>The contract of a stream\<close>

text \<open>Reads that go on until \<open>n\<close> bytes have come, or until one of them returns 0.\<close>

inductive delivers :: "'s reader \<Rightarrow> nat \<Rightarrow> 's \<Rightarrow> bool" for rd :: "'s reader" where
  del_done: "delivers rd 0 s"
| del_end: "rd n s = (Inr (0, bs), s') \<Longrightarrow> delivers rd n s"
| del_more: "rd n s = (Inr (r, bs), s') \<Longrightarrow> 0 < r \<Longrightarrow> delivers rd (n - nat r) s' \<Longrightarrow> delivers rd n s"

text \<open>What \<open>read\<close> stores are the next of the bytes still to come, as many as it returns.\<close>

locale input_stream =
  fixes rd :: "'s reader" and pending :: "'s \<Rightarrow> byte list"
  assumes stored: "rd n s = (Inr (r, bs), s') \<Longrightarrow> pending s = bs @ pending s'"
    and counted: "rd n s = (Inr (r, bs), s') \<Longrightarrow> 0 \<le> r \<Longrightarrow> int (length bs) = r"
    and wanted: "rd n s = (Inr (r, bs), s') \<Longrightarrow> r \<le> int n"
begin

text \<open>What has been read when the loop stops, \<open>k\<close> of \<open>n\<close> bytes.\<close>

definition filled :: "byte list \<Rightarrow> nat \<Rightarrow> nat \<Rightarrow> nat \<Rightarrow> 's \<Rightarrow> bool \<Rightarrow> byte list \<Rightarrow> 's \<Rightarrow> bool" where
  "filled buf off n k s r buf' s' \<longleftrightarrow> k \<le> n \<and> k \<le> length (pending s) \<and> (r \<longleftrightarrow> k = n)
     \<and> buf' = overwrite buf off (take k (pending s)) \<and> pending s' = drop k (pending s)"

lemma filled_more:
  assumes "filled (overwrite buf off bs) (off + length bs) (n - length bs) k s1 r buf' s'"
    and "pending s = bs @ pending s1" "length bs \<le> n" "off \<le> length buf"
  shows "filled buf off n (length bs + k) s r buf' s'"
  using assms overwrite_overwrite [of off buf bs] unfolding filled_def by auto

lemma read_fix_spec:
  assumes "delivers rd n s" "length buf < 2 ^ 63" "off + n = length buf"
  shows "\<exists>r buf' s' k. read_fix rd buf (of_nat off) (of_nat n) s = Some (Inr r, buf', s') \<and> filled buf off n k s r buf' s'"
  using assms
proof (induction arbitrary: off buf rule: delivers.induct)
  case (del_done s)
  show ?case by (intro exI [of _ True] exI [of _ buf] exI [of _ s] exI [of _ 0]) (simp add: read_fix.simps filled_def)
next
  case (del_end n s bs s')
  show ?case
  proof (cases "n = 0")
    case True
    then show ?thesis by (intro exI [of _ True] exI [of _ buf] exI [of _ s] exI [of _ 0]) (simp add: read_fix.simps filled_def)
  next
    case False
    have n: "unat (of_nat n :: u64) = n" "(of_nat n :: u64) \<noteq> 0" using del_end.prems False
      by (simp_all add: unat_of_nat word_unat_eq_iff)
    then have "read_fix rd buf (of_nat off) (of_nat n) s = Some (Inr False, buf, s')"
      using del_end.hyps by (subst read_fix.simps) (simp add: Let_def)
    moreover have "bs = []" "pending s = pending s'" using counted [OF del_end.hyps] stored [OF del_end.hyps] by simp_all
    ultimately show ?thesis using False
      by (intro exI [of _ False] exI [of _ buf] exI [of _ s'] exI [of _ 0]) (simp add: filled_def)
  qed
next
  case (del_more n s r bs s1)
  have r: "r \<le> int n" "int (length bs) = r" "pending s = bs @ pending s1"
    using stored [OF del_more.hyps(1)] counted [OF del_more.hyps(1)] wanted [OF del_more.hyps(1)] del_more.hyps(2) by auto
  let ?k = "length bs" and ?buf = "overwrite buf off bs"
  have k: "nat r = ?k" "?k \<le> n" "bs \<noteq> []" "0 < n" using r(1,2) del_more.hyps(2) by auto
  have w: "(word_of_int r :: u64) = of_nat ?k" using r(2) by (metis of_int_of_nat_eq)
  have lim: "n < 2 ^ 64" "?k < 2 ^ 64" "off < 2 ^ 64" "off + ?k \<le> length buf" using del_more.prems k(2) by simp_all
  then have u: "unat (of_nat n :: u64) = n" "unat (of_nat off :: u64) = off" "(of_nat n :: u64) \<noteq> 0" "(of_nat ?k :: u64) \<noteq> 0"
    using k by (simp_all add: unat_of_nat word_unat_eq_iff)
  have "(of_nat n :: u64) - of_nat ?k = of_nat (n - ?k)" "(of_nat off :: u64) + of_nat ?k = of_nat (off + ?k)"
    using k(2) by (simp_all add: of_nat_diff)
  then have step: "read_fix rd buf (of_nat off) (of_nat n) s = read_fix rd ?buf (of_nat (off + ?k)) (of_nat (n - ?k)) s1"
    using del_more.hyps(1) u w lim(4) by (subst read_fix.simps) (simp add: Let_def)
  have len: "length ?buf < 2 ^ 63" "off + ?k + (n - ?k) = length ?buf" using del_more.prems k(2) lim(4) by simp_all
  from del_more.IH [of ?buf "off + ?k"] len k(1) obtain res buf' s' k' where
    "read_fix rd ?buf (of_nat (off + ?k)) (of_nat (n - ?k)) s1 = Some (Inr res, buf', s')"
    "filled ?buf (off + ?k) (n - ?k) k' s1 res buf' s'" by (elim exE conjE meta_impE) auto
  moreover from filled_more [OF this(2) r(3) k(2)] del_more.prems(2)
  have "filled buf off n (?k + k') s res buf' s'" by simp
  ultimately show ?case unfolding step by (intro exI conjI)
qed

end

text \<open>A stream that has failed and keeps failing: every round adds one to the bytes still to be read, until
  the count wraps around to 0.\<close>

lemma unat_minus_Suc:
  fixes w :: u64
  assumes "w \<noteq> 0"
  shows "unat (- w) = Suc (unat (- (w - (- 1))))"
proof -
  have "- (w - (- 1)) = - w - 1" by simp
  moreover have "- w \<noteq> 0" using assms by simp
  ultimately show ?thesis by (simp add: unat_minus_one unat_gt_0)
qed

lemma read_fix_stuck:
  assumes "\<And>m. rd m s = (Inr (-1, []), s)"
  shows "read_fix rd buf offset rest_bytes s = Some (Inr True, buf, s)"
proof (induction "unat (- rest_bytes)" arbitrary: offset rest_bytes)
  case 0
  then have "rest_bytes = 0" by (metis neg_equal_0_iff_equal unat_eq_zero)
  then show ?case by (simp add: read_fix.simps)
next
  case (Suc k)
  then have nz: "rest_bytes \<noteq> 0" by auto
  then have k: "k = unat (- (rest_bytes - (- 1)))" using Suc.hyps(2) unat_minus_Suc [of rest_bytes] by simp
  have "read_fix rd buf offset rest_bytes s = read_fix rd buf (offset + (- 1)) (rest_bytes - (- 1)) s"
    using nz by (subst read_fix.simps) (simp add: assms Let_def)
  also have "\<dots> = Some (Inr True, buf, s)" by (rule Suc.hyps(1) [OF k])
  finally show ?case .
qed

lemma ba_fix_stuck:
  assumes "\<And>m. f m s = (Inr (-1), s)"
  shows "ba_fix f rest_bytes s = Some (Inr True, s)"
proof (induction "unat (- rest_bytes)" arbitrary: rest_bytes)
  case 0
  then have "rest_bytes = 0" by (metis neg_equal_0_iff_equal unat_eq_zero)
  then show ?case by (simp add: ba_fix.simps)
next
  case (Suc k)
  then have nz: "rest_bytes \<noteq> 0" by auto
  then have k: "k = unat (- (rest_bytes - (- 1)))" using Suc.hyps(2) unat_minus_Suc [of rest_bytes] by simp
  have "ba_fix f rest_bytes s = ba_fix f (rest_bytes - (- 1)) s"
    using nz by (subst ba_fix.simps) (simp add: assms Let_def)
  also have "\<dots> = Some (Inr True, s)" by (rule Suc.hyps(1) [OF k])
  finally show ?case .
qed

section \<open>The stream of a socket\<close>

text \<open>\<open>ss_in\<close> are the bytes the peer has sent that are still to be read, \<open>ss_out\<close> those it has been sent. A
  positive result of the kernel offers that many bytes, and is cut to what is asked for and, when
  reading, to what the peer has sent.\<close>

record stream_state =
  ss_socket :: "socket_object option"
  ss_owner :: bool
  ss_hooks :: hooks
  ss_in :: "byte list"
  ss_out :: "byte list"

definition stream_connected :: "stream_state \<Rightarrow> bool" where
  "stream_connected st = (case ss_socket st of Some s \<Rightarrow> isConnected s | None \<Rightarrow> False)"

definition on_sock :: "(sock_state, 'a) op \<Rightarrow> (stream_state, 'a) op" where
  "on_sock m st =
     (case ss_socket st of
        None \<Rightarrow> (Inl Null_Deref, st)
      | Some s \<Rightarrow> let (r, (s1, h1)) = m (s, ss_hooks st) in (r, st\<lparr>ss_socket := Some s1, ss_hooks := h1\<rparr>))"

definition offered :: "int \<Rightarrow> nat \<Rightarrow> int" where
  "offered r limit = min r (int limit)"

text \<open>Receiving up to \<open>n\<close> bytes, and sending some.\<close>

definition take_in :: "nat \<Rightarrow> int \<Rightarrow> (stream_state, int \<times> byte list) op" where
  "take_in n r st =
     (let r1 = offered r (min n (length (ss_in st))); bs = take (nat r1) (ss_in st)
      in (Inr (r1, bs), st\<lparr>ss_in := drop (nat r1) (ss_in st)\<rparr>))"

definition put_out :: "byte list \<Rightarrow> int \<Rightarrow> (stream_state, int) op" where
  "put_out data r st =
     (let r1 = offered r (length data) in (Inr r1, st\<lparr>ss_out := ss_out st @ take (nat r1) data\<rparr>))"

definition stream_read :: "calls \<Rightarrow> stream_state reader" where
  "stream_read c n st =
     (if \<not> stream_connected st then (Inr (-1, []), st)
      else bnd (on_sock (sock_recv c)) (take_in n) st)"

definition stream_write :: "calls \<Rightarrow> stream_state writer" where
  "stream_write c part st =
     (if \<not> stream_connected st then (Inr (-1), st)
      else case part of
          None \<Rightarrow> (Inl Bad_Index, st)
        | Some data \<Rightarrow> bnd (on_sock (sock_send c)) (put_out data) st)"

text \<open>Into and out of a \<open>ByteArray\<close>: the kernel fills the pieces in order. Taking the address of the first
  element of an empty vector is undefined.\<close>

fun scatter :: "iovec list \<Rightarrow> byte list \<Rightarrow> byte list list \<Rightarrow> byte list list" where
  "scatter [] bs nodes = nodes"
| "scatter ((c, off, len) # iovs) bs nodes =
     scatter iovs (drop len bs) (nodes[c := overwrite (nodes ! c) off (take len bs)])"

type_synonym ba_stream = "bytearray \<times> stream_state"

definition on_ba :: "(bytearray, 'a) op \<Rightarrow> (ba_stream, 'a) op" where
  "on_ba m st = (let (r, ba) = m (fst st) in (r, (ba, snd st)))"

definition on_stream :: "(stream_state, 'a) op \<Rightarrow> (ba_stream, 'a) op" where
  "on_stream m st = (let (r, s) = m (snd st) in (r, (fst st, s)))"

definition advance :: "int \<Rightarrow> (ba_stream, int) op" where
  "advance rt st =
     (if rt > 0 then thn (on_ba (setPosition (m_position (fst st) + nat rt))) (ret rt) st else (Inr rt, st))"

definition stream_read_ba :: "calls \<Rightarrow> nat \<Rightarrow> (ba_stream, int) op" where
  "stream_read_ba c n st =
     (if \<not> stream_connected (snd st) then (Inr (-1), st)
      else bnd (on_ba (getWriteBuffers n)) (\<lambda>res.
        if snd res = [] then raise Bad_Index
        else bnd (on_stream (bnd (on_sock (sock_recv_iov c)) (take_in (sum_list (map (snd \<circ> snd) (snd res)))))) (\<lambda>rb.
          thn (upd (map_prod (m_nodes_update (scatter (snd res) (snd rb))) id)) (advance (fst rb)))) st)"

definition stream_write_ba :: "calls \<Rightarrow> nat \<Rightarrow> (ba_stream, int) op" where
  "stream_write_ba c n st =
     (if \<not> stream_connected (snd st) then (Inr (-1), st)
      else case getReadBuffers n (fst st) of
          Inl e \<Rightarrow> (Inl e, st)
        | Inr res \<Rightarrow>
            if snd res = [] then (Inl Bad_Index, st)
            else bnd (on_stream (bnd (on_sock (sock_send_iov c)) (put_out (iov_bytes (fst st) (snd res))))) advance st)"

definition stream_close :: "calls \<Rightarrow> (stream_state, unit) op" where
  "stream_close c st = (if ss_socket st \<noteq> None then thn (on_sock (sock_close c)) (ret ()) st else (Inr (), st))"

definition stream_destroy :: "calls \<Rightarrow> (stream_state, unit) op" where
  "stream_destroy c st = (if ss_owner st then stream_close c st else (Inr (), st))"

text \<open>The stream of a socket keeps the contract.\<close>

lemma take_in_spec:
  assumes "take_in n r0 s = (Inr (r, bs), s')"
  shows "ss_in s = bs @ ss_in s'" "0 \<le> r \<Longrightarrow> int (length bs) = r" "r \<le> int n"
  using assms by (auto simp: take_in_def offered_def Let_def min_def)

lemma on_sock_ss_in: "on_sock m s = (x, s') \<Longrightarrow> ss_in s' = ss_in s"
  by (auto simp: on_sock_def split: option.splits prod.splits)

lemma stream_read_spec:
  assumes "stream_read c n s = (Inr (r, bs), s')"
  shows "ss_in s = bs @ ss_in s'" "0 \<le> r \<Longrightarrow> int (length bs) = r" "r \<le> int n"
proof -
  consider "r = -1" "bs = []" "s' = s" | r0 s1 where "on_sock (sock_recv c) s = (Inr r0, s1)" "take_in n r0 s1 = (Inr (r, bs), s')"
    using assms by (auto simp: stream_read_def run_back split: if_splits)
  then have "ss_in s = bs @ ss_in s' \<and> (0 \<le> r \<longrightarrow> int (length bs) = r) \<and> r \<le> int n"
  proof cases
    case 2
    then show ?thesis using take_in_spec [OF 2(2)] on_sock_ss_in [OF 2(1)] by simp
  qed simp
  then show "ss_in s = bs @ ss_in s'" "0 \<le> r \<Longrightarrow> int (length bs) = r" "r \<le> int n" by auto
qed

interpretation socket_input: input_stream "stream_read c" ss_in for c
  by unfold_locales (use stream_read_spec in blast)+

section \<open>Properties\<close>

text \<open>Reading a fixed size from the stream of a socket, while it keeps delivering, fills the buffer
  with the next bytes the peer has sent, in order, and returns the size; when a read returns 0 before
  that, so does the call, and the bytes that came until then are in the buffer.\<close>

theorem readFixSize_fills:
  assumes "delivers (stream_read c) (length buf) s" "length buf < 2 ^ 31"
  shows "\<exists>r buf' s' k. readFixSize (stream_read c) buf (length buf) s = Some (Inr r, buf', s')
    \<and> k \<le> length buf \<and> r = (if k = length buf then int k else 0)
    \<and> buf' = take k (ss_in s) @ drop k buf \<and> k \<le> length (ss_in s) \<and> ss_in s' = drop k (ss_in s)"
proof -
  obtain r buf' s' k where f: "read_fix (stream_read c) buf (of_nat 0) (of_nat (length buf)) s = Some (Inr r, buf', s')"
    "socket_input.filled buf 0 (length buf) k s r buf' s'"
    using socket_input.read_fix_spec [OF assms(1), of buf 0] assms(2) by auto
  have "to_int (int (length buf)) = int (length buf)" using assms(2) by (intro to_int_small) simp_all
  then have "readFixSize (stream_read c) buf (length buf) s = Some (Inr (if r then int (length buf) else 0), buf', s')"
    using f(1) by (simp add: readFixSize_def fix_result_def)
  then show ?thesis using f(2) unfolding socket_input.filled_def
    by (intro exI [of _ "if r then int (length buf) else 0"] exI [of _ buf'] exI [of _ s'] exI [of _ k])
      (auto simp: overwrite_def min_def)
qed

definition demo_stream :: "(int \<times> int) list \<Rightarrow> byte list \<Rightarrow> stream_state" where
  "demo_stream results sent = \<lparr>ss_socket = Some (CreateTCPSocket\<lparr>m_sock := 5, m_isConnected := True\<rparr>), ss_owner = True,
     ss_hooks = (demo_hooks results)\<lparr>t_hook_enable := False\<rparr>, ss_in = sent, ss_out = []\<rparr>"

lemma demo_read:
  "stream_read c n (demo_stream ((r, e) # rs) sent)
    = take_in n (to_int r) ((demo_stream rs sent)\<lparr>ss_hooks := (demo_hooks rs)\<lparr>t_hook_enable := False,
        h_calls := [Sys_io ''recv'' 5], h_errno := (if r = -1 then e else 0)\<rparr>\<rparr>)"
  by (simp add: stream_read_def demo_stream_def stream_connected_def isConnected_def on_sock_def sock_recv_def transfer_def
    hooked_def bnd_def recv_def do_io_def sys_def demo_hooks_def)

lemma readFixSize_fills_witness:
  "\<exists>r buf' s'. readFixSize (stream_read demo_calls) [0, 0, 0] 3 (demo_stream [(3, 0)] [7, 8, 9, 10]) = Some (Inr r, buf', s')"
proof -
  obtain s' where "stream_read demo_calls 3 (demo_stream [(3, 0)] [7, 8, 9, 10]) = (Inr (3, [7, 8, 9]), s')"
    unfolding demo_read by (simp add: take_in_def offered_def to_int_def demo_stream_def)
  then have "delivers (stream_read demo_calls) 3 (demo_stream [(3, 0)] [7, 8, 9, 10])"
    by (rule del_more) (simp_all add: del_done)
  then show ?thesis using readFixSize_fills [of demo_calls "[0, 0, 0]" "demo_stream [(3, 0)] [7, 8, 9, 10]"]
    by (auto simp: numeral_3_eq_3)
qed

text \<open>An error is not reported by the loops for a fixed size. On a stream that is not connected every
  \<open>read\<close> and \<open>write\<close> returns -1, which as a \<open>size_t\<close> is not \<open><= 0\<close>: the loop goes on for \<open>2 ^ 64 - n\<close> rounds
  and then returns \<open>n\<close>, as if everything had been read, with the buffer as it was; into a \<open>ByteArray\<close> the
  same.\<close>

theorem fix_size_ignores_errors:
  assumes "\<not> stream_connected s" "0 < n" "n < 2 ^ 31"
  shows "readFixSize (stream_read c) buf n s = Some (Inr (int n), buf, s)
    \<and> readFixSize_ba (stream_read_ba c) n (ba, s) = Some (Inr (int n), (ba, s))
    \<and> writeFixsize_ba (stream_write_ba c) n (ba, s) = Some (Inr (int n), (ba, s))"
proof -
  have i: "to_int (int n) = int n" using assms(3) by (intro to_int_small) simp_all
  have dead: "stream_read c m s = (Inr (-1, []), s)" "stream_read_ba c m (ba, s) = (Inr (-1), (ba, s))"
    "stream_write_ba c m (ba, s) = (Inr (-1), (ba, s))" for m
    using assms(1) by (simp_all add: stream_read_def stream_read_ba_def stream_write_ba_def)
  have "read_fix (stream_read c) buf 0 (of_nat n) s = Some (Inr True, buf, s)"
    using read_fix_stuck [of "stream_read c" s buf 0 "of_nat n"] dead(1) by simp
  moreover have "ba_fix (stream_read_ba c) (of_nat n) (ba, s) = Some (Inr True, (ba, s))"
    "ba_fix (stream_write_ba c) (of_nat n) (ba, s) = Some (Inr True, (ba, s))"
    using ba_fix_stuck [of "stream_read_ba c" "(ba, s)"] ba_fix_stuck [of "stream_write_ba c" "(ba, s)"] dead(2,3) by simp_all
  ultimately show ?thesis
    by (simp add: readFixSize_def readFixSize_ba_def writeFixsize_ba_def fix_result_def i)
qed

lemma fix_size_ignores_errors_witness:
  "readFixSize (stream_read demo_calls) [0, 0, 0] 3 ((demo_stream [] [])\<lparr>ss_socket := None\<rparr>)
    = Some (Inr 3, [0, 0, 0], (demo_stream [] [])\<lparr>ss_socket := None\<rparr>)"
  using fix_size_ignores_errors [of "(demo_stream [] [])\<lparr>ss_socket := None\<rparr>" 3 demo_calls "[0, 0, 0]"]
  by (simp add: stream_connected_def)

text \<open>Reading from the socket into a \<open>ByteArray\<close> at its end, as a fresh one is, throws whenever bytes
  arrive: they are received into the blocks, but \<open>setPosition\<close> refuses to go past the size, which only
  \<open>write\<close> moves. The bytes are gone from the socket and the position of the buffer has not moved.\<close>

theorem read_into_buffer_throws:
  assumes "ba_inv ba" "m_position ba = m_size ba" "m_position ba < m_capacity ba" "0 < n" "n < 2 ^ 31"
    and "stream_connected s" "on_sock (sock_recv_iov c) s = (Inr r, s1)" "0 < r" "ss_in s \<noteq> []"
  shows "\<exists>ba' s'. stream_read_ba c n (ba, s) = (Inl Out_Of_Range, (ba', s'))
    \<and> m_position ba' = m_position ba \<and> m_size ba' = m_size ba \<and> length (ss_in s') < length (ss_in s)"
proof -
  obtain ba1 iovs where g: "getWriteBuffers n ba = (Inr (n, iovs), ba1)" "ba_inv ba1" "content ba1 = content ba"
    "m_position ba1 = m_position ba" "iov_addrs (m_basesize ba1) iovs = [m_position ba ..< m_position ba + n]"
    using getWriteBuffers_spec [OF assms(1,3,4,5)] by (elim exE conjE) (rule that)
  have size: "m_size ba1 = m_size ba"
    using arg_cong [OF g(3), of length] length_content [OF g(2)] length_content [OF assms(1)] by simp
  have "iov_addrs (m_basesize ba1) iovs \<noteq> []" using g(5) assms(4) by simp
  then have ne: "iovs \<noteq> []" by (auto simp: iov_addrs_def)
  have total: "sum_list (map (snd \<circ> snd) iovs) = n"
  proof -
    have "length (iov_addrs b iovs) = sum_list (map (snd \<circ> snd) iovs)" for b
      by (induction iovs) (auto simp: iov_addrs_def)
    then show ?thesis using g(5) by (metis length_upt add_diff_cancel_left')
  qed
  have in1: "ss_in s1 = ss_in s" using on_sock_ss_in [OF assms(7)] .
  let ?r = "offered r (min n (length (ss_in s)))"
  have r: "0 < ?r" using assms(4,8,9) by (simp add: offered_def)
  let ?s' = "s1\<lparr>ss_in := drop (nat ?r) (ss_in s)\<rparr>"
  let ?ba' = "m_nodes_update (scatter iovs (take (nat ?r) (ss_in s))) ba1"
  have take: "take_in n r s1 = (Inr (?r, take (nat ?r) (ss_in s)), ?s')" by (simp add: take_in_def in1 Let_def)
  have pos: "setPosition (m_position ?ba' + nat ?r) ?ba' = (Inl Out_Of_Range, ?ba')"
    using r assms(2) size g(4) by (simp add: setPosition_def)
  have adv: "advance ?r (?ba', ?s') = (Inl Out_Of_Range, (?ba', ?s'))"
    using r pos by (simp add: advance_def thn_def on_ba_def)
  have rcv: "bnd (on_sock (sock_recv_iov c)) (take_in n) s = (Inr (?r, take (nat ?r) (ss_in s)), ?s')"
    using assms(7) take by (simp add: bnd_def)
  have "stream_read_ba c n (ba, s)
    = thn (upd (map_prod (m_nodes_update (scatter iovs (take (nat ?r) (ss_in s)))) id)) (advance ?r) (ba1, ?s')"
    using assms(6) g(1) ne total rcv
    by (simp add: stream_read_ba_def on_ba_def on_stream_def bnd_def del: take_append)
  also have "\<dots> = advance ?r (?ba', ?s')" by (simp add: thn_def upd_def)
  finally have "stream_read_ba c n (ba, s) = (Inl Out_Of_Range, (?ba', ?s'))" using adv by simp
  then show ?thesis using g(4) size r assms(9) by (intro exI [of _ ?ba'] exI [of _ ?s']) simp
qed

lemma read_into_buffer_throws_witness:
  "\<exists>st. stream_read_ba demo_calls 4 (ByteArray_new 8 (\<lambda>_. 0), demo_stream [(3, 0)] [7, 8, 9]) = (Inl Out_Of_Range, st)"
proof -
  obtain s1 where "on_sock (sock_recv_iov demo_calls) (demo_stream [(3, 0)] [7, 8, 9]) = (Inr 3, s1)"
    by (simp add: on_sock_def sock_recv_iov_def transfer_def hooked_def bnd_def recvmsg_def do_io_def sys_def demo_hooks_def
      demo_stream_def isConnected_def to_int_def)
  then show ?thesis
    using read_into_buffer_throws [of "ByteArray_new 8 (\<lambda>_. 0)" 4 "demo_stream [(3, 0)] [7, 8, 9]" demo_calls 3 s1]
      ba_inv_new [of 8 "\<lambda>_. 0"]
    by (auto simp: ByteArray_new_def demo_stream_def stream_connected_def isConnected_def)
qed

end
