(* ===== verification/Stream_Output.thy ===== *)
theory Stream_Output
  imports Socket_Stream
begin

text \<open>
  The contract of a stream that is written to, what \<open>writeFixSize\<close> promises on such a stream, and the stream
  of a socket as one (\<open>src/src/stream.cpp\<close>, \<open>src/src/socket_stream.cpp\<close>).
\<close>

section \<open>The contract\<close>

text \<open>Writes that go on until everything has been taken, or until one of them returns 0.\<close>

inductive accepts :: "'s writer \<Rightarrow> byte list \<Rightarrow> 's \<Rightarrow> bool" for wr :: "'s writer" where
  acc_done: "accepts wr [] s"
| acc_end: "wr (Some data) s = (Inr 0, s') \<Longrightarrow> accepts wr data s"
| acc_more: "wr (Some data) s = (Inr r, s') \<Longrightarrow> 0 < r \<Longrightarrow> accepts wr (drop (nat r) data) s' \<Longrightarrow> accepts wr data s"

inductive_simps accepts_Nil: "accepts wr [] s"

locale output_stream =
  fixes wr :: "'s writer" and sent :: "'s \<Rightarrow> byte list"
  assumes appended: "wr (Some data) s = (Inr r, s') \<Longrightarrow> sent s' = sent s @ take (nat r) data"
    and bounded: "wr (Some data) s = (Inr r, s') \<Longrightarrow> r \<le> int (length data)"
begin

definition put :: "byte list \<Rightarrow> nat \<Rightarrow> 's \<Rightarrow> bool \<Rightarrow> 's \<Rightarrow> bool" where
  "put data k s r s' \<longleftrightarrow> k \<le> length data \<and> (r \<longleftrightarrow> k = length data) \<and> sent s' = sent s @ take k data"

lemma put_more:
  assumes "put (drop n data) k s1 r s'" "sent s1 = sent s @ take n data" "n \<le> length data"
  shows "put data (n + k) s r s'"
  using assms unfolding put_def by (auto simp: take_add)

lemma write_fix_spec:
  assumes "accepts wr data s" "length buf < 2 ^ 63" "off + length data = length buf" "data = drop off buf"
  shows "\<exists>r s' k. write_fix wr buf (of_nat off) (of_nat (length data)) s = Some (Inr r, s') \<and> put data k s r s'"
  using assms
proof (induction arbitrary: off rule: accepts.induct)
  case (acc_done s)
  show ?case by (intro exI [of _ True] exI [of _ s] exI [of _ 0]) (simp add: write_fix.simps put_def)
next
  case (acc_end data s s')
  show ?case
  proof (cases "data = []")
    case True
    then show ?thesis by (intro exI [of _ True] exI [of _ s] exI [of _ 0]) (simp add: write_fix.simps put_def)
  next
    case False
    have lim: "length data < 2 ^ 64" "off < 2 ^ 64" "0 < length data" using False acc_end.prems(1,2) by simp_all
    then have n: "unat (of_nat (length data) :: u64) = length data" "(of_nat (length data) :: u64) \<noteq> 0"
      "unat (of_nat off :: u64) = off"
      by (simp_all add: unat_of_nat word_unat_eq_iff)
    have part: "take (length data) (drop off buf) = data" using acc_end.prems by simp
    have "write_fix wr buf (of_nat off) (of_nat (length data)) s = Some (Inr False, s')"
      using acc_end.hyps acc_end.prems n part by (subst write_fix.simps) (simp add: Let_def)
    moreover have "sent s' = sent s" using appended [OF acc_end.hyps] by simp
    ultimately show ?thesis using False by (intro exI [of _ False] exI [of _ s'] exI [of _ 0]) (simp add: put_def)
  qed
next
  case (acc_more data s r s1)
  let ?k = "nat r"
  have k: "?k \<le> length data" "0 < ?k" using bounded [OF acc_more.hyps(1)] acc_more.hyps(2) by auto
  have pos: "0 < length data" using less_le_trans [OF k(2,1)] .
  have lim: "length data < 2 ^ 64" "off < 2 ^ 64" "0 < length data" "?k < 2 ^ 64" using k pos acc_more.prems(1,2) by simp_all
  have r: "(word_of_int r :: u64) = of_nat ?k" using acc_more.hyps(2) by (metis int_nat_eq less_le of_int_of_nat_eq)
  have "(of_nat m :: u64) \<noteq> 0" if "0 < m" "m < 2 ^ 64" for m using that by (simp add: unat_of_nat word_unat_eq_iff)
  from this [OF k(2) lim(4)] this [OF lim(3,1)]
  have n: "unat (of_nat (length data) :: u64) = length data" "(of_nat (length data) :: u64) \<noteq> 0"
    "unat (of_nat off :: u64) = off" "(of_nat ?k :: u64) \<noteq> 0"
    using lim(1,2) by (simp_all add: unat_of_nat)
  have sums: "(of_nat (length data) :: u64) - of_nat ?k = of_nat (length (drop ?k data))"
    "(of_nat off :: u64) + of_nat ?k = of_nat (off + ?k)"
    using k(1) by (simp_all add: of_nat_diff)
  have part: "take (length data) (drop off buf) = data" using acc_more.prems by simp
  have step: "write_fix wr buf (of_nat off) (of_nat (length data)) s
      = write_fix wr buf (of_nat (off + ?k)) (of_nat (length (drop ?k data))) s1"
    using acc_more.hyps(1) acc_more.prems n r part unfolding sums(1) [symmetric] sums(2) [symmetric]
    by (subst write_fix.simps) (simp add: Let_def)
  have "off + ?k + length (drop ?k data) = length buf" "drop ?k data = drop (off + ?k) buf"
    using acc_more.prems k(1) by (simp_all add: add.commute)
  from acc_more.IH [OF acc_more.prems(1) this] obtain res s' k' where
    "write_fix wr buf (of_nat (off + ?k)) (of_nat (length (drop ?k data))) s1 = Some (Inr res, s')"
    "put (drop ?k data) k' s1 res s'" by blast
  then show ?case using put_more [OF _ appended [OF acc_more.hyps(1)] k(1)] unfolding step by blast
qed

end

section \<open>The stream of a socket\<close>

lemma on_sock_ss_out: "on_sock m s = (x, s') \<Longrightarrow> ss_out s' = ss_out s"
  by (auto simp: on_sock_def split: option.splits prod.splits)

lemma stream_write_spec:
  assumes "stream_write c (Some data) s = (Inr r, s')"
  shows "ss_out s' = ss_out s @ take (nat r) data" "r \<le> int (length data)"
proof -
  consider "r = -1" "s' = s" | r0 s1 where "on_sock (sock_send c) s = (Inr r0, s1)" "put_out data r0 s1 = (Inr r, s')"
    using assms by (auto simp: stream_write_def run_back split: if_splits)
  then have "ss_out s' = ss_out s @ take (nat r) data \<and> r \<le> int (length data)"
  proof cases
    case 2
    then show ?thesis using on_sock_ss_out [OF 2(1)] by (auto simp: put_out_def offered_def Let_def)
  qed simp
  then show "ss_out s' = ss_out s @ take (nat r) data" "r \<le> int (length data)" by auto
qed

interpretation socket_output: output_stream "stream_write c" ss_out for c
  by unfold_locales (use stream_write_spec in blast)+

text \<open>Writing a fixed size to the stream of a socket, while it keeps accepting, sends the bytes of the
  buffer in order and returns the size; when a write returns 0 before that, so does the call, and a part of
  the front of the buffer has been sent.\<close>

lemma writeFixSize_sends:
  assumes "accepts (stream_write c) buf s" "length buf < 2 ^ 31"
  shows "\<exists>k s'. writeFixSize (stream_write c) buf (length buf) s = Some (Inr (if k = length buf then int k else 0), s')
    \<and> k \<le> length buf \<and> ss_out s' = ss_out s @ take k buf"
proof -
  obtain r s' k where "write_fix (stream_write c) buf (of_nat 0) (of_nat (length buf)) s = Some (Inr r, s')"
    "socket_output.put buf k s r s'"
    using socket_output.write_fix_spec [OF assms(1), of buf 0] assms(2) by auto
  moreover have "to_int (int (length buf)) = int (length buf)" using assms(2) by (intro to_int_small) simp_all
  ultimately show ?thesis unfolding socket_output.put_def
    by (intro exI [of _ k] exI [of _ s']) (auto simp: writeFixSize_def fix_result_def)
qed

lemma demo_write:
  "stream_write c (Some data) (demo_stream ((r, e) # rs) sent)
    = put_out data (to_int r) ((demo_stream rs sent)\<lparr>ss_hooks := (demo_hooks rs)\<lparr>t_hook_enable := False,
        h_calls := [Sys_io ''send'' 5], h_errno := (if r = -1 then e else 0)\<rparr>\<rparr>)"
  by (simp add: stream_write_def demo_stream_def stream_connected_def isConnected_def on_sock_def sock_send_def transfer_def
    hooked_def bnd_def send_def do_io_def sys_def demo_hooks_def)

end
