(* ===== verification/Std_Map.thy ===== *)
theory Std_Map
  imports Ordered_Set "HOL-Library.List_Lexorder" "HOL-Library.Char_ord"
begin

text \<open>
  \<open>std::map\<close> with a comparator, as the list of its entries in iteration order. What the operations
  promise holds for a comparator that is a strict weak order, the contract \<open>comparator\<close>; it is met by
  \<open>operator<\<close> of the standard library on strings and on integers.
\<close>

section \<open>The operations\<close>

fun map_find :: "('k \<Rightarrow> 'k \<Rightarrow> bool) \<Rightarrow> 'k \<Rightarrow> ('k \<times> 'v) list \<Rightarrow> 'v option" where
  "map_find lt k [] = None"
| "map_find lt k ((k', v) # m) = (if lt k' k then map_find lt k m else if lt k k' then None else Some v)"

text \<open>\<open>m[k] = v\<close>, which keeps the key that is there.\<close>

fun map_put :: "('k \<Rightarrow> 'k \<Rightarrow> bool) \<Rightarrow> 'k \<Rightarrow> 'v \<Rightarrow> ('k \<times> 'v) list \<Rightarrow> ('k \<times> 'v) list" where
  "map_put lt k v [] = [(k, v)]"
| "map_put lt k v ((k', v') # m) =
     (if lt k' k then (k', v') # map_put lt k v m else if lt k k' then (k, v) # (k', v') # m else (k', v) # m)"

fun map_erase :: "('k \<Rightarrow> 'k \<Rightarrow> bool) \<Rightarrow> 'k \<Rightarrow> ('k \<times> 'v) list \<Rightarrow> ('k \<times> 'v) list" where
  "map_erase lt k [] = []"
| "map_erase lt k ((k', v') # m) =
     (if lt k' k then (k', v') # map_erase lt k m else if lt k k' then (k', v') # m else m)"

definition map_sorted :: "('k \<Rightarrow> 'k \<Rightarrow> bool) \<Rightarrow> ('k \<times> 'v) list \<Rightarrow> bool" where
  "map_sorted lt m \<longleftrightarrow> sorted_wrt lt (map fst m)"

lemma map_sorted_Nil [simp]: "map_sorted lt []"
  by (simp add: map_sorted_def)

lemma map_sorted_Cons: "map_sorted lt (p # m) \<longleftrightarrow> (\<forall>k \<in> set (map fst m). lt (fst p) k) \<and> map_sorted lt m"
  by (simp add: map_sorted_def)

lemma keys_put: "k' \<in> set (map fst (map_put lt k v m)) \<Longrightarrow> k' = k \<or> k' \<in> set (map fst m)"
proof (induction m)
  case (Cons p m)
  obtain j w where "p = (j, w)" by force
  then show ?case using Cons by (simp only: map_put.simps map_erase.simps split: if_splits) auto
qed simp

lemma keys_erase: "k' \<in> set (map fst (map_erase lt k m)) \<Longrightarrow> k' \<in> set (map fst m)"
proof (induction m)
  case (Cons p m)
  obtain j w where "p = (j, w)" by force
  then show ?case using Cons by (simp only: map_put.simps map_erase.simps split: if_splits) auto
qed simp

section \<open>What they promise\<close>

context comparator
begin

lemma map_sorted_put: "map_sorted lt m \<Longrightarrow> map_sorted lt (map_put lt k v m)"
proof (induction m)
  case (Cons p m)
  obtain k' v' where p [simp]: "p = (k', v')" by force
  have "\<forall>x \<in> set (map fst (map_put lt k v m)). lt k' x" if "lt k' k"
    using Cons.prems keys_put [of _ lt k v m] that by (metis map_sorted_Cons fst_conv p)
  then show ?case using Cons trans [of k k'] by (auto simp: map_sorted_Cons)
qed (simp add: map_sorted_Cons)

lemma map_sorted_erase: "map_sorted lt m \<Longrightarrow> map_sorted lt (map_erase lt k m)"
proof (induction m)
  case (Cons p m)
  obtain k' v' where p [simp]: "p = (k', v')" by force
  have "\<forall>x \<in> set (map fst (map_erase lt k m)). lt k' x"
    using Cons.prems keys_erase [of _ lt k m] by (metis map_sorted_Cons fst_conv p)
  then show ?case using Cons by (auto simp: map_sorted_Cons)
qed simp

lemma map_find_put_same: "equiv k k' \<Longrightarrow> map_find lt k' (map_put lt k v m) = Some v"
proof (induction m)
  case (Cons p m)
  obtain j w where p [simp]: "p = (j, w)" by force
  consider "lt j k" | "lt k j" | "equiv k j" by blast
  then show ?case
  proof cases
    case 1
    then have "lt j k'" using Cons.prems lt_equiv [of j k k'] by blast
    then show ?thesis using 1 Cons by simp
  next
    case 3
    then have "equiv k' j" using Cons.prems incomparable_trans [of k' k j] by blast
    then show ?thesis using 3 by simp
  qed (use Cons.prems asym [of k j] in auto)
qed simp

lemma map_find_put_other:
  "\<not> equiv k k' \<Longrightarrow> map_sorted lt m \<Longrightarrow> map_find lt k' (map_put lt k v m) = map_find lt k' m"
proof (induction m)
  case Nil
  then show ?case by auto
next
  case (Cons p m)
  obtain j w where p [simp]: "p = (j, w)" by force
  have IH: "map_find lt k' (map_put lt k v m) = map_find lt k' m" using Cons by (simp add: map_sorted_Cons)
  consider "lt j k" | "\<not> lt j k" "lt k j" | "equiv k j" by blast
  then show ?case
  proof cases
    case 2
    consider "lt k k'" | "\<not> lt k k'" "lt k' k" using Cons.prems(1) by blast
    then show ?thesis
    proof cases
      case 2
      then have "lt k' j" using \<open>lt k j\<close> trans by blast
      then show ?thesis using 2 \<open>\<not> lt j k\<close> \<open>lt k j\<close> asym [of k' j] by simp
    qed (use 2 in simp)
  next
    case 3
    then have "\<not> equiv j k'" using Cons.prems(1) incomparable_trans [of k j k'] by blast
    then show ?thesis using 3 by auto
  qed (use IH in simp)
qed

lemma map_find_absent: "map_sorted lt m \<Longrightarrow> (\<And>k'. k' \<in> set (map fst m) \<Longrightarrow> lt k k') \<Longrightarrow> map_find lt k m = None"
proof (cases m)
  case (Cons p m')
  assume "\<And>k'. k' \<in> set (map fst m) \<Longrightarrow> lt k k'"
  then have "lt k (fst p)" using Cons by simp
  then show ?thesis using Cons asym [of k "fst p"] by (cases p) simp
qed simp

lemma map_find_erase_same: "map_sorted lt m \<Longrightarrow> map_find lt k (map_erase lt k m) = None"
proof (induction m)
  case (Cons p m)
  obtain j w where p [simp]: "p = (j, w)" by force
  consider "lt j k" | "\<not> lt j k" "lt k j" | "equiv k j" by blast
  then show ?case
  proof cases
    case 3
    have "map_find lt k m = None"
      using Cons.prems 3 equiv_lt [of k j] by (intro map_find_absent) (auto simp: map_sorted_Cons)
    then show ?thesis using 3 by simp
  qed (use Cons in \<open>auto simp: map_sorted_Cons\<close>)
qed simp

lemma map_find_erase_other:
  "\<not> equiv k k' \<Longrightarrow> map_sorted lt m \<Longrightarrow> map_find lt k' (map_erase lt k m) = map_find lt k' m"
proof (induction m)
  case (Cons p m)
  obtain j w where p [simp]: "p = (j, w)" by force
  have IH: "map_find lt k' (map_erase lt k m) = map_find lt k' m" using Cons by (simp add: map_sorted_Cons)
  consider "lt j k" | "\<not> lt j k" "lt k j" | "equiv k j" by blast
  then show ?case
  proof cases
    case 3
    then have "\<not> equiv j k'" using Cons.prems(1) incomparable_trans [of k j k'] by blast
    then consider "lt j k'" | "\<not> lt j k'" "lt k' j" by blast
    then show ?thesis
    proof cases
      case 2
      then have "map_find lt k' m = None"
        using Cons.prems(2) trans [of k' j] by (intro map_find_absent) (auto simp: map_sorted_Cons)
      then show ?thesis using 2 3 by simp
    qed (use 3 in simp)
  qed (use IH in simp_all)
qed simp

end

interpretation std_less: comparator "(<) :: 'a::linorder \<Rightarrow> 'a \<Rightarrow> bool"
  by unfold_locales auto

abbreviation find_in :: "'k::linorder \<Rightarrow> ('k \<times> 'v) list \<Rightarrow> 'v option" where "find_in \<equiv> map_find (<)"
abbreviation put_in :: "'k::linorder \<Rightarrow> 'v \<Rightarrow> ('k \<times> 'v) list \<Rightarrow> ('k \<times> 'v) list" where "put_in \<equiv> map_put (<)"
abbreviation erase_from :: "'k::linorder \<Rightarrow> ('k \<times> 'v) list \<Rightarrow> ('k \<times> 'v) list" where "erase_from \<equiv> map_erase (<)"

lemma find_put: "map_sorted (<) m \<Longrightarrow> find_in k' (put_in k v m) = (if k' = k then Some v else find_in k' m)"
proof (cases "k' = k")
  case False
  then have "\<not> std_less.equiv k k'" by auto
  then show "map_sorted (<) m \<Longrightarrow> ?thesis" using False std_less.map_find_put_other [of k k' m v] by simp
qed (simp add: std_less.map_find_put_same)

lemma find_erase: "map_sorted (<) m \<Longrightarrow> find_in k' (erase_from k m) = (if k' = k then None else find_in k' m)"
proof (cases "k' = k")
  case False
  then have "\<not> std_less.equiv k k'" by auto
  then show "map_sorted (<) m \<Longrightarrow> ?thesis" using False std_less.map_find_erase_other [of k k' m] by simp
qed (simp add: std_less.map_find_erase_same)

lemma find_entry: "map_sorted (<) m \<Longrightarrow> find_in k m = Some v \<longleftrightarrow> (k, v) \<in> set m"
proof (induction m)
  case (Cons p m)
  then show ?case by (cases p) (auto simp: map_sorted_Cons)
qed simp

end
