(* ===== verification/Http.thy ===== *)
theory Http
  imports Std_Map Text_Format
begin

text \<open>
  \<open>src/src/http/http.h\<close> and \<open>src/src/http/http.cpp\<close>: the tables of methods and status codes, the objects of
  a request and of a response, and their texts. A status is the \<open>int\<close> of the enumeration, which the code
  also makes from numbers that are no enumerator.

  The header fields, parameters and cookies are kept in a \<open>std::map\<close> ordered by \<open>CaseInsensitiveLess\<close>. This
  is not an order (\<open>no_order_of_fields\<close>), so that what the operations of the map do is left open by the
  standard: the map, of type \<open>'m\<close>, and its operations are a parameter of the model. The conversions of
  \<open>boost::lexical_cast\<close> are a parameter as well; \<open>None\<close> stands for the exception.
\<close>

section \<open>Methods and status codes\<close>

datatype http_method =
    DELETE | GET | HEAD | POST | PUT | CONNECT | OPTIONS | TRACE | COPY | LOCK | MKCOL | MOVE |
    PROPFIND | PROPPATCH | SEARCH | UNLOCK | BIND | REBIND | UNBIND | ACL | REPORT | MKACTIVITY |
    CHECKOUT | MERGE | MSEARCH | NOTIFY | SUBSCRIBE | UNSUBSCRIBE | PATCH | PURGE | MKCALENDAR | LINK |
    UNLINK | SOURCE | INVALID_METHOD

definition HTTP_METHOD_MAP :: "(nat \<times> http_method \<times> string) list" where
  "HTTP_METHOD_MAP =
    [(0, DELETE, ''DELETE''), (1, GET, ''GET''), (2, HEAD, ''HEAD''), (3, POST, ''POST''),
     (4, PUT, ''PUT''), (5, CONNECT, ''CONNECT''), (6, OPTIONS, ''OPTIONS''), (7, TRACE, ''TRACE''),
     (8, COPY, ''COPY''), (9, LOCK, ''LOCK''), (10, MKCOL, ''MKCOL''), (11, MOVE, ''MOVE''),
     (12, PROPFIND, ''PROPFIND''), (13, PROPPATCH, ''PROPPATCH''), (14, SEARCH, ''SEARCH''),
     (15, UNLOCK, ''UNLOCK''), (16, BIND, ''BIND''), (17, REBIND, ''REBIND''), (18, UNBIND, ''UNBIND''),
     (19, ACL, ''ACL''), (20, REPORT, ''REPORT''), (21, MKACTIVITY, ''MKACTIVITY''),
     (22, CHECKOUT, ''CHECKOUT''), (23, MERGE, ''MERGE''), (24, MSEARCH, ''M-SEARCH''),
     (25, NOTIFY, ''NOTIFY''), (26, SUBSCRIBE, ''SUBSCRIBE''), (27, UNSUBSCRIBE, ''UNSUBSCRIBE''),
     (28, PATCH, ''PATCH''), (29, PURGE, ''PURGE''), (30, MKCALENDAR, ''MKCALENDAR''),
     (31, LINK, ''LINK''), (32, UNLINK, ''UNLINK''), (33, SOURCE, ''SOURCE'')]"

definition HTTP_STATUS_MAP :: "(int \<times> string) list" where
  "HTTP_STATUS_MAP =
    [(100, ''Continue''), (101, ''Switching Protocols''), (102, ''Processing''), (200, ''OK''),
     (201, ''Created''), (202, ''Accepted''), (203, ''Non-Authoritative Information''),
     (204, ''No Content''), (205, ''Reset Content''), (206, ''Partial Content''),
     (207, ''Multi-Status''), (208, ''Already Reported''), (226, ''IM Used''),
     (300, ''Multiple Choices''), (301, ''Moved Permanently''), (302, ''Found''), (303, ''See Other''),
     (304, ''Not Modified''), (305, ''Use Proxy''), (307, ''Temporary Redirect''),
     (308, ''Permanent Redirect''), (400, ''Bad Request''), (401, ''Unauthorized''),
     (402, ''Payment Required''), (403, ''Forbidden''), (404, ''Not Found''),
     (405, ''Method Not Allowed''), (406, ''Not Acceptable''), (407, ''Proxy Authentication Required''),
     (408, ''Request Timeout''), (409, ''Conflict''), (410, ''Gone''), (411, ''Length Required''),
     (412, ''Precondition Failed''), (413, ''Payload Too Large''), (414, ''URI Too Long''),
     (415, ''Unsupported Media Type''), (416, ''Range Not Satisfiable''), (417, ''Expectation Failed''),
     (421, ''Misdirected Request''), (422, ''Unprocessable Entity''), (423, ''Locked''),
     (424, ''Failed Dependency''), (426, ''Upgrade Required''), (428, ''Precondition Required''),
     (429, ''Too Many Requests''), (431, ''Request Header Fields Too Large''),
     (451, ''Unavailable For Legal Reasons''), (500, ''Internal Server Error''),
     (501, ''Not Implemented''), (502, ''Bad Gateway''), (503, ''Service Unavailable''),
     (504, ''Gateway Timeout''), (505, ''HTTP Version Not Supported''),
     (506, ''Variant Also Negotiates''), (507, ''Insufficient Storage''), (508, ''Loop Detected''),
     (510, ''Not Extended''), (511, ''Network Authentication Required'')]"

fun StringToHttpMethod_in :: "(nat \<times> http_method \<times> string) list \<Rightarrow> string \<Rightarrow> http_method" where
  "StringToHttpMethod_in [] m = INVALID_METHOD"
| "StringToHttpMethod_in ((n, name, str) # table) m = (if str = c_str m then name else StringToHttpMethod_in table m)"

definition StringToHttpMethod :: "string \<Rightarrow> http_method" where
  "StringToHttpMethod m = StringToHttpMethod_in HTTP_METHOD_MAP m"

text \<open>\<open>strncmp\<close> on the length of the table's string.\<close>

fun CharsToHttpMethod_in :: "(nat \<times> http_method \<times> string) list \<Rightarrow> string \<Rightarrow> http_method" where
  "CharsToHttpMethod_in [] m = INVALID_METHOD"
| "CharsToHttpMethod_in ((n, name, str) # table) m =
     (if take (length str) (c_str m) = str then name else CharsToHttpMethod_in table m)"

definition CharsToHttpMethod :: "string \<Rightarrow> http_method" where
  "CharsToHttpMethod m = CharsToHttpMethod_in HTTP_METHOD_MAP m"

text \<open>The number of an enumerator; \<open>INVALID_METHOD\<close> follows the last one.\<close>

definition method_index :: "http_method \<Rightarrow> nat" where
  "method_index m =
     (case find (\<lambda>(n, name, str). name = m) HTTP_METHOD_MAP of
        Some (n, _) \<Rightarrow> n
      | None \<Rightarrow> 34)"

definition s_method_string :: "string list" where
  "s_method_string = map (\<lambda>(n, name, str). str) HTTP_METHOD_MAP"

definition HttpMethodToString :: "http_method \<Rightarrow> fault + string" where
  "HttpMethodToString m =
     (let idx = method_index m in
      if idx > length s_method_string then Inr ''<unknown>''
      else if idx < length s_method_string then Inr (s_method_string ! idx)
      else Inl Bad_Index)"

definition HttpStatusToString :: "int \<Rightarrow> string" where
  "HttpStatusToString s = (case map_of HTTP_STATUS_MAP s of Some msg \<Rightarrow> msg | None \<Rightarrow> ''<unknown>'')"

definition HttpStatus_OK :: int where "HttpStatus_OK = 200"
definition HttpStatus_NOT_FOUND :: int where "HttpStatus_NOT_FOUND = 404"

section \<open>The comparator\<close>

fun compare_chars :: "string \<Rightarrow> string \<Rightarrow> int" where
  "compare_chars [] [] = 0"
| "compare_chars [] (b # bs) = - of_char b"
| "compare_chars (a # as) [] = of_char a"
| "compare_chars (a # as) (b # bs) = (if a = b then compare_chars as bs else of_char a - of_char b)"

definition strcasecmp :: "string \<Rightarrow> string \<Rightarrow> int" where
  "strcasecmp a b = compare_chars (map tolower (c_str a)) (map tolower (c_str b))"

definition CaseInsensitiveLess :: "string \<Rightarrow> string \<Rightarrow> bool" where
  "CaseInsensitiveLess lhs rhs \<longleftrightarrow> strcasecmp lhs rhs \<noteq> 0"

section \<open>Maps and conversions\<close>

record 'm map_ops =
  mo_empty :: 'm
  mo_find :: "string \<Rightarrow> 'm \<Rightarrow> string option"
  mo_put :: "string \<Rightarrow> string \<Rightarrow> 'm \<Rightarrow> 'm"
  mo_erase :: "string \<Rightarrow> 'm \<Rightarrow> 'm"
  mo_entries :: "'m \<Rightarrow> (string \<times> string) list"

text \<open>The result and the value stored through the reference.\<close>

definition checkGetAs :: "'m map_ops \<Rightarrow> (string \<Rightarrow> 'a option) \<Rightarrow> 'm \<Rightarrow> string \<Rightarrow> 'a \<Rightarrow> bool \<times> 'a" where
  "checkGetAs mo cast m key def =
     (case mo_find mo key m of
        None \<Rightarrow> (False, def)
      | Some s \<Rightarrow> (False, case cast s of Some v \<Rightarrow> v | None \<Rightarrow> def))"

definition getAs :: "'m map_ops \<Rightarrow> (string \<Rightarrow> 'a option) \<Rightarrow> 'm \<Rightarrow> string \<Rightarrow> 'a \<Rightarrow> 'a" where
  "getAs mo cast m key def =
     (case mo_find mo key m of
        None \<Rightarrow> def
      | Some s \<Rightarrow> (case cast s of Some v \<Rightarrow> v | None \<Rightarrow> def))"

definition get_text :: "'m map_ops \<Rightarrow> 'm \<Rightarrow> string \<Rightarrow> string \<Rightarrow> string" where
  "get_text mo m key def = (case mo_find mo key m of None \<Rightarrow> def | Some s \<Rightarrow> s)"

text \<open>\<open>val\<close> is what the pointer points to, if there is one.\<close>

definition has_text :: "'m map_ops \<Rightarrow> 'm \<Rightarrow> string \<Rightarrow> string option \<Rightarrow> bool \<times> string option" where
  "has_text mo m key val =
     (case mo_find mo key m of
        None \<Rightarrow> (False, val)
      | Some s \<Rightarrow> (True, map_option (\<lambda>_. s) val))"

section \<open>Requests\<close>

text \<open>The constructor leaves the status as it is in memory.\<close>

record 'm http_request =
  rq_method :: http_method
  rq_status :: "int option"
  rq_version :: byte
  rq_close :: bool
  rq_path :: string
  rq_query :: string
  rq_fragment :: string
  rq_body :: string
  rq_headers :: 'm
  rq_params :: 'm
  rq_cookies :: 'm

definition HttpRequest_new :: "'m map_ops \<Rightarrow> byte \<Rightarrow> bool \<Rightarrow> 'm http_request" where
  "HttpRequest_new mo version close =
     \<lparr>rq_method = GET, rq_status = None, rq_version = version, rq_close = close, rq_path = ''/'', rq_query = [],
      rq_fragment = [], rq_body = [], rq_headers = mo_empty mo, rq_params = mo_empty mo, rq_cookies = mo_empty mo\<rparr>"

definition getHeader where "getHeader mo key def r = get_text mo (rq_headers r) key def"
definition getParam where "getParam mo key def r = get_text mo (rq_params r) key def"
definition getCookie where "getCookie mo key def r = get_text mo (rq_cookies r) key def"

definition setHeader where "setHeader mo key val r = r\<lparr>rq_headers := mo_put mo key val (rq_headers r)\<rparr>"
definition setParam where "setParam mo key val r = r\<lparr>rq_params := mo_put mo key val (rq_params r)\<rparr>"
definition setCookie where "setCookie mo key val r = r\<lparr>rq_cookies := mo_put mo key val (rq_cookies r)\<rparr>"

definition delHeader where "delHeader mo key r = r\<lparr>rq_headers := mo_erase mo key (rq_headers r)\<rparr>"
definition delParam where "delParam mo key r = r\<lparr>rq_params := mo_erase mo key (rq_params r)\<rparr>"
definition delCookie where "delCookie mo key r = r\<lparr>rq_cookies := mo_erase mo key (rq_cookies r)\<rparr>"

definition hasHeader where "hasHeader mo key val r = has_text mo (rq_headers r) key val"
definition hasParam where "hasParam mo key val r = has_text mo (rq_params r) key val"
definition hasCookie where "hasCookie mo key val r = has_text mo (rq_cookies r) key val"

text \<open>The typed accessors; those declared to return \<open>bool\<close> convert the value, with \<open>truth\<close>.\<close>

definition getHeaderAs where "getHeaderAs mo cast key def r = getAs mo cast (rq_headers r) key def"
definition checkGetHeaderAs where "checkGetHeaderAs mo cast key def r = checkGetAs mo cast (rq_headers r) key def"
definition getParamAs where "getParamAs mo cast truth key def r = (truth (getAs mo cast (rq_headers r) key def) :: bool)"
definition checkGetParamAs where "checkGetParamAs mo cast key def r = checkGetAs mo cast (rq_params r) key def"
definition getParamsAs where "getParamsAs mo cast truth key def r = (truth (getAs mo cast (rq_params r) key def) :: bool)"
definition checkGetCookieAs where "checkGetCookieAs mo cast key def r = checkGetAs mo cast (rq_cookies r) key def"
definition getCookieAs where "getCookieAs mo cast truth key def r = (truth (getAs mo cast (rq_cookies r) key def) :: bool)"

section \<open>Responses\<close>

record 'm http_response =
  rs_status :: int
  rs_version :: byte
  rs_close :: bool
  rs_body :: string
  rs_reason :: string
  rs_headers :: 'm

definition HttpResponse_new :: "'m map_ops \<Rightarrow> byte \<Rightarrow> bool \<Rightarrow> 'm http_response" where
  "HttpResponse_new mo version close =
     \<lparr>rs_status = HttpStatus_OK, rs_version = version, rs_close = close, rs_body = [], rs_reason = [],
      rs_headers = mo_empty mo\<rparr>"

definition rsp_getHeader where "rsp_getHeader mo key def r = get_text mo (rs_headers r) key def"
definition rsp_setHeader where "rsp_setHeader mo key val r = r\<lparr>rs_headers := mo_put mo key val (rs_headers r)\<rparr>"
definition rsp_delHeader where "rsp_delHeader mo key r = r\<lparr>rs_headers := mo_erase mo key (rs_headers r)\<rparr>"
definition rsp_checkGetHeaderAs where "rsp_checkGetHeaderAs mo cast key def r = checkGetAs mo cast (rs_headers r) key def"
definition rsp_getHeaderAs where
  "rsp_getHeaderAs mo cast truth key def r = (truth (getAs mo cast (rs_headers r) key def) :: bool)"

section \<open>Texts\<close>

definition crlf :: string where "crlf = [CHR 0x0D, CHR 0x0A]"

definition version_text :: "byte \<Rightarrow> string" where
  "version_text v = ''HTTP/'' @ dec (unat (drop_bit 4 v)) @ ''.'' @ dec (unat (v AND 0x0F))"

fun header_lines :: "string \<Rightarrow> (string \<times> string) list \<Rightarrow> string" where
  "header_lines sep [] = []"
| "header_lines sep ((key, val) # hs) =
     (if strcasecmp key ''connection'' = 0 then [] else key @ sep @ val @ crlf) @ header_lines sep hs"

definition connection_line :: "string \<Rightarrow> bool \<Rightarrow> string" where
  "connection_line sep close = ''connection'' @ sep @ (if close then ''close'' else ''keep-alive'') @ crlf"

definition body_text :: "string \<Rightarrow> string \<Rightarrow> string" where
  "body_text blank body =
     (if body \<noteq> [] then ''content-length: '' @ dec (length body) @ crlf @ crlf @ body else blank)"

definition request_target :: "'m http_request \<Rightarrow> string" where
  "request_target r = rq_path r @ (if rq_query r = [] then [] else ''?'') @ rq_query r
     @ (if rq_fragment r = [] then [] else ''#'') @ rq_fragment r"

definition request_dump :: "'m map_ops \<Rightarrow> 'm http_request \<Rightarrow> fault + string" where
  "request_dump mo r =
     map_sum id (\<lambda>name. name @ '' '' @ request_target r @ '' '' @ version_text (rq_version r) @ crlf
       @ header_lines '':'' (mo_entries mo (rq_headers r)) @ connection_line '':'' (rq_close r)
       @ body_text (crlf @ crlf) (rq_body r)) (HttpMethodToString (rq_method r))"

definition status_text :: "'m http_response \<Rightarrow> string" where
  "status_text r = (if rs_reason r = [] then HttpStatusToString (rs_status r) else rs_reason r)"

definition response_dump :: "'m map_ops \<Rightarrow> 'm http_response \<Rightarrow> string" where
  "response_dump mo r =
     version_text (rs_version r) @ '' '' @ dec (unat (word_of_int (rs_status r) :: u32)) @ '' '' @ status_text r @ crlf
     @ header_lines '': '' (mo_entries mo (rs_headers r)) @ connection_line '': '' (rs_close r)
     @ body_text crlf (rs_body r)"

section \<open>Facts\<close>

lemma method_table:
  "\<forall>(n, m, s) \<in> set HTTP_METHOD_MAP. method_index m = n \<and> s_method_string ! n = s \<and> n < 34
     \<and> StringToHttpMethod s = m \<and> m \<noteq> INVALID_METHOD"
  by code_simp

lemma method_listed: "m \<noteq> INVALID_METHOD \<Longrightarrow> \<exists>n s. (n, m, s) \<in> set HTTP_METHOD_MAP"
  by (cases m) (simp_all add: HTTP_METHOD_MAP_def)

lemma length_method_string: "length s_method_string = 34"
  by code_simp

lemma no_prefixes:
  "\<forall>(n, m, s) \<in> set HTTP_METHOD_MAP. CHR 0x00 \<notin> set s \<and>
     (\<forall>(n', m', s') \<in> set HTTP_METHOD_MAP. take (length s') s = s' \<longrightarrow> m' = m)"
  by code_simp

text \<open>The comparator the map was meant to have is an order.\<close>

lemma of_char_pos: "c \<noteq> CHR 0x00 \<Longrightarrow> (0 :: int) < of_char c"
  using of_char_eq_iff [of c "CHR 0x00", where 'a = int] by (simp add: of_char_def less_le)

lemma of_char_less: "(of_char a :: int) < of_char b \<longleftrightarrow> a < b"
  by (metis less_char_def of_nat_of_char of_nat_less_iff)

lemma compare_chars_order:
  "CHR 0x00 \<notin> set a \<Longrightarrow> CHR 0x00 \<notin> set b \<Longrightarrow> compare_chars a b < 0 \<longleftrightarrow> a < b"
  "CHR 0x00 \<notin> set a \<Longrightarrow> CHR 0x00 \<notin> set b \<Longrightarrow> compare_chars a b = 0 \<longleftrightarrow> a = b"
proof (induction a b rule: compare_chars.induct)
  case (2 b bs)
  { case 1 then have "b \<noteq> CHR 0x00" by force
    from of_char_pos [OF this] show ?case by simp next
    case 2 then have "b \<noteq> CHR 0x00" by force
    from of_char_pos [OF this] show ?case by simp }
next
  case (3 a as)
  { case 1 then have "a \<noteq> CHR 0x00" by force
    from of_char_pos [OF this] show ?case by simp next
    case 2 then have "a \<noteq> CHR 0x00" by force
    from of_char_pos [OF this] show ?case by simp }
next
  case (4 a as b bs)
  { case 1 then show ?case using "4.IH"(1) of_char_less [of a b] by auto next
    case 2 then show ?case using "4.IH"(2) by auto }
qed simp_all

definition folded :: "string \<Rightarrow> string" where
  "folded s = map tolower (c_str s)"

lemma tolower_not_null: "c \<noteq> CHR 0x00 \<Longrightarrow> tolower c \<noteq> CHR 0x00"
proof (cases "CHR ''A'' \<le> c \<and> c \<le> CHR ''Z''")
  case True
  have "of_char c \<le> (of_char (CHR ''Z'') :: nat)" using True by (simp add: less_eq_char_def)
  then have "of_char c \<le> (90 :: nat)" by simp
  then have "of_char (tolower c) = (of_char c + 32 :: nat)" using True by (simp add: tolower_def)
  then have "of_char (tolower c) \<noteq> (of_char (CHR 0x00) :: nat)" by simp
  then show ?thesis by metis
qed (auto simp: tolower_def)

lemma folded_not_null: "CHR 0x00 \<notin> set (folded s)"
proof
  assume "CHR 0x00 \<in> set (folded s)"
  then obtain c where "c \<in> set (c_str s)" "tolower c = CHR 0x00" by (auto simp: folded_def)
  then show False using tolower_not_null [of c] set_takeWhileD by (fastforce simp: c_str_def before_char_def)
qed

lemma strcasecmp_folded:
  "strcasecmp a b < 0 \<longleftrightarrow> folded a < folded b" "strcasecmp a b = 0 \<longleftrightarrow> folded a = folded b"
  by (simp_all add: strcasecmp_def folded_not_null compare_chars_order flip: folded_def)

interpretation by_case: comparator "\<lambda>a b. strcasecmp a b < 0"
  by unfold_locales (auto simp: strcasecmp_folded)

section \<open>The first blank line\<close>

text \<open>How a receiver takes a message apart: at the first empty line.\<close>

fun split_blank :: "string \<Rightarrow> (string \<times> string) option" where
  "split_blank [] = None"
| "split_blank (c # s) =
     (if take 4 (c # s) = crlf @ crlf then Some ([], drop 4 (c # s)) else map_option (apfst (Cons c)) (split_blank s))"

lemma split_blank_plain: "CHR 0x0D \<notin> set l \<Longrightarrow> split_blank (l @ s) = map_option (apfst (append l)) (split_blank s)"
proof (induction l)
  case Nil
  then show ?case by (cases "split_blank s") auto
next
  case (Cons c l)
  then show ?case by (cases "split_blank s") (auto simp: crlf_def)
qed

lemma split_blank_end: "split_blank (crlf @ crlf @ s) = Some ([], s)"
  by (simp add: crlf_def)

lemma split_blank_line:
  assumes "l \<noteq> []" "CHR 0x0D \<notin> set l"
  shows "split_blank (crlf @ l @ s) = map_option (apfst (append crlf)) (split_blank (l @ s))"
proof -
  obtain c l' where l: "l = c # l'" using assms(1) by (cases l) auto
  then have "c \<noteq> CHR 0x0D" using assms(2) by force
  then show ?thesis unfolding l crlf_def
    by (cases "split_blank (l' @ s)") (auto simp: crlf_def eval_nat_numeral)
qed

text \<open>Lines without carriage return, each ended by one, and an empty line.\<close>

definition line_texts :: "string list \<Rightarrow> string" where
  "line_texts ls = concat (map (\<lambda>l. l @ crlf) ls)"

definition good_line :: "string \<Rightarrow> bool" where
  "good_line l \<longleftrightarrow> l \<noteq> [] \<and> CHR 0x0D \<notin> set l"

lemma split_blank_lines:
  assumes "\<forall>l \<in> set ls. good_line l" "good_line l"
  shows "split_blank (line_texts ls @ l @ crlf @ crlf @ s) = Some (line_texts ls @ l, s)"
  using assms
proof (induction ls)
  case Nil
  then show ?case
    using split_blank_plain [of l "crlf @ crlf @ s"] by (simp add: line_texts_def good_line_def split_blank_end)
next
  case (Cons k ls)
  let ?rest = "line_texts ls @ l @ crlf @ crlf @ s"
  obtain l' t where t: "?rest = l' @ t" "good_line l'"
  proof (cases ls)
    case Nil
    then show ?thesis using that [of l "crlf @ crlf @ s"] Cons.prems by (simp add: line_texts_def)
  next
    case (Cons k' ls')
    then show ?thesis using that [of k' "crlf @ line_texts ls' @ l @ crlf @ crlf @ s"] Cons.prems
      by (simp add: line_texts_def)
  qed
  have IH: "split_blank ?rest = Some (line_texts ls @ l, s)" using Cons by simp
  have "split_blank (k @ crlf @ ?rest) = map_option (apfst (append k)) (split_blank (crlf @ ?rest))"
    using Cons.prems by (intro split_blank_plain) (simp add: good_line_def)
  also have "split_blank (crlf @ ?rest) = map_option (apfst (append crlf)) (split_blank ?rest)"
    using split_blank_line [of l' t] t by (simp add: good_line_def)
  finally show ?case using IH by (simp add: line_texts_def)
qed

text \<open>The pieces of a message.\<close>

definition header_list :: "string \<Rightarrow> (string \<times> string) list \<Rightarrow> string list" where
  "header_list sep hs = map (\<lambda>(k, v). k @ sep @ v) (filter (\<lambda>(k, v). strcasecmp k ''connection'' \<noteq> 0) hs)"

lemma header_lines_texts: "header_lines sep hs = line_texts (header_list sep hs)"
  by (induction sep hs rule: header_lines.induct) (auto simp: header_list_def line_texts_def)

lemma line_texts_Cons: "line_texts (l # ls) = l @ crlf @ line_texts ls"
  by (simp add: line_texts_def)

definition plain :: "string \<Rightarrow> bool" where
  "plain s \<longleftrightarrow> CHR 0x0D \<notin> set s"

lemma plain_append [simp]: "plain (a @ b) \<longleftrightarrow> plain a \<and> plain b"
  by (simp add: plain_def)

lemma plain_Cons [simp]: "plain (c # b) \<longleftrightarrow> c \<noteq> CHR 0x0D \<and> plain b"
  by (auto simp: plain_def)

lemma plain_Nil [simp]: "plain []"
  by (simp add: plain_def)

lemma plain_dec [simp]: "plain (dec n)"
proof -
  have "\<not> digit (CHR 0x0D)" by code_simp
  then show ?thesis using dec_digits unfolding plain_def by blast
qed

lemma plain_version [simp]: "plain (version_text v)"
  by (simp add: version_text_def)

lemma good_line_plain: "good_line l \<longleftrightarrow> l \<noteq> [] \<and> plain l"
  by (simp add: good_line_def plain_def)

lemma plain_status: "plain (HttpStatusToString s)"
proof -
  have t: "\<forall>(n, msg) \<in> set HTTP_STATUS_MAP. plain msg" by code_simp
  show ?thesis
  proof (cases "map_of HTTP_STATUS_MAP s")
    case (Some msg)
    then show ?thesis using t map_of_SomeD [OF Some] by (auto simp: HttpStatusToString_def)
  qed (simp add: HttpStatusToString_def)
qed

definition plain_fields :: "'m map_ops \<Rightarrow> 'm \<Rightarrow> bool" where
  "plain_fields mo m \<longleftrightarrow> (\<forall>(k, v) \<in> set (mo_entries mo m). plain k \<and> plain v)"

lemma good_header_list:
  "plain_fields mo m \<Longrightarrow> plain sep \<Longrightarrow> sep \<noteq> [] \<Longrightarrow> \<forall>l \<in> set (header_list sep (mo_entries mo m)). good_line l"
  by (auto simp: header_list_def good_line_plain plain_fields_def)

text \<open>The lines before the body, and their last.\<close>

definition message_head :: "string \<Rightarrow> string list \<Rightarrow> string \<Rightarrow> string \<Rightarrow> string" where
  "message_head start hs conn body =
     line_texts (start # hs) @ conn @ (if body = [] then [] else crlf @ ''content-length: '' @ dec (length body))"

lemma message_split:
  assumes "good_line start" "\<forall>l \<in> set hs. good_line l" "good_line conn"
  shows "split_blank (start @ crlf @ line_texts hs @ conn @ crlf @ body_text (crlf @ extra) body)
    = Some (message_head start hs conn body, if body = [] then extra else body)"
proof (cases "body = []")
  case False
  have "split_blank (line_texts (start # hs @ [conn]) @ (''content-length: '' @ dec (length body)) @ crlf @ crlf @ body)
    = Some (line_texts (start # hs @ [conn]) @ ''content-length: '' @ dec (length body), body)"
    using assms by (intro split_blank_lines) (auto simp: good_line_plain)
  then show ?thesis using False by (simp add: body_text_def line_texts_def message_head_def)
next
  case True
  have "split_blank (line_texts (start # hs) @ conn @ crlf @ crlf @ extra) = Some (line_texts (start # hs) @ conn, extra)"
    using assms by (intro split_blank_lines) auto
  then show ?thesis using True by (simp add: body_text_def line_texts_def message_head_def)
qed

definition connection_text :: "string \<Rightarrow> bool \<Rightarrow> string" where
  "connection_text sep close = ''connection'' @ sep @ (if close then ''close'' else ''keep-alive'')"

lemma good_connection: "plain sep \<Longrightarrow> good_line (connection_text sep close)"
  by (simp add: connection_text_def good_line_plain)

definition response_start :: "'m http_response \<Rightarrow> string" where
  "response_start r = version_text (rs_version r) @ '' '' @ dec (unat (word_of_int (rs_status r) :: u32)) @ '' '' @ status_text r"

definition request_start :: "string \<Rightarrow> 'm http_request \<Rightarrow> string" where
  "request_start name r = name @ '' '' @ request_target r @ '' '' @ version_text (rq_version r)"

section \<open>Properties\<close>

text \<open>The text of a method reads back as the method, for every method of the table;
  \<open>INVALID_METHOD\<close>, which is the length of the table, is not caught by the test on the index, and its text
  is read from behind the table.\<close>

theorem method_roundtrip:
  "(case HttpMethodToString m of Inr s \<Rightarrow> StringToHttpMethod s = m | Inl e \<Rightarrow> m = INVALID_METHOD \<and> e = Bad_Index)
    \<and> (HttpMethodToString m = Inl Bad_Index \<longleftrightarrow> m = INVALID_METHOD)"
proof (cases "m = INVALID_METHOD")
  case True
  have "HttpMethodToString INVALID_METHOD = Inl Bad_Index" by code_simp
  then show ?thesis using True by simp
next
  case False
  then obtain n s where "(n, m, s) \<in> set HTTP_METHOD_MAP" using method_listed by blast
  then show ?thesis using method_table False by (auto simp: HttpMethodToString_def length_method_string)
qed

lemma chars_in_table:
  assumes "set table \<subseteq> set HTTP_METHOD_MAP"
  shows "CharsToHttpMethod_in table t = m \<and> m \<noteq> INVALID_METHOD
    \<longleftrightarrow> (\<exists>n s. (n, m, s) \<in> set table \<and> take (length s) (c_str t) = s)"
  using assms
proof (induction table)
  case (Cons row table)
  obtain n' m' s' where row: "row = (n', m', s')" by (cases row)
  then have in_table: "(n', m', s') \<in> set HTTP_METHOD_MAP" using Cons.prems by simp
  show ?case
  proof (cases "take (length s') (c_str t) = s'")
    case True
    have "m = m'" if "(n, m, s) \<in> set HTTP_METHOD_MAP" "take (length s) (c_str t) = s" for n s
    proof (cases "length s \<le> length s'")
      case True
      then have "take (length s) s' = s" using that(2) \<open>take (length s') (c_str t) = s'\<close> by (metis min.absorb1 take_take)
      then show ?thesis using no_prefixes in_table that(1) by fast
    next
      case False
      then have "take (length s') s = s'" using that(2) \<open>take (length s') (c_str t) = s'\<close>
        by (metis min.absorb1 take_take nat_le_linear)
      then show ?thesis using no_prefixes in_table that(1) by fast
    qed
    moreover have "m' \<noteq> INVALID_METHOD" using method_table in_table by fast
    ultimately show ?thesis using True row Cons.prems by auto
  next
    case False
    then show ?thesis using Cons row by auto
  qed
qed simp

text \<open>\<open>CharsToHttpMethod\<close> is given the rest of the request, not only the method, and recognizes a method
  by its first characters: it returns a method of the table exactly when the text begins with the name of
  that method, whatever follows, so that \<open>GETX\<close> is taken for \<open>GET\<close>. No name begins with another, so that the
  order of the table does not matter.\<close>

theorem CharsToHttpMethod_prefix:
  "CharsToHttpMethod t = m \<and> m \<noteq> INVALID_METHOD
    \<longleftrightarrow> (\<exists>n s. (n, m, s) \<in> set HTTP_METHOD_MAP \<and> take (length s) (c_str t) = s)"
  unfolding CharsToHttpMethod_def by (rule chars_in_table) simp

text \<open>C21: the comparator of the maps of fields is no order: it holds for two keys exactly when they differ in
  more than case, and then both ways. With \<open>strcasecmp(lhs, rhs) < 0\<close> it would be one.\<close>

theorem no_order_of_fields:
  "(CaseInsensitiveLess a b \<longleftrightarrow> folded a \<noteq> folded b) \<and> (CaseInsensitiveLess a b \<longleftrightarrow> CaseInsensitiveLess b a)
    \<and> \<not> comparator CaseInsensitiveLess \<and> comparator (\<lambda>a b. strcasecmp a b < 0)"
proof -
  have less: "CaseInsensitiveLess a b \<longleftrightarrow> folded a \<noteq> folded b" for a b
    by (simp add: CaseInsensitiveLess_def strcasecmp_folded)
  have "\<not> comparator CaseInsensitiveLess"
  proof
    assume "comparator CaseInsensitiveLess"
    then have "\<not> (CaseInsensitiveLess ''a'' [] \<and> CaseInsensitiveLess [] ''a'')" using comparator.asym by metis
    moreover have "folded ''a'' \<noteq> folded []" by code_simp
    ultimately show False using less by metis
  qed
  moreover have "CaseInsensitiveLess a b \<longleftrightarrow> CaseInsensitiveLess b a" unfolding less by auto
  ultimately show ?thesis using less [of a b] by_case.comparator_axioms by (intro conjI)
qed

text \<open>A response whose status line and fields contain no carriage return is taken apart at its first
  empty line into its head, which ends in the length of the body when there is one, and the body.\<close>

theorem response_framing:
  assumes "plain (rs_reason r)" "plain_fields mo (rs_headers r)"
  shows "split_blank (response_dump mo r)
    = Some (message_head (response_start r) (header_list '': '' (mo_entries mo (rs_headers r)))
        (connection_text '': '' (rs_close r)) (rs_body r), rs_body r)"
proof -
  have "good_line (response_start r)"
    using assms(1) plain_status by (simp add: response_start_def good_line_plain status_text_def)
  then have "split_blank (response_start r @ crlf @ line_texts (header_list '': '' (mo_entries mo (rs_headers r)))
      @ connection_text '': '' (rs_close r) @ crlf @ body_text (crlf @ []) (rs_body r))
    = Some (message_head (response_start r) (header_list '': '' (mo_entries mo (rs_headers r)))
        (connection_text '': '' (rs_close r)) (rs_body r), if rs_body r = [] then [] else rs_body r)"
    using assms(2) by (intro message_split good_header_list good_connection) simp_all
  then show ?thesis
    by (simp add: response_dump_def response_start_def header_lines_texts connection_line_def connection_text_def)
qed

text \<open>The same for a request, except that a request without a body is followed by a second empty line:
  two bytes that the receiver finds in front of the next request on the connection.\<close>

theorem request_framing:
  assumes "HttpMethodToString (rq_method r) = Inr name" "plain (request_target r)" "plain_fields mo (rq_headers r)"
  shows "map_sum id split_blank (request_dump mo r)
    = Inr (Some (message_head (request_start name r) (header_list '':'' (mo_entries mo (rq_headers r)))
        (connection_text '':'' (rq_close r)) (rq_body r), if rq_body r = [] then crlf else rq_body r))"
proof -
  have "plain name"
  proof -
    have t: "\<forall>s \<in> set s_method_string. plain s" by code_simp
    have "name \<in> set s_method_string \<or> name = ''<unknown>''"
      using assms(1) by (auto simp: HttpMethodToString_def Let_def split: if_splits)
    then show ?thesis using t by auto
  qed
  then have "good_line (request_start name r)" using assms(2) by (simp add: request_start_def good_line_plain)
  then have "split_blank (request_start name r @ crlf @ line_texts (header_list '':'' (mo_entries mo (rq_headers r)))
      @ connection_text '':'' (rq_close r) @ crlf @ body_text (crlf @ crlf) (rq_body r))
    = Some (message_head (request_start name r) (header_list '':'' (mo_entries mo (rq_headers r)))
        (connection_text '':'' (rq_close r)) (rq_body r), if rq_body r = [] then crlf else rq_body r)"
    using assms(3) by (intro message_split good_header_list good_connection) simp_all
  then show ?thesis using assms(1)
    by (simp add: request_dump_def request_start_def header_lines_texts connection_line_def connection_text_def)
qed

text \<open>A map of fields that keeps them in the order they came in.\<close>

definition demo_map :: "(string \<times> string) list map_ops" where
  "demo_map = \<lparr>mo_empty = [], mo_find = (\<lambda>k m. map_of m k), mo_put = (\<lambda>k v m. m @ [(k, v)]),
     mo_erase = (\<lambda>k. filter (\<lambda>(k', v). k' \<noteq> k)), mo_entries = id\<rparr>"

lemma response_framing_witness:
  "\<exists>head. split_blank (response_dump demo_map ((HttpResponse_new demo_map 0x11 True)\<lparr>rs_body := ''hi''\<rparr>)) = Some (head, ''hi'')"
  using response_framing [of "(HttpResponse_new demo_map 0x11 True)\<lparr>rs_body := ''hi''\<rparr>" demo_map]
  by (simp add: HttpResponse_new_def demo_map_def plain_fields_def)

lemma request_framing_witness:
  "\<exists>head. map_sum id split_blank (request_dump demo_map (HttpRequest_new demo_map 0x11 True)) = Inr (Some (head, crlf))"
proof -
  have "HttpMethodToString GET = Inr ''GET''" by code_simp
  then show ?thesis
    using request_framing [of "HttpRequest_new demo_map 0x11 True" "''GET''" demo_map]
    by (simp add: HttpRequest_new_def demo_map_def plain_fields_def request_target_def)
qed

end
