(* ===== verification/Http_Parser.thy ===== *)
theory Http_Parser
  imports Http
begin

text \<open>
  \<open>src/src/http/http_parser.h\<close> and \<open>src/src/http/http_parser.cpp\<close>: the request and response parsers. The
  scanners they drive (\<open>http11_parser\<close>, \<open>httpclient_parser\<close>, generated from the \<open>.rl\<close> files) are a parameter:
  a run over a buffer gives the callbacks made, each with the offsets and lengths it is called with, in
  order, and the number of bytes taken. A callback is given a pointer into the buffer, not only the
  characters of its token. \<open>Http11_Scanner\<close> and \<open>Httpclient_Scanner\<close> give the scanners of the code.
\<close>

section \<open>The scanner\<close>

datatype parser_event =
    Request_Method nat nat
  | Request_Uri nat nat
  | Fragment nat nat
  | Request_Path nat nat
  | Query_String nat nat
  | Http_Version nat nat
  | Header_Done nat nat
  | Http_Field nat nat nat nat
  | Reason_Phrase nat nat
  | Status_Code nat nat
  | Chunk_Size nat nat
  | Last_Chunk nat nat

record 'p scanner =
  sc_init :: 'p
  sc_execute :: "'p \<Rightarrow> string \<Rightarrow> nat \<Rightarrow> (parser_event list \<times> nat) \<times> 'p"
  sc_finish :: "'p \<Rightarrow> int"
  sc_has_error :: "'p \<Rightarrow> bool"

text \<open>\<open>std::string(at, length)\<close> for the pointer to an offset.\<close>

definition token :: "string \<Rightarrow> nat \<Rightarrow> nat \<Rightarrow> string" where
  "token data at n = take n (drop at data)"

definition strncmp_eq :: "string \<Rightarrow> string \<Rightarrow> nat \<Rightarrow> bool" where
  "strncmp_eq a b n \<longleftrightarrow> take n (c_str a) = take n (c_str b)"

text \<open>\<open>memmove(data, data + offset, len - offset)\<close>.\<close>

definition shift_left :: "string \<Rightarrow> nat \<Rightarrow> nat \<Rightarrow> string" where
  "shift_left data offset len = overwrite data 0 (take (len - offset) (drop offset data))"

section \<open>Requests\<close>

record ('p, 'm) request_parser =
  qp_parser :: 'p
  qp_data :: "'m http_request"
  qp_error :: int

definition set_error where "set_error v p = p\<lparr>qp_error := v\<rparr>"

definition on_request_method :: "string \<Rightarrow> nat \<Rightarrow> nat \<Rightarrow> ('p, 'm) request_parser \<Rightarrow> ('p, 'm) request_parser" where
  "on_request_method data at n p =
     (let m = CharsToHttpMethod (drop at data) in
      if m = INVALID_METHOD then set_error 1000 p else p\<lparr>qp_data := (qp_data p)\<lparr>rq_method := m\<rparr>\<rparr>)"

definition on_request_uri :: "string \<Rightarrow> nat \<Rightarrow> nat \<Rightarrow> ('p, 'm) request_parser \<Rightarrow> ('p, 'm) request_parser" where
  "on_request_uri data at n p = p"

definition on_request_fragment :: "string \<Rightarrow> nat \<Rightarrow> nat \<Rightarrow> ('p, 'm) request_parser \<Rightarrow> ('p, 'm) request_parser" where
  "on_request_fragment data at n p = p\<lparr>qp_data := (qp_data p)\<lparr>rq_fragment := token data at n\<rparr>\<rparr>"

definition on_request_path :: "string \<Rightarrow> nat \<Rightarrow> nat \<Rightarrow> ('p, 'm) request_parser \<Rightarrow> ('p, 'm) request_parser" where
  "on_request_path data at n p = p\<lparr>qp_data := (qp_data p)\<lparr>rq_path := token data at n\<rparr>\<rparr>"

definition on_request_query :: "string \<Rightarrow> nat \<Rightarrow> nat \<Rightarrow> ('p, 'm) request_parser \<Rightarrow> ('p, 'm) request_parser" where
  "on_request_query data at n p = p\<lparr>qp_data := (qp_data p)\<lparr>rq_query := token data at n\<rparr>\<rparr>"

definition on_request_version :: "string \<Rightarrow> nat \<Rightarrow> nat \<Rightarrow> ('p, 'm) request_parser \<Rightarrow> ('p, 'm) request_parser" where
  "on_request_version data at n p =
     (if strncmp_eq (drop at data) ''HTTP/1.1'' n then p\<lparr>qp_data := (qp_data p)\<lparr>rq_version := 0x11\<rparr>\<rparr>
      else if strncmp_eq (drop at data) ''HTTP/1.0'' n then p\<lparr>qp_data := (qp_data p)\<lparr>rq_version := 0x10\<rparr>\<rparr>
      else set_error 1001 p)"

definition on_request_header_done :: "string \<Rightarrow> nat \<Rightarrow> nat \<Rightarrow> ('p, 'm) request_parser \<Rightarrow> ('p, 'm) request_parser" where
  "on_request_header_done data at n p = p"

definition on_request_http_field ::
    "'m map_ops \<Rightarrow> string \<Rightarrow> nat \<Rightarrow> nat \<Rightarrow> nat \<Rightarrow> nat \<Rightarrow> ('p, 'm) request_parser \<Rightarrow> ('p, 'm) request_parser" where
  "on_request_http_field mo data field flen val vlen p =
     (if flen = 0 then p
      else p\<lparr>qp_data := setHeader mo (token data field flen) (token data val vlen) (qp_data p)\<rparr>)"

definition HttpRequestParser_new :: "'p scanner \<Rightarrow> 'm map_ops \<Rightarrow> ('p, 'm) request_parser" where
  "HttpRequestParser_new sc mo = \<lparr>qp_parser = sc_init sc, qp_data = HttpRequest_new mo 0x11 True, qp_error = 0\<rparr>"

text \<open>The callbacks the constructor registers.\<close>

fun request_event :: "'m map_ops \<Rightarrow> string \<Rightarrow> parser_event \<Rightarrow> ('p, 'm) request_parser \<Rightarrow> ('p, 'm) request_parser" where
  "request_event mo data (Request_Method at n) p = on_request_method data at n p"
| "request_event mo data (Request_Uri at n) p = on_request_uri data at n p"
| "request_event mo data (Fragment at n) p = on_request_fragment data at n p"
| "request_event mo data (Request_Path at n) p = on_request_path data at n p"
| "request_event mo data (Query_String at n) p = on_request_query data at n p"
| "request_event mo data (Http_Version at n) p = on_request_version data at n p"
| "request_event mo data (Header_Done at n) p = on_request_header_done data at n p"
| "request_event mo data (Http_Field f fl v vl) p = on_request_http_field mo data f fl v vl p"
| "request_event mo data e p = p"

definition request_execute ::
    "'p scanner \<Rightarrow> 'm map_ops \<Rightarrow> string \<Rightarrow> nat \<Rightarrow> ('p, 'm) request_parser \<Rightarrow> (nat \<times> string) \<times> ('p, 'm) request_parser" where
  "request_execute sc mo data len p =
     (let ((events, offset), q) = sc_execute sc (qp_parser p) data len
      in ((offset, shift_left data offset len), (fold (request_event mo data) events p)\<lparr>qp_parser := q\<rparr>))"

definition request_isFinished :: "'p scanner \<Rightarrow> ('p, 'm) request_parser \<Rightarrow> int" where
  "request_isFinished sc p = sc_finish sc (qp_parser p)"

definition request_hasError :: "'p scanner \<Rightarrow> ('p, 'm) request_parser \<Rightarrow> bool" where
  "request_hasError sc p \<longleftrightarrow> qp_error p \<noteq> 0 \<or> sc_has_error sc (qp_parser p)"

definition request_getContentLength :: "'m map_ops \<Rightarrow> (string \<Rightarrow> u64 option) \<Rightarrow> ('p, 'm) request_parser \<Rightarrow> u64" where
  "request_getContentLength mo cast p = getHeaderAs mo cast ''content-length'' 0 (qp_data p)"

section \<open>Responses\<close>

record ('p, 'm) response_parser =
  sp_parser :: 'p
  sp_data :: "'m http_response"
  sp_error :: int

text \<open>\<open>atoi\<close>: white space, a sign, digits. A number that is no \<open>int\<close> is undefined.\<close>

definition is_space :: "char \<Rightarrow> bool" where
  "is_space c \<longleftrightarrow> c \<in> set [CHR 0x20, CHR 0x09, CHR 0x0A, CHR 0x0B, CHR 0x0C, CHR 0x0D]"

definition is_digit :: "char \<Rightarrow> bool" where
  "is_digit c \<longleftrightarrow> c \<in> set ''0123456789''"

definition atoi :: "string \<Rightarrow> fault + int" where
  "atoi s =
     (let t = dropWhile is_space s;
          neg = (t \<noteq> [] \<and> hd t = CHR ''-'');
          u = (if t \<noteq> [] \<and> hd t \<in> set ''+-'' then tl t else t);
          n = int (read_nat 10 (takeWhile is_digit u));
          v = (if neg then - n else n)
      in if - (2 ^ 31) \<le> v \<and> v < 2 ^ 31 then Inr v else Inl Undefined_Arith)"

definition on_response_reason :: "string \<Rightarrow> nat \<Rightarrow> nat \<Rightarrow> ('p, 'm) response_parser \<Rightarrow> ('p, 'm) response_parser" where
  "on_response_reason data at n p = p\<lparr>sp_data := (sp_data p)\<lparr>rs_reason := token data at n\<rparr>\<rparr>"

definition on_response_status ::
    "string \<Rightarrow> nat \<Rightarrow> nat \<Rightarrow> ('p, 'm) response_parser \<Rightarrow> fault + ('p, 'm) response_parser" where
  "on_response_status data at n p =
     map_sum id (\<lambda>status. p\<lparr>sp_data := (sp_data p)\<lparr>rs_status := status\<rparr>\<rparr>) (atoi (drop at data))"

definition on_response_version :: "string \<Rightarrow> nat \<Rightarrow> nat \<Rightarrow> ('p, 'm) response_parser \<Rightarrow> ('p, 'm) response_parser" where
  "on_response_version data at n p =
     (if strncmp_eq (drop at data) ''HTTP/1.1'' n then p\<lparr>sp_data := (sp_data p)\<lparr>rs_version := 0x11\<rparr>\<rparr>
      else if strncmp_eq (drop at data) ''HTTP/1.0'' n then p\<lparr>sp_data := (sp_data p)\<lparr>rs_version := 0x10\<rparr>\<rparr>
      else p\<lparr>sp_error := 1001\<rparr>)"

definition on_response_chunk :: "string \<Rightarrow> nat \<Rightarrow> nat \<Rightarrow> ('p, 'm) response_parser \<Rightarrow> ('p, 'm) response_parser" where
  "on_response_chunk data at n p = p"

definition on_response_header_done :: "string \<Rightarrow> nat \<Rightarrow> nat \<Rightarrow> ('p, 'm) response_parser \<Rightarrow> ('p, 'm) response_parser" where
  "on_response_header_done data at n p = p"

definition on_response_last_chunk :: "string \<Rightarrow> nat \<Rightarrow> nat \<Rightarrow> ('p, 'm) response_parser \<Rightarrow> ('p, 'm) response_parser" where
  "on_response_last_chunk data at n p = p"

definition on_response_http_field ::
    "'m map_ops \<Rightarrow> string \<Rightarrow> nat \<Rightarrow> nat \<Rightarrow> nat \<Rightarrow> nat \<Rightarrow> ('p, 'm) response_parser \<Rightarrow> ('p, 'm) response_parser" where
  "on_response_http_field mo data field flen val vlen p =
     (if flen = 0 then p
      else p\<lparr>sp_data := rsp_setHeader mo (token data field flen) (token data val vlen) (sp_data p)\<rparr>)"

definition HttpResponseParser_new :: "'p scanner \<Rightarrow> 'm map_ops \<Rightarrow> ('p, 'm) response_parser" where
  "HttpResponseParser_new sc mo = \<lparr>sp_parser = sc_init sc, sp_data = HttpResponse_new mo 0x11 True, sp_error = 0\<rparr>"

fun response_event ::
    "'m map_ops \<Rightarrow> string \<Rightarrow> parser_event \<Rightarrow> ('p, 'm) response_parser \<Rightarrow> fault + ('p, 'm) response_parser" where
  "response_event mo data (Reason_Phrase at n) p = Inr (on_response_reason data at n p)"
| "response_event mo data (Status_Code at n) p = on_response_status data at n p"
| "response_event mo data (Chunk_Size at n) p = Inr (on_response_chunk data at n p)"
| "response_event mo data (Http_Version at n) p = Inr (on_response_version data at n p)"
| "response_event mo data (Header_Done at n) p = Inr (on_response_header_done data at n p)"
| "response_event mo data (Last_Chunk at n) p = Inr (on_response_last_chunk data at n p)"
| "response_event mo data (Http_Field f fl v vl) p = Inr (on_response_http_field mo data f fl v vl p)"
| "response_event mo data e p = Inr p"

fun response_events ::
    "'m map_ops \<Rightarrow> string \<Rightarrow> parser_event list \<Rightarrow> ('p, 'm) response_parser \<Rightarrow> fault + ('p, 'm) response_parser" where
  "response_events mo data [] p = Inr p"
| "response_events mo data (e # es) p =
     (case response_event mo data e p of Inl f \<Rightarrow> Inl f | Inr p' \<Rightarrow> response_events mo data es p')"

definition response_execute ::
    "'p scanner \<Rightarrow> 'm map_ops \<Rightarrow> string \<Rightarrow> nat \<Rightarrow> bool \<Rightarrow> ('p, 'm) response_parser
      \<Rightarrow> fault + (nat \<times> string) \<times> ('p, 'm) response_parser" where
  "response_execute sc mo data len chunck p =
     (let ((events, offset), q) = sc_execute sc (if chunck then sc_init sc else sp_parser p) data len
      in map_sum id (\<lambda>p'. ((offset, shift_left data offset len), p'\<lparr>sp_parser := q\<rparr>)) (response_events mo data events p))"

definition response_isFinished :: "'p scanner \<Rightarrow> ('p, 'm) response_parser \<Rightarrow> int" where
  "response_isFinished sc p = sc_finish sc (sp_parser p)"

definition response_hasError :: "'p scanner \<Rightarrow> ('p, 'm) response_parser \<Rightarrow> bool" where
  "response_hasError sc p \<longleftrightarrow> sp_error p \<noteq> 0 \<or> sc_has_error sc (sp_parser p)"

definition response_getContentLength :: "'m map_ops \<Rightarrow> (string \<Rightarrow> u64 option) \<Rightarrow> ('p, 'm) response_parser \<Rightarrow> u64" where
  "response_getContentLength mo cast p = getAs mo cast (rs_headers (sp_data p)) ''content-length'' 0"

section \<open>Limits\<close>

text \<open>The four sizes, which follow their configuration variables.\<close>

record http_sizes =
  s_http_request_buffer_size :: u64
  s_http_request_max_body_size :: u64
  s_http_response_buffer_size :: u64
  s_http_response_max_body_size :: u64

datatype http_size_name = Request_Buffer_Size | Request_Max_Body_Size | Response_Buffer_Size | Response_Max_Body_Size

definition default_sizes :: http_sizes where
  "default_sizes = \<lparr>s_http_request_buffer_size = 4 * 1024, s_http_request_max_body_size = 16 * 1024 * 1024,
     s_http_response_buffer_size = 4 * 1024, s_http_response_max_body_size = 16 * 1024 * 1024\<rparr>"

fun size_changed :: "http_size_name \<Rightarrow> u64 \<Rightarrow> http_sizes \<Rightarrow> http_sizes" where
  "size_changed Request_Buffer_Size nv g = g\<lparr>s_http_request_buffer_size := nv\<rparr>"
| "size_changed Request_Max_Body_Size nv g = g\<lparr>s_http_request_max_body_size := nv\<rparr>"
| "size_changed Response_Buffer_Size nv g = g\<lparr>s_http_response_buffer_size := nv\<rparr>"
| "size_changed Response_Max_Body_Size nv g = g\<lparr>s_http_response_max_body_size := nv\<rparr>"

section \<open>Facts\<close>

lemma request_event_parser [simp]: "qp_parser (request_event mo data e p) = qp_parser p"
  by (cases e) (simp_all add: on_request_method_def on_request_uri_def on_request_fragment_def on_request_path_def
    on_request_query_def on_request_version_def on_request_header_done_def on_request_http_field_def set_error_def Let_def)

lemma request_event_close [simp]: "rq_close (qp_data (request_event mo data e p)) = rq_close (qp_data p)"
  by (cases e) (simp_all add: on_request_method_def on_request_uri_def on_request_fragment_def on_request_path_def
    on_request_query_def on_request_version_def on_request_header_done_def on_request_http_field_def set_error_def
    setHeader_def Let_def)

lemma events_close [simp]: "rq_close (qp_data (fold (request_event mo data) es p)) = rq_close (qp_data p)"
  by (induction es arbitrary: p) simp_all

lemma execute_close: "request_execute sc mo data len p = (r, p') \<Longrightarrow> rq_close (qp_data p') = rq_close (qp_data p)"
  by (auto simp: request_execute_def split: prod.splits)

text \<open>The events the callbacks accept.\<close>

fun accepted :: "string \<Rightarrow> parser_event \<Rightarrow> bool" where
  "accepted data (Request_Method at n) \<longleftrightarrow> (\<exists>i m s. (i, m, s) \<in> set HTTP_METHOD_MAP \<and> take (length s) (c_str (drop at data)) = s)"
| "accepted data (Http_Version at n) \<longleftrightarrow> take n (c_str (drop at data)) \<in> {take n ''HTTP/1.1'', take n ''HTTP/1.0''}"
| "accepted data e \<longleftrightarrow> True"

lemma invalid_method: "CharsToHttpMethod t = INVALID_METHOD \<longleftrightarrow> \<not> (\<exists>n m s. (n, m, s) \<in> set HTTP_METHOD_MAP \<and> take (length s) (c_str t) = s)"
proof -
  define listed where "listed m \<longleftrightarrow> (\<exists>n s. (n, m, s) \<in> set HTTP_METHOD_MAP \<and> take (length s) (c_str t) = s)" for m
  have "(CharsToHttpMethod t = m \<and> m \<noteq> INVALID_METHOD) = listed m" for m
    unfolding CharsToHttpMethod_def listed_def by (rule chars_in_table) simp
  then have "CharsToHttpMethod t = INVALID_METHOD \<longleftrightarrow> \<not> (\<exists>m. listed m)" by metis
  then show ?thesis unfolding listed_def by metis
qed

lemma request_event_error:
  "qp_error (request_event mo data e p) = 0 \<longleftrightarrow> (if accepted data e then qp_error p = 0 else False)"
proof (cases e)
  case (Request_Method at n)
  then show ?thesis using invalid_method [of "drop at data"]
    by (auto simp: on_request_method_def set_error_def Let_def)
next
  case (Http_Version at n)
  have "c_str ''HTTP/1.1'' = ''HTTP/1.1''" "c_str ''HTTP/1.0'' = ''HTTP/1.0''" by simp_all
  then show ?thesis using Http_Version by (simp add: on_request_version_def set_error_def strncmp_eq_def)
qed (simp_all add: on_request_uri_def on_request_fragment_def on_request_path_def
    on_request_query_def on_request_header_done_def on_request_http_field_def)

lemma events_error:
  "qp_error (fold (request_event mo data) es p) = 0 \<longleftrightarrow> qp_error p = 0 \<and> (\<forall>e \<in> set es. accepted data e)"
  by (induction es arbitrary: p) (auto simp: request_event_error)

section \<open>Properties\<close>

text \<open>After a run over a buffer the parser of requests has an error exactly when it had one before, the
  scanner has one, or one of the tokens was refused: a method that begins with no name of the table, or a
  version that is neither HTTP/1.1 nor HTTP/1.0 as far as the token goes. An error stays.\<close>

theorem request_errors:
  "request_hasError sc (snd (request_execute sc mo data len p))
    \<longleftrightarrow> qp_error p \<noteq> 0 \<or> (\<exists>e \<in> set (fst (fst (sc_execute sc (qp_parser p) data len))). \<not> accepted data e)
      \<or> sc_has_error sc (snd (sc_execute sc (qp_parser p) data len))"
  by (auto simp: request_hasError_def request_execute_def events_error split: prod.split)

end
