(* ===== verification/Http_Session.thy ===== *)
theory Http_Session
  imports Stream_Output Http_Parser
begin

text \<open>
  \<open>src/src/http/http_session.h\<close> and \<open>src/src/http/http_session.cpp\<close>: reading a request from a stream and
  writing a response to it. The stream's \<open>read\<close>, \<open>write\<close> and \<open>close\<close> are arguments; \<open>HttpSession\<close> is the
  stream of a socket with these. \<open>fresh\<close> is what the new buffer holds, and \<open>None\<close> as a request is the null
  pointer. That memory is there for the body is assumed.
\<close>

section \<open>Texts as bytes\<close>

definition text_of :: "byte list \<Rightarrow> string" where
  "text_of bs = map (\<lambda>b. char_of (unat b)) bs"

definition bytes_of :: "string \<Rightarrow> byte list" where
  "bytes_of s = map (\<lambda>c. word_of_nat (of_char c)) s"

lemma length_text_of [simp]: "length (text_of bs) = length bs"
  by (simp add: text_of_def)

lemma length_bytes_of [simp]: "length (bytes_of s) = length s"
  by (simp add: bytes_of_def)

lemma bytes_of_text_of [simp]: "bytes_of (text_of bs) = bs"
proof -
  have "word_of_nat (of_char (char_of (unat b) :: char)) = b" for b :: byte
    using unsigned_less [of b, where 'a = nat] by simp
  then show ?thesis by (simp add: bytes_of_def text_of_def map_idI)
qed

lemma text_of_bytes_of [simp]: "text_of (bytes_of s) = s"
proof -
  have "char_of (unat (word_of_nat (of_char c) :: byte)) = c" for c
  proof -
    have "of_char c < (256 :: nat)" by simp
    then have "unat (word_of_nat (of_char c) :: byte) = of_char c" by (simp add: unat_of_nat)
    then show ?thesis by simp
  qed
  then show ?thesis by (simp add: bytes_of_def text_of_def map_idI)
qed

section \<open>Receiving\<close>

text \<open>The loop that reads until the head of the request is complete. \<open>unresolve\<close> bytes at the front of the
  buffer have been read and not taken by the parser. The outcome \<open>None\<close> is \<open>close()\<close> and a null pointer.\<close>

partial_function (option) recv_head ::
    "'p scanner \<Rightarrow> 'm map_ops \<Rightarrow> 's reader \<Rightarrow> u64 \<Rightarrow> ('p, 'm) request_parser \<Rightarrow> byte list \<Rightarrow> int \<Rightarrow> 's
      \<Rightarrow> ((fault + (('p, 'm) request_parser \<times> byte list \<times> int) option) \<times> 's) option" where
  "recv_head sc mo rd req_buff_size p buf unresolve s =
     (case rd (unat (req_buff_size - word_of_int unresolve)) s of
        (Inl e, s1) \<Rightarrow> Some (Inl e, s1)
      | (Inr rb, s1) \<Rightarrow>
          if fst rb \<le> 0 then Some (Inr None, s1)
          else if nat unresolve + length (snd rb) > length buf then Some (Inl Bad_Index, s1)
          else
            let len = fst rb + unresolve;
                run = request_execute sc mo (text_of (overwrite buf (nat unresolve) (snd rb))) (nat len) p;
                unresolve1 = len - int (fst (fst run))
            in if request_hasError sc (snd run) then Some (Inr None, s1)
               else if unresolve1 = to_int (uint req_buff_size) then Some (Inr None, s1)
               else if request_isFinished sc (snd run) \<noteq> 0
               then Some (Inr (Some (snd run, bytes_of (snd (fst run)), unresolve1)), s1)
               else recv_head sc mo rd req_buff_size (snd run) (bytes_of (snd (fst run))) unresolve1 s1)"

text \<open>The body: first what is in the buffer, then what is missing.\<close>

definition recv_body ::
    "'m map_ops \<Rightarrow> (string \<Rightarrow> u64 option) \<Rightarrow> 's reader \<Rightarrow> ('p, 'm) request_parser \<Rightarrow> byte list \<Rightarrow> int \<Rightarrow> 's
      \<Rightarrow> ((fault + 'm http_request option) \<times> 's) option" where
  "recv_body mo cast rd p buf unresolve s =
     (let n = sint (request_getContentLength mo cast p) in
      if n > 0 then
        let len = (if n \<ge> unresolve then nat unresolve else nat n);
            body = take len buf @ replicate (nat n - len) 0;
            rest = n - unresolve
        in if rest > 0 then
             (case readFixSize rd (drop len body) (nat rest) s of
                None \<Rightarrow> None
              | Some (Inl e, _, s1) \<Rightarrow> Some (Inl e, s1)
              | Some (Inr r, tail, s1) \<Rightarrow>
                  if r \<le> 0 then Some (Inr None, s1)
                  else Some (Inr (Some ((qp_data p)\<lparr>rq_body := text_of (take len body @ tail)\<rparr>)), s1))
           else Some (Inr (Some ((qp_data p)\<lparr>rq_body := text_of body\<rparr>)), s)
      else Some (Inr (Some (qp_data p)), s))"

definition close_null :: "('s, unit) op \<Rightarrow> 's \<Rightarrow> (fault + 'm http_request option) \<times> 's" where
  "close_null cl s = (case cl s of (Inl e, s1) \<Rightarrow> (Inl e, s1) | (Inr _, s1) \<Rightarrow> (Inr None, s1))"

definition recvRequest ::
    "'p scanner \<Rightarrow> 'm map_ops \<Rightarrow> (string \<Rightarrow> u64 option) \<Rightarrow> 's reader \<Rightarrow> ('s, unit) op \<Rightarrow> u64 \<Rightarrow> byte list \<Rightarrow> 's
      \<Rightarrow> ((fault + 'm http_request option) \<times> 's) option" where
  "recvRequest sc mo cast rd cl req_buff_size fresh s =
     (case recv_head sc mo rd req_buff_size (HttpRequestParser_new sc mo) fresh 0 s of
        None \<Rightarrow> None
      | Some (Inl e, s1) \<Rightarrow> Some (Inl e, s1)
      | Some (Inr None, s1) \<Rightarrow> Some (close_null cl s1)
      | Some (Inr (Some (p, buf, unresolve)), s1) \<Rightarrow>
          (case recv_body mo cast rd p buf unresolve s1 of
             None \<Rightarrow> None
           | Some (Inr None, s2) \<Rightarrow> Some (close_null cl s2)
           | Some (Inl e, s2) \<Rightarrow> Some (Inl e, s2)
           | Some (Inr (Some rq), s2) \<Rightarrow> Some (Inr (Some rq), s2)))"

section \<open>Sending\<close>

definition sendResponse :: "'m map_ops \<Rightarrow> 's writer \<Rightarrow> 'm http_response \<Rightarrow> 's \<Rightarrow> ((fault + int) \<times> 's) option" where
  "sendResponse mo wr rsp s =
     (let data = bytes_of (response_dump mo rsp) in writeFixSize wr data (length data) s)"

section \<open>The session of a socket\<close>

definition HttpSession_new :: "socket_object option \<Rightarrow> bool \<Rightarrow> hooks \<Rightarrow> byte list \<Rightarrow> stream_state" where
  "HttpSession_new sock owner h pending =
     \<lparr>ss_socket = sock, ss_owner = owner, ss_hooks = h, ss_in = pending, ss_out = []\<rparr>"

definition session_recvRequest where
  "session_recvRequest sc mo cast c = recvRequest sc mo cast (stream_read c) (stream_close c)"

definition session_sendResponse where
  "session_sendResponse mo c = sendResponse mo (stream_write c)"

section \<open>Facts\<close>

definition scanner_in_bounds :: "'p scanner \<Rightarrow> bool" where
  "scanner_in_bounds sc \<longleftrightarrow> (\<forall>p data len. snd (fst (sc_execute sc p data len)) \<le> len)"

lemma length_shift_left: "len \<le> length data \<Longrightarrow> length (shift_left data offset len) = length data"
  by (simp add: shift_left_def)

lemma request_event_body [simp]: "rq_body (qp_data (request_event mo data e p)) = rq_body (qp_data p)"
  by (cases e) (simp_all add: on_request_method_def on_request_uri_def on_request_fragment_def on_request_path_def
    on_request_query_def on_request_version_def on_request_header_done_def on_request_http_field_def set_error_def
    setHeader_def Let_def)

lemma events_body [simp]: "rq_body (qp_data (fold (request_event mo data) es p)) = rq_body (qp_data p)"
  by (induction es arbitrary: p) simp_all

lemma request_execute_keeps:
  assumes "scanner_in_bounds sc" "len \<le> length data"
  shows "fst (fst (request_execute sc mo data len p)) \<le> len"
    and "length (snd (fst (request_execute sc mo data len p))) = length data"
    and "rq_body (qp_data (snd (request_execute sc mo data len p))) = rq_body (qp_data p)"
    and "rq_close (qp_data (snd (request_execute sc mo data len p))) = rq_close (qp_data p)"
  using assms(1) [unfolded scanner_in_bounds_def, rule_format, of "qp_parser p" data len]
  by (auto simp: request_execute_def length_shift_left [OF assms(2)] split: prod.splits)

text \<open>What the loop that reads the head leaves as it was: it stays in its buffer.\<close>

definition head_kept where
  "head_kept sc rd sz p buf u y \<longleftrightarrow>
     (\<forall>p' buf' u' s'. y = (Inr (Some (p', buf', u')), s') \<longrightarrow> scanner_in_bounds sc \<longrightarrow> (\<exists>pending. input_stream rd pending)
      \<longrightarrow> 0 \<le> u \<longrightarrow> u \<le> int (length buf) \<longrightarrow> int (length buf) = uint sz \<longrightarrow>
      length buf' = length buf \<and> 0 \<le> u' \<and> u' \<le> int (length buf)
      \<and> rq_body (qp_data p') = rq_body (qp_data p) \<and> rq_close (qp_data p') = rq_close (qp_data p))"

lemma free_space:
  fixes sz :: u64
  assumes "0 \<le> u" "u \<le> uint sz"
  shows "int (unat (sz - word_of_int u)) = uint sz - u"
proof -
  have "uint sz < 2 ^ 64" using uint_lt2p [of sz] by simp
  then have "uint (word_of_int u :: u64) = u" using assms by (simp add: uint_word_of_int)
  then show ?thesis using assms uint_sub_if' [of sz "word_of_int u"] by (simp add: unat_eq_nat_uint)
qed

lemma recv_head_kept:
  assumes "recv_head sc mo rd sz p buf u s = Some y"
  shows "head_kept sc rd sz p buf u y"
proof (rule recv_head.raw_induct [OF _ assms, where P = "\<lambda>sc mo rd sz p buf u s y. head_kept sc rd sz p buf u y"], goal_cases)
  case (1 recv sc mo rd sz p buf u s y)
  show ?case unfolding head_kept_def
  proof (intro allI impI, elim exE)
    fix p' buf' u' s' pending
    assume a: "y = (Inr (Some (p', buf', u')), s')" "scanner_in_bounds sc" "0 \<le> u" "u \<le> int (length buf)"
      "int (length buf) = uint sz" and st: "input_stream rd pending"
    let ?n = "unat (sz - word_of_int u)"
    obtain r bs s1 where rd: "rd ?n s = (Inr (r, bs), s1)" "0 < r" "nat u + length bs \<le> length buf"
      using 1(2) a(1) by (auto split: prod.splits sum.splits if_splits)
    let ?buf = "overwrite buf (nat u) bs"
    let ?run = "request_execute sc mo (text_of ?buf) (nat (r + u)) p"
    have lb: "length ?buf = length buf" using rd(3) by simp
    have len: "nat (r + u) \<le> length (text_of ?buf)"
      using input_stream.wanted [OF st rd(1)] free_space [of u sz] a(3-5) lb by simp
    note kept = request_execute_keeps [OF a(2) len, of mo p]
    let ?p1 = "snd ?run" and ?b1 = "bytes_of (snd (fst ?run))" and ?u1 = "r + u - int (fst (fst ?run))"
    have u1: "0 \<le> ?u1" "?u1 \<le> int (length buf)" "length ?b1 = length buf"
      using kept(1,2) rd(2) a(3) len lb by simp_all
    consider "p' = ?p1" "buf' = ?b1" "u' = ?u1" | "recv sc mo rd sz ?p1 ?b1 ?u1 s1 = Some y"
      using 1(2) a(1) rd by (auto simp: Let_def split: if_splits)
    then show "length buf' = length buf \<and> 0 \<le> u' \<and> u' \<le> int (length buf)
      \<and> rq_body (qp_data p') = rq_body (qp_data p) \<and> rq_close (qp_data p') = rq_close (qp_data p)"
    proof cases
      case 1
      then show ?thesis using u1 kept(3,4) by simp
    next
      case 2
      from "1"(1) [OF this] show ?thesis using a st u1 kept(3,4) unfolding head_kept_def by fastforce
    qed
  qed
qed

lemma read_fix_length:
  assumes "read_fix rd buf offset rest_bytes s = Some (r, buf', s')"
  shows "length buf' = length buf"
proof -
  have "length (fst (snd y)) = length buf" if "read_fix rd buf offset rest_bytes s = Some y" for y
  proof (rule read_fix.raw_induct [OF _ that, where P = "\<lambda>rd buf offset rest_bytes s y. length (fst (snd y)) = length buf"], goal_cases)
    case (1 read rd buf offset rest_bytes s y)
    show ?case
    proof (cases "rest_bytes = 0")
      case False
      obtain r s1 where rd: "rd (unat rest_bytes) s = (r, s1)" by force
      show ?thesis
      proof (cases r)
        case (Inr rb)
        let ?len = "word_of_int (fst rb) :: u64"
        consider "fst (snd y) = buf"
          | "length (overwrite buf (unat offset) (snd rb)) = length buf"
            "read rd (overwrite buf (unat offset) (snd rb)) (offset + ?len) (rest_bytes - ?len) s1 = Some y"
          using 1(2) False rd Inr by (auto simp: Let_def split: if_splits)
        then show ?thesis using 1(1) by cases auto
      qed (use 1(2) False rd in auto)
    qed (use 1(2) in auto)
  qed
  then show ?thesis using assms by fastforce
qed

lemma readFixSize_length: "readFixSize rd buf n s = Some (r, buf', s') \<Longrightarrow> length buf' = length buf"
  by (auto simp: readFixSize_def dest: read_fix_length)

text \<open>A request that comes back has a body of the length asked for, and is otherwise the parser's.\<close>

lemma recv_body_result:
  assumes "recv_body mo cast rd p buf u s = Some (Inr (Some rq), s')" "0 \<le> u" "u \<le> int (length buf)"
    and "rq_body (qp_data p) = []"
  shows "rq_headers rq = rq_headers (qp_data p) \<and> rq_close rq = rq_close (qp_data p)
    \<and> length (rq_body rq) = nat (sint (request_getContentLength mo cast p))"
proof -
  define n where "n = sint (request_getContentLength mo cast p)"
  define len where "len = (if n \<ge> u then nat u else nat n)"
  define body where "body = take len buf @ replicate (nat n - len) 0"
  define fin where "fin b = (qp_data p)\<lparr>rq_body := text_of b\<rparr>" for b
  have run: "recv_body mo cast rd p buf u s =
     (if n > 0 then
        if n - u > 0 then
          (case readFixSize rd (drop len body) (nat (n - u)) s of
             None \<Rightarrow> None
           | Some (Inl e, _, s1) \<Rightarrow> Some (Inl e, s1)
           | Some (Inr r, tail, s1) \<Rightarrow>
               if r \<le> 0 then Some (Inr None, s1) else Some (Inr (Some (fin (take len body @ tail))), s1))
        else Some (Inr (Some (fin body)), s)
      else Some (Inr (Some (qp_data p)), s))"
    unfolding recv_body_def n_def [symmetric] Let_def len_def [symmetric] body_def [symmetric] fin_def [symmetric] by (rule refl)
  have fin: "rq_headers (fin b) = rq_headers (qp_data p)" "rq_close (fin b) = rq_close (qp_data p)"
    "length (rq_body (fin b)) = length b" for b by (simp_all add: fin_def)
  show ?thesis
  proof (cases "0 < n")
    case True
    then have len: "len \<le> length buf" "len \<le> nat n" using assms(2,3) by (auto simp: len_def)
    then have body: "length body = nat n" by (simp add: body_def)
    show ?thesis
    proof (cases "0 < n - u")
      case more: True
      obtain r tail where "readFixSize rd (drop len body) (nat (n - u)) s = Some (Inr r, tail, s')"
        "rq = fin (take len body @ tail)"
        using assms(1) True more unfolding run by (auto split: option.splits sum.splits if_splits)
      then show ?thesis using readFixSize_length [of rd "drop len body"] body len(2) fin by (auto simp: n_def)
    next
      case False
      then have "rq = fin body" using assms(1) True unfolding run by simp
      then show ?thesis using True fin body by (simp add: n_def)
    qed
  next
    case False
    then show ?thesis using assms(1,4) unfolding run by (simp add: n_def)
  qed
qed

lemma parser_new [simp]:
  "rq_body (qp_data (HttpRequestParser_new sc mo)) = []" "rq_close (qp_data (HttpRequestParser_new sc mo)) = True"
  by (simp_all add: HttpRequestParser_new_def HttpRequest_new_def)

lemma recvRequest_result:
  assumes "recvRequest sc mo cast rd cl sz fresh s = Some (Inr (Some rq), s')" "input_stream rd pending"
    and "scanner_in_bounds sc" "int (length fresh) = uint sz"
  shows "rq_close rq \<and> length (rq_body rq) = nat (sint (getHeaderAs mo cast ''content-length'' (0 :: u64) rq))"
proof -
  obtain p buf u s1 where h: "recv_head sc mo rd sz (HttpRequestParser_new sc mo) fresh 0 s = Some (Inr (Some (p, buf, u)), s1)"
    "recv_body mo cast rd p buf u s1 = Some (Inr (Some rq), s')"
    using assms(1) by (auto simp: recvRequest_def close_null_def split: option.splits sum.splits prod.splits)
  have "length buf = length fresh \<and> 0 \<le> u \<and> u \<le> int (length fresh) \<and> rq_body (qp_data p) = [] \<and> rq_close (qp_data p)"
    using recv_head_kept [OF h(1)] assms(2-4) unfolding head_kept_def by fastforce
  then show ?thesis using recv_body_result [OF h(2)] by (simp add: request_getContentLength_def getHeaderAs_def)
qed

lemma not_connected_after_close: "stream_close c s = (Inr x, s') \<Longrightarrow> \<not> stream_connected s'"
proof (cases "ss_socket s")
  case (Some sock)
  have closed: "\<not> m_isConnected (fst st')" if "sock_close c st = (Inr b, st')" for st b st'
    using that by (cases st)
      (auto simp: sock_close_def with_sock_run set_sock_run run_back hooked_def split: if_splits prod.splits)
  assume "stream_close c s = (Inr x, s')"
  then show ?thesis using Some closed
    by (auto simp: stream_close_def run_back on_sock_def stream_connected_def isConnected_def split: prod.splits)
qed (simp add: stream_close_def stream_connected_def)

text \<open>Reading the body of a request.\<close>

lemma recv_body_reads:
  assumes "sint (request_getContentLength mo cast p) = int n" "0 < n" "n < 2 ^ 31" "u \<le> length buf"
    and "delivers (stream_read c) (n - u) s"
  shows "\<exists>k s'. recv_body mo cast (stream_read c) p buf (int u) s
      = Some (Inr (if k = n - u then Some ((qp_data p)\<lparr>rq_body := text_of (take n (take u buf @ ss_in s))\<rparr>) else None), s')
    \<and> k \<le> n - u \<and> ss_in s' = drop k (ss_in s)"
proof (cases "u < n")
  case False
  then have "recv_body mo cast (stream_read c) p buf (int u) s = Some (Inr (Some ((qp_data p)\<lparr>rq_body := text_of (take n buf)\<rparr>)), s)"
    using assms(1,2) by (auto simp: recv_body_def Let_def)
  moreover have eq: "take n (take u buf @ ss_in s) = take n buf" using False assms(4) by (simp add: min_def)
  ultimately show ?thesis unfolding eq using False by (intro exI [of _ 0] exI [of _ s]) simp
next
  case True
  define body where "body = take u buf @ replicate (n - u) 0"
  have body: "length (drop u body) = n - u" "take u body = take u buf" using assms(4) by (simp_all add: body_def)
  have lens: "length (drop u body) < 2 ^ 63" "0 + (n - u) = length (drop u body)" using assms(3) body(1) by simp_all
  obtain r tail s' k where f: "read_fix (stream_read c) (drop u body) (of_nat 0) (of_nat (n - u)) s = Some (Inr r, tail, s')"
    "socket_input.filled (drop u body) 0 (n - u) k s r tail s'"
    using socket_input.read_fix_spec [OF assms(5) lens] by blast
  have "to_int (int (n - u)) = int (n - u)" using assms(3) by (intro to_int_small) simp_all
  then have rf: "readFixSize (stream_read c) (drop u body) (n - u) s = Some (Inr (if r then int (n - u) else 0), tail, s')"
    using f(1) by (simp add: readFixSize_def fix_result_def)
  have k: "k \<le> n - u" "r \<longleftrightarrow> k = n - u" "tail = overwrite (drop u body) 0 (take k (ss_in s))" "k \<le> length (ss_in s)"
    "ss_in s' = drop k (ss_in s)"
    using f(2) by (auto simp: socket_input.filled_def)
  have "take u buf @ tail = take n (take u buf @ ss_in s)" if r
    using that k body(1) assms(4) True by (simp add: overwrite_def min_def)
  moreover have run: "recv_body mo cast (stream_read c) p buf (int u) s =
      (case readFixSize (stream_read c) (drop u body) (n - u) s of
         None \<Rightarrow> None
       | Some (Inl e, _, s1) \<Rightarrow> Some (Inl e, s1)
       | Some (Inr r, tail, s1) \<Rightarrow>
           if r \<le> 0 then Some (Inr None, s1)
           else Some (Inr (Some ((qp_data p)\<lparr>rq_body := text_of (take u buf @ tail)\<rparr>)), s1))"
  proof -
    have "0 < int n" "int u \<le> int n" "0 < int n - int u" "nat (int n - int u) = n - u" using assms(2) True by simp_all
    then show ?thesis unfolding recv_body_def assms(1) Let_def body(2) [symmetric]
      by (simp only: if_True nat_int body_def [symmetric])
  qed
  ultimately have "recv_body mo cast (stream_read c) p buf (int u) s
      = Some (Inr (if r then Some ((qp_data p)\<lparr>rq_body := text_of (take n (take u buf @ ss_in s))\<rparr>) else None), s')"
    unfolding run rf using True by simp
  then show ?thesis using k by (intro exI [of _ k] exI [of _ s']) simp
qed

section \<open>Properties\<close>


text \<open>A scanner that takes one byte for the head.\<close>

definition demo_scanner :: "nat scanner" where
  "demo_scanner = \<lparr>sc_init = 0, sc_execute = (\<lambda>p data len. (([], min 1 len), p + 1)), sc_finish = (\<lambda>_. 1), sc_has_error = (\<lambda>_. False)\<rparr>"

lemma demo_head:
  assumes "stream_read c 8 s = (Inr (3, [7, 8, 9]), s1)"
  shows "\<exists>p buf. recv_head demo_scanner demo_map (stream_read c) 8 (HttpRequestParser_new demo_scanner demo_map) (replicate 8 0) 0 s
    = Some (Inr (Some (p, buf, 2)), s1) \<and> qp_data p = HttpRequest_new demo_map 0x11 True"
  using assms
  by (subst recv_head.simps) (simp add: Let_def request_execute_def demo_scanner_def request_hasError_def
    request_isFinished_def HttpRequestParser_new_def HttpRequest_new_def demo_map_def to_int_def)

lemma demo_request:
  "session_recvRequest demo_scanner demo_map (\<lambda>_. None) demo_calls 8 (replicate 8 0) (demo_stream ((3, 0) # rs) [7, 8, 9])
    = Some (Inr (Some (HttpRequest_new demo_map 0x11 True)),
        (demo_stream rs [])\<lparr>ss_hooks := (demo_hooks rs)\<lparr>t_hook_enable := False, h_calls := [Sys_io ''recv'' 5]\<rparr>\<rparr>)"
proof -
  have "stream_read demo_calls 8 (demo_stream ((3, 0) # rs) [7, 8, 9]) = (Inr (3, [7, 8, 9]),
      (demo_stream rs [])\<lparr>ss_hooks := (demo_hooks rs)\<lparr>t_hook_enable := False, h_calls := [Sys_io ''recv'' 5]\<rparr>\<rparr>)"
    unfolding demo_read by (simp add: take_in_def offered_def to_int_def demo_stream_def demo_hooks_def)
  from demo_head [OF this] show ?thesis
    by (auto simp: session_recvRequest_def recvRequest_def recv_body_def request_getContentLength_def getHeaderAs_def
      getAs_def demo_map_def HttpRequest_new_def)
qed

lemma demo_scanner_in_bounds: "scanner_in_bounds demo_scanner"
  by (simp add: scanner_in_bounds_def demo_scanner_def)


text \<open>When there is no request, because reading has failed or ended, the head is malformed or longer than
  the buffer, or the body is incomplete, the connection has been closed.\<close>

theorem recvRequest_null_closed:
  assumes "session_recvRequest sc mo cast c sz fresh s = Some (Inr None, s')"
  shows "\<not> stream_connected s'"
proof -
  have "\<exists>s1 x. stream_close c s1 = (Inr x, s')"
    using assms by (auto simp: session_recvRequest_def recvRequest_def close_null_def
      split: option.splits sum.splits prod.splits)
  then show ?thesis using not_connected_after_close by blast
qed

lemma demo_null:
  "\<exists>s' sock. session_recvRequest demo_scanner demo_map (\<lambda>_. None) demo_calls 8 (replicate 8 0)
      (demo_stream [(0, 0), (0, 0)] []) = Some (Inr None, s') \<and> ss_socket s' = Some sock \<and> m_sock sock = -1 \<and> \<not> m_isConnected sock"
proof -
  obtain s1 where rd: "stream_read demo_calls 8 (demo_stream [(0, 0), (0, 0)] []) = (Inr (0, []), s1)"
    "s1 = (demo_stream [(0, 0)] [])\<lparr>ss_hooks := (demo_hooks [(0, 0)])\<lparr>t_hook_enable := False,
        h_calls := [Sys_io ''recv'' 5], h_errno := 0\<rparr>\<rparr>"
    unfolding demo_read by (simp add: take_in_def offered_def to_int_def demo_stream_def)
  have "\<exists>x s' sock. stream_close demo_calls s1 = (Inr x, s') \<and> ss_socket s' = Some sock \<and> m_sock sock = -1 \<and> \<not> m_isConnected sock"
    unfolding rd(2) by (simp add: stream_close_def demo_stream_def on_sock_def sock_close_def thn_def bnd_def hooked_def close_def
      sys_def demo_hooks_def CreateTCPSocket_def Socket_new_def set_sock_def)
  then show ?thesis
    using rd(1) by (auto simp: session_recvRequest_def recvRequest_def recv_head.simps close_null_def)
qed

lemma recvRequest_null_closed_witness:
  "\<exists>s'. session_recvRequest demo_scanner demo_map (\<lambda>_. None) demo_calls 8 (replicate 8 0)
      (demo_stream [(0, 0), (0, 0)] []) = Some (Inr None, s') \<and> \<not> stream_connected s'"
  using demo_null recvRequest_null_closed [of demo_scanner demo_map "\<lambda>_. None" demo_calls 8 "replicate 8 0"
    "demo_stream [(0, 0), (0, 0)] []"] by blast



text \<open>While the connection keeps accepting, a response is sent in full, byte by byte its text, and the
  length of this is returned; when a write returns 0 before that, so does the call.\<close>

theorem sendResponse_sends:
  assumes "accepts (stream_write c) (bytes_of (response_dump mo rsp)) s" "length (response_dump mo rsp) < 2 ^ 31"
  shows "\<exists>k s'. session_sendResponse mo c rsp s
      = Some (Inr (if k = length (response_dump mo rsp) then int k else 0), s')
    \<and> k \<le> length (response_dump mo rsp) \<and> text_of (ss_out s') = text_of (ss_out s) @ take k (response_dump mo rsp)"
proof -
  obtain k s' where "writeFixSize (stream_write c) (bytes_of (response_dump mo rsp)) (length (response_dump mo rsp)) s
      = Some (Inr (if k = length (response_dump mo rsp) then int k else 0), s')"
    "k \<le> length (response_dump mo rsp)" "ss_out s' = ss_out s @ take k (bytes_of (response_dump mo rsp))"
    using writeFixSize_sends [OF assms(1)] assms(2) by auto
  moreover have "text_of (xs @ take k (bytes_of t)) = text_of xs @ take k t" for xs t
    by (simp add: text_of_def flip: take_map) (simp flip: text_of_def)
  ultimately show ?thesis
    by (intro exI [of _ k] exI [of _ s']) (simp add: session_sendResponse_def sendResponse_def Let_def)
qed

lemma sendResponse_sends_witness:
  "\<exists>k s'. session_sendResponse demo_map demo_calls (HttpResponse_new demo_map 0x11 True) (demo_stream [(0, 0)] []) = Some (Inr k, s')"
proof -
  let ?r = "HttpResponse_new demo_map 0x11 True"
  have "length (response_dump demo_map ?r) < 100" by code_simp
  then have len: "length (response_dump demo_map ?r) < 2 ^ 31" by simp
  obtain s' where "stream_write demo_calls (Some (bytes_of (response_dump demo_map ?r))) (demo_stream [(0, 0)] []) = (Inr 0, s')"
    unfolding demo_write by (simp add: put_out_def offered_def to_int_def demo_stream_def)
  then have "accepts (stream_write demo_calls) (bytes_of (response_dump demo_map ?r)) (demo_stream [(0, 0)] [])"
    by (rule acc_end)
  from sendResponse_sends [OF this len] show ?thesis by blast
qed

end
