(* ===== verification/Servlet.thy ===== *)
theory Servlet
  imports Http
begin

text \<open>
  \<open>src/src/http/servlet.h\<close> and \<open>src/src/http/servlet.cpp\<close>: servlets and their dispatch by the path of the
  request. A handler is given the request, the response and the session and returns the response and the
  session it leaves; \<open>Other_Servlet\<close> stands for any other class of servlets, another \<open>ServletDispatch\<close> among
  them. A null pointer is \<open>None\<close>. \<open>fnmatch\<close> is a parameter: \<open>glob pattern uri\<close> holds when it returns 0. The
  lock of the table, held for the length of an operation, is not part of the model.
\<close>

section \<open>Servlets\<close>

type_synonym ('m, 's) handler =
  "'m http_request \<Rightarrow> 'm http_response \<times> 's \<Rightarrow> (fault + int) \<times> 'm http_response \<times> 's"

datatype ('m, 's) servlet =
    Function_Servlet "('m, 's) handler"
  | NotFoundServlet
  | Other_Servlet string "('m, 's) handler"

definition getName :: "('m, 's) servlet \<Rightarrow> string" where
  "getName slt = (case slt of Function_Servlet _ \<Rightarrow> ''FunctionServlet'' | NotFoundServlet \<Rightarrow> ''NotFoundServlet'' | Other_Servlet name _ \<Rightarrow> name)"

definition FunctionServlet_handle :: "('m, 's) handler \<Rightarrow> ('m, 's) handler" where
  "FunctionServlet_handle cb request st = cb request st"

definition RSP_BODY :: string where
  "RSP_BODY = ''<html>'' @ ''<head><title>404 Not Found</title></head>'' @ ''<body>''
     @ ''<center><h1>404 Not Found</h1></center><hr>'' @ ''<center>agent/1.0.0</center>'' @ ''</body>'' @ ''</html>''"

definition NotFoundServlet_handle :: "'m map_ops \<Rightarrow> ('m, 's) handler" where
  "NotFoundServlet_handle mo request st =
     (let hms = mo_put mo ''Server'' ''agent/1.0.0'' (mo_put mo ''Content-Type'' ''text/html'' (mo_empty mo))
      in (Inr 0, (fst st)\<lparr>rs_headers := hms, rs_status := HttpStatus_NOT_FOUND, rs_body := RSP_BODY\<rparr>, snd st))"

definition servlet_handle :: "'m map_ops \<Rightarrow> ('m, 's) servlet \<Rightarrow> ('m, 's) handler" where
  "servlet_handle mo slt =
     (case slt of
        Function_Servlet cb \<Rightarrow> FunctionServlet_handle cb
      | NotFoundServlet \<Rightarrow> NotFoundServlet_handle mo
      | Other_Servlet _ h \<Rightarrow> h)"

section \<open>The dispatch table\<close>

text \<open>\<open>m_datas\<close> is an unordered map, whose order nothing depends on.\<close>

record ('m, 's) dispatch =
  m_datas :: "string \<Rightarrow> ('m, 's) servlet option option"
  m_globs :: "(string \<times> ('m, 's) servlet option) list"
  m_default :: "('m, 's) servlet option"

definition ServletDispatch_new :: "('m, 's) dispatch" where
  "ServletDispatch_new = \<lparr>m_datas = Map.empty, m_globs = [], m_default = Some NotFoundServlet\<rparr>"

definition addServlet :: "string \<Rightarrow> ('m, 's) servlet option \<Rightarrow> ('m, 's) dispatch \<Rightarrow> ('m, 's) dispatch" where
  "addServlet uri slt d = d\<lparr>m_datas := (m_datas d)(uri \<mapsto> slt)\<rparr>"

definition addServlet_cb :: "string \<Rightarrow> ('m, 's) handler \<Rightarrow> ('m, 's) dispatch \<Rightarrow> ('m, 's) dispatch" where
  "addServlet_cb uri cb d = d\<lparr>m_datas := (m_datas d)(uri \<mapsto> Some (Function_Servlet cb))\<rparr>"

text \<open>Erasing the first entry of a pattern.\<close>

fun erase_first :: "string \<Rightarrow> (string \<times> 'a) list \<Rightarrow> (string \<times> 'a) list" where
  "erase_first uri [] = []"
| "erase_first uri ((u, slt) # globs) = (if u = uri then globs else (u, slt) # erase_first uri globs)"

definition addGlobServlet :: "string \<Rightarrow> ('m, 's) servlet option \<Rightarrow> ('m, 's) dispatch \<Rightarrow> ('m, 's) dispatch" where
  "addGlobServlet uri slt d = d\<lparr>m_globs := erase_first uri (m_globs d) @ [(uri, slt)]\<rparr>"

definition addGlobServlet_cb :: "string \<Rightarrow> ('m, 's) handler \<Rightarrow> ('m, 's) dispatch \<Rightarrow> ('m, 's) dispatch" where
  "addGlobServlet_cb uri cb d = addGlobServlet uri (Some (Function_Servlet cb)) d"

definition delServlet :: "string \<Rightarrow> ('m, 's) dispatch \<Rightarrow> ('m, 's) dispatch" where
  "delServlet uri d = d\<lparr>m_datas := (m_datas d)(uri := None)\<rparr>"

definition delGlobServlet :: "string \<Rightarrow> ('m, 's) dispatch \<Rightarrow> ('m, 's) dispatch" where
  "delGlobServlet uri d = d\<lparr>m_globs := erase_first uri (m_globs d)\<rparr>"

definition getServlet :: "string \<Rightarrow> ('m, 's) dispatch \<Rightarrow> ('m, 's) servlet option" where
  "getServlet uri d = (case m_datas d uri of None \<Rightarrow> None | Some slt \<Rightarrow> slt)"

fun find_glob :: "(string \<Rightarrow> bool) \<Rightarrow> (string \<times> 'a) list \<Rightarrow> 'a option" where
  "find_glob hit [] = None"
| "find_glob hit ((u, slt) # globs) = (if hit u then Some slt else find_glob hit globs)"

definition getGlobServlet :: "string \<Rightarrow> ('m, 's) dispatch \<Rightarrow> ('m, 's) servlet option" where
  "getGlobServlet uri d = (case find_glob (\<lambda>u. u = uri) (m_globs d) of None \<Rightarrow> None | Some slt \<Rightarrow> slt)"

definition getMatchedServlet :: "(string \<Rightarrow> string \<Rightarrow> bool) \<Rightarrow> string \<Rightarrow> ('m, 's) dispatch \<Rightarrow> ('m, 's) servlet option" where
  "getMatchedServlet glob uri d =
     (case m_datas d uri of
        Some slt \<Rightarrow> slt
      | None \<Rightarrow>
          (case find_glob (\<lambda>u. glob (c_str u) (c_str uri)) (m_globs d) of
             Some slt \<Rightarrow> slt
           | None \<Rightarrow> m_default d))"

text \<open>The result of the servlet is dropped.\<close>

definition dispatch_handle :: "(string \<Rightarrow> string \<Rightarrow> bool) \<Rightarrow> 'm map_ops \<Rightarrow> ('m, 's) dispatch \<Rightarrow> ('m, 's) handler" where
  "dispatch_handle glob mo d request st =
     (case getMatchedServlet glob (rq_path request) d of
        None \<Rightarrow> (Inr 0, st)
      | Some slt \<Rightarrow>
          (case servlet_handle mo slt request st of
             (Inl e, st1) \<Rightarrow> (Inl e, st1)
           | (Inr _, st1) \<Rightarrow> (Inr 0, st1)))"

section \<open>Reaching a table\<close>

text \<open>The changes a table can see, and the patterns it has, in order and each once.\<close>

inductive dispatch_reachable :: "('m, 's) dispatch \<Rightarrow> bool" where
  dr_new: "dispatch_reachable ServletDispatch_new"
| dr_add: "dispatch_reachable d \<Longrightarrow> dispatch_reachable (addServlet uri slt d)"
| dr_add_glob: "dispatch_reachable d \<Longrightarrow> dispatch_reachable (addGlobServlet uri slt d)"
| dr_del: "dispatch_reachable d \<Longrightarrow> dispatch_reachable (delServlet uri d)"
| dr_del_glob: "dispatch_reachable d \<Longrightarrow> dispatch_reachable (delGlobServlet uri d)"
| dr_default: "dispatch_reachable d \<Longrightarrow> dispatch_reachable (d\<lparr>m_default := slt\<rparr>)"

definition patterns :: "('m, 's) dispatch \<Rightarrow> string list" where
  "patterns d = map fst (m_globs d)"

lemma map_fst_erase_first: "map fst (erase_first uri gs) = remove1 uri (map fst gs)"
  by (induction uri gs rule: erase_first.induct) auto

lemma patterns_distinct: "dispatch_reachable d \<Longrightarrow> distinct (patterns d)"
proof (induction rule: dispatch_reachable.induct)
  case (dr_add_glob d uri slt)
  then show ?case by (simp add: patterns_def addGlobServlet_def map_fst_erase_first set_remove1_eq)
qed (simp_all add: patterns_def ServletDispatch_new_def addServlet_def delServlet_def delGlobServlet_def
    map_fst_erase_first)

lemma erase_first_filter: "distinct (map fst gs) \<Longrightarrow> erase_first uri gs = filter (\<lambda>(u, _). u \<noteq> uri) gs"
proof (induction uri gs rule: erase_first.induct)
  case (2 uri u slt gs)
  then have "filter (\<lambda>(v, _). v \<noteq> uri) gs = gs" if "u = uri" using that by (auto simp: filter_id_conv image_iff)
  then show ?case using 2 by auto
qed simp

section \<open>The history of a table\<close>

text \<open>What a table is to do, told by the changes made to it, the earliest first: the servlet of a path is the
  one added last, if it has not been deleted since; a pattern is in use if its last change added it, and the
  patterns in use count in the order of these last changes.\<close>

datatype ('m, 's) change =
    Add string "('m, 's) servlet option"
  | Del string
  | Add_Glob string "('m, 's) servlet option"
  | Del_Glob string

definition make_change :: "('m, 's) change \<Rightarrow> ('m, 's) dispatch \<Rightarrow> ('m, 's) dispatch" where
  "make_change c =
     (case c of Add uri slt \<Rightarrow> addServlet uri slt | Del uri \<Rightarrow> delServlet uri
      | Add_Glob p slt \<Rightarrow> addGlobServlet p slt | Del_Glob p \<Rightarrow> delGlobServlet p)"

definition on_pattern :: "string \<Rightarrow> ('m, 's) change \<Rightarrow> bool" where
  "on_pattern p c = (case c of Add_Glob q _ \<Rightarrow> q = p | Del_Glob q \<Rightarrow> q = p | _ \<Rightarrow> False)"

fun in_use :: "('m, 's) change list \<Rightarrow> (string \<times> ('m, 's) servlet option) list" where
  "in_use [] = []"
| "in_use (Add_Glob p slt # cs) = (if \<exists>c \<in> set cs. on_pattern p c then in_use cs else (p, slt) # in_use cs)"
| "in_use (c # cs) = in_use cs"

fun last_for :: "string \<Rightarrow> ('m, 's) change list \<Rightarrow> ('m, 's) servlet option option \<Rightarrow> ('m, 's) servlet option option" where
  "last_for uri [] r = r"
| "last_for uri (Add u slt # cs) r = last_for uri cs (if u = uri then Some slt else r)"
| "last_for uri (Del u # cs) r = last_for uri cs (if u = uri then None else r)"
| "last_for uri (c # cs) r = last_for uri cs r"

lemma in_use_append:
  "in_use (cs @ [c]) = (if \<exists>p. on_pattern p c then filter (\<lambda>(q, _). \<not> on_pattern q c) (in_use cs) else in_use cs)
    @ (case c of Add_Glob p slt \<Rightarrow> [(p, slt)] | _ \<Rightarrow> [])"
proof (induction cs rule: in_use.induct)
  case 1
  then show ?case by (cases c) auto
qed (auto simp: on_pattern_def split: change.splits)

lemma last_for_append: "last_for uri (cs @ [c]) r = last_for uri [c] (last_for uri cs r)"
  by (induction uri cs r rule: last_for.induct) simp_all

lemma history_reachable: "dispatch_reachable d \<Longrightarrow> dispatch_reachable (fold make_change h d)"
  by (induction h arbitrary: d) (auto simp: make_change_def intro: dispatch_reachable.intros split: change.splits)

lemma history_globs: "m_globs (fold make_change h ServletDispatch_new) = in_use h"
proof (induction h rule: rev_induct)
  case (snoc c h)
  let ?d = "fold make_change h ServletDispatch_new"
  have "distinct (map fst (m_globs ?d))"
    using patterns_distinct [OF history_reachable [OF dr_new]] by (simp add: patterns_def)
  then have "erase_first p (in_use h) = filter (\<lambda>(u, _). u \<noteq> p) (in_use h)" for p
    using erase_first_filter snoc.IH by metis
  then show ?case using snoc.IH
    by (cases c) (auto simp: make_change_def in_use_append on_pattern_def addServlet_def delServlet_def
      addGlobServlet_def delGlobServlet_def eq_commute)
qed (simp add: ServletDispatch_new_def)

lemma history_datas: "m_datas (fold make_change h ServletDispatch_new) uri = last_for uri h None"
proof (induction h rule: rev_induct)
  case (snoc c h)
  then show ?case
    by (cases c) (auto simp: make_change_def last_for_append addServlet_def delServlet_def addGlobServlet_def delGlobServlet_def)
qed (simp add: ServletDispatch_new_def)

lemma history_default: "m_default (fold make_change h ServletDispatch_new) = Some NotFoundServlet"
proof -
  have "m_default (fold make_change h d) = m_default d" for d
    by (induction h arbitrary: d) (auto simp: make_change_def addServlet_def delServlet_def addGlobServlet_def
    delGlobServlet_def split: change.splits)
  then show ?thesis by (simp add: ServletDispatch_new_def)
qed

definition route :: "(string \<Rightarrow> string \<Rightarrow> bool) \<Rightarrow> string \<Rightarrow> ('m, 's) change list \<Rightarrow> ('m, 's) servlet option" where
  "route glob uri h =
     (case last_for uri h None of
        Some slt \<Rightarrow> slt
      | None \<Rightarrow>
          (case filter (\<lambda>(p, _). glob (c_str p) (c_str uri)) (in_use h) of
             (_, slt) # _ \<Rightarrow> slt
           | [] \<Rightarrow> Some NotFoundServlet))"

lemma find_glob_filter: "find_glob hit gs = (case filter (\<lambda>(p, _). hit p) gs of (_, slt) # _ \<Rightarrow> Some slt | [] \<Rightarrow> None)"
  by (induction hit gs rule: find_glob.induct) auto

section \<open>Properties\<close>

text \<open>C22: the table refines its history: the servlet a path is dispatched to is the last one added for the
  path itself, or that of the first pattern in use that matches, or the default one; and the same pattern is
  never in the table twice.\<close>

theorem dispatch_refines_history:
  "getMatchedServlet glob uri (fold make_change h ServletDispatch_new) = route glob uri h
    \<and> distinct (patterns (fold make_change h ServletDispatch_new))"
proof
  show "getMatchedServlet glob uri (fold make_change h ServletDispatch_new) = route glob uri h"
    by (simp add: getMatchedServlet_def history_globs history_datas history_default route_def find_glob_filter
      split: option.split list.split)
qed (rule patterns_distinct [OF history_reachable [OF dr_new]])

text \<open>A request whose path has no servlet and matches no pattern is answered by the default servlet with
  the status 404 and the page, and the handler returns 0; the session is left alone.\<close>

theorem not_found:
  assumes "m_datas d (rq_path rq) = None" "\<forall>p \<in> set (patterns d). \<not> glob (c_str p) (c_str (rq_path rq))"
    and "m_default d = Some NotFoundServlet"
  shows "\<exists>rs'. dispatch_handle glob mo d rq (rs, s) = (Inr 0, rs', s) \<and> rs_status rs' = HttpStatus_NOT_FOUND
    \<and> HttpStatusToString (rs_status rs') = ''Not Found'' \<and> rs_body rs' = RSP_BODY \<and> rs_close rs' = rs_close rs
    \<and> rs_version rs' = rs_version rs"
proof -
  have "filter (\<lambda>(p, _). glob (c_str p) (c_str (rq_path rq))) (m_globs d) = []"
    using assms(2) by (auto simp: patterns_def filter_empty_conv)
  then have "getMatchedServlet glob (rq_path rq) d = Some NotFoundServlet"
    using assms(1,3) by (simp add: getMatchedServlet_def find_glob_filter)
  moreover have "HttpStatusToString HttpStatus_NOT_FOUND = ''Not Found''" by code_simp
  ultimately show ?thesis by (simp add: dispatch_handle_def servlet_handle_def NotFoundServlet_handle_def Let_def)
qed

lemma not_found_witness:
  "\<exists>rs'. dispatch_handle (\<lambda>_ _. False) demo_map ServletDispatch_new (HttpRequest_new demo_map 0x11 True)
      (HttpResponse_new demo_map 0x11 True, ()) = (Inr 0, rs', ()) \<and> rs_status rs' = 404"
  using not_found [of ServletDispatch_new "HttpRequest_new demo_map 0x11 True" "\<lambda>_ _. False" demo_map
    "HttpResponse_new demo_map 0x11 True" "()"]
  by (auto simp: ServletDispatch_new_def HttpStatus_NOT_FOUND_def)

end
