(* ===== verification/Tcp_Server.thy ===== *)
theory Tcp_Server
  imports Socket
begin

text \<open>
  \<open>src/src/http/tcp_server.h\<close> and \<open>src/src/http/tcp_server.cpp\<close>: a server that accepts connections on a list
  of sockets. Sockets are shared with the accepting coroutines, so they are kept in a store, \<open>ts_sockets\<close>,
  and \<open>m_socks\<close> holds their places in it. What is scheduled on the two IO managers is collected in
  \<open>ts_accept\<close> and \<open>ts_clients\<close>; of the managers themselves the model keeps whether they are there.
\<close>

section \<open>State\<close>

datatype accept_task = Start_Accept nat | Close_Sockets

record tcp_server =
  ts_sockets :: "socket_object list"
  ts_hooks :: hooks
  ts_accept :: "accept_task list"
  ts_clients :: "socket_object list"
  m_socks :: "nat list"
  m_worker :: bool
  m_acceptWorker :: bool
  m_readTimeout :: u64
  m_name :: string
  m_isStop :: bool

definition TcpServer_new :: "u64 \<Rightarrow> bool \<Rightarrow> bool \<Rightarrow> hooks \<Rightarrow> tcp_server" where
  "TcpServer_new read_timeout worker accept_worker h =
     \<lparr>ts_sockets = [], ts_hooks = h, ts_accept = [], ts_clients = [], m_socks = [], m_worker = worker,
      m_acceptWorker = accept_worker, m_readTimeout = read_timeout, m_name = ''agent/1.0.0'', m_isStop = True\<rparr>"

definition SOMAXCONN :: int where "SOMAXCONN = 4096"

text \<open>An operation of one of the sockets, and of a socket that is not in the store.\<close>

definition on_socket :: "nat \<Rightarrow> (sock_state, 'a) op \<Rightarrow> (tcp_server, 'a) op" where
  "on_socket i m ts =
     (let (r, (s, h)) = m (ts_sockets ts ! i, ts_hooks ts) in (r, ts\<lparr>ts_sockets := (ts_sockets ts)[i := s], ts_hooks := h\<rparr>))"

definition on_new_socket :: "socket_object \<Rightarrow> (sock_state, 'a) op \<Rightarrow> (tcp_server, 'a \<times> socket_object) op" where
  "on_new_socket s m ts =
     (let (r, (s1, h)) = m (s, ts_hooks ts) in (map_sum id (\<lambda>x. (x, s1)) r, ts\<lparr>ts_hooks := h\<rparr>))"

fun for_each :: "'a list \<Rightarrow> ('a \<Rightarrow> (tcp_server, unit) op) \<Rightarrow> (tcp_server, unit) op" where
  "for_each [] f = ret ()"
| "for_each (x # xs) f = thn (f x) (for_each xs f)"

section \<open>Binding\<close>

text \<open>A socket nobody refers to any more closes itself. Those given up by \<open>m_socks.clear()\<close> may still be held
  by an accepting coroutine.\<close>

definition release :: "calls \<Rightarrow> nat \<Rightarrow> (tcp_server, unit) op" where
  "release c i ts = (if Start_Accept i \<in> set (ts_accept ts) then (Inr (), ts) else thn (on_socket i (sock_close c)) (ret ()) ts)"

definition clear_socks :: "calls \<Rightarrow> (tcp_server, unit) op" where
  "clear_socks c ts = thn (for_each (m_socks ts) (release c)) (upd (m_socks_update (\<lambda>_. []))) ts"

definition bind_one :: "calls \<Rightarrow> address \<Rightarrow> (tcp_server, bool) op" where
  "bind_one c addr =
     bnd (on_new_socket (CreateTCP addr) (bnd (sock_bind c addr) (\<lambda>ok. if ok then sock_listen SOMAXCONN else ret False)))
       (\<lambda>(ok, sock).
          if ok then thn (upd (\<lambda>ts. ts\<lparr>ts_sockets := ts_sockets ts @ [sock], m_socks := m_socks ts @ [length (ts_sockets ts)]\<rparr>)) (ret True)
          else thn (on_new_socket sock (sock_close c)) (ret False))"

fun bind_each :: "calls \<Rightarrow> address list \<Rightarrow> address list \<Rightarrow> (tcp_server, address list) op" where
  "bind_each c [] e_addrs = ret e_addrs"
| "bind_each c (addr # addrs) e_addrs =
     bnd (bind_one c addr) (\<lambda>ok. bind_each c addrs (if ok then e_addrs else e_addrs @ [addr]))"

definition tcp_bind :: "calls \<Rightarrow> address list \<Rightarrow> address list \<Rightarrow> (tcp_server, bool \<times> address list) op" where
  "tcp_bind c addrs e_addrs =
     bnd (bind_each c addrs e_addrs) (\<lambda>e.
       if e \<noteq> [] then thn (clear_socks c) (ret (False, e)) else ret (True, e))"

definition tcp_bind1 :: "calls \<Rightarrow> address \<Rightarrow> (tcp_server, bool) op" where
  "tcp_bind1 c addr = bnd (tcp_bind c [addr] []) (\<lambda>r. ret (fst r))"

section \<open>Accepting\<close>

definition schedule_accept :: "accept_task \<Rightarrow> (tcp_server, unit) op" where
  "schedule_accept task ts =
     (if m_acceptWorker ts then (Inr (), ts\<lparr>ts_accept := ts_accept ts @ [task]\<rparr>) else (Inl Null_Deref, ts))"

definition tcp_start :: "(tcp_server, bool) op" where
  "tcp_start ts =
     (if \<not> m_isStop ts then (Inr True, ts)
      else thn (upd (m_isStop_update (\<lambda>_. False)))
          (thn (for_each (m_socks ts) (\<lambda>i. schedule_accept (Start_Accept i))) (ret True)) ts)"

definition tcp_stop :: "(tcp_server, unit) op" where
  "tcp_stop = thn (upd (m_isStop_update (\<lambda>_. False))) (schedule_accept Close_Sockets)"

definition close_sockets :: "calls \<Rightarrow> (tcp_server, unit) op" where
  "close_sockets c ts =
     thn (for_each (m_socks ts) (\<lambda>i. thn (on_socket i (sock_cancelAll c)) (thn (on_socket i (sock_close c)) (ret ()))))
         (upd (m_socks_update (\<lambda>_. []))) ts"

definition TcpServer_destroy :: "calls \<Rightarrow> (tcp_server, unit) op" where
  "TcpServer_destroy c ts =
     thn (for_each (m_socks ts) (\<lambda>i. thn (on_socket i (sock_close c)) (ret ()))) (upd (m_socks_update (\<lambda>_. []))) ts"

text \<open>One turn of the accepting coroutine, with the new connection if there is one.\<close>

definition accept_once :: "calls \<Rightarrow> nat \<Rightarrow> (tcp_server, bool) op" where
  "accept_once c i =
     bnd (on_socket i (sock_accept c)) (\<lambda>client.
       case client of
         None \<Rightarrow> ret False
       | Some sock \<Rightarrow>
           (\<lambda>ts. bnd (on_new_socket sock (setRecvTimeout c (sint (m_readTimeout ts)))) (\<lambda>(_, sock1) ts1.
              if m_worker ts1 then (Inr True, ts1\<lparr>ts_clients := ts_clients ts1 @ [sock1]\<rparr>)
              else (Inl Null_Deref, ts1)) ts))"

text \<open>The loop, for as many turns as the list has; what others do to the server before the next turn is part of
  a turn. The result is whether the loop has ended.\<close>

fun startAccept :: "(calls \<times> (tcp_server \<Rightarrow> tcp_server)) list \<Rightarrow> nat \<Rightarrow> (tcp_server, bool) op" where
  "startAccept [] i = gets m_isStop"
| "startAccept ((c, others) # turns) i =
     (\<lambda>ts. if m_isStop ts then (Inr True, ts)
           else thn (accept_once c i) (thn (upd others) (startAccept turns i)) ts)"

definition tcp_handleClient :: "socket_object \<Rightarrow> (tcp_server, unit) op" where
  "tcp_handleClient client = ret ()"

section \<open>What others can do\<close>

inductive server_step :: "tcp_server \<Rightarrow> tcp_server \<Rightarrow> bool" where
  step_bind: "tcp_bind c addrs es ts = (r, ts') \<Longrightarrow> server_step ts ts'"
| step_start: "tcp_start ts = (r, ts') \<Longrightarrow> server_step ts ts'"
| step_stop: "tcp_stop ts = (r, ts') \<Longrightarrow> server_step ts ts'"
| step_close: "close_sockets c ts = (r, ts') \<Longrightarrow> server_step ts ts'"
| step_accept: "accept_once c i ts = (r, ts') \<Longrightarrow> server_step ts ts'"
| step_timeout: "server_step ts (ts\<lparr>m_readTimeout := v\<rparr>)"
| step_name: "server_step ts (ts\<lparr>m_name := n\<rparr>)"

inductive server_steps :: "tcp_server \<Rightarrow> tcp_server \<Rightarrow> bool" where
  steps_none: "server_steps ts ts"
| steps_one: "server_steps ts ts1 \<Longrightarrow> server_step ts1 ts2 \<Longrightarrow> server_steps ts ts2"

section \<open>The stop flag\<close>

named_theorems keep_rules \<open>operations that leave the stop flag alone\<close>

definition keeps_flag :: "(tcp_server, 'a) op \<Rightarrow> bool" where
  "keeps_flag m \<longleftrightarrow> (\<forall>ts. m_isStop (snd (m ts)) = m_isStop ts)"

lemma keeps_bnd [keep_rules]: "keeps_flag m \<Longrightarrow> (\<And>x. keeps_flag (f x)) \<Longrightarrow> keeps_flag (bnd m f)"
  by (auto simp: keeps_flag_def bnd_def split: prod.splits sum.splits) (metis snd_conv)+

lemma keeps_thn [keep_rules]: "keeps_flag m \<Longrightarrow> keeps_flag k \<Longrightarrow> keeps_flag (thn m k)"
  unfolding thn_def by (intro keep_rules)

lemma keeps_ret [keep_rules]: "keeps_flag (ret x)"
  by (simp add: keeps_flag_def)

lemma keeps_upd [keep_rules]: "(\<And>ts. m_isStop (f ts) = m_isStop ts) \<Longrightarrow> keeps_flag (upd f)"
  by (simp add: keeps_flag_def)

lemma keeps_on_socket [keep_rules]: "keeps_flag (on_socket i m)"
  by (simp add: keeps_flag_def on_socket_def split: prod.split)

lemma keeps_on_new_socket [keep_rules]: "keeps_flag (on_new_socket s m)"
  by (simp add: keeps_flag_def on_new_socket_def split: prod.split)

lemma keeps_for_each [keep_rules]: "(\<And>x. keeps_flag (f x)) \<Longrightarrow> keeps_flag (for_each xs f)"
  by (induction xs) (auto intro: keep_rules)

lemma keeps_release [keep_rules]: "keeps_flag (release c i)"
proof -
  have "keeps_flag (thn (on_socket i (sock_close c)) (ret ()))" by (intro keep_rules)
  then show ?thesis by (simp add: keeps_flag_def release_def)
qed

lemma keeps_clear [keep_rules]: "keeps_flag (clear_socks c)"
proof -
  have "keeps_flag (thn (for_each xs (release c)) (upd (m_socks_update (\<lambda>_. []))))" for xs
    by (intro keep_rules) simp
  then show ?thesis by (simp add: keeps_flag_def clear_socks_def)
qed

lemma keeps_bind_one [keep_rules]: "keeps_flag (bind_one c addr)"
proof -
  have "keeps_flag (if ok then thn (upd (\<lambda>ts. ts\<lparr>ts_sockets := ts_sockets ts @ [sock], m_socks := m_socks ts @ [length (ts_sockets ts)]\<rparr>)) (ret True)
          else thn (on_new_socket sock (sock_close c)) (ret False))" for ok sock
    by (cases ok) (auto intro!: keep_rules)
  then show ?thesis unfolding bind_one_def by (intro keep_rules) (auto split: prod.split)
qed

lemma keeps_bind_each [keep_rules]: "keeps_flag (bind_each c addrs es)"
  by (induction addrs arbitrary: es) (auto intro: keep_rules)

lemma keeps_bind [keep_rules]: "keeps_flag (tcp_bind c addrs es)"
  unfolding tcp_bind_def by (intro keep_rules) (auto intro: keep_rules)

lemma keeps_close_sockets [keep_rules]: "keeps_flag (close_sockets c)"
proof -
  have "keeps_flag (thn (for_each xs (\<lambda>i. thn (on_socket i (sock_cancelAll c)) (thn (on_socket i (sock_close c)) (ret ()))))
         (upd (m_socks_update (\<lambda>_. []))))" for xs by (intro keep_rules) simp
  then show ?thesis by (simp add: keeps_flag_def close_sockets_def)
qed

lemma keeps_accept_once [keep_rules]: "keeps_flag (accept_once c i)"
proof -
  have new: "keeps_flag (\<lambda>ts. bnd (on_new_socket sock (setRecvTimeout c (sint (m_readTimeout ts)))) (\<lambda>(_, sock1) ts1.
              if m_worker ts1 then (Inr True, ts1\<lparr>ts_clients := ts_clients ts1 @ [sock1]\<rparr>)
              else (Inl Null_Deref, ts1)) ts)" for sock
  proof -
    have "keeps_flag (\<lambda>ts1. if m_worker ts1 then (Inr True, ts1\<lparr>ts_clients := ts_clients ts1 @ [s]\<rparr>) else (Inl Null_Deref, ts1))" for s
      by (simp add: keeps_flag_def)
    then have "keeps_flag (bnd (on_new_socket sock (setRecvTimeout c v)) (\<lambda>(_, sock1) ts1.
              if m_worker ts1 then (Inr True, ts1\<lparr>ts_clients := ts_clients ts1 @ [sock1]\<rparr>)
              else (Inl Null_Deref, ts1)))" for v
      by (intro keep_rules) (auto split: prod.split)
    then show ?thesis by (simp add: keeps_flag_def)
  qed
  show ?thesis unfolding accept_once_def
  proof (rule keeps_bnd)
    show "keeps_flag (case client of None \<Rightarrow> ret False
       | Some sock \<Rightarrow>
           (\<lambda>ts. bnd (on_new_socket sock (setRecvTimeout c (sint (m_readTimeout ts)))) (\<lambda>(_, sock1) ts1.
              if m_worker ts1 then (Inr True, ts1\<lparr>ts_clients := ts_clients ts1 @ [sock1]\<rparr>)
              else (Inl Null_Deref, ts1)) ts))" for client
      by (cases client) (simp_all only: option.case new keeps_ret)
  qed (intro keep_rules)
qed

lemma flag_kept: "keeps_flag m \<Longrightarrow> m ts = (r, ts') \<Longrightarrow> m_isStop ts' = m_isStop ts"
  unfolding keeps_flag_def by (metis snd_conv)

lemma keeps_schedule [keep_rules]: "keeps_flag (schedule_accept t)"
  by (simp add: keeps_flag_def schedule_accept_def)

lemma start_clears: "tcp_start ts = (r, ts') \<Longrightarrow> \<not> m_isStop ts'"
proof (cases "m_isStop ts")
  case True
  have "keeps_flag (thn (for_each xs (\<lambda>i. schedule_accept (Start_Accept i))) (ret True))" for xs by (intro keep_rules)
  from flag_kept [OF this] show "tcp_start ts = (r, ts') \<Longrightarrow> \<not> m_isStop ts'"
    using True by (fastforce simp: tcp_start_def)
qed (simp add: tcp_start_def)

lemma stop_clears: "tcp_stop ts = (r, ts') \<Longrightarrow> \<not> m_isStop ts'"
  using flag_kept [OF keeps_schedule] by (fastforce simp: tcp_stop_def)

lemma step_runs: "server_step ts ts' \<Longrightarrow> \<not> m_isStop ts \<Longrightarrow> \<not> m_isStop ts'"
  by (induction rule: server_step.induct)
    (auto dest: flag_kept [OF keeps_bind] flag_kept [OF keeps_close_sockets] flag_kept [OF keeps_accept_once]
      start_clears stop_clears)

lemma steps_run: "server_steps ts ts' \<Longrightarrow> \<not> m_isStop ts \<Longrightarrow> \<not> m_isStop ts'"
  by (induction rule: server_steps.induct) (auto dest: step_runs)

lemma accept_goes_on:
  assumes "\<not> m_isStop ts" "\<forall>(c, others) \<in> set turns. \<forall>ts. server_steps ts (others ts)"
  shows "fst (startAccept turns i ts) \<noteq> Inr True"
  using assms
proof (induction turns arbitrary: ts)
  case (Cons t turns)
  obtain c others where t: "t = (c, others)" by force
  obtain r ts1 where once: "accept_once c i ts = (r, ts1)" by force
  have "\<not> m_isStop ts1" using flag_kept [OF keeps_accept_once once] Cons.prems(1) by simp
  then have "\<not> m_isStop (others ts1)" using steps_run Cons.prems(2) t by fastforce
  then have "fst (startAccept turns i (others ts1)) \<noteq> Inr True" using Cons by auto
  then show ?case using Cons.prems(1) t once by (cases r) simp_all
qed simp

section \<open>Binding\<close>

lemma on_new_socket_keeps:
  "on_new_socket s m ts = (r, ts') \<Longrightarrow> m_socks ts' = m_socks ts \<and> ts_sockets ts' = ts_sockets ts"
  by (auto simp: on_new_socket_def split: prod.splits)

lemma bind_one_result:
  assumes "bind_one c addr ts = (Inr ok, ts')"
  shows "if ok then m_socks ts' = m_socks ts @ [length (ts_sockets ts)] \<and> length (ts_sockets ts') = Suc (length (ts_sockets ts))
    else m_socks ts' = m_socks ts \<and> ts_sockets ts' = ts_sockets ts"
  using assms unfolding bind_one_def
  by (auto simp: run_back dest!: on_new_socket_keeps split: if_splits prod.splits)

lemma bind_each_result:
  assumes "bind_each c addrs es ts = (Inr es', ts')"
  shows "\<exists>k new. es' = es @ new \<and> k + length new = length addrs
    \<and> m_socks ts' = m_socks ts @ [length (ts_sockets ts) ..< length (ts_sockets ts) + k]"
proof -
  have "\<exists>k new. es' = es @ new \<and> k + length new = length addrs \<and> length (ts_sockets ts') = length (ts_sockets ts) + k
    \<and> m_socks ts' = m_socks ts @ [length (ts_sockets ts) ..< length (ts_sockets ts) + k]"
    using assms
  proof (induction addrs arbitrary: es ts)
    case (Cons a addrs)
    then obtain ok ts1 where one: "bind_one c a ts = (Inr ok, ts1)"
      "bind_each c addrs (if ok then es else es @ [a]) ts1 = (Inr es', ts')" by (auto simp: run_back)
    from Cons.IH [OF one(2)] obtain k new where k: "es' = (if ok then es else es @ [a]) @ new" "k + length new = length addrs"
      "length (ts_sockets ts') = length (ts_sockets ts1) + k"
      "m_socks ts' = m_socks ts1 @ [length (ts_sockets ts1) ..< length (ts_sockets ts1) + k]" by blast
    show ?case
    proof (cases ok)
      case True
      then show ?thesis using k bind_one_result [OF one(1)]
        by (intro exI [of _ "Suc k"] exI [of _ new]) (auto simp: upt_conv_Cons)
    next
      case False
      then show ?thesis using k bind_one_result [OF one(1)] by (intro exI [of _ k] exI [of _ "a # new"]) auto
    qed
  qed simp
  then show ?thesis by blast
qed

section \<open>Properties\<close>

text \<open>C27: a server that has been started is never stopped: \<open>stop\<close> clears the flag as \<open>start\<close> does, and no
  operation sets it. So \<open>isStop\<close> stays false, starting again schedules nothing, and an accepting coroutine
  never returns, whatever is done to the server between its turns.\<close>

theorem never_stops:
  assumes "tcp_start ts0 = (r, ts) \<or> tcp_stop ts0 = (r', ts)" "server_steps ts ts'"
    and "\<forall>(c, others) \<in> set turns. \<forall>ts. server_steps ts (others ts)"
  shows "\<not> m_isStop ts' \<and> tcp_start ts' = (Inr True, ts') \<and> fst (startAccept turns i ts') \<noteq> Inr True"
proof -
  have "\<not> m_isStop ts'" using assms(1,2) start_clears stop_clears steps_run by blast
  then show ?thesis using accept_goes_on [OF _ assms(3)] by (simp add: tcp_start_def)
qed

definition demo_server :: tcp_server where
  "demo_server = TcpServer_new 5000 True True (demo_hooks [])"

lemma never_stops_witness:
  "\<exists>ts. tcp_stop demo_server = (Inr (), ts) \<and> fst (startAccept [(demo_calls, id)] 0 ts) \<noteq> Inr True"
proof -
  obtain ts where s: "tcp_stop demo_server = (Inr (), ts)"
    by (simp add: tcp_stop_def demo_server_def TcpServer_new_def schedule_accept_def thn_run)
  have "\<forall>(c, others) \<in> set [(demo_calls, id)]. \<forall>ts. server_steps ts (others ts)" by (simp add: steps_none)
  from never_stops [OF disjI2 [OF s] steps_none this] s show ?thesis by blast
qed


definition demo_server0 :: tcp_server where
  "demo_server0 = TcpServer_new 5000 True True ((demo_hooks [(5, 0), (0, 0), (0, 0), (0, 0), (0, 0), (0, 0)])\<lparr>t_hook_enable := False\<rparr>)"


end
