(* ===== verification/Http_Server.thy ===== *)
theory Http_Server
  imports Http_Session Servlet Tcp_Server
begin

text \<open>
  \<open>src/src/http/http_server.h\<close> and \<open>src/src/http/http_server.cpp\<close>: what the server does with a client. The
  state is that of the client's session, the stream of a socket; servlets are given it too. The loop may run
  for as long as the client sends requests: it is a partial function. A \<open>http_server\<close> is a \<open>tcp_server\<close> with a
  dispatch table and the choice of keeping connections.
\<close>

section \<open>Serving a client\<close>

record 'm http_server = tcp_server +
  m_isKeepalive :: bool
  m_dispatch :: "('m, stream_state) dispatch"

definition HttpServer_new :: "u64 \<Rightarrow> bool \<Rightarrow> bool \<Rightarrow> bool \<Rightarrow> hooks \<Rightarrow> 'm http_server" where
  "HttpServer_new read_timeout keepalive worker accept_worker h =
     tcp_server.extend (TcpServer_new read_timeout worker accept_worker h)
       \<lparr>m_isKeepalive = keepalive, m_dispatch = ServletDispatch_new\<rparr>"

definition response_for :: "'m map_ops \<Rightarrow> bool \<Rightarrow> 'm http_request \<Rightarrow> 'm http_response" where
  "response_for mo keepalive req = HttpResponse_new mo (rq_version req) (rq_close req \<or> \<not> keepalive)"

partial_function (option) serve_loop ::
    "'p scanner \<Rightarrow> 'm map_ops \<Rightarrow> (string \<Rightarrow> u64 option) \<Rightarrow> (string \<Rightarrow> string \<Rightarrow> bool) \<Rightarrow> calls \<Rightarrow> u64 \<Rightarrow> byte list
      \<Rightarrow> bool \<Rightarrow> ('m, stream_state) dispatch \<Rightarrow> stream_state \<Rightarrow> ((fault + unit) \<times> stream_state) option" where
  "serve_loop sc mo cast glob c sz fresh keepalive d s =
     (case session_recvRequest sc mo cast c sz fresh s of
        None \<Rightarrow> None
      | Some (Inl e, s1) \<Rightarrow> Some (Inl e, s1)
      | Some (Inr None, s1) \<Rightarrow> Some (Inr (), s1)
      | Some (Inr (Some req), s1) \<Rightarrow>
          (case dispatch_handle glob mo d req (response_for mo keepalive req, s1) of
             (Inl e, rsp, s2) \<Rightarrow> Some (Inl e, s2)
           | (Inr _, rsp, s2) \<Rightarrow>
               (case session_sendResponse mo c rsp s2 of
                  None \<Rightarrow> None
                | Some (Inl e, s3) \<Rightarrow> Some (Inl e, s3)
                | Some (Inr _, s3) \<Rightarrow>
                    if keepalive then serve_loop sc mo cast glob c sz fresh keepalive d s3 else Some (Inr (), s3))))"

text \<open>The session is closed at the end, and once more when it is destroyed.\<close>

definition handleClient ::
    "'p scanner \<Rightarrow> 'm map_ops \<Rightarrow> (string \<Rightarrow> u64 option) \<Rightarrow> (string \<Rightarrow> string \<Rightarrow> bool) \<Rightarrow> calls \<Rightarrow> u64 \<Rightarrow> byte list
      \<Rightarrow> 'm http_server \<Rightarrow> stream_state \<Rightarrow> ((fault + unit) \<times> stream_state) option" where
  "handleClient sc mo cast glob c sz fresh srv s =
     map_option (\<lambda>(r, s1). case r of Inl e \<Rightarrow> (Inl e, s1) | Inr _ \<Rightarrow> thn (stream_close c) (stream_destroy c) s1)
       (serve_loop sc mo cast glob c sz fresh (m_isKeepalive srv) (m_dispatch srv) s)"

section \<open>Facts\<close>

lemma stream_close_again: "\<not> stream_connected s \<Longrightarrow> stream_destroy c s = (r, s') \<Longrightarrow> \<not> stream_connected s'"
proof (cases "ss_socket s")
  case (Some sock)
  have still: "\<not> m_isConnected (fst (snd (sock_close c st)))" if "\<not> m_isConnected (fst st)" for st
    using that by (auto simp: sock_close_def with_sock_run thn_run bnd_def hooked_def set_sock_def split: prod.splits sum.splits)
  assume "\<not> stream_connected s" "stream_destroy c s = (r, s')"
  then show ?thesis using Some still [of "(sock, ss_hooks s)"]
    by (auto simp: stream_destroy_def stream_close_def thn_run on_sock_def stream_connected_def isConnected_def
      split: prod.splits sum.splits if_splits)
qed (auto simp: stream_destroy_def stream_close_def stream_connected_def split: if_splits)

lemma stream_close_out: "stream_close c s = (r, s') \<Longrightarrow> ss_out s' = ss_out s"
  by (auto simp: stream_close_def thn_run on_sock_ss_out dest: on_sock_ss_out split: prod.splits sum.splits if_splits)

lemma stream_destroy_out: "stream_destroy c s = (r, s') \<Longrightarrow> ss_out s' = ss_out s"
  by (auto simp: stream_destroy_def dest: stream_close_out split: if_splits)

section \<open>Properties\<close>


definition demo_http_server :: "bool \<Rightarrow> (string \<times> string) list http_server" where
  "demo_http_server keepalive = HttpServer_new 5000 keepalive True True (demo_hooks [])"

lemma closed_twice:
  assumes "ss_socket s = Some sock" "m_sock sock = -1" "\<not> m_isConnected sock"
  shows "thn (stream_close c) (stream_destroy c) s = (Inr (), s)"
proof -
  have "sock_close c (sock, h) = (Inr True, (sock, h))" for h using assms(2,3) by (simp add: sock_close_def)
  then have "stream_close c s = (Inr (), s)" using assms(1)
    by (cases s) (simp add: stream_close_def thn_run on_sock_def)
  then show ?thesis by (simp add: stream_destroy_def)
qed


text \<open>Every response announces that the connection will be closed, since nothing ever clears the flag a
  request is created with; a server that keeps connections alive nevertheless goes on to the next request.\<close>

theorem responses_announce_close:
  assumes "session_recvRequest sc mo cast c sz fresh s = Some (Inr (Some req), s1)"
    and "scanner_in_bounds sc" "int (length fresh) = uint sz"
    and "dispatch_handle glob mo d req (response_for mo True req, s1) = (Inr r, rsp, s2)"
    and "session_sendResponse mo c rsp s2 = Some (Inr n, s3)"
  shows "rs_close (response_for mo keepalive req)
    \<and> serve_loop sc mo cast glob c sz fresh True d s = serve_loop sc mo cast glob c sz fresh True d s3"
proof -
  have "rq_close req"
    using recvRequest_result [OF assms(1) [unfolded session_recvRequest_def] socket_input.input_stream_axioms assms(2,3)]
    by (rule conjunct1)
  moreover have "serve_loop sc mo cast glob c sz fresh True d s = serve_loop sc mo cast glob c sz fresh True d s3"
    using assms(1,4,5) by (subst serve_loop.simps) simp
  ultimately show ?thesis by (simp add: response_for_def HttpResponse_new_def)
qed

text \<open>A client whose request is answered by the default servlet and whose connection takes nothing.\<close>

definition demo_connected :: "(int \<times> int) list \<Rightarrow> stream_state" where
  "demo_connected rs = (demo_stream rs [])\<lparr>ss_hooks := (demo_hooks rs)\<lparr>t_hook_enable := False, h_calls := [Sys_io ''recv'' 5]\<rparr>\<rparr>"

lemma demo_connected_write:
  "\<exists>s3. stream_write demo_calls (Some data) (demo_connected ((0, 0) # rs)) = (Inr 0, s3)
    \<and> s3 = (demo_stream rs [])\<lparr>ss_hooks := (demo_hooks rs)\<lparr>t_hook_enable := False,
        h_calls := [Sys_io ''recv'' 5, Sys_io ''send'' 5]\<rparr>\<rparr>"
  by (simp add: demo_connected_def stream_write_def demo_stream_def stream_connected_def isConnected_def on_sock_def
    sock_send_def transfer_def hooked_def bnd_def send_def do_io_def sys_def demo_hooks_def put_out_def offered_def to_int_def)

definition demo_rsp :: "(string \<times> string) list http_response" where
  "demo_rsp = fst (snd (NotFoundServlet_handle demo_map (HttpRequest_new demo_map 0x11 True) (HttpResponse_new demo_map 0x11 True, ())))"

lemma demo_answer:
  "dispatch_handle (\<lambda>_ _. False) demo_map ServletDispatch_new (HttpRequest_new demo_map 0x11 True)
      (response_for demo_map k (HttpRequest_new demo_map 0x11 True), s) = (Inr 0, demo_rsp, s)"
  by (simp add: dispatch_handle_def getMatchedServlet_def ServletDispatch_new_def servlet_handle_def NotFoundServlet_handle_def
    Let_def demo_rsp_def response_for_def HttpRequest_new_def)

lemma demo_rsp_length: "length (response_dump demo_map demo_rsp) < 2 ^ 31"
proof -
  have "length (response_dump demo_map demo_rsp) < 400" by code_simp
  then show ?thesis by simp
qed

lemma demo_accepts:
  "accepts (stream_write demo_calls) (bytes_of (response_dump demo_map demo_rsp)) (demo_connected ((0, 0) # rs))"
  using demo_connected_write by (blast intro: acc_end)

lemma demo_send:
  "session_sendResponse demo_map demo_calls demo_rsp (demo_connected ((0, 0) # rs))
    = Some (Inr 0, (demo_stream rs [])\<lparr>ss_hooks := (demo_hooks rs)\<lparr>t_hook_enable := False,
        h_calls := [Sys_io ''recv'' 5, Sys_io ''send'' 5]\<rparr>\<rparr>)"
proof -
  let ?t = "bytes_of (response_dump demo_map demo_rsp)"
  have len: "0 < length ?t" "length ?t < 2 ^ 31"
    using demo_rsp_length by (simp_all add: response_dump_def version_text_def)
  then have w: "(of_nat (length ?t) :: u64) \<noteq> 0" "unat (of_nat (length ?t) :: u64) = length ?t"
    by (simp_all add: unat_of_nat word_unat_eq_iff)
  obtain s3 where s3: "stream_write demo_calls (Some ?t) (demo_connected ((0, 0) # rs)) = (Inr 0, s3)"
    "s3 = (demo_stream rs [])\<lparr>ss_hooks := (demo_hooks rs)\<lparr>t_hook_enable := False,
        h_calls := [Sys_io ''recv'' 5, Sys_io ''send'' 5]\<rparr>\<rparr>"
    using demo_connected_write by blast
  have "write_fix (stream_write demo_calls) ?t 0 (of_nat (length ?t)) (demo_connected ((0, 0) # rs)) = Some (Inr False, s3)"
    using s3(1) w by (subst write_fix.simps) simp
  then show ?thesis using s3(2)
    by (simp add: session_sendResponse_def sendResponse_def writeFixSize_def fix_result_def Let_def)
qed

lemma responses_announce_close_witness:
  "\<exists>s3. serve_loop demo_scanner demo_map (\<lambda>_. None) (\<lambda>_ _. False) demo_calls 8 (replicate 8 0) True ServletDispatch_new
      (demo_stream [(3, 0), (0, 0)] [7, 8, 9])
    = serve_loop demo_scanner demo_map (\<lambda>_. None) (\<lambda>_ _. False) demo_calls 8 (replicate 8 0) True ServletDispatch_new s3"
  using responses_announce_close [OF demo_request [of "[(0, 0)]"] demo_scanner_in_bounds _ demo_answer
    demo_send [unfolded demo_connected_def]] by auto



end
