(* ===== verification/Locks.thy ===== *)
theory Locks
  imports Prelude
begin

text \<open>
  \<open>src/src/thread.h\<close>: the mutexes and their scoped locks, as one thread sees them, with nobody else holding
  the lock. The wrappers drop the error codes of pthread. A thread that asks for a lock it already holds
  waits for ever, \<open>Deadlock\<close>, or is refused with an error the wrapper drops: which of the two POSIX leaves
  open, and the argument \<open>detects\<close> says. Giving back a lock that is not held is undefined.
\<close>

section \<open>Mutexes\<close>

datatype rwlock = Free | Reading nat | Writing

definition rdlock :: "bool \<Rightarrow> (rwlock, unit) op" where
  "rdlock detects l =
     (case l of
        Free \<Rightarrow> (Inr (), Reading 0)
      | Reading n \<Rightarrow> (Inr (), Reading (Suc n))
      | Writing \<Rightarrow> (if detects then Inr () else Inl Deadlock, Writing))"

definition wrlock :: "bool \<Rightarrow> (rwlock, unit) op" where
  "wrlock detects l =
     (case l of
        Free \<Rightarrow> (Inr (), Writing)
      | Reading n \<Rightarrow> (Inl Deadlock, l)
      | Writing \<Rightarrow> (if detects then Inr () else Inl Deadlock, l))"

text \<open>\<open>Reading n\<close> is held \<open>n + 1\<close> times.\<close>

definition rw_unlock :: "(rwlock, unit) op" where
  "rw_unlock l =
     (case l of
        Free \<Rightarrow> (Inl Bad_Unlock, l)
      | Reading 0 \<Rightarrow> (Inr (), Free)
      | Reading (Suc n) \<Rightarrow> (Inr (), Reading n)
      | Writing \<Rightarrow> (Inr (), Free))"

text \<open>\<open>Mutex\<close>, \<open>Spinlock\<close> and \<open>CASLock\<close> are held or not; \<open>NullMutex\<close> does nothing. The flag of a \<open>CASLock\<close> may be
  cleared at any time.\<close>

definition mutex_lock :: "(bool, unit) op" where
  "mutex_lock held = (if held then (Inl Deadlock, held) else (Inr (), True))"

definition mutex_unlock :: "(bool, unit) op" where
  "mutex_unlock held = (if held then (Inr (), False) else (Inl Bad_Unlock, held))"

definition spin_lock :: "(bool, unit) op" where
  "spin_lock held = (if held then (Inl Deadlock, held) else (Inr (), True))"

definition spin_unlock :: "(bool, unit) op" where
  "spin_unlock held = (if held then (Inr (), False) else (Inl Bad_Unlock, held))"

definition cas_lock :: "(bool, unit) op" where
  "cas_lock held = (if held then (Inl Deadlock, held) else (Inr (), True))"

definition cas_unlock :: "(bool, unit) op" where
  "cas_unlock held = (Inr (), False)"

definition null_lock :: "('l, unit) op" where "null_lock = ret ()"
definition null_unlock :: "('l, unit) op" where "null_unlock = ret ()"

section \<open>Scoped locks\<close>

text \<open>The three templates differ in the operation that takes the lock. The state is \<open>m_locked\<close> and the
  mutex.\<close>

definition ScopedLockImpl_new :: "('l, unit) op \<Rightarrow> (bool \<times> 'l, unit) op" where
  "ScopedLockImpl_new acquire st =
     (case acquire (snd st) of (Inl e, l) \<Rightarrow> (Inl e, (fst st, l)) | (Inr _, l) \<Rightarrow> (Inr (), (True, l)))"

definition scoped_lock :: "('l, unit) op \<Rightarrow> (bool \<times> 'l, unit) op" where
  "scoped_lock acquire st = (if fst st then (Inr (), st) else ScopedLockImpl_new acquire st)"

definition scoped_unlock :: "('l, unit) op \<Rightarrow> (bool \<times> 'l, unit) op" where
  "scoped_unlock release st =
     (if fst st then (case release (snd st) of (Inl e, l) \<Rightarrow> (Inl e, (True, l)) | (Inr _, l) \<Rightarrow> (Inr (), (False, l)))
      else (Inr (), st))"

definition scoped_destroy :: "('l, unit) op \<Rightarrow> (bool \<times> 'l, unit) op" where
  "scoped_destroy release = scoped_unlock release"

text \<open>Running a block under a scoped lock. The lock is given back also when the block ends in an exception;
  a block that hangs or crashes does not get that far.\<close>

definition is_exception :: "fault \<Rightarrow> bool" where
  "is_exception e \<longleftrightarrow> e \<in> {Out_Of_Range, Invalid_Argument, Logic_Error}"

definition guarded :: "(('s, unit) op) \<Rightarrow> (('s, unit) op) \<Rightarrow> ('s, 'a) op \<Rightarrow> ('s, 'a) op" where
  "guarded acquire release body =
     thn acquire (\<lambda>s.
       case body s of
         (Inl e, s1) \<Rightarrow> if is_exception e then thn release (raise e) s1 else (Inl e, s1)
       | (Inr x, s1) \<Rightarrow> thn release (ret x) s1)"

text \<open>\<open>try { body } catch (std::exception&) { handler }\<close>.\<close>

definition catching :: "('s, 'a) op \<Rightarrow> ('s, 'a) op \<Rightarrow> ('s, 'a) op" where
  "catching body handler s =
     (case body s of
        (Inl e, s1) \<Rightarrow> if is_exception e then handler s1 else (Inl e, s1)
      | (Inr x, s1) \<Rightarrow> (Inr x, s1))"

text \<open>What an operation leaves true of the state, whether it returns or not.\<close>

definition preserves :: "('s \<Rightarrow> bool) \<Rightarrow> ('s, 'a) op \<Rightarrow> bool" where
  "preserves P m \<longleftrightarrow> (\<forall>s. P s \<longrightarrow> P (snd (m s)))"

lemma preservesI: "(\<And>s. P s \<Longrightarrow> P (snd (m s))) \<Longrightarrow> preserves P m"
  by (simp add: preserves_def)

lemma preserves_app: "preserves P m \<Longrightarrow> P s \<Longrightarrow> P (snd (m s))"
  by (simp add: preserves_def)

lemma preservesD: "preserves P m \<Longrightarrow> P s \<Longrightarrow> m s = (r, s') \<Longrightarrow> P s'"
  by (metis preserves_def snd_conv)

lemma preserves_ret [intro]: "preserves P (ret x)" "preserves P (raise e)" "preserves P (gets f)"
  by (simp_all add: preserves_def)

lemma preserves_bnd [intro]: "preserves P m \<Longrightarrow> (\<And>x. preserves P (f x)) \<Longrightarrow> preserves P (bnd m f)"
  unfolding bnd_def by (rule preservesI) (auto split: prod.splits sum.splits dest: preservesD intro: preserves_app)

lemma preserves_thn [intro]: "preserves P m \<Longrightarrow> preserves P k \<Longrightarrow> preserves P (thn m k)"
  by (auto simp: thn_def)

lemma preserves_catching [intro]: "preserves P m \<Longrightarrow> preserves P k \<Longrightarrow> preserves P (catching m k)"
  unfolding catching_def by (rule preservesI) (auto split: prod.splits sum.splits dest: preservesD intro: preserves_app)

lemma preserves_guarded [intro]:
  assumes "preserves P acquire" "preserves P release" "preserves P body"
  shows "preserves P (guarded acquire release body)"
  unfolding guarded_def
  by (intro preserves_thn preservesI assms(1))
     (auto split: prod.splits sum.splits dest: preservesD [OF assms(3)] intro!: preserves_app [OF preserves_thn [OF assms(2)]] preserves_ret)

lemma guarded_returns:
  assumes "guarded acquire release body s = (Inr x, s')"
  obtains s1 s2 where "acquire s = (Inr (), s1)" "body s1 = (Inr x, s2)" "release s2 = (Inr (), s')"
  using assms by (auto simp: guarded_def thn_run split: prod.splits sum.splits if_splits)

section \<open>What a scoped lock promises\<close>

text \<open>The calls a client can make on the lock object: \<open>True\<close> is \<open>lock()\<close>, \<open>False\<close> is \<open>unlock()\<close>.\<close>

fun lock_calls :: "('l, unit) op \<Rightarrow> ('l, unit) op \<Rightarrow> bool list \<Rightarrow> (bool \<times> 'l, unit) op" where
  "lock_calls acquire release [] = ret ()"
| "lock_calls acquire release (take_it # cs) =
     thn (if take_it then scoped_lock acquire else scoped_unlock release) (lock_calls acquire release cs)"

text \<open>A lock object that is made, used and destroyed leaves the mutex as it was.\<close>

definition balanced :: "('l, unit) op \<Rightarrow> ('l, unit) op \<Rightarrow> 'l \<Rightarrow> bool list \<Rightarrow> bool" where
  "balanced acquire release l cs \<longleftrightarrow>
     thn (ScopedLockImpl_new acquire) (thn (lock_calls acquire release cs) (scoped_destroy release)) (False, l) = (Inr (), (False, l))"

text \<open>The contract of a mutex: taken when free and given back, it is free again.\<close>

locale mutex =
  fixes acquire release :: "('l, unit) op" and unheld held :: 'l
  assumes taken: "acquire unheld = (Inr (), held)"
    and given_back: "release held = (Inr (), unheld)"
begin

definition consistent :: "bool \<times> 'l \<Rightarrow> bool" where
  "consistent st \<longleftrightarrow> snd st = (if fst st then held else unheld)"

lemma one_call:
  "consistent st \<Longrightarrow> scoped_lock acquire st = (Inr (), (True, held))"
  "consistent st \<Longrightarrow> scoped_unlock release st = (Inr (), (False, unheld))"
  by (cases st; auto simp: consistent_def scoped_lock_def scoped_unlock_def ScopedLockImpl_new_def taken given_back)+

lemma calls_consistent: "consistent st \<Longrightarrow> \<exists>st'. lock_calls acquire release cs st = (Inr (), st') \<and> consistent st'"
proof (induction cs arbitrary: st)
  case (Cons c cs)
  have "consistent (True, held)" "consistent (False, unheld)" by (simp_all add: consistent_def)
  then show ?case using Cons one_call [of st] by (cases c) auto
qed simp

lemma scoped_balanced: "balanced acquire release unheld cs"
proof -
  have new: "ScopedLockImpl_new acquire (False, unheld) = (Inr (), (True, held))" by (simp add: ScopedLockImpl_new_def taken)
  obtain st where "lock_calls acquire release cs (True, held) = (Inr (), st)" "consistent st"
    using calls_consistent [of "(True, held)" cs] by (auto simp: consistent_def)
  then show ?thesis using new one_call(2) [of st] by (simp add: balanced_def scoped_destroy_def)
qed

end

interpretation read_lock: mutex "rdlock d" rw_unlock Free "Reading 0" for d
  by unfold_locales (simp_all add: rdlock_def rw_unlock_def)

interpretation write_lock: mutex "wrlock d" rw_unlock Free Writing for d
  by unfold_locales (simp_all add: wrlock_def rw_unlock_def)

interpretation plain_mutex: mutex mutex_lock mutex_unlock False True
  by unfold_locales (simp_all add: mutex_lock_def mutex_unlock_def)

interpretation spin: mutex spin_lock spin_unlock False True
  by unfold_locales (simp_all add: spin_lock_def spin_unlock_def)

interpretation cas: mutex cas_lock cas_unlock False True
  by unfold_locales (simp_all add: cas_lock_def cas_unlock_def)

section \<open>Properties\<close>

text \<open>Whatever the calls of \<open>lock\<close> and \<open>unlock\<close> on a scoped lock in between, and for each of the mutexes,
  taking them in the constructor and giving them back in the destructor leaves them free, without a fault:
  they are never given back twice and never waited for by their own holder.\<close>

theorem scoped_locks_balanced:
  "balanced (rdlock d) rw_unlock Free cs \<and> balanced (wrlock d) rw_unlock Free cs \<and> balanced mutex_lock mutex_unlock False cs
    \<and> balanced spin_lock spin_unlock False cs \<and> balanced cas_lock cas_unlock False cs"
  using read_lock.scoped_balanced write_lock.scoped_balanced plain_mutex.scoped_balanced spin.scoped_balanced cas.scoped_balanced
  by blast

end
