(* ===== verification/Config_Var.thy ===== *)
theory Config_Var
  imports Std_Map Text_Format Locks
begin

text \<open>
  \<open>ConfigVar\<close> of \<open>src/src/config.h\<close>: a value with a name, the listeners of its changes and a reader-writer lock.
  The operations act on the variable and on whatever the listeners change, of type \<open>'s\<close>; \<open>detects\<close> says
  what the lock does when its holder asks for it again, see \<open>Locks\<close>. Log messages are not modelled.
\<close>

section \<open>State\<close>

type_synonym ('a, 's) listener = "'a \<Rightarrow> 'a \<Rightarrow> ('s, unit) op"

record ('a, 's) config_var =
  cv_name :: string
  cv_description :: string
  cv_val :: 'a
  cv_cbs :: "(u64 \<times> ('a, 's) listener) list"
  cv_mutex :: rwlock

type_synonym ('a, 's, 'm) var_op_state = "('a, 's, 'm) config_var_scheme \<times> 's"

definition ConfigVarBase_name :: "string \<Rightarrow> string" where
  "ConfigVarBase_name name = map tolower name"

definition ConfigVar_new :: "string \<Rightarrow> 'a \<Rightarrow> string \<Rightarrow> ('a, 's) config_var" where
  "ConfigVar_new name default_value description =
     \<lparr> cv_name = ConfigVarBase_name name, cv_description = description, cv_val = default_value, cv_cbs = [], cv_mutex = Free \<rparr>"

section \<open>Operations\<close>

definition on_mutex :: "(rwlock, unit) op \<Rightarrow> (('a, 's, 'm) var_op_state, unit) op" where
  "on_mutex f = (\<lambda>(c, s). case f (cv_mutex c) of (r, l) \<Rightarrow> (r, (c\<lparr>cv_mutex := l\<rparr>, s)))"

abbreviation reading :: "bool \<Rightarrow> (('a, 's, 'm) var_op_state, 'r) op \<Rightarrow> (('a, 's, 'm) var_op_state, 'r) op" where
  "reading detects \<equiv> guarded (on_mutex (rdlock detects)) (on_mutex rw_unlock)"

abbreviation writing :: "bool \<Rightarrow> (('a, 's, 'm) var_op_state, 'r) op \<Rightarrow> (('a, 's, 'm) var_op_state, 'r) op" where
  "writing detects \<equiv> guarded (on_mutex (wrlock detects)) (on_mutex rw_unlock)"

definition getValue :: "bool \<Rightarrow> (('a, 's, 'm) var_op_state, 'a) op" where
  "getValue detects = reading detects (gets (\<lambda>(c, s). cv_val c))"

fun run_listeners :: "(u64 \<times> ('a, 's) listener) list \<Rightarrow> 'a \<Rightarrow> 'a \<Rightarrow> ('s, unit) op" where
  "run_listeners [] old_value new_value = ret ()"
| "run_listeners ((k, cb) # cbs) old_value new_value = thn (cb old_value new_value) (run_listeners cbs old_value new_value)"

text \<open>The first block of \<open>setValue\<close> tells whether the value is new.\<close>

definition announce :: "'a \<Rightarrow> (('a, 's, 'm) var_op_state, bool) op" where
  "announce v = (\<lambda>(c, s).
     if v = cv_val c then (Inr False, (c, s))
     else (case run_listeners (cv_cbs c) (cv_val c) v s of
             (Inl e, s') \<Rightarrow> (Inl e, (c, s'))
           | (Inr _, s') \<Rightarrow> (Inr True, (c, s'))))"

definition setValue :: "bool \<Rightarrow> 'a \<Rightarrow> (('a, 's, 'm) var_op_state, unit) op" where
  "setValue detects v =
     bnd (reading detects (announce v))
       (\<lambda>changed. if changed then writing detects (upd (\<lambda>(c, s). (c\<lparr>cv_val := v\<rparr>, s))) else ret ())"

text \<open>A cast that throws is \<open>None\<close>; what it throws derives from \<open>std::exception\<close>.\<close>

definition ConfigVar_toString :: "bool \<Rightarrow> ('a \<Rightarrow> string option) \<Rightarrow> (('a, 's, 'm) var_op_state, string) op" where
  "ConfigVar_toString detects ToStr =
     catching
       (reading detects (bnd (gets (\<lambda>(c, s). cv_val c)) (\<lambda>v. case ToStr v of None \<Rightarrow> raise Invalid_Argument | Some t \<Rightarrow> ret t)))
       (ret '''')"

definition fromString :: "bool \<Rightarrow> (string \<Rightarrow> 'a option) \<Rightarrow> string \<Rightarrow> (('a, 's, 'm) var_op_state, bool) op" where
  "fromString detects FromStr val =
     catching
       (writing detects
          (case FromStr val of None \<Rightarrow> raise Invalid_Argument | Some v \<Rightarrow> thn (setValue detects v) (ret True)))
       (ret False)"

text \<open>\<open>s_fun_id\<close> is one counter for all the variables of a type, so it is passed in and out.\<close>

definition addListener :: "bool \<Rightarrow> ('a, 's) listener \<Rightarrow> u64 \<Rightarrow> (('a, 's, 'm) var_op_state, u64) op" where
  "addListener detects cb s_fun_id =
     writing detects (\<lambda>(c, s). (Inr (s_fun_id + 1), (c\<lparr>cv_cbs := put_in (s_fun_id + 1) cb (cv_cbs c)\<rparr>, s)))"

definition delListerner :: "bool \<Rightarrow> u64 \<Rightarrow> (('a, 's, 'm) var_op_state, unit) op" where
  "delListerner detects key = writing detects (upd (\<lambda>(c, s). (c\<lparr>cv_cbs := erase_from key (cv_cbs c)\<rparr>, s)))"

definition getListener :: "bool \<Rightarrow> u64 \<Rightarrow> (('a, 's, 'm) var_op_state, ('a, 's) listener option) op" where
  "getListener detects key = reading detects (gets (\<lambda>(c, s). find_in key (cv_cbs c)))"

definition clearListener :: "(('a, 's, 'm) var_op_state, unit) op" where
  "clearListener = upd (\<lambda>(c, s). (c\<lparr>cv_cbs := []\<rparr>, s))"

section \<open>What they do while nobody holds the lock\<close>

lemma reading_free:
  assumes "cv_mutex c = Free" "body (c\<lparr>cv_mutex := Reading 0\<rparr>, s) = (r, (c', s'))" "cv_mutex c' = Reading 0"
    "\<And>e. r = Inl e \<Longrightarrow> is_exception e"
  shows "reading d body (c, s) = (r, (c'\<lparr>cv_mutex := Free\<rparr>, s'))"
  using assms by (cases r) (auto simp: guarded_def on_mutex_def rdlock_def rw_unlock_def thn_run)

lemma writing_free:
  assumes "cv_mutex c = Free" "body (c\<lparr>cv_mutex := Writing\<rparr>, s) = (r, (c', s'))" "cv_mutex c' = Writing"
    "\<And>e. r = Inl e \<Longrightarrow> is_exception e"
  shows "writing d body (c, s) = (r, (c'\<lparr>cv_mutex := Free\<rparr>, s'))"
  using assms by (cases r) (auto simp: guarded_def on_mutex_def wrlock_def rw_unlock_def thn_run)

lemma free_twice [simp]: "cv_mutex c = Free \<Longrightarrow> c\<lparr>cv_mutex := Free\<rparr> = c"
  by (cases c) simp

lemma getValue_free: "cv_mutex c = Free \<Longrightarrow> getValue d (c, s) = (Inr (cv_val c), (c, s))"
  unfolding getValue_def by (subst reading_free) auto

lemma toString_free:
  assumes "cv_mutex c = Free"
  shows "ConfigVar_toString d ToStr (c, s) = (Inr (case ToStr (cv_val c) of None \<Rightarrow> '''' | Some t \<Rightarrow> t), (c, s))"
proof -
  define body :: "(('a, 'b, 'c) var_op_state, string) op" where
    "body = bnd (gets (\<lambda>(c, s). cv_val c)) (\<lambda>v. case ToStr v of None \<Rightarrow> raise Invalid_Argument | Some t \<Rightarrow> ret t)"
  define r where "r = (case ToStr (cv_val c) of None \<Rightarrow> Inl Invalid_Argument | Some t \<Rightarrow> Inr t)"
  have "body (c\<lparr>cv_mutex := Reading 0\<rparr>, s) = (r, (c\<lparr>cv_mutex := Reading 0\<rparr>, s))"
    by (simp add: body_def r_def bnd_run split: option.splits)
  then have "reading d body (c, s) = (r, (c, s))"
    using assms by (subst reading_free) (auto simp: r_def is_exception_def split: option.splits)
  then show ?thesis by (simp add: ConfigVar_toString_def catching_def body_def r_def is_exception_def split: option.splits)
qed

lemma addListener_free:
  "cv_mutex c = Free \<Longrightarrow> addListener d cb n (c, s) = (Inr (n + 1), (c\<lparr>cv_cbs := put_in (n + 1) cb (cv_cbs c)\<rparr>, s))"
  unfolding addListener_def by (subst writing_free) auto

lemma delListerner_free:
  "cv_mutex c = Free \<Longrightarrow> delListerner d k (c, s) = (Inr (), (c\<lparr>cv_cbs := erase_from k (cv_cbs c)\<rparr>, s))"
  unfolding delListerner_def by (subst writing_free) auto

lemma getListener_free: "cv_mutex c = Free \<Longrightarrow> getListener d k (c, s) = (Inr (find_in k (cv_cbs c)), (c, s))"
  unfolding getListener_def by (subst reading_free) auto

text \<open>Setting a value: nothing when it is the old one, the listeners and then the value when it is new, and when
  a listener throws, the listeners before it have run and the value stays.\<close>

lemma setValue_free:
  assumes "cv_mutex c = Free"
    and "\<And>e s'. run_listeners (cv_cbs c) (cv_val c) v s = (Inl e, s') \<Longrightarrow> is_exception e"
  shows "setValue d v (c, s) =
    (if v = cv_val c then (Inr (), (c, s))
     else (case run_listeners (cv_cbs c) (cv_val c) v s of
             (Inl e, s') \<Rightarrow> (Inl e, (c, s'))
           | (Inr _, s') \<Rightarrow> (Inr (), (c\<lparr>cv_val := v\<rparr>, s'))))"
proof (cases "v = cv_val c")
  case True
  then have *: "reading d (announce v) (c, s) = (Inr False, (c, s))"
    using assms(1) by (subst reading_free) (auto simp: announce_def)
  then show ?thesis unfolding setValue_def bnd_run * using True by simp
next
  case False
  obtain r s' where run: "run_listeners (cv_cbs c) (cv_val c) v s = (r, s')" by force
  show ?thesis
  proof (cases r)
    case (Inl e)
    then have *: "reading d (announce v) (c, s) = (Inl e, (c, s'))"
      using assms False run by (subst reading_free) (auto simp: announce_def)
    then show ?thesis unfolding setValue_def bnd_run * using False run Inl by simp
  next
    case (Inr u)
    then have *: "reading d (announce v) (c, s) = (Inr True, (c, s'))"
      using assms(1) False run by (subst reading_free) (auto simp: announce_def)
    moreover have "writing d (upd (\<lambda>(c, s). (c\<lparr>cv_val := v\<rparr>, s))) (c, s') = (Inr (), (c\<lparr>cv_val := v\<rparr>, s'))"
      using assms(1) by (subst writing_free) auto
    ultimately show ?thesis unfolding setValue_def bnd_run * using False run Inr by simp
  qed
qed

section \<open>The listeners\<close>

text \<open>What is called on a variable, with the calls of \<open>addListener\<close> on other variables of its type in between.\<close>

datatype ('a, 's) listener_call = Add "('a, 's) listener" | Elsewhere | Del u64 | Clear

fun listener_calls ::
  "bool \<Rightarrow> ('a, 's) listener_call list \<Rightarrow> u64 \<Rightarrow> (('a, 's, 'm) var_op_state, unit) op" where
  "listener_calls d [] n = ret ()"
| "listener_calls d (Add cb # cs) n = bnd (addListener d cb n) (listener_calls d cs)"
| "listener_calls d (Elsewhere # cs) n = listener_calls d cs (n + 1)"
| "listener_calls d (Del k # cs) n = thn (delListerner d k) (listener_calls d cs n)"
| "listener_calls d (Clear # cs) n = thn clearListener (listener_calls d cs n)"

text \<open>Which listeners are left then, in the order of registration.\<close>

fun listeners_after ::
  "('a, 's) listener_call list \<Rightarrow> u64 \<Rightarrow> (u64 \<times> ('a, 's) listener) list \<Rightarrow> (u64 \<times> ('a, 's) listener) list" where
  "listeners_after [] n ls = ls"
| "listeners_after (Add cb # cs) n ls = listeners_after cs (n + 1) (ls @ [(n + 1, cb)])"
| "listeners_after (Elsewhere # cs) n ls = listeners_after cs (n + 1) ls"
| "listeners_after (Del k # cs) n ls = listeners_after cs n (filter (\<lambda>p. fst p \<noteq> k) ls)"
| "listeners_after (Clear # cs) n ls = listeners_after cs n []"

lemma put_last: "(\<And>j. j \<in> set (map fst m) \<Longrightarrow> j < k) \<Longrightarrow> put_in k v m = m @ [(k, v)]"
proof (induction m)
  case (Cons p m)
  then show ?case by (cases p) simp
qed simp

lemma erase_filter: "map_sorted (<) m \<Longrightarrow> erase_from k m = filter (\<lambda>p. fst p \<noteq> k) m"
proof (induction m)
  case (Cons p m)
  obtain j w where p: "p = (j, w)" by force
  have "filter (\<lambda>p. fst p \<noteq> k) m = m" if "k \<le> j"
    using Cons.prems that p by (fastforce simp: map_sorted_Cons filter_id_conv)
  then show ?case using Cons p by (auto simp: map_sorted_Cons)
qed simp

lemma map_sorted_snoc: "map_sorted (<) m \<Longrightarrow> (\<And>j. j \<in> set (map fst m) \<Longrightarrow> j < k) \<Longrightarrow> map_sorted (<) (m @ [(k, v)])"
  by (auto simp: map_sorted_def sorted_wrt_append)

lemma map_sorted_filter: "map_sorted (<) m \<Longrightarrow> map_sorted (<) (filter (\<lambda>p. P (fst p)) m)"
proof (induction m)
  case (Cons p m)
  then show ?case by (auto simp: map_sorted_Cons)
qed simp

lemma next_id: "unat n + 1 < 2 ^ 64 \<Longrightarrow> j \<le> n \<Longrightarrow> j < n + (1 :: u64)"
  by (simp add: word_less_nat_alt word_le_nat_alt unat_word_ariths)

lemma next_id_unat: "unat n + 1 < 2 ^ 64 \<Longrightarrow> unat (n + (1 :: u64)) = unat n + 1"
  by (simp add: unat_word_ariths)

lemma listener_calls_result:
  assumes "cv_mutex c = Free" "map_sorted (<) (cv_cbs c)" "\<And>j. j \<in> set (map fst (cv_cbs c)) \<Longrightarrow> j \<le> n"
    and "unat n + length cs < 2 ^ 64"
  shows "listener_calls d cs n (c, s) = (Inr (), (c\<lparr>cv_cbs := listeners_after cs n (cv_cbs c)\<rparr>, s))"
  using assms
proof (induction cs arbitrary: c n)
  case (Cons call cs)
  have n: "unat n + 1 < 2 ^ 64" using Cons.prems(4) by simp
  then have n': "unat (n + 1) + length cs < 2 ^ 64" using Cons.prems(4) next_id_unat by simp
  have le: "j \<le> n + 1" if "j \<le> n" for j using next_id [OF n that] by simp
  show ?case
  proof (cases call)
    case (Add cb)
    have "put_in (n + 1) cb (cv_cbs c) = cv_cbs c @ [(n + 1, cb)]"
      using Cons.prems(3) next_id [OF n] by (intro put_last) blast
    moreover have "map_sorted (<) (cv_cbs c @ [(n + 1, cb)])"
      using Cons.prems(2,3) next_id [OF n] by (intro map_sorted_snoc) blast+
    moreover have "\<And>j. j \<in> set (map fst (cv_cbs c @ [(n + 1, cb)])) \<Longrightarrow> j \<le> n + 1"
      using Cons.prems(3) le by auto
    ultimately show ?thesis
      using Add Cons.IH [of "c\<lparr>cv_cbs := cv_cbs c @ [(n + 1, cb)]\<rparr>" "n + 1"] Cons.prems(1) n'
      by (simp add: addListener_free bnd_run)
  next
    case Elsewhere
    then show ?thesis using Cons.IH [of c "n + 1"] Cons.prems(1-3) n' le by auto
  next
    case (Del k)
    have "\<And>j. j \<in> set (map fst (filter (\<lambda>p. fst p \<noteq> k) (cv_cbs c))) \<Longrightarrow> j \<le> n"
      using Cons.prems(3) by auto
    then show ?thesis
      using Del Cons.IH [of "c\<lparr>cv_cbs := filter (\<lambda>p. fst p \<noteq> k) (cv_cbs c)\<rparr>" n] Cons.prems(1,2,4)
        map_sorted_filter [of "cv_cbs c" "\<lambda>j. j \<noteq> k"]
      by (simp add: delListerner_free erase_filter thn_run)
  next
    case Clear
    then show ?thesis
      using Cons.IH [of "c\<lparr>cv_cbs := []\<rparr>" n] Cons.prems by (simp add: clearListener_def thn_run)
  qed
qed simp

section \<open>Parsing under the lock\<close>

lemma setValue_held_waits: "cv_mutex c = Writing \<Longrightarrow> setValue False v (c, s) = (Inl Deadlock, (c, s))"
  by (cases c) (simp add: setValue_def bnd_run guarded_def on_mutex_def rdlock_def thn_run)

lemma setValue_held_releases:
  assumes "cv_mutex c = Writing" "\<And>e s'. run_listeners (cv_cbs c) (cv_val c) v s = (Inl e, s') \<Longrightarrow> is_exception e"
  obtains r c' s' where "setValue True v (c, s) = (r, (c', s'))" "cv_mutex c' = Free" "\<And>e. r = Inl e \<Longrightarrow> is_exception e"
proof -
  obtain r s1 where run: "run_listeners (cv_cbs c) (cv_val c) v s = (r, s1)" by force
  define r' where "r' = (if v = cv_val c then Inr False else case r of Inl e \<Rightarrow> Inl e | Inr _ \<Rightarrow> Inr True)"
  define s' where "s' = (if v = cv_val c then s else s1)"
  have body: "announce v (c, s) = (r', (c, s'))" using run by (auto simp: announce_def r'_def s'_def split: sum.splits)
  have exc: "\<And>e. r' = Inl e \<Longrightarrow> is_exception e" using assms(2) run by (auto simp: r'_def split: if_splits sum.splits)
  have c: "c\<lparr>cv_mutex := Writing\<rparr> = c" using assms(1) by (cases c) simp
  have *: "reading True (announce v) (c, s) = (r', (c\<lparr>cv_mutex := Free\<rparr>, s'))"
    using assms(1) exc by (auto simp: guarded_def on_mutex_def rdlock_def rw_unlock_def thn_run c body split: sum.splits)
  show ?thesis
  proof (cases r')
    case (Inl e)
    then show ?thesis using that [of "Inl e" "c\<lparr>cv_mutex := Free\<rparr>" s'] exc unfolding setValue_def bnd_run * by simp
  next
    case (Inr b)
    have "writing True (upd (\<lambda>(c, s). (c\<lparr>cv_val := v\<rparr>, s))) (c\<lparr>cv_mutex := Free\<rparr>, s') = (Inr (), (c\<lparr>cv_val := v, cv_mutex := Free\<rparr>, s'))"
      by (simp add: guarded_def on_mutex_def wrlock_def rw_unlock_def thn_run)
    then show ?thesis
      using that [of "Inr ()" "if b then c\<lparr>cv_val := v, cv_mutex := Free\<rparr> else c\<lparr>cv_mutex := Free\<rparr>" s'] Inr
      unfolding setValue_def bnd_run * by simp
  qed
qed

lemma fromString_unreadable:
  "cv_mutex c = Free \<Longrightarrow> FromStr t = None \<Longrightarrow> fromString d FromStr t (c, s) = (Inr False, (c, s))"
  unfolding fromString_def catching_def by (subst writing_free) (auto simp: is_exception_def)

section \<open>Properties\<close>

text \<open>C29: whatever listeners were registered and removed before, with fewer than \<open>2 ^ 64\<close> calls for the
  type, setting a new value calls the listeners that are left once each, in the order of their registration,
  with the old and the new value, and only then stores the value; when one throws, those after it are not called
  and the old value stays.\<close>

theorem setValue_listeners:
  assumes "cv_mutex c = Free" "cv_cbs c = []" "unat n + length cs < 2 ^ 64" "v \<noteq> cv_val c"
    and "\<And>e s'. run_listeners (listeners_after cs n []) (cv_val c) v s = (Inl e, s') \<Longrightarrow> is_exception e"
  shows "thn (listener_calls d cs n) (setValue d v) (c, s) =
    (let c' = c\<lparr>cv_cbs := listeners_after cs n []\<rparr> in
     case run_listeners (listeners_after cs n []) (cv_val c) v s of
       (Inl e, s') \<Rightarrow> (Inl e, (c', s'))
     | (Inr _, s') \<Rightarrow> (Inr (), (c'\<lparr>cv_val := v\<rparr>, s')))"
proof -
  have "listener_calls d cs n (c, s) = (Inr (), (c\<lparr>cv_cbs := listeners_after cs n []\<rparr>, s))"
    using assms(1-3) by (subst listener_calls_result) auto
  moreover have "setValue d v (c\<lparr>cv_cbs := listeners_after cs n []\<rparr>, s) =
      (case run_listeners (listeners_after cs n []) (cv_val c) v s of
         (Inl e, s') \<Rightarrow> (Inl e, (c\<lparr>cv_cbs := listeners_after cs n []\<rparr>, s'))
       | (Inr _, s') \<Rightarrow> (Inr (), (c\<lparr>cv_cbs := listeners_after cs n [], cv_val := v\<rparr>, s')))"
    using assms(1,4,5) by (subst setValue_free) auto
  ultimately show ?thesis by (simp add: Let_def)
qed

definition port_var :: "(nat, string list) config_var" where
  "port_var = ConfigVar_new ''Port'' 80 ''''"

definition noting :: "string \<Rightarrow> (nat, string list) listener" where
  "noting t old_value new_value log = (Inr (), log @ [t, dec old_value, dec new_value])"

theorem setValue_listeners_witness:
  "snd (snd (thn (listener_calls True [Add (noting ''a''), Elsewhere, Add (noting ''b''), Del 1, Add (noting ''c'')] 0)
      (setValue True 8080) (port_var, []))) = [''b'', ''80'', ''8080'', ''c'', ''80'', ''8080'']"
  by (subst setValue_listeners) (auto simp: port_var_def ConfigVar_new_def noting_def thn_run dec_def show_nat.simps digit_char_def)

text \<open>\<open>fromString\<close> of a text that parses never gets out of its lock: it holds the write lock while
  \<open>setValue\<close> asks for the read lock. A lock that does not notice waits for ever; one that notices is given back
  by \<open>setValue\<close>, so that \<open>fromString\<close> gives back a lock it does not hold.\<close>

theorem fromString_breaks_lock:
  assumes "cv_mutex c = Free" "FromStr t = Some v"
    and "\<And>e s'. run_listeners (cv_cbs c) (cv_val c) v s = (Inl e, s') \<Longrightarrow> is_exception e"
  shows "fst (fromString False FromStr t (c, s)) = Inl Deadlock \<and> fst (fromString True FromStr t (c, s)) = Inl Bad_Unlock"
proof -
  define c1 where "c1 = c\<lparr>cv_mutex := Writing\<rparr>"
  have c1: "cv_mutex c1 = Writing" "cv_cbs c1 = cv_cbs c" "cv_val c1 = cv_val c" by (simp_all add: c1_def)
  have take_it: "on_mutex (wrlock d) (c, s) = (Inr (), (c1, s))" for d
    using assms(1) by (simp add: on_mutex_def wrlock_def c1_def)
  have "setValue False v (c1, s) = (Inl Deadlock, (c1, s))" using c1(1) by (rule setValue_held_waits)
  then have waits: "fst (fromString False FromStr t (c, s)) = Inl Deadlock"
    using assms(2) take_it
    by (simp add: fromString_def catching_def guarded_def thn_run is_exception_def)
  obtain r c' s' where set_it: "setValue True v (c1, s) = (r, (c', s'))" "cv_mutex c' = Free" "\<And>e. r = Inl e \<Longrightarrow> is_exception e"
    using setValue_held_releases [OF c1(1), of v s] assms(3) c1(2,3) by metis
  then have "fst (fromString True FromStr t (c, s)) = Inl Bad_Unlock"
    using assms(2) take_it
    by (cases r) (auto simp: fromString_def catching_def guarded_def thn_run is_exception_def on_mutex_def rw_unlock_def)
  then show ?thesis using waits by simp
qed

theorem fromString_breaks_lock_witness:
  "fst (fromString False (\<lambda>t. Some (length t)) ''abc'' (port_var, [])) = Inl Deadlock
    \<and> fst (fromString True (\<lambda>t. Some (length t)) ''abc'' (port_var, [])) = Inl Bad_Unlock"
  by (rule fromString_breaks_lock) (simp_all add: port_var_def ConfigVar_new_def)

end
