(* ===== verification/Lexical_Cast.thy ===== *)
theory Lexical_Cast
  imports Std_Map Text_Format
begin

text \<open>
  The \<open>LexicalCast\<close> templates of \<open>src/src/config.h\<close>. yaml-cpp and \<open>boost::lexical_cast\<close> are not part of the
  source: the node type and what the code calls of it are the fields of \<open>yaml_api\<close>, and the cast of an
  element is an argument. A cast that throws is \<open>None\<close>.
\<close>

section \<open>Nodes\<close>

text \<open>\<open>y_load\<close> is \<open>YAML::Load\<close>, \<open>y_emit\<close> is \<open>operator<<\<close>, \<open>y_entries\<close> the pairs the iterators of a node visit,
  \<open>y_scalar\<close> is \<open>Scalar()\<close>, \<open>y_put\<close> the assignment to \<open>node[key]\<close>.\<close>

record 'n yaml_api =
  y_load :: "string \<Rightarrow> 'n option"
  y_emit :: "'n \<Rightarrow> string"
  y_size :: "'n \<Rightarrow> nat"
  y_index :: "'n \<Rightarrow> nat \<Rightarrow> 'n"
  y_entries :: "'n \<Rightarrow> ('n \<times> 'n) list"
  y_scalar :: "'n \<Rightarrow> string"
  y_is_map :: "'n \<Rightarrow> bool"
  y_is_scalar :: "'n \<Rightarrow> bool"
  y_sequence :: 'n
  y_null :: 'n
  y_map :: 'n
  y_push :: "'n \<Rightarrow> 'n \<Rightarrow> 'n"
  y_put :: "'n \<Rightarrow> string \<Rightarrow> 'n \<Rightarrow> 'n"

type_synonym ('f, 't) cast = "'f \<Rightarrow> 't option"

text \<open>The loops: each item is cast and put into the container; the first cast that throws ends the loop.\<close>

fun collect :: "('a \<Rightarrow> 'b option) \<Rightarrow> ('b \<Rightarrow> 'c \<Rightarrow> 'c) \<Rightarrow> 'a list \<Rightarrow> 'c \<Rightarrow> 'c option" where
  "collect f ins [] acc = Some acc"
| "collect f ins (x # xs) acc = (case f x of None \<Rightarrow> None | Some b \<Rightarrow> collect f ins xs (ins b acc))"

definition read_items :: "'n yaml_api \<Rightarrow> (string, 'a) cast \<Rightarrow> ('a \<Rightarrow> 'c \<Rightarrow> 'c) \<Rightarrow> 'c \<Rightarrow> (string, 'c) cast" where
  "read_items y c ins none_yet v =
     (case y_load y v of
        None \<Rightarrow> None
      | Some node \<Rightarrow> collect (\<lambda>i. c (y_emit y (y_index y node i))) ins [0..<y_size y node] none_yet)"

definition write_items :: "'n yaml_api \<Rightarrow> ('a, string) cast \<Rightarrow> 'n \<Rightarrow> ('a list, string) cast" where
  "write_items y c node v =
     map_option (y_emit y)
       (collect (\<lambda>i. case c i of None \<Rightarrow> None | Some s \<Rightarrow> y_load y s) (\<lambda>m node. y_push y node m) v node)"

section \<open>Sequences and sets\<close>

definition string_to_vector :: "'n yaml_api \<Rightarrow> (string, 'a) cast \<Rightarrow> (string, 'a list) cast" where
  "string_to_vector y c = read_items y c (\<lambda>a vec. vec @ [a]) []"

definition vector_to_string :: "'n yaml_api \<Rightarrow> ('a, string) cast \<Rightarrow> ('a list, string) cast" where
  "vector_to_string y c = write_items y c (y_sequence y)"

definition string_to_list :: "'n yaml_api \<Rightarrow> (string, 'a) cast \<Rightarrow> (string, 'a list) cast" where
  "string_to_list y c = read_items y c (\<lambda>a vec. vec @ [a]) []"

definition list_to_string :: "'n yaml_api \<Rightarrow> ('a, string) cast \<Rightarrow> ('a list, string) cast" where
  "list_to_string y c = write_items y c (y_null y)"

definition string_to_set :: "'n yaml_api \<Rightarrow> (string, 'a::linorder) cast \<Rightarrow> (string, 'a list) cast" where
  "string_to_set y c = read_items y c (set_insert (<)) []"

definition set_to_string :: "'n yaml_api \<Rightarrow> ('a, string) cast \<Rightarrow> ('a list, string) cast" where
  "set_to_string y c = write_items y c (y_null y)"

text \<open>Where an unordered container puts a new element in its order of iteration is not specified: \<open>place\<close>.\<close>

definition string_to_unordered_set ::
  "'n yaml_api \<Rightarrow> ('a \<Rightarrow> 'a list \<Rightarrow> 'a list) \<Rightarrow> (string, 'a) cast \<Rightarrow> (string, 'a list) cast" where
  "string_to_unordered_set y place c = read_items y c (\<lambda>a s. if a \<in> set s then s else place a s) []"

definition unordered_set_to_string :: "'n yaml_api \<Rightarrow> ('a, string) cast \<Rightarrow> ('a list, string) cast" where
  "unordered_set_to_string y c = write_items y c (y_null y)"

section \<open>Maps\<close>

text \<open>\<open>insert\<close> leaves a key that is there alone.\<close>

definition read_entries ::
  "'n yaml_api \<Rightarrow> (string, 'a) cast \<Rightarrow> (string \<times> 'a \<Rightarrow> 'c \<Rightarrow> 'c) \<Rightarrow> 'c \<Rightarrow> (string, 'c) cast" where
  "read_entries y c ins none_yet v =
     (case y_load y v of
        None \<Rightarrow> None
      | Some node \<Rightarrow>
          collect (\<lambda>(k, m). map_option (Pair (y_scalar y k)) (c (y_emit y m))) ins (y_entries y node) none_yet)"

definition write_entries :: "'n yaml_api \<Rightarrow> ('a, string) cast \<Rightarrow> ((string \<times> 'a) list, string) cast" where
  "write_entries y c v =
     map_option (y_emit y)
       (collect (\<lambda>(k, a). case c a of None \<Rightarrow> None | Some s \<Rightarrow> map_option (Pair k) (y_load y s))
          (\<lambda>(k, m) node. y_put y node k m) v (y_map y))"

definition string_to_map :: "'n yaml_api \<Rightarrow> (string, 'a) cast \<Rightarrow> (string, (string \<times> 'a) list) cast" where
  "string_to_map y c =
     read_entries y c (\<lambda>(k, a) m. case find_in k m of None \<Rightarrow> put_in k a m | Some _ \<Rightarrow> m) []"

definition map_to_string :: "'n yaml_api \<Rightarrow> ('a, string) cast \<Rightarrow> ((string \<times> 'a) list, string) cast" where
  "map_to_string y c = write_entries y c"

definition string_to_unordered_map ::
  "'n yaml_api \<Rightarrow> (string \<times> 'a \<Rightarrow> (string \<times> 'a) list \<Rightarrow> (string \<times> 'a) list) \<Rightarrow> (string, 'a) cast
     \<Rightarrow> (string, (string \<times> 'a) list) cast" where
  "string_to_unordered_map y place c =
     read_entries y c (\<lambda>(k, a) m. case map_of m k of None \<Rightarrow> place (k, a) m | Some _ \<Rightarrow> m) []"

definition unordered_map_to_string :: "'n yaml_api \<Rightarrow> ('a, string) cast \<Rightarrow> ((string \<times> 'a) list, string) cast" where
  "unordered_map_to_string y c = write_entries y c"

section \<open>What the casts give\<close>

lemma collect_keeps: "collect f ins xs acc = Some res \<Longrightarrow> P acc \<Longrightarrow> (\<And>b a. P a \<Longrightarrow> P (ins b a)) \<Longrightarrow> P res"
proof (induction xs arbitrary: acc)
  case (Cons x xs)
  then obtain b where "collect f ins xs (ins b acc) = Some res" by (auto split: option.splits)
  then show ?case using Cons.IH [of "ins b acc"] Cons.prems(2,3) by blast
qed simp

lemma collect_snoc:
  "collect f ins (xs @ [x]) acc =
     (case collect f ins xs acc of None \<Rightarrow> None | Some a \<Rightarrow> (case f x of None \<Rightarrow> None | Some b \<Rightarrow> Some (ins b a)))"
  by (induction xs arbitrary: acc) (auto split: option.splits)

text \<open>A set comes out sorted and without repetitions, a map sorted by its keys.\<close>

lemma string_to_set_sorted:
  assumes "string_to_set y c v = Some s"
  shows "sorted_wrt (<) s"
proof -
  obtain f and xs :: "nat list" where "collect f (set_insert (<)) xs [] = Some s"
    using assms by (auto simp: string_to_set_def read_items_def split: option.splits)
  then show ?thesis
    by (rule collect_keeps [where P = "sorted_wrt (<)"]) (simp_all add: std_less.sorted_insert)
qed

lemma string_to_map_sorted:
  fixes y :: "'n yaml_api"
  assumes "string_to_map y c v = Some m"
  shows "map_sorted (<) m"
proof -
  obtain f and xs :: "('n \<times> 'n) list" where "collect f (\<lambda>(k, a) m. case find_in k m of None \<Rightarrow> put_in k a m | Some _ \<Rightarrow> m) xs [] = Some m"
    using assms by (auto simp: string_to_map_def read_entries_def split: option.splits)
  then show ?thesis
    by (rule collect_keeps [where P = "map_sorted (<)"]) (simp_all add: std_less.map_sorted_put split: prod.splits option.splits)
qed

text \<open>Reading back a vector gives the same vector, when reading what was emitted gives the node again, nodes
  are pushed at the end, and the casts of the elements read back what they wrote.\<close>

lemma vector_read_back:
  assumes "\<And>n. y_load y (y_emit y n) = Some n"
    and "y_size y (y_sequence y) = 0"
    and "\<And>n m. y_size y (y_push y n m) = Suc (y_size y n)"
    and "\<And>n m i. y_index y (y_push y n m) i = (if i = y_size y n then m else y_index y n i)"
    and elements: "\<And>a. a \<in> set v \<Longrightarrow> \<exists>s n. c a = Some s \<and> y_load y s = Some n \<and> c' (y_emit y n) = Some a"
  obtains s where "vector_to_string y c v = Some s" "string_to_vector y c' s = Some v"
proof -
  define f where "f = (\<lambda>a. case c a of None \<Rightarrow> None | Some s \<Rightarrow> y_load y s)"
  define g where "g = (\<lambda>n i. c' (y_emit y (y_index y n i)))"
  define ins where "ins = (\<lambda>m n. y_push y n m)"
  have "\<exists>n. collect f ins v (y_sequence y) = Some n \<and> y_size y n = length v \<and> (\<forall>i < length v. g n i = Some (v ! i))"
    using elements
  proof (induction v rule: rev_induct)
    case Nil
    then show ?case using assms(2) by simp
  next
    case (snoc a v)
    have "\<And>b. b \<in> set v \<Longrightarrow> \<exists>s n. c b = Some s \<and> y_load y s = Some n \<and> c' (y_emit y n) = Some b"
      using snoc.prems by simp
    then obtain n where n: "collect f ins v (y_sequence y) = Some n" "y_size y n = length v" "\<forall>i < length v. g n i = Some (v ! i)"
      using snoc.IH by blast
    obtain s m where "c a = Some s" "y_load y s = Some m" "c' (y_emit y m) = Some a"
      using snoc.prems [of a] by auto
    then have "collect f ins (v @ [a]) (y_sequence y) = Some (y_push y n m)" "c' (y_emit y m) = Some a"
      using n(1) by (simp_all add: collect_snoc f_def ins_def)
    then show ?case
      using n(2,3) assms(3,4) by (auto simp: g_def nth_append less_Suc_eq)
  qed
  then obtain n where n: "collect f ins v (y_sequence y) = Some n" "y_size y n = length v" "\<And>i. i < length v \<Longrightarrow> g n i = Some (v ! i)"
    by blast
  have "collect (g n) (\<lambda>a vec. vec @ [a]) [0..<k] [] = Some (take k v)" if "k \<le> length v" for k
    using that
  proof (induction k)
    case (Suc k)
    then have "g n k = Some (v ! k)" using n(3) [of k] by simp
    then show ?case using Suc by (simp add: collect_snoc take_Suc_conv_app_nth)
  qed simp
  then have "collect (g n) (\<lambda>a vec. vec @ [a]) [0..<length v] [] = Some v" by simp
  then have "string_to_vector y c' (y_emit y n) = Some v"
    using assms(1) n(2) by (simp add: string_to_vector_def read_items_def g_def)
  moreover have "vector_to_string y c v = Some (y_emit y n)"
    using n(1) by (simp add: vector_to_string_def write_items_def f_def ins_def)
  ultimately show ?thesis using that by blast
qed

end
