(* ===== verification/Config.thy ===== *)
theory Config
  imports Config_Var Lexical_Cast
begin

text \<open>
  \<open>Config\<close> of \<open>src/src/config.h\<close> and \<open>config.cpp\<close>: the variables by name, under a reader-writer lock, and
  loading a YAML document into them. The registry holds pointers to the base class, so the values are of one
  type \<open>'v\<close> and the type argument of a template, \<open>T\<close>, is a tag \<open>'ty\<close> that a dynamic cast compares.
  A pointer is the index of the object among those ever made.
\<close>

section \<open>State\<close>

record ('v, 's, 'ty) registered = "('v, 's) config_var" +
  cv_type :: 'ty

record ('v, 's, 'ty) config =
  cfg_datas :: "(string \<times> nat) list"
  cfg_vars :: "('v, 's, 'ty) registered list"
  cfg_mutex :: rwlock
  cfg_world :: 's

type_synonym ('v, 's, 'ty, 'r) config_op = "(('v, 's, 'ty) config, 'r) op"

definition config_new :: "'s \<Rightarrow> ('v, 's, 'ty) config" where
  "config_new s = \<lparr> cfg_datas = [], cfg_vars = [], cfg_mutex = Free, cfg_world = s \<rparr>"

text \<open>A call on the object a pointer refers to.\<close>

definition on_var ::
  "nat \<Rightarrow> (('v, 's, \<lparr>cv_type :: 'ty\<rparr>) var_op_state, 'r) op \<Rightarrow> ('v, 's, 'ty, 'r) config_op" where
  "on_var p f cfg =
     (case f (cfg_vars cfg ! p, cfg_world cfg) of
        (r, (c, s)) \<Rightarrow> (r, cfg\<lparr>cfg_vars := (cfg_vars cfg)[p := c], cfg_world := s\<rparr>))"

definition on_registry :: "(rwlock, unit) op \<Rightarrow> ('v, 's, 'ty, unit) config_op" where
  "on_registry f cfg = (case f (cfg_mutex cfg) of (r, l) \<Rightarrow> (r, cfg\<lparr>cfg_mutex := l\<rparr>))"

abbreviation cfg_reading :: "bool \<Rightarrow> ('v, 's, 'ty, 'r) config_op \<Rightarrow> ('v, 's, 'ty, 'r) config_op" where
  "cfg_reading detects \<equiv> guarded (on_registry (rdlock detects)) (on_registry rw_unlock)"

abbreviation cfg_writing :: "bool \<Rightarrow> ('v, 's, 'ty, 'r) config_op \<Rightarrow> ('v, 's, 'ty, 'r) config_op" where
  "cfg_writing detects \<equiv> guarded (on_registry (wrlock detects)) (on_registry rw_unlock)"

section \<open>Looking up\<close>

text \<open>\<open>find_first_not_of\<close> finds nothing.\<close>

definition name_chars :: string where
  "name_chars = ''abcdefghijklmnopqrstuvwxyz._0123456789''"

definition valid_name :: "string \<Rightarrow> bool" where
  "valid_name name \<longleftrightarrow> list_all (\<lambda>c. c \<in> set name_chars) name"

definition make_var :: "string \<Rightarrow> 'v \<Rightarrow> string \<Rightarrow> 'ty \<Rightarrow> ('v, 's, 'ty) registered" where
  "make_var name default_value description ty =
     config_var.extend (ConfigVar_new name default_value description) \<lparr>cv_type = ty\<rparr>"

text \<open>\<open>to_str\<close> is the \<open>ToStr\<close> of each type; the message about a variable of another type prints its value.\<close>

definition Config_Lookup ::
  "bool \<Rightarrow> ('ty \<Rightarrow> 'v \<Rightarrow> string option) \<Rightarrow> 'ty \<Rightarrow> string \<Rightarrow> 'v \<Rightarrow> string \<Rightarrow> ('v, 's, 'ty, nat option) config_op" where
  "Config_Lookup detects to_str ty name default_value description =
     cfg_writing detects (\<lambda>cfg.
       case find_in name (cfg_datas cfg) of
         Some p \<Rightarrow>
           if cv_type (cfg_vars cfg ! p) = ty then (Inr (Some p), cfg)
           else thn (on_var p (ConfigVar_toString detects (to_str (cv_type (cfg_vars cfg ! p))))) (ret None) cfg
       | None \<Rightarrow>
           if \<not> valid_name name then raise Invalid_Argument cfg
           else
             let p = length (cfg_vars cfg)
             in (Inr (Some p),
                 cfg\<lparr>cfg_vars := cfg_vars cfg @ [make_var name default_value description ty],
                   cfg_datas := put_in name p (cfg_datas cfg)\<rparr>))"

definition Lookup_existing :: "bool \<Rightarrow> 'ty \<Rightarrow> string \<Rightarrow> ('v, 's, 'ty, nat option) config_op" where
  "Lookup_existing detects ty name =
     cfg_reading detects (gets (\<lambda>cfg.
       case find_in name (cfg_datas cfg) of
         None \<Rightarrow> None
       | Some p \<Rightarrow> if cv_type (cfg_vars cfg ! p) = ty then Some p else None))"

definition LookupBase :: "bool \<Rightarrow> string \<Rightarrow> ('v, 's, 'ty, nat option) config_op" where
  "LookupBase detects name = cfg_reading detects (gets (\<lambda>cfg. find_in name (cfg_datas cfg)))"

text \<open>The callback gets the pointer by reference and leaves one behind.\<close>

fun visit_all :: "(nat \<Rightarrow> ('v, 's, 'ty, nat) config_op) \<Rightarrow> string list \<Rightarrow> ('v, 's, 'ty, unit) config_op" where
  "visit_all cb [] = ret ()"
| "visit_all cb (k # ks) =
     thn (\<lambda>cfg. case find_in k (cfg_datas cfg) of
                   None \<Rightarrow> raise Bad_Iterator cfg
                 | Some p \<Rightarrow> bnd (cb p) (\<lambda>p'. upd (\<lambda>cfg. cfg\<lparr>cfg_datas := put_in k p' (cfg_datas cfg)\<rparr>)) cfg)
       (visit_all cb ks)"

definition Visit :: "bool \<Rightarrow> (nat \<Rightarrow> ('v, 's, 'ty, nat) config_op) \<Rightarrow> ('v, 's, 'ty, unit) config_op" where
  "Visit detects cb = cfg_reading detects (\<lambda>cfg. visit_all cb (map fst (cfg_datas cfg)) cfg)"

section \<open>Loading a document\<close>

text \<open>Nothing rules out a node that contains itself, which YAML can say with an alias; the fuel bounds the
  depth, and running out of it is \<open>None\<close>.\<close>

definition member_key :: "'n yaml_api \<Rightarrow> string \<Rightarrow> 'n \<Rightarrow> string" where
  "member_key y prefix k = (if prefix = [] then y_scalar y k else prefix @ ''.'' @ y_scalar y k)"

function (sequential) ListAllMember ::
    "'n yaml_api \<Rightarrow> nat \<Rightarrow> string \<Rightarrow> 'n \<Rightarrow> (string \<times> 'n) list \<Rightarrow> (string \<times> 'n) list option"
  and list_members ::
    "'n yaml_api \<Rightarrow> nat \<Rightarrow> string \<Rightarrow> ('n \<times> 'n) list \<Rightarrow> (string \<times> 'n) list \<Rightarrow> (string \<times> 'n) list option" where
  "ListAllMember y 0 prefix node out = None"
| "ListAllMember y (Suc fuel) prefix node out =
     (if \<not> valid_name prefix then Some out
      else if y_is_map y node then list_members y fuel prefix (y_entries y node) (out @ [(prefix, node)])
      else Some (out @ [(prefix, node)]))"
| "list_members y fuel prefix [] out = Some out"
| "list_members y fuel prefix ((k, m) # ms) out =
     (case ListAllMember y fuel (member_key y prefix k) m out of
        None \<Rightarrow> None
      | Some out' \<Rightarrow> list_members y fuel prefix ms out')"
  by pat_completeness auto
termination
  by (relation "measures [case_sum (\<lambda>(y, f, _). f) (\<lambda>(y, f, _). f), case_sum (\<lambda>_. 0) (\<lambda>(y, f, p, ms, _). Suc (length ms))]") auto

text \<open>\<open>from_str\<close> is the \<open>FromStr\<close> of each type.\<close>

definition virtual_fromString :: "bool \<Rightarrow> ('ty \<Rightarrow> string \<Rightarrow> 'v option) \<Rightarrow> nat \<Rightarrow> string \<Rightarrow> ('v, 's, 'ty, bool) config_op" where
  "virtual_fromString detects from_str p val cfg =
     on_var p (fromString detects (from_str (cv_type (cfg_vars cfg ! p))) val) cfg"

definition node_text :: "'n yaml_api \<Rightarrow> 'n \<Rightarrow> string" where
  "node_text y node = (if y_is_scalar y node then y_scalar y node else y_emit y node)"

fun load_nodes ::
  "bool \<Rightarrow> 'n yaml_api \<Rightarrow> ('ty \<Rightarrow> string \<Rightarrow> 'v option) \<Rightarrow> (string \<times> 'n) list \<Rightarrow> ('v, 's, 'ty, unit) config_op" where
  "load_nodes detects y from_str [] = ret ()"
| "load_nodes detects y from_str ((prefix, node) # rest) =
     (if prefix = [] then load_nodes detects y from_str rest
      else
        bnd (LookupBase detects (map tolower prefix)) (\<lambda>var.
          thn (case var of None \<Rightarrow> ret False | Some p \<Rightarrow> virtual_fromString detects from_str p (node_text y node))
            (load_nodes detects y from_str rest)))"

definition LoadFromYaml ::
  "bool \<Rightarrow> 'n yaml_api \<Rightarrow> ('ty \<Rightarrow> string \<Rightarrow> 'v option) \<Rightarrow> nat \<Rightarrow> 'n \<Rightarrow> ('v, 's, 'ty, unit) config_op" where
  "LoadFromYaml detects y from_str fuel root =
     (case ListAllMember y fuel [] root [] of
        None \<Rightarrow> raise Out_Of_Fuel
      | Some all_nodes \<Rightarrow> load_nodes detects y from_str all_nodes)"

section \<open>Types\<close>

text \<open>The invariant of the registry: the names are sorted, valid, and those of the variables, and every variable
  holds a value of its type.\<close>

definition registry_ok :: "('v \<Rightarrow> 'ty) \<Rightarrow> ('v, 's, 'ty) config \<Rightarrow> bool" where
  "registry_ok type_of cfg \<longleftrightarrow>
     map_sorted (<) (cfg_datas cfg)
     \<and> (\<forall>(name, p) \<in> set (cfg_datas cfg). valid_name name \<and> p < length (cfg_vars cfg) \<and> cv_name (cfg_vars cfg ! p) = name)
     \<and> (\<forall>c \<in> set (cfg_vars cfg). type_of (cv_val c) = cv_type c)"

text \<open>What a call may change of a variable.\<close>

definition same_var :: "('v \<Rightarrow> 'ty) \<Rightarrow> string \<Rightarrow> 'ty \<Rightarrow> ('v, 's, \<lparr>cv_type :: 'ty\<rparr>) var_op_state \<Rightarrow> bool" where
  "same_var type_of name ty = (\<lambda>(c, s). cv_name c = name \<and> cv_type c = ty \<and> type_of (cv_val c) = ty)"

named_theorems var_keeps \<open>operations of a variable that leave its name and its type\<close>

lemma on_mutex_keeps [var_keeps]: "preserves (same_var t n ty) (on_mutex f)"
  by (rule preservesI) (auto simp: on_mutex_def same_var_def split: prod.splits)

lemma announce_keeps [var_keeps]: "preserves (same_var t n ty) (announce v)"
  by (rule preservesI) (auto simp: announce_def same_var_def split: prod.splits sum.splits)

lemma store_keeps [var_keeps]: "t v = ty \<Longrightarrow> preserves (same_var t n ty) (upd (\<lambda>(c, s). (c\<lparr>cv_val := v\<rparr>, s)))"
  by (rule preservesI) (auto simp: same_var_def)

lemma setValue_keeps [var_keeps]: "t v = ty \<Longrightarrow> preserves (same_var t n ty) (setValue d v)"
  unfolding setValue_def by (intro preserves_bnd preserves_guarded var_keeps) (auto intro!: preserves_guarded preserves_ret var_keeps)

lemma toString_keeps [var_keeps]: "preserves (same_var t n ty) (ConfigVar_toString d f)"
  unfolding ConfigVar_toString_def
  by (intro preserves_catching preserves_guarded preserves_bnd preserves_ret var_keeps) (auto split: option.split intro: preserves_ret)

lemma fromString_keeps [var_keeps]:
  "(\<And>v. f x = Some v \<Longrightarrow> t v = ty) \<Longrightarrow> preserves (same_var t n ty) (fromString d f x)"
  unfolding fromString_def
  by (intro preserves_catching preserves_guarded preserves_ret var_keeps) (auto split: option.split intro!: preserves_ret preserves_thn var_keeps)

lemma addListener_keeps [var_keeps]: "preserves (same_var t n ty) (addListener d cb i)"
  unfolding addListener_def by (intro preserves_guarded var_keeps preservesI) (auto simp: same_var_def)

lemma delListerner_keeps [var_keeps]: "preserves (same_var t n ty) (delListerner d k)"
  unfolding delListerner_def by (intro preserves_guarded var_keeps preservesI) (auto simp: same_var_def)

lemma clearListener_keeps [var_keeps]: "preserves (same_var t n ty) clearListener"
  unfolding clearListener_def by (intro preservesI) (auto simp: same_var_def)

lemma on_var_ok:
  assumes "registry_ok t cfg" "p < length (cfg_vars cfg)"
    "preserves (same_var t (cv_name (cfg_vars cfg ! p)) (cv_type (cfg_vars cfg ! p))) f"
  shows "registry_ok t (snd (on_var p f cfg))"
    "length (cfg_vars (snd (on_var p f cfg))) = length (cfg_vars cfg)"
    "cfg_datas (snd (on_var p f cfg)) = cfg_datas cfg"
    "q < length (cfg_vars cfg) \<Longrightarrow> cv_type (cfg_vars (snd (on_var p f cfg)) ! q) = cv_type (cfg_vars cfg ! q)"
proof -
  let ?c = "cfg_vars cfg ! p"
  obtain r c s where run: "f (?c, cfg_world cfg) = (r, (c, s))" by (metis surj_pair)
  have "type_of = t \<Longrightarrow> same_var t (cv_name ?c) (cv_type ?c) (?c, cfg_world cfg)" for type_of
    using assms(1,2) by (auto simp: registry_ok_def same_var_def)
  then have "same_var t (cv_name ?c) (cv_type ?c) (c, s)" using preservesD [OF assms(3) _ run] by blast
  then have c: "cv_name c = cv_name ?c" "cv_type c = cv_type ?c" "t (cv_val c) = cv_type c" by (auto simp: same_var_def)
  show "registry_ok t (snd (on_var p f cfg))"
    using assms(1,2) c run set_update_subset_insert [of "cfg_vars cfg" p c]
    by (auto simp: registry_ok_def on_var_def nth_list_update)
  show "length (cfg_vars (snd (on_var p f cfg))) = length (cfg_vars cfg)"
    "cfg_datas (snd (on_var p f cfg)) = cfg_datas cfg"
    "q < length (cfg_vars cfg) \<Longrightarrow> cv_type (cfg_vars (snd (on_var p f cfg)) ! q) = cv_type (cfg_vars cfg ! q)"
    using run c by (simp_all add: on_var_def nth_list_update) (cases "q = p"; simp)
qed

lemma on_registry_keeps: "preserves (registry_ok t) (on_registry f)"
  by (rule preservesI) (auto simp: on_registry_def registry_ok_def split: prod.splits)

lemma name_chars_lower: "c \<in> set name_chars \<Longrightarrow> tolower c = c"
proof -
  have "list_all (\<lambda>c. tolower c = c) name_chars" by code_simp
  then show "c \<in> set name_chars \<Longrightarrow> tolower c = c" by (simp add: list_all_iff)
qed

lemma valid_name_lower: "valid_name name \<Longrightarrow> map tolower name = name"
  unfolding valid_name_def by (rule map_idI) (simp add: list_all_iff name_chars_lower)

lemma make_var_simps [simp]:
  "cv_name (make_var n v d ty) = map tolower n" "cv_val (make_var n v d ty) = v" "cv_type (make_var n v d ty) = ty"
  by (simp_all add: make_var_def ConfigVar_new_def ConfigVarBase_name_def config_var.defs)

lemma put_entries: "map_sorted (<) m \<Longrightarrow> e \<in> set (put_in k v m) \<Longrightarrow> e = (k, v) \<or> e \<in> set m"
  by (cases e) (metis find_entry find_put std_less.map_sorted_put option.inject)

lemma register_ok:
  assumes "registry_ok t cfg" "valid_name name" "t v = ty"
  shows "registry_ok t (cfg\<lparr>cfg_vars := cfg_vars cfg @ [make_var name v d ty],
    cfg_datas := put_in name (length (cfg_vars cfg)) (cfg_datas cfg)\<rparr>)" (is "registry_ok t ?cfg")
  unfolding registry_ok_def
proof (intro conjI ballI)
  show "map_sorted (<) (cfg_datas ?cfg)" using assms(1) by (simp add: registry_ok_def std_less.map_sorted_put)
next
  fix e assume "e \<in> set (cfg_datas ?cfg)"
  then have "e = (name, length (cfg_vars cfg)) \<or> e \<in> set (cfg_datas cfg)"
    using assms(1) put_entries [of "cfg_datas cfg" e name "length (cfg_vars cfg)"] by (auto simp: registry_ok_def)
  then show "case e of (name, p) \<Rightarrow> valid_name name \<and> p < length (cfg_vars ?cfg) \<and> cv_name (cfg_vars ?cfg ! p) = name"
  proof
    assume "e \<in> set (cfg_datas cfg)"
    then have "case e of (name, p) \<Rightarrow> valid_name name \<and> p < length (cfg_vars cfg) \<and> cv_name (cfg_vars cfg ! p) = name"
      using assms(1) by (auto simp: registry_ok_def)
    then show ?thesis by (auto simp: nth_append)
  qed (use assms(2) in \<open>simp add: valid_name_lower\<close>)
next
  fix c assume "c \<in> set (cfg_vars ?cfg)"
  then show "t (cv_val c) = cv_type c" using assms(1,3) by (auto simp: registry_ok_def)
qed

lemma registered:
  assumes "registry_ok t cfg" "find_in name (cfg_datas cfg) = Some p"
  shows "p < length (cfg_vars cfg)" "cv_name (cfg_vars cfg ! p) = name" "valid_name name"
    "t (cv_val (cfg_vars cfg ! p)) = cv_type (cfg_vars cfg ! p)"
proof -
  have "(name, p) \<in> set (cfg_datas cfg)" using assms by (simp add: registry_ok_def flip: find_entry)
  then show "p < length (cfg_vars cfg)" "cv_name (cfg_vars cfg ! p) = name" "valid_name name"
    using assms(1) by (auto simp: registry_ok_def)
  then show "t (cv_val (cfg_vars cfg ! p)) = cv_type (cfg_vars cfg ! p)" using assms(1) by (auto simp: registry_ok_def)
qed

lemma snd_thn: "P (snd (m s)) \<Longrightarrow> (\<And>s'. P s' \<Longrightarrow> P (snd (k s'))) \<Longrightarrow> P (snd (thn m k s))"
  by (auto simp: thn_run split: prod.splits sum.splits)

lemma Config_Lookup_keeps: "t v = ty \<Longrightarrow> preserves (registry_ok t) (Config_Lookup d to_str ty name v descr)"
  unfolding Config_Lookup_def
proof (intro preserves_guarded on_registry_keeps preservesI)
  fix cfg
  assume "t v = ty" and ok: "registry_ok t cfg"
  have body: "registry_ok t (snd (thn (on_var p (ConfigVar_toString d f)) (ret (None :: nat option)) cfg))" if "find_in name (cfg_datas cfg) = Some p" for p f
    using on_var_ok(1) [OF ok registered(1) [OF ok that] toString_keeps, of d f]
    by (rule snd_thn) simp
  show "registry_ok t (snd (case find_in name (cfg_datas cfg) of
      Some p \<Rightarrow> if cv_type (cfg_vars cfg ! p) = ty then (Inr (Some p), cfg)
                else thn (on_var p (ConfigVar_toString d (to_str (cv_type (cfg_vars cfg ! p))))) (ret None) cfg
    | None \<Rightarrow> if \<not> valid_name name then raise Invalid_Argument cfg
              else let p = length (cfg_vars cfg)
                   in (Inr (Some p), cfg\<lparr>cfg_vars := cfg_vars cfg @ [make_var name v descr ty], cfg_datas := put_in name p (cfg_datas cfg)\<rparr>)))"
    using ok body register_ok [OF ok _ \<open>t v = ty\<close>] by (simp add: Let_def split: option.split)
qed

lemma LookupBase_keeps: "preserves (registry_ok t) (LookupBase d name)"
  unfolding LookupBase_def by (intro preserves_guarded on_registry_keeps preserves_ret)

lemma registry_lock_same:
  "on_registry f cfg = (r, cfg') \<Longrightarrow> cfg_datas cfg' = cfg_datas cfg \<and> cfg_vars cfg' = cfg_vars cfg \<and> cfg_world cfg' = cfg_world cfg"
  by (auto simp: on_registry_def split: prod.splits)

lemma LookupBase_result:
  assumes "LookupBase d name cfg = (Inr v, cfg')"
  shows "v = find_in name (cfg_datas cfg') \<and> cfg_datas cfg' = cfg_datas cfg \<and> cfg_vars cfg' = cfg_vars cfg"
  using assms unfolding LookupBase_def
  by (rule guarded_returns) (auto dest!: registry_lock_same)

lemma virtual_keeps:
  assumes "\<And>ty s v. from_str ty s = Some v \<Longrightarrow> t v = ty" "registry_ok t cfg" "p < length (cfg_vars cfg)"
  shows "registry_ok t (snd (virtual_fromString d from_str p x cfg))"
  unfolding virtual_fromString_def using assms by (intro on_var_ok(1) fromString_keeps) auto

lemma load_nodes_keeps:
  assumes "\<And>ty s v. from_str ty s = Some v \<Longrightarrow> t v = ty"
  shows "registry_ok t cfg \<Longrightarrow> registry_ok t (snd (load_nodes d y from_str ns cfg))"
proof (induction ns arbitrary: cfg)
  case (Cons e ns)
  obtain prefix node where e: "e = (prefix, node)" by force
  obtain r cfg1 where look: "LookupBase d (map tolower prefix) cfg = (r, cfg1)" by force
  then have ok1: "registry_ok t cfg1" using preservesD [OF LookupBase_keeps Cons.prems look] by simp
  show ?case
  proof (cases r)
    case (Inl f)
    then show ?thesis using e look ok1 Cons by (simp add: bnd_run)
  next
    case (Inr v)
    have v: "v = find_in (map tolower prefix) (cfg_datas cfg1)" using LookupBase_result look Inr by blast
    have "registry_ok t (snd ((case v of None \<Rightarrow> ret False | Some p \<Rightarrow> virtual_fromString d from_str p (node_text y node)) cfg1))"
      using v ok1 virtual_keeps [OF assms ok1] registered(1) [OF ok1] by (simp split: option.split)
    then have "registry_ok t (snd (thn (case v of None \<Rightarrow> ret False | Some p \<Rightarrow> virtual_fromString d from_str p (node_text y node))
        (load_nodes d y from_str ns) cfg1))"
      by (rule snd_thn) (rule Cons.IH)
    then show ?thesis using e look Inr Cons by (simp add: bnd_run)
  qed
qed simp

text \<open>What a program can do with the registry, having got its pointers from it.\<close>

inductive config_step ::
  "('v \<Rightarrow> 'ty) \<Rightarrow> bool \<Rightarrow> ('ty \<Rightarrow> 'v \<Rightarrow> string option) \<Rightarrow> ('ty \<Rightarrow> string \<Rightarrow> 'v option) \<Rightarrow> 'n yaml_api
     \<Rightarrow> ('v, 's, 'ty) config \<Rightarrow> ('v, 's, 'ty) config \<Rightarrow> bool"
  for t d to_str from_str y where
  "t v = ty \<Longrightarrow> Config_Lookup d to_str ty name v descr cfg = (r, cfg') \<Longrightarrow> config_step t d to_str from_str y cfg cfg'"
| "p < length (cfg_vars cfg) \<Longrightarrow> t v = cv_type (cfg_vars cfg ! p) \<Longrightarrow> on_var p (setValue d v) cfg = (r, cfg')
     \<Longrightarrow> config_step t d to_str from_str y cfg cfg'"
| "p < length (cfg_vars cfg) \<Longrightarrow> virtual_fromString d from_str p x cfg = (r, cfg') \<Longrightarrow> config_step t d to_str from_str y cfg cfg'"
| "p < length (cfg_vars cfg) \<Longrightarrow> on_var p (ConfigVar_toString d (to_str (cv_type (cfg_vars cfg ! p)))) cfg = (r, cfg')
     \<Longrightarrow> config_step t d to_str from_str y cfg cfg'"
| "p < length (cfg_vars cfg) \<Longrightarrow> on_var p (addListener d cb n) cfg = (r, cfg') \<Longrightarrow> config_step t d to_str from_str y cfg cfg'"
| "p < length (cfg_vars cfg) \<Longrightarrow> on_var p (delListerner d n) cfg = (r, cfg') \<Longrightarrow> config_step t d to_str from_str y cfg cfg'"
| "p < length (cfg_vars cfg) \<Longrightarrow> on_var p clearListener cfg = (r, cfg') \<Longrightarrow> config_step t d to_str from_str y cfg cfg'"
| "LoadFromYaml d y from_str fuel root cfg = (r, cfg') \<Longrightarrow> config_step t d to_str from_str y cfg cfg'"

inductive_cases config_stepE: "config_step t d to_str from_str y cfg cfg'"

lemma config_step_ok:
  assumes "config_step t d to_str from_str y cfg cfg'" "registry_ok t cfg"
    "\<And>ty s v. from_str ty s = Some v \<Longrightarrow> t v = ty"
  shows "registry_ok t cfg'"
  using assms(1)
proof (rule config_stepE)
  fix v name descr r
  assume "Config_Lookup d to_str (t v) name v descr cfg = (r, cfg')"
  then show ?thesis by (rule preservesD [OF Config_Lookup_keeps [OF refl] assms(2)])
next
  fix fuel root r
  assume *: "LoadFromYaml d y from_str fuel root cfg = (r, cfg')"
  have "registry_ok t (snd (load_nodes d y from_str ns cfg))" for ns
    using load_nodes_keeps [of from_str t cfg d y ns] assms(2,3) by blast
  then have "registry_ok t (snd (LoadFromYaml d y from_str fuel root cfg))"
    using assms(2) by (simp add: LoadFromYaml_def split: option.split)
  then show ?thesis using * by simp
next
  fix p x r
  assume "p < length (cfg_vars cfg)" "virtual_fromString d from_str p x cfg = (r, cfg')"
  then show ?thesis using virtual_keeps [of from_str t cfg p d x] assms(2,3) by (metis snd_conv)
qed (metis on_var_ok(1) [OF assms(2)] var_keeps snd_conv)+

abbreviation config_steps where
  "config_steps t d to_str from_str y \<equiv> (config_step t d to_str from_str y)\<^sup>*\<^sup>*"

lemma config_new_ok: "registry_ok t (config_new s)"
  by (simp add: registry_ok_def config_new_def)

lemma config_steps_ok:
  assumes "config_steps t d to_str from_str y (config_new s) cfg" "\<And>ty s v. from_str ty s = Some v \<Longrightarrow> t v = ty"
  shows "registry_ok t cfg"
  using assms(1)
proof (induction rule: rtranclp_induct)
  case base
  show ?case by (rule config_new_ok)
next
  case (step cfg1 cfg2)
  then show ?case using config_step_ok assms(2) by blast
qed

lemma Config_Lookup_found:
  assumes "Config_Lookup d to_str ty name v descr cfg = (Inr (Some p), cfg')" "registry_ok t cfg" "t v = ty"
  shows "find_in name (cfg_datas cfg') = Some p \<and> cv_type (cfg_vars cfg' ! p) = ty"
proof -
  obtain s1 s2 where s1: "on_registry (wrlock d) cfg = (Inr (), s1)" and s2: "on_registry rw_unlock s2 = (Inr (), cfg')"
    and body: "(case find_in name (cfg_datas s1) of
      Some p \<Rightarrow> if cv_type (cfg_vars s1 ! p) = ty then (Inr (Some p), s1)
                else thn (on_var p (ConfigVar_toString d (to_str (cv_type (cfg_vars s1 ! p))))) (ret None) s1
    | None \<Rightarrow> if \<not> valid_name name then raise Invalid_Argument s1
              else let p = length (cfg_vars s1)
                   in (Inr (Some p), s1\<lparr>cfg_vars := cfg_vars s1 @ [make_var name v descr ty], cfg_datas := put_in name p (cfg_datas s1)\<rparr>))
      = (Inr (Some p), s2)"
    using assms(1) unfolding Config_Lookup_def by (rule guarded_returns)
  have sorted: "map_sorted (<) (cfg_datas s1)"
    using assms(2) registry_lock_same [OF s1] by (simp add: registry_ok_def)
  have "find_in name (cfg_datas s2) = Some p \<and> cv_type (cfg_vars s2 ! p) = ty"
    using body sorted by (auto simp: thn_run Let_def find_put split: option.splits if_splits prod.splits sum.splits)
  then show ?thesis using registry_lock_same [OF s2] by simp
qed

section \<open>Loading\<close>

text \<open>All the members of a document below a node, whatever their names, in document order.\<close>

function (sequential) doc_members :: "'n yaml_api \<Rightarrow> nat \<Rightarrow> string \<Rightarrow> 'n \<Rightarrow> (string \<times> 'n) list option"
  and doc_below :: "'n yaml_api \<Rightarrow> nat \<Rightarrow> string \<Rightarrow> ('n \<times> 'n) list \<Rightarrow> (string \<times> 'n) list option" where
  "doc_members y 0 prefix node = None"
| "doc_members y (Suc fuel) prefix node =
     (if y_is_map y node then map_option (Cons (prefix, node)) (doc_below y fuel prefix (y_entries y node))
      else Some [(prefix, node)])"
| "doc_below y fuel prefix [] = Some []"
| "doc_below y fuel prefix ((k, m) # ms) =
     (case doc_members y fuel (member_key y prefix k) m of
        None \<Rightarrow> None
      | Some xs \<Rightarrow> map_option (\<lambda>ys. xs @ ys) (doc_below y fuel prefix ms))"
  by pat_completeness auto
termination
  by (relation "measures [case_sum (\<lambda>(y, f, _). f) (\<lambda>(y, f, _). f), case_sum (\<lambda>_. 0) (\<lambda>(y, f, p, ms). Suc (length ms))]") auto

abbreviation valid_members :: "(string \<times> 'n) list \<Rightarrow> (string \<times> 'n) list" where
  "valid_members \<equiv> filter (\<lambda>p. valid_name (fst p))"

lemma valid_name_append: "valid_name (a @ b) \<longleftrightarrow> valid_name a \<and> valid_name b"
  by (simp add: valid_name_def)

lemma member_key_invalid: "\<not> valid_name prefix \<Longrightarrow> \<not> valid_name (member_key y prefix k)"
  by (cases "prefix = []") (auto simp: member_key_def valid_name_append, simp add: valid_name_def)

lemma below_invalid:
  "doc_members y fuel prefix node = Some xs \<Longrightarrow> \<not> valid_name prefix \<Longrightarrow> valid_members xs = []"
  "doc_below y fuel prefix ms = Some xs \<Longrightarrow> \<not> valid_name prefix \<Longrightarrow> valid_members xs = []"
proof (induction y fuel prefix node and y fuel prefix ms arbitrary: xs and xs rule: doc_members_doc_below.induct)
  case (2 y fuel prefix node)
  then show ?case by (auto split: if_splits)
next
  case (4 y fuel prefix k m ms)
  then show ?case using member_key_invalid [OF "4.prems"(2), of y k] by (auto split: option.splits)
qed simp_all

lemma ListAllMember_lists:
  "doc_members y fuel prefix node = Some xs \<Longrightarrow> ListAllMember y fuel prefix node out = Some (out @ valid_members xs)"
  "doc_below y fuel prefix ms = Some xs \<Longrightarrow> list_members y fuel prefix ms out = Some (out @ valid_members xs)"
proof (induction y fuel prefix node and y fuel prefix ms arbitrary: xs out and xs out rule: doc_members_doc_below.induct)
  case (2 y fuel prefix node)
  then show ?case using below_invalid(1) [OF "2.prems"] by (auto split: if_splits)
next
  case (4 y fuel prefix k m ms)
  then show ?case by (auto split: option.splits)
qed simp_all

text \<open>A document of bounded depth is listed with fuel above it.\<close>

lemma doc_members_defined:
  assumes deep: "\<And>n k m. y_is_map y n \<Longrightarrow> (k, m) \<in> set (y_entries y n) \<Longrightarrow> depth m < (depth n :: nat)"
  shows "depth node < fuel \<Longrightarrow> doc_members y fuel prefix node \<noteq> None"
proof (induction fuel arbitrary: prefix node)
  case (Suc fuel)
  have "doc_below y fuel prefix ms \<noteq> None" if "y_is_map y node" "set ms \<subseteq> set (y_entries y node)" for ms
    using that
  proof (induction ms)
    case (Cons e ms)
    obtain k m where e: "e = (k, m)" by force
    then have "depth m < fuel" using deep [of node k m] Cons.prems Suc.prems by auto
    then show ?case using Suc.IH [of m "member_key y prefix k"] Cons e by auto
  qed simp
  then show ?case by simp
qed simp

text \<open>The assignments a list of members gives rise to.\<close>

definition load_targets :: "'n yaml_api \<Rightarrow> (string \<times> nat) list \<Rightarrow> (string \<times> 'n) list \<Rightarrow> (nat \<times> string) list" where
  "load_targets y datas members =
     concat (map (\<lambda>(name, node). case (if name = [] \<or> \<not> valid_name name then None else find_in name datas) of
        None \<Rightarrow> [] | Some p \<Rightarrow> [(p, node_text y node)]) members)"

fun assign_all :: "bool \<Rightarrow> ('ty \<Rightarrow> string \<Rightarrow> 'v option) \<Rightarrow> (nat \<times> string) list \<Rightarrow> ('v, 's, 'ty, unit) config_op" where
  "assign_all d from_str [] = ret ()"
| "assign_all d from_str ((p, x) # ts) = thn (virtual_fromString d from_str p x) (assign_all d from_str ts)"

lemma virtual_same: "cfg_datas (snd (virtual_fromString d f p x cfg)) = cfg_datas cfg \<and> cfg_mutex (snd (virtual_fromString d f p x cfg)) = cfg_mutex cfg"
  by (simp add: virtual_fromString_def on_var_def split: prod.splits)

lemma LookupBase_free: "cfg_mutex cfg = Free \<Longrightarrow> LookupBase d name cfg = (Inr (find_in name (cfg_datas cfg)), cfg)"
  by (cases cfg) (simp add: LookupBase_def guarded_def on_registry_def rdlock_def rw_unlock_def thn_run)

lemma load_nodes_assign:
  "cfg_mutex cfg = Free \<Longrightarrow>
   load_nodes d y from_str (valid_members ms) cfg = assign_all d from_str (load_targets y (cfg_datas cfg) ms) cfg"
proof (induction ms arbitrary: cfg)
  case (Cons e ms)
  obtain name node where e: "e = (name, node)" by force
  show ?case
  proof (cases "name = [] \<or> \<not> valid_name name")
    case True
    then show ?thesis using Cons e by (auto simp: load_targets_def)
  next
    case False
    then have name: "name \<noteq> []" "valid_name name" "map tolower name = name" using valid_name_lower by auto
    show ?thesis
    proof (cases "find_in name (cfg_datas cfg)")
      case None
      then show ?thesis using Cons e name by (simp add: LookupBase_free bnd_run thn_run load_targets_def)
    next
      case (Some p)
      obtain r cfg1 where run: "virtual_fromString d from_str p (node_text y node) cfg = (r, cfg1)" by force
      then have "cfg_datas cfg1 = cfg_datas cfg" "cfg_mutex cfg1 = Free"
        using virtual_same [of d from_str p "node_text y node" cfg] Cons.prems by auto
      then have "load_nodes d y from_str (valid_members ms) cfg1 = assign_all d from_str (load_targets y (cfg_datas cfg) ms) cfg1"
        using Cons.IH [of cfg1] by simp
      then show ?thesis using Cons.prems e name Some run
        by (cases r) (simp_all add: LookupBase_free bnd_run thn_run load_targets_def)
    qed
  qed
qed (simp add: load_targets_def)

section \<open>Properties\<close>



text \<open>A registry of numbers and texts, and documents as trees.\<close>

definition number_port :: "(nat + string, unit, bool, nat option) config_op" where
  "number_port = Config_Lookup True (\<lambda>_ _. None) True ''server.port'' (Inl 80) ''''"

datatype doc = Leaf string | Branch "(doc \<times> doc) list"

definition doc_api :: "doc yaml_api" where
  "doc_api = \<lparr> y_load = (\<lambda>s. Some (Leaf s)), y_emit = (\<lambda>n. case n of Leaf s \<Rightarrow> s | Branch _ \<Rightarrow> ''{}''), y_size = (\<lambda>_. 0), y_index = (\<lambda>n _. n),
     y_entries = (\<lambda>n. case n of Leaf _ \<Rightarrow> [] | Branch es \<Rightarrow> es), y_scalar = (\<lambda>n. case n of Leaf s \<Rightarrow> s | Branch _ \<Rightarrow> ''''),
     y_is_map = (\<lambda>n. case n of Leaf _ \<Rightarrow> False | Branch _ \<Rightarrow> True), y_is_scalar = (\<lambda>n. case n of Leaf _ \<Rightarrow> True | Branch _ \<Rightarrow> False),
     y_sequence = Branch [], y_null = Leaf '''', y_map = Branch [], y_push = (\<lambda>n _. n), y_put = (\<lambda>n k m. n) \<rparr>"

definition port_doc :: doc where
  "port_doc = Branch [(Leaf ''server'', Branch [(Leaf ''port'', Leaf ''8080'')]), (Leaf ''Server'', Branch [(Leaf ''port'', Leaf ''1'')])]"

lemma smaller_member: "(k, m) \<in> set es \<Longrightarrow> size (m :: doc) < size (Branch es)"
  by (induction es) auto



end
