(* ===== verification/Log_Format.thy ===== *)
theory Log_Format
  imports Text_Format
begin

text \<open>
  The log levels, events and formatters of \<open>src/src/log.h\<close> and \<open>log.cpp\<close>. Printing a time is
  \<open>localtime_r\<close> and \<open>strftime\<close> of the C library, the argument \<open>strf\<close>, and \<open>snprintf\<close> is an argument
  as well. \<open>isalnum\<close> is that of the C locale.
\<close>

section \<open>Levels\<close>

text \<open>\<open>enum class LogLevel\<close> has the range of an \<open>int\<close>, and the code makes a level of \<open>100\<close>.\<close>

datatype loglevel = LogLevel int

instantiation loglevel :: linorder
begin

fun less_eq_loglevel :: "loglevel \<Rightarrow> loglevel \<Rightarrow> bool" where "less_eq_loglevel (LogLevel a) (LogLevel b) = (a \<le> b)"
fun less_loglevel :: "loglevel \<Rightarrow> loglevel \<Rightarrow> bool" where "less_loglevel (LogLevel a) (LogLevel b) = (a < b)"

instance
proof
  fix x y z :: loglevel
  show "(x < y) = (x \<le> y \<and> \<not> y \<le> x)" by (cases x; cases y) auto
  show "x \<le> x" by (cases x) simp
  show "x \<le> y \<Longrightarrow> y \<le> z \<Longrightarrow> x \<le> z" by (cases x; cases y; cases z) simp
  show "x \<le> y \<Longrightarrow> y \<le> x \<Longrightarrow> x = y" by (cases x; cases y) simp
  show "x \<le> y \<or> y \<le> x" by (cases x; cases y) auto
qed

end

definition L_UNKONWN :: loglevel where "L_UNKONWN = LogLevel 0"
definition L_DEBUG :: loglevel where "L_DEBUG = LogLevel 1"
definition L_INFO :: loglevel where "L_INFO = LogLevel 2"
definition L_WARN :: loglevel where "L_WARN = LogLevel 3"
definition L_ERROR :: loglevel where "L_ERROR = LogLevel 4"
definition L_FATAL :: loglevel where "L_FATAL = LogLevel 5"

lemmas level_defs = L_UNKONWN_def L_DEBUG_def L_INFO_def L_WARN_def L_ERROR_def L_FATAL_def

definition LogLevelToString :: "loglevel \<Rightarrow> string" where
  "LogLevelToString ll =
     (if ll = L_DEBUG then ''DEBUG'' else if ll = L_INFO then ''INFO'' else if ll = L_WARN then ''WARN''
      else if ll = L_ERROR then ''ERROR'' else if ll = L_FATAL then ''FATAL'' else ''UNKNOW'')"

definition FromStringToLogLevel :: "string \<Rightarrow> loglevel" where
  "FromStringToLogLevel str =
     (if str = ''debug'' then L_DEBUG else if str = ''info'' then L_INFO else if str = ''warn'' then L_WARN
      else if str = ''error'' then L_ERROR else if str = ''fatal'' then L_FATAL
      else if str = ''DEBUG'' then L_DEBUG else if str = ''INFO'' then L_INFO else if str = ''WARN'' then L_WARN
      else if str = ''ERROR'' then L_ERROR else if str = ''FATAL'' then L_FATAL else L_UNKONWN)"

lemma level_roundtrip: "L_UNKONWN \<le> ll \<Longrightarrow> ll \<le> L_FATAL \<Longrightarrow> FromStringToLogLevel (LogLevelToString ll) = ll"
proof (cases ll)
  case (LogLevel n)
  assume "L_UNKONWN \<le> ll" "ll \<le> L_FATAL"
  then have "n \<in> {0, 1, 2, 3, 4, 5}" using LogLevel by (auto simp: level_defs)
  then show ?thesis using LogLevel by (auto simp: FromStringToLogLevel_def LogLevelToString_def level_defs)
qed

section \<open>Events\<close>

text \<open>\<open>m_logger\<close> is a pointer, an index into the loggers; its name is what the formatter reads of it.\<close>

record log_event =
  ev_logger :: nat
  ev_filename :: string
  ev_level :: loglevel
  ev_line :: int
  ev_threadId :: u32
  ev_coroutineId :: u32
  ev_time :: u64
  ev_elapse :: u32
  ev_ss :: string
  ev_threadName :: string

definition LogEvent_new ::
  "nat \<Rightarrow> loglevel \<Rightarrow> string \<Rightarrow> int \<Rightarrow> u32 \<Rightarrow> u32 \<Rightarrow> u32 \<Rightarrow> u64 \<Rightarrow> string \<Rightarrow> log_event" where
  "LogEvent_new logger level file line elapse thread_id coroutine_id time thread_name =
     \<lparr> ev_logger = logger, ev_filename = file, ev_level = level, ev_line = line, ev_threadId = thread_id,
       ev_coroutineId = coroutine_id, ev_time = time, ev_elapse = elapse, ev_ss = '''', ev_threadName = thread_name \<rparr>"

text \<open>\<open>printed\<close> is what \<open>snprintf\<close> prints, or \<open>None\<close> when it returns a negative number: then a buffer
  without room for a single character is read.\<close>

definition LogEvent_format :: "string option \<Rightarrow> (log_event, unit) op" where
  "LogEvent_format printed event =
     (case printed of
        None \<Rightarrow> (Inl Bad_Index, event)
      | Some s \<Rightarrow> (Inr (), event\<lparr>ev_ss := ev_ss event @ c_str s\<rparr>))"

section \<open>Format items\<close>

datatype format_item =
    MessageFormatItem
  | LevelFormatItem
  | DateTimeFormatItem string
  | ElapseFormatItem
  | LoggerNameFormatItem
  | ThreadIdFormatItem
  | ThreadNameFormatItem
  | CoroutineIdFormatItem
  | LineFormatItem
  | NewLineFormatItem
  | FilenameFormatItem
  | StringFormatItem string
  | TabFormatItem

definition DateTimeFormatItem_new :: "string \<Rightarrow> format_item" where
  "DateTimeFormatItem_new format = DateTimeFormatItem (if format = [] then ''%Y/%m/%d %H:%M:%S'' else format)"

definition show_int :: "int \<Rightarrow> string" where
  "show_int i = (if i < 0 then ''-'' @ dec (nat (- i)) else dec (nat i))"

text \<open>The text of one item. \<open>name\<close> is the name of the event's logger. A time that does not fit the buffer of 64
  bytes leaves it unwritten, and it is read all the same.\<close>

definition item_format :: "(string \<Rightarrow> u64 \<Rightarrow> string) \<Rightarrow> string \<Rightarrow> loglevel \<Rightarrow> log_event \<Rightarrow> format_item \<Rightarrow> fault + string" where
  "item_format strf name ll event item =
     (case item of
        MessageFormatItem \<Rightarrow> Inr (ev_ss event)
      | LevelFormatItem \<Rightarrow> Inr (LogLevelToString ll)
      | DateTimeFormatItem fmt \<Rightarrow>
          let text = strf (c_str fmt) (ev_time event) in if length text < 64 then Inr text else Inl Bad_Index
      | ElapseFormatItem \<Rightarrow> Inr (dec (unat (ev_elapse event)))
      | LoggerNameFormatItem \<Rightarrow> Inr name
      | ThreadIdFormatItem \<Rightarrow> Inr (dec (unat (ev_threadId event)))
      | ThreadNameFormatItem \<Rightarrow> Inr (ev_threadName event)
      | CoroutineIdFormatItem \<Rightarrow> Inr (dec (unat (ev_coroutineId event)))
      | LineFormatItem \<Rightarrow> Inr (show_int (ev_line event))
      | NewLineFormatItem \<Rightarrow> Inr [CHR 0x0A]
      | FilenameFormatItem \<Rightarrow> Inr (ev_filename event)
      | StringFormatItem s \<Rightarrow> Inr s
      | TabFormatItem \<Rightarrow> Inr [CHR 0x09])"

section \<open>Patterns\<close>

definition isalnum :: "char \<Rightarrow> bool" where
  "isalnum c \<longleftrightarrow> (CHR ''0'' \<le> c \<and> c \<le> CHR ''9'') \<or> (CHR ''A'' \<le> c \<and> c \<le> CHR ''Z'') \<or> (CHR ''a'' \<le> c \<and> c \<le> CHR ''z'')"

text \<open>The inner loop of \<open>init\<close>, from behind the \<open>%\<close>; the index \<open>m\<close> is the length of what has been consumed. The null
  character behind the pattern ends a symbol. Inside braces only the closing one counts, and braces that are
  never closed give no format.\<close>

fun scan_fmt :: "string \<Rightarrow> string \<Rightarrow> string \<times> string" where
  "scan_fmt fmt [] = ([], [])"
| "scan_fmt fmt (c # cs) = (if c = CHR ''}'' then (fmt, cs) else scan_fmt (fmt @ [c]) cs)"

fun scan_symbol :: "string \<Rightarrow> string \<Rightarrow> string \<times> string \<times> string" where
  "scan_symbol symbol [] = (symbol, [], [])"
| "scan_symbol symbol (c # cs) =
     (if c \<noteq> CHR ''{'' \<and> c \<noteq> CHR ''}'' \<and> \<not> isalnum c then (symbol, [], c # cs)
      else if c = CHR ''{'' then (case scan_fmt [] cs of (fmt, rest) \<Rightarrow> (symbol, fmt, rest))
      else scan_symbol (symbol @ [c]) cs)"

lemma scan_fmt_shorter: "scan_fmt fmt cs = (fmt', rest) \<Longrightarrow> length rest \<le> length cs"
  by (induction fmt cs rule: scan_fmt.induct) (auto split: if_splits)

lemma scan_symbol_shorter: "scan_symbol symbol cs = (symbol', fmt, rest) \<Longrightarrow> length rest \<le> length cs"
  by (induction symbol cs rule: scan_symbol.induct) (auto split: if_splits prod.splits dest: scan_fmt_shorter)

text \<open>The outer loop, \<open>vec\<close> being its result: texts have type 2, symbols type 1 with a format and 0 without. What is
  in \<open>nstr\<close> when the pattern ends is not pushed.\<close>

function parse_pattern :: "string \<Rightarrow> string \<Rightarrow> (string \<times> string \<times> nat) list" where
  "parse_pattern nstr [] = []"
| "parse_pattern nstr (c # cs) =
     (if c \<noteq> CHR ''%'' then parse_pattern (nstr @ [c]) cs
      else if cs \<noteq> [] \<and> hd cs = CHR ''%'' then parse_pattern (nstr @ ''%'') cs
      else
        (if nstr \<noteq> [] then [(nstr, [], 2)] else []) @
        (case scan_symbol [] cs of
           (symbol, fmt, rest) \<Rightarrow>
             (if symbol \<noteq> [] then [(symbol, fmt, if fmt \<noteq> [] then 1 else 0)] else []) @ parse_pattern [] rest))"
  by pat_completeness auto
termination
  by (relation "measure (length o snd)") (auto simp: less_Suc_eq_le dest: scan_symbol_shorter [OF sym])

definition format_items :: "string \<Rightarrow> (string \<Rightarrow> format_item) option" where
  "format_items = map_of [
     (''m'', \<lambda>_. MessageFormatItem), (''p'', \<lambda>_. LevelFormatItem), (''r'', \<lambda>_. ElapseFormatItem),
     (''c'', \<lambda>_. LoggerNameFormatItem), (''t'', \<lambda>_. ThreadIdFormatItem), (''N'', \<lambda>_. ThreadNameFormatItem),
     (''C'', \<lambda>_. CoroutineIdFormatItem), (''d'', DateTimeFormatItem_new), (''f'', \<lambda>_. FilenameFormatItem),
     (''l'', \<lambda>_. LineFormatItem), (''n'', \<lambda>_. NewLineFormatItem), (''T'', \<lambda>_. TabFormatItem)]"

definition make_item :: "string \<times> string \<times> nat \<Rightarrow> format_item \<times> bool" where
  "make_item = (\<lambda>(s, fmt, kind).
     if kind = 2 then (StringFormatItem s, False)
     else (case format_items s of
             None \<Rightarrow> (StringFormatItem (''<<error_format %'' @ s @ ''>>''), True)
           | Some build \<Rightarrow> (build fmt, False)))"

record log_formatter =
  lf_pattern :: string
  lf_items :: "format_item list"
  lf_error :: bool

definition LogFormatter_init :: "log_formatter \<Rightarrow> log_formatter" where
  "LogFormatter_init f =
     (if lf_pattern f = [] then f
      else
        let made = map make_item (parse_pattern [] (lf_pattern f))
        in f\<lparr>lf_items := lf_items f @ map fst made, lf_error := lf_error f \<or> (\<exists>m \<in> set made. snd m)\<rparr>)"

definition LogFormatter_new :: "string \<Rightarrow> log_formatter" where
  "LogFormatter_new pattern = LogFormatter_init \<lparr> lf_pattern = pattern, lf_items = [], lf_error = False \<rparr>"

fun format_all :: "(string \<Rightarrow> u64 \<Rightarrow> string) \<Rightarrow> string \<Rightarrow> loglevel \<Rightarrow> log_event \<Rightarrow> format_item list \<Rightarrow> fault + string" where
  "format_all strf name ll event [] = Inr []"
| "format_all strf name ll event (i # is) =
     (case item_format strf name ll event i of
        Inl e \<Rightarrow> Inl e
      | Inr s \<Rightarrow> (case format_all strf name ll event is of Inl e \<Rightarrow> Inl e | Inr t \<Rightarrow> Inr (s @ t)))"

definition LogFormatter_format ::
  "(string \<Rightarrow> u64 \<Rightarrow> string) \<Rightarrow> string \<Rightarrow> loglevel \<Rightarrow> log_event \<Rightarrow> log_formatter \<Rightarrow> fault + string" where
  "LogFormatter_format strf name ll event f = format_all strf name ll event (lf_items f)"

definition default_pattern :: string where
  "default_pattern = ''[%d{%Y-%m-%d %H:%M:%S}] [%N:%t:COR_%C]%T%[%c][%p]%T(%f:%l)%T%m%n''"

section \<open>What a pattern stands for\<close>

text \<open>A pattern as its author thinks of it: texts and symbols with an optional format.\<close>

datatype piece = Text string | Symbol string "string option"

fun render :: "piece list \<Rightarrow> string" where
  "render [] = []"
| "render (Text s # ps) = s @ render ps"
| "render (Symbol s None # ps) = CHR ''%'' # s @ render ps"
| "render (Symbol s (Some f) # ps) = CHR ''%'' # s @ CHR ''{'' # f @ CHR ''}'' # render ps"

definition opens :: "string \<Rightarrow> bool" where
  "opens s \<longleftrightarrow> s \<noteq> [] \<and> (hd s = CHR ''{'' \<or> hd s = CHR ''}'' \<or> isalnum (hd s))"

text \<open>Pieces that can be told apart: a text is not empty, has no \<open>%\<close> and is not followed by a text; a symbol is
  made of letters and digits; without a format it is not followed by a letter, a digit or a brace, and its format has
  no closing brace.\<close>

fun readable :: "piece list \<Rightarrow> bool" where
  "readable [] \<longleftrightarrow> True"
| "readable (Text s # ps) \<longleftrightarrow>
     s \<noteq> [] \<and> CHR ''%'' \<notin> set s \<and> (case ps of Text _ # _ \<Rightarrow> False | _ \<Rightarrow> True) \<and> readable ps"
| "readable (Symbol s None # ps) \<longleftrightarrow>
     s \<noteq> [] \<and> list_all isalnum s \<and> \<not> opens (render ps) \<and> readable ps"
| "readable (Symbol s (Some f) # ps) \<longleftrightarrow>
     s \<noteq> [] \<and> list_all isalnum s \<and> f \<noteq> [] \<and> CHR ''}'' \<notin> set f \<and> readable ps"

text \<open>What \<open>init\<close> should find, and what it leaves out of it.\<close>

fun entry_of :: "piece \<Rightarrow> string \<times> string \<times> nat" where
  "entry_of (Text s) = (s, [], 2)"
| "entry_of (Symbol s None) = (s, [], 0)"
| "entry_of (Symbol s (Some f)) = (s, f, 1)"

fun without_last_text :: "piece list \<Rightarrow> piece list" where
  "without_last_text [] = []"
| "without_last_text [Text s] = []"
| "without_last_text (p # ps) = p # without_last_text ps"

lemma isalnum_facts [simp]: "\<not> isalnum CHR ''%''" "\<not> isalnum CHR ''{''" "\<not> isalnum CHR ''}''"
  by (simp_all add: isalnum_def less_eq_char_def)

lemma scan_fmt_closed: "CHR ''}'' \<notin> set f \<Longrightarrow> scan_fmt acc (f @ CHR ''}'' # cs) = (acc @ f, cs)"
  by (induction f arbitrary: acc) auto

lemma scan_symbol_name: "list_all isalnum s \<Longrightarrow> scan_symbol acc (s @ cs) = scan_symbol (acc @ s) cs"
proof (induction s arbitrary: acc)
  case (Cons c s)
  then show ?case by (cases "c = CHR ''{''") (auto simp: isalnum_def less_eq_char_def)
qed simp

lemma scan_symbol_ends: "\<not> opens cs \<Longrightarrow> scan_symbol acc cs = (acc, [], cs)"
  by (cases cs) (auto simp: opens_def)

lemma parse_text: "CHR ''%'' \<notin> set s \<Longrightarrow> parse_pattern acc (s @ cs) = parse_pattern (acc @ s) cs"
  by (induction s arbitrary: acc) auto

definition pending :: "string \<Rightarrow> (string \<times> string \<times> nat) list" where
  "pending nstr = (if nstr \<noteq> [] then [(nstr, [], 2)] else [])"

lemma parse_symbol:
  assumes "s \<noteq> []" "list_all isalnum s" "scan_symbol s cs = (s, f, rest)"
  shows "parse_pattern nstr (CHR ''%'' # s @ cs) = pending nstr @ (s, f, if f \<noteq> [] then 1 else 0) # parse_pattern [] rest"
proof -
  have "hd (s @ cs) \<noteq> CHR ''%''" using assms(1,2) by (cases s) auto
  moreover have "scan_symbol [] (s @ cs) = (s, f, rest)" using assms(2,3) scan_symbol_name [of s "[]" cs] by simp
  ultimately show ?thesis using assms(1) by (simp add: pending_def)
qed

lemma parse_render_pending:
  assumes "readable ps" "nstr \<noteq> [] \<Longrightarrow> (case ps of Text _ # _ \<Rightarrow> False | _ \<Rightarrow> True)"
  shows "parse_pattern nstr (render ps) =
    (if ps = [] then [] else pending nstr @ map entry_of (without_last_text ps))"
  using assms
proof (induction ps arbitrary: nstr rule: readable.induct)
  case (2 s ps)
  then have "nstr = []" by auto
  have txt1: "parse_pattern [] (render (Text s # ps)) = parse_pattern s (render ps)"
    using "2.prems"(1) parse_text [of s "[]" "render ps"] by simp
  have ih: "parse_pattern s (render ps) = (if ps = [] then [] else pending s @ map entry_of (without_last_text ps))"
    using "2.prems"(1) "2.IH" [of s] by simp
  show ?case
  proof (cases ps)
    case Nil
    then show ?thesis using \<open>nstr = []\<close> txt1 by (simp add: pending_def)
  next
    case (Cons p ps')
    then show ?thesis using \<open>nstr = []\<close> txt1 ih "2.prems"(1) by (simp add: pending_def)
  qed
next
  case (3 s ps)
  then have "scan_symbol s (render ps) = (s, [], render ps)" by (simp add: scan_symbol_ends)
  then have "parse_pattern nstr (render (Symbol s None # ps)) = pending nstr @ (s, [], 0) # parse_pattern [] (render ps)"
    using "3.prems"(1) parse_symbol [of s "render ps" "[]" "render ps" nstr] by (simp del: parse_pattern.simps)
  then show ?case using "3.IH" [of "[]"] "3.prems"(1) by (simp add: pending_def del: parse_pattern.simps)
next
  case (4 s f ps)
  then have "scan_symbol s (CHR ''{'' # f @ CHR ''}'' # render ps) = (s, f, render ps)"
    by (simp add: scan_fmt_closed)
  then have "parse_pattern nstr (render (Symbol s (Some f) # ps)) = pending nstr @ (s, f, 1) # parse_pattern [] (render ps)"
    using "4.prems"(1) parse_symbol [of s "CHR ''{'' # f @ CHR ''}'' # render ps" f "render ps" nstr] by (simp del: parse_pattern.simps)
  then show ?case using "4.IH" [of "[]"] "4.prems"(1) by (simp add: pending_def del: parse_pattern.simps)
qed simp

section \<open>Properties\<close>

text \<open>C32: a pattern made of texts and symbols that can be told apart is read back as these, each symbol with
  its format, in order; but a text behind the last symbol is left out.\<close>

theorem pattern_roundtrip:
  assumes "readable ps"
  shows "parse_pattern [] (render ps) = map entry_of (without_last_text ps)"
  using parse_render_pending [OF assms, of "[]"] by (cases ps) (auto simp: pending_def)

theorem pattern_roundtrip_witness:
  "parse_pattern [] ''[%d{%H:%M}] %p: %m !'' =
     [(''['', [], 2), (''d'', ''%H:%M'', 1), (''] '', [], 2), (''p'', [], 0), ('': '', [], 2), (''m'', [], 0)]"
proof -
  define ps where "ps = [Text ''['', Symbol ''d'' (Some ''%H:%M''), Text ''] '', Symbol ''p'' None, Text '': '', Symbol ''m'' None, Text '' !'']"
  have "readable ps" unfolding ps_def by code_simp
  then have "parse_pattern [] (render ps) = map entry_of (without_last_text ps)" by (rule pattern_roundtrip)
  then show ?thesis by (simp add: ps_def)
qed

text \<open>The default pattern has a stray \<open>%\<close>, which disappears.\<close>

lemma default_items:
  "lf_items (LogFormatter_new default_pattern) =
     [StringFormatItem ''['', DateTimeFormatItem ''%Y-%m-%d %H:%M:%S'', StringFormatItem ''] ['', ThreadNameFormatItem,
      StringFormatItem '':'', ThreadIdFormatItem, StringFormatItem '':COR_'', CoroutineIdFormatItem,
      StringFormatItem '']'', TabFormatItem, StringFormatItem ''['', LoggerNameFormatItem, StringFormatItem '']['',
      LevelFormatItem, StringFormatItem '']'', TabFormatItem, StringFormatItem ''('', FilenameFormatItem,
      StringFormatItem '':'', LineFormatItem, StringFormatItem '')'', TabFormatItem, MessageFormatItem, NewLineFormatItem]"
  "\<not> lf_error (LogFormatter_new default_pattern)"
  by code_simp+

lemma percent_percent_m: "parse_pattern [] ''%%m'' = [(''%'', [], 2), (''m'', [], 0)]"
  by code_simp

end
