(* ===== verification/Logger.thy ===== *)
theory Logger
  imports Log_Format Locks
begin

text \<open>
  The appenders, loggers and the logger manager of \<open>src/src/log.cpp\<close>. Loggers and appenders are shared: a
  pointer is an index among those ever made. The spin locks are taken and given back within each operation, on
  different objects, and are left out. The file system is a function from names to contents and one that
  says which files can be opened; writing and closing an open file succeed.
\<close>

section \<open>State\<close>

datatype appender_kind = SoutLogAppender | FileLogAppender string

text \<open>\<open>ap_open\<close> and \<open>ap_fail\<close> are the state of \<open>m_filestream\<close>.\<close>

record log_appender =
  ap_kind :: appender_kind
  ap_level :: loglevel
  ap_hasFormatter :: bool
  ap_formatter :: "log_formatter option"
  ap_open :: bool
  ap_fail :: bool

record logger =
  lg_name :: string
  lg_level :: loglevel
  lg_appenders :: "nat list"
  lg_formatter :: "log_formatter option"
  lg_root :: "nat option"

text \<open>The order of \<open>ls_map\<close> stands for the order of iteration of the \<open>unordered_map\<close>, which is not specified.\<close>

record log_state =
  ls_apps :: "log_appender list"
  ls_loggers :: "logger list"
  ls_map :: "(string \<times> nat) list"
  ls_root :: nat
  ls_out :: string
  ls_files :: "string \<Rightarrow> string"
  ls_openable :: "string \<Rightarrow> bool"

type_synonym 'a log_op = "(log_state, 'a) op"

definition get_app :: "log_state \<Rightarrow> nat \<Rightarrow> log_appender" where "get_app s a = ls_apps s ! a"
definition get_logger :: "log_state \<Rightarrow> nat \<Rightarrow> logger" where "get_logger s l = ls_loggers s ! l"

definition upd_app :: "nat \<Rightarrow> (log_appender \<Rightarrow> log_appender) \<Rightarrow> log_state \<Rightarrow> log_state" where
  "upd_app a f s = s\<lparr>ls_apps := (ls_apps s)[a := f (get_app s a)]\<rparr>"

definition upd_logger :: "nat \<Rightarrow> (logger \<Rightarrow> logger) \<Rightarrow> log_state \<Rightarrow> log_state" where
  "upd_logger l f s = s\<lparr>ls_loggers := (ls_loggers s)[l := f (get_logger s l)]\<rparr>"

definition put_out :: "string \<Rightarrow> unit log_op" where
  "put_out t = upd (\<lambda>s. s\<lparr>ls_out := ls_out s @ t\<rparr>)"

section \<open>Appenders\<close>

definition new_appender :: "appender_kind \<Rightarrow> log_appender" where
  "new_appender k = \<lparr> ap_kind = k, ap_level = L_DEBUG, ap_hasFormatter = False, ap_formatter = None, ap_open = False, ap_fail = False \<rparr>"

definition make_appender :: "appender_kind \<Rightarrow> nat log_op" where
  "make_appender k s = (Inr (length (ls_apps s)), s\<lparr>ls_apps := ls_apps s @ [new_appender k]\<rparr>)"

definition LogAppender_getFormatter :: "nat \<Rightarrow> log_formatter option log_op" where
  "LogAppender_getFormatter a = gets (\<lambda>s. ap_formatter (get_app s a))"

definition LogAppender_setFormatter :: "nat \<Rightarrow> log_formatter option \<Rightarrow> unit log_op" where
  "LogAppender_setFormatter a formatter =
     upd (upd_app a (\<lambda>x. x\<lparr>ap_formatter := formatter, ap_hasFormatter := (formatter \<noteq> None)\<rparr>))"

definition LogAppender_setLevel :: "nat \<Rightarrow> loglevel \<Rightarrow> unit log_op" where
  "LogAppender_setLevel a ll = upd (upd_app a (\<lambda>x. x\<lparr>ap_level := ll\<rparr>))"

definition colour :: "loglevel \<Rightarrow> string \<Rightarrow> string" where
  "colour ll s =
     (if ll = L_DEBUG then CHR 0x1B # ''[36m'' @ s @ CHR 0x1B # ''[0m''
      else if ll = L_WARN then CHR 0x1B # ''[33m'' @ s @ CHR 0x1B # ''[0m''
      else if ll = L_ERROR then CHR 0x1B # ''[31m'' @ s @ CHR 0x1B # ''[0m''
      else s)"

text \<open>\<open>m_formatter -> format\<close> for a formatter that may be null.\<close>

definition formatted :: "(string \<Rightarrow> u64 \<Rightarrow> string) \<Rightarrow> nat \<Rightarrow> loglevel \<Rightarrow> log_event \<Rightarrow> string log_op" where
  "formatted strf a ll event s =
     (case ap_formatter (get_app s a) of
        None \<Rightarrow> (Inl Null_Deref, s)
      | Some f \<Rightarrow> (LogFormatter_format strf (lg_name (get_logger s (ev_logger event))) ll event f, s))"

definition SoutLogAppender_log :: "(string \<Rightarrow> u64 \<Rightarrow> string) \<Rightarrow> nat \<Rightarrow> loglevel \<Rightarrow> log_event \<Rightarrow> unit log_op" where
  "SoutLogAppender_log strf a ll event s =
     (if ap_level (get_app s a) \<le> ll then bnd (formatted strf a ll event) (\<lambda>t. put_out (colour ll t)) s else (Inr (), s))"

text \<open>Closing a stream that is not open fails, opening one that is not closed as well; opening clears the failure.\<close>

definition close_stream :: "log_appender \<Rightarrow> log_appender" where
  "close_stream x = (if ap_open x then x\<lparr>ap_open := False\<rparr> else x\<lparr>ap_fail := True\<rparr>)"

definition open_stream :: "bool \<Rightarrow> log_appender \<Rightarrow> log_appender" where
  "open_stream openable x = (if \<not> ap_open x \<and> openable then x\<lparr>ap_open := True, ap_fail := False\<rparr> else x\<lparr>ap_fail := True\<rparr>)"

definition FileLogAppender_reopen :: "string \<Rightarrow> nat \<Rightarrow> bool log_op" where
  "FileLogAppender_reopen filename a s =
     (let x = get_app s a;
          x' = open_stream (ls_openable s filename) (if \<not> ap_fail x then close_stream x else x)
      in (Inr (\<not> ap_fail x'), upd_app a (\<lambda>_. x') s))"

definition FileLogAppender_log ::
  "(string \<Rightarrow> u64 \<Rightarrow> string) \<Rightarrow> string \<Rightarrow> nat \<Rightarrow> loglevel \<Rightarrow> log_event \<Rightarrow> unit log_op" where
  "FileLogAppender_log strf filename a ll event =
     bnd (FileLogAppender_reopen filename a) (\<lambda>ok s.
       if \<not> ok then (Inr (), s)
       else if ap_level (get_app s a) \<le> ll then
         bnd (formatted strf a ll event) (\<lambda>t. upd (\<lambda>s. s\<lparr>ls_files := (ls_files s)(filename := ls_files s filename @ t)\<rparr>)) s
       else (Inr (), s))"

definition LogAppender_log :: "(string \<Rightarrow> u64 \<Rightarrow> string) \<Rightarrow> nat \<Rightarrow> loglevel \<Rightarrow> log_event \<Rightarrow> unit log_op" where
  "LogAppender_log strf a ll event s =
     (case ap_kind (get_app s a) of
        SoutLogAppender \<Rightarrow> SoutLogAppender_log strf a ll event s
      | FileLogAppender filename \<Rightarrow> FileLogAppender_log strf filename a ll event s)"

section \<open>Loggers\<close>

definition Logger_new :: "string \<Rightarrow> logger" where
  "Logger_new name =
     \<lparr> lg_name = name, lg_level = L_DEBUG, lg_appenders = [], lg_formatter = Some (LogFormatter_new default_pattern), lg_root = None \<rparr>"

definition addAppender :: "nat \<Rightarrow> nat \<Rightarrow> unit log_op" where
  "addAppender l a s =
     (let s1 = (if ap_formatter (get_app s a) = None then upd_app a (\<lambda>x. x\<lparr>ap_formatter := lg_formatter (get_logger s l)\<rparr>) s else s)
      in (Inr (), upd_logger l (\<lambda>x. x\<lparr>lg_appenders := lg_appenders x @ [a]\<rparr>) s1))"

definition delAppender :: "nat \<Rightarrow> nat \<Rightarrow> unit log_op" where
  "delAppender l a = upd (upd_logger l (\<lambda>x. x\<lparr>lg_appenders := remove1 a (lg_appenders x)\<rparr>))"

definition clearAppenders :: "nat \<Rightarrow> unit log_op" where
  "clearAppenders l = upd (upd_logger l (\<lambda>x. x\<lparr>lg_appenders := []\<rparr>))"

definition Logger_setLevel :: "nat \<Rightarrow> loglevel \<Rightarrow> unit log_op" where
  "Logger_setLevel l level = upd (upd_logger l (\<lambda>x. x\<lparr>lg_level := level\<rparr>))"

definition Logger_getFormatter :: "nat \<Rightarrow> log_formatter option log_op" where
  "Logger_getFormatter l = gets (\<lambda>s. lg_formatter (get_logger s l))"

definition inherit :: "log_formatter option \<Rightarrow> log_appender \<Rightarrow> log_appender" where
  "inherit f x = (if \<not> ap_hasFormatter x then x\<lparr>ap_formatter := f\<rparr> else x)"

definition Logger_setFormatter :: "nat \<Rightarrow> log_formatter option \<Rightarrow> unit log_op" where
  "Logger_setFormatter l val s =
     (let s1 = upd_logger l (\<lambda>x. x\<lparr>lg_formatter := val\<rparr>) s
      in (Inr (), fold (\<lambda>a. upd_app a (inherit val)) (lg_appenders (get_logger s1 l)) s1))"

text \<open>What making a formatter prints.\<close>

definition pattern_message :: "string \<Rightarrow> string" where
  "pattern_message pattern = (if pattern = [] then ''<Pattern error>'' @ [CHR 0x0A] else [])"

definition Logger_setFormatter_string :: "nat \<Rightarrow> string \<Rightarrow> unit log_op" where
  "Logger_setFormatter_string l val =
     thn (put_out (pattern_message val))
       (if lf_error (LogFormatter_new val) then
          bnd (gets (\<lambda>s. lg_name (get_logger s l))) (\<lambda>name.
            put_out (''Logger setFormatter name='' @ name @ '' value='' @ val @ '' invalid formatter'' @ [CHR 0x0A]))
        else Logger_setFormatter l (Some (LogFormatter_new val)))"

fun log_to :: "(string \<Rightarrow> u64 \<Rightarrow> string) \<Rightarrow> nat list \<Rightarrow> loglevel \<Rightarrow> log_event \<Rightarrow> unit log_op" where
  "log_to strf [] ll event = ret ()"
| "log_to strf (a # as) ll event = thn (LogAppender_log strf a ll event) (log_to strf as ll event)"

text \<open>A logger without appenders passes the event on to \<open>m_root\<close>. The fuel bounds how often.\<close>

fun Logger_log :: "(string \<Rightarrow> u64 \<Rightarrow> string) \<Rightarrow> nat \<Rightarrow> nat \<Rightarrow> loglevel \<Rightarrow> log_event \<Rightarrow> unit log_op" where
  "Logger_log strf 0 l ll event s = (Inl Out_Of_Fuel, s)"
| "Logger_log strf (Suc fuel) l ll event s =
     (let x = get_logger s l in
      if \<not> lg_level x \<le> ll then (Inr (), s)
      else if lg_appenders x \<noteq> [] then log_to strf (lg_appenders x) ll event s
      else (case lg_root x of None \<Rightarrow> (Inr (), s) | Some r \<Rightarrow> Logger_log strf fuel r ll event s))"

definition Logger_info :: "(string \<Rightarrow> u64 \<Rightarrow> string) \<Rightarrow> nat \<Rightarrow> nat \<Rightarrow> log_event \<Rightarrow> unit log_op" where
  "Logger_info strf fuel l event = Logger_log strf fuel l L_INFO event"
definition Logger_debug :: "(string \<Rightarrow> u64 \<Rightarrow> string) \<Rightarrow> nat \<Rightarrow> nat \<Rightarrow> log_event \<Rightarrow> unit log_op" where
  "Logger_debug strf fuel l event = Logger_log strf fuel l L_DEBUG event"
definition Logger_warn :: "(string \<Rightarrow> u64 \<Rightarrow> string) \<Rightarrow> nat \<Rightarrow> nat \<Rightarrow> log_event \<Rightarrow> unit log_op" where
  "Logger_warn strf fuel l event = Logger_log strf fuel l L_WARN event"
definition Logger_error :: "(string \<Rightarrow> u64 \<Rightarrow> string) \<Rightarrow> nat \<Rightarrow> nat \<Rightarrow> log_event \<Rightarrow> unit log_op" where
  "Logger_error strf fuel l event = Logger_log strf fuel l L_ERROR event"
definition Logger_fatal :: "(string \<Rightarrow> u64 \<Rightarrow> string) \<Rightarrow> nat \<Rightarrow> nat \<Rightarrow> log_event \<Rightarrow> unit log_op" where
  "Logger_fatal strf fuel l event = Logger_log strf fuel l L_FATAL event"

text \<open>\<open>~LogEventWrapper\<close>, and the macro \<open>AGENT_LOG_LEVEL\<close>: the event is made only when the logger's level admits it,
  what is streamed into it becomes its content, and the wrapper logs it.\<close>

definition LogEventWrapper_destroy :: "(string \<Rightarrow> u64 \<Rightarrow> string) \<Rightarrow> nat \<Rightarrow> log_event \<Rightarrow> unit log_op" where
  "LogEventWrapper_destroy strf fuel event = Logger_log strf fuel (ev_logger event) (ev_level event) event"

definition AGENT_LOG_LEVEL :: "(string \<Rightarrow> u64 \<Rightarrow> string) \<Rightarrow> nat \<Rightarrow> log_event \<Rightarrow> string \<Rightarrow> unit log_op" where
  "AGENT_LOG_LEVEL strf fuel event content s =
     (if lg_level (get_logger s (ev_logger event)) \<le> ev_level event
      then LogEventWrapper_destroy strf fuel (event\<lparr>ev_ss := ev_ss event @ content\<rparr>) s
      else (Inr (), s))"

section \<open>The manager\<close>

definition LoggerManager_new :: "(string \<Rightarrow> string) \<Rightarrow> (string \<Rightarrow> bool) \<Rightarrow> log_state" where
  "LoggerManager_new files openable =
     (let s = \<lparr> ls_apps = [], ls_loggers = [Logger_new ''root''], ls_map = [], ls_root = 0, ls_out = [], ls_files = files, ls_openable = openable \<rparr>;
          s1 = snd (thn (bnd (make_appender SoutLogAppender) (addAppender 0))
                      (bnd (make_appender (FileLogAppender ''../log/root_log.txt'')) (addAppender 0)) s)
      in s1\<lparr>ls_map := [(lg_name (get_logger s1 0), 0)]\<rparr>)"

definition getLogger :: "string \<Rightarrow> nat log_op" where
  "getLogger name s =
     (case map_of (ls_map s) name of
        Some l \<Rightarrow> (Inr l, s)
      | None \<Rightarrow>
          let l = length (ls_loggers s)
          in (Inr l, s\<lparr>ls_loggers := ls_loggers s @ [(Logger_new name)\<lparr>lg_root := Some (ls_root s)\<rparr>], ls_map := ls_map s @ [(name, l)]\<rparr>))"

section \<open>What an event leaves behind\<close>

text \<open>A stream that is open has not failed.\<close>

definition streams_ok :: "log_state \<Rightarrow> bool" where
  "streams_ok s \<longleftrightarrow> (\<forall>x \<in> set (ls_apps s). ap_open x \<longrightarrow> \<not> ap_fail x)"

definition app_conf :: "log_appender \<Rightarrow> appender_kind \<times> loglevel \<times> log_formatter option" where
  "app_conf x = (ap_kind x, ap_level x, ap_formatter x)"

definition app_text :: "(string \<Rightarrow> u64 \<Rightarrow> string) \<Rightarrow> log_state \<Rightarrow> loglevel \<Rightarrow> log_event \<Rightarrow> nat \<Rightarrow> fault + string" where
  "app_text strf s ll event a =
     (case ap_formatter (get_app s a) of
        None \<Rightarrow> Inl Null_Deref
      | Some f \<Rightarrow> LogFormatter_format strf (lg_name (get_logger s (ev_logger event))) ll event f)"

definition sout_text :: "(string \<Rightarrow> u64 \<Rightarrow> string) \<Rightarrow> log_state \<Rightarrow> loglevel \<Rightarrow> log_event \<Rightarrow> nat \<Rightarrow> string" where
  "sout_text strf s ll event a =
     (case (ap_kind (get_app s a), app_text strf s ll event a) of
        (SoutLogAppender, Inr t) \<Rightarrow> if ap_level (get_app s a) \<le> ll then colour ll t else []
      | _ \<Rightarrow> [])"

definition file_text :: "(string \<Rightarrow> u64 \<Rightarrow> string) \<Rightarrow> log_state \<Rightarrow> loglevel \<Rightarrow> log_event \<Rightarrow> string \<Rightarrow> nat \<Rightarrow> string" where
  "file_text strf s ll event filename a =
     (case (ap_kind (get_app s a), app_text strf s ll event a) of
        (FileLogAppender g, Inr t) \<Rightarrow> if g = filename \<and> ls_openable s g \<and> ap_level (get_app s a) \<le> ll then t else []
      | _ \<Rightarrow> [])"

text \<open>Two states an event may lead between.\<close>

definition same_conf :: "log_state \<Rightarrow> log_state \<Rightarrow> bool" where
  "same_conf s s' \<longleftrightarrow>
     map app_conf (ls_apps s') = map app_conf (ls_apps s) \<and> ls_loggers s' = ls_loggers s \<and> ls_openable s' = ls_openable s
     \<and> ls_map s' = ls_map s"

lemma same_conf_trans: "same_conf s s1 \<Longrightarrow> same_conf s1 s2 \<Longrightarrow> same_conf s s2"
  by (simp add: same_conf_def)

lemma same_conf_app:
  assumes "same_conf s s'" "a < length (ls_apps s)"
  shows "app_conf (get_app s' a) = app_conf (get_app s a)" "a < length (ls_apps s')"
proof -
  have len: "length (ls_apps s') = length (ls_apps s)" using assms(1) by (metis same_conf_def length_map)
  then show "a < length (ls_apps s')" using assms(2) by simp
  then show "app_conf (get_app s' a) = app_conf (get_app s a)"
    using assms len unfolding same_conf_def get_app_def by (metis nth_map)
qed

lemma same_conf_texts:
  assumes "same_conf s s'" "a < length (ls_apps s)"
  shows "app_text strf s' ll event a = app_text strf s ll event a"
    "sout_text strf s' ll event a = sout_text strf s ll event a"
    "file_text strf s' ll event g a = file_text strf s ll event g a"
proof -
  have a: "ap_kind (get_app s' a) = ap_kind (get_app s a)" "ap_level (get_app s' a) = ap_level (get_app s a)"
    "ap_formatter (get_app s' a) = ap_formatter (get_app s a)"
    using same_conf_app(1) [OF assms] by (simp_all add: app_conf_def)
  have l: "get_logger s' = get_logger s" "ls_openable s' = ls_openable s"
    using assms(1) by (auto simp: same_conf_def get_logger_def)
  show t: "app_text strf s' ll event a = app_text strf s ll event a" by (simp add: app_text_def a l split: option.split)
  show "sout_text strf s' ll event a = sout_text strf s ll event a"
    "file_text strf s' ll event g a = file_text strf s ll event g a"
    by (simp_all add: sout_text_def file_text_def a l t split: appender_kind.split sum.split)
qed

text \<open>Logging never changes more than that.\<close>

lemma reopen_conf: "app_conf (open_stream ok (if \<not> ap_fail x then close_stream x else x)) = app_conf x"
  by (simp add: open_stream_def close_stream_def app_conf_def)

lemma reopen_keeps_conf: "preserves (same_conf s0) (FileLogAppender_reopen g a)"
proof (rule preservesI)
  fix s assume "same_conf s0 s"
  moreover have "same_conf s (snd (FileLogAppender_reopen g a s))"
    using reopen_conf [of "ls_openable s g" "get_app s a"]
    by (cases "a < length (ls_apps s)")
       (auto simp: FileLogAppender_reopen_def Let_def same_conf_def upd_app_def map_update get_app_def list_update_same_conv list_update_beyond)
  ultimately show "same_conf s0 (snd (FileLogAppender_reopen g a s))" by (rule same_conf_trans)
qed

lemma formatted_keeps_conf: "preserves (same_conf s0) (formatted strf a ll event)"
  by (rule preservesI) (simp add: formatted_def split: option.split)

lemma print_keeps_conf: "preserves (same_conf s0) (put_out t)" "preserves (same_conf s0) (upd (\<lambda>s. s\<lparr>ls_files := f s\<rparr>))"
  by (simp_all add: preserves_def put_out_def same_conf_def)

lemma LogAppender_keeps_conf: "preserves (same_conf s0) (LogAppender_log strf a ll event)"
proof -
  have sout: "preserves (same_conf s0) (SoutLogAppender_log strf a ll event)"
  proof (rule preservesI)
    fix s assume "same_conf s0 s"
    then show "same_conf s0 (snd (SoutLogAppender_log strf a ll event s))"
      using preserves_app [OF preserves_bnd [OF formatted_keeps_conf print_keeps_conf(1)]] by (simp add: SoutLogAppender_log_def)
  qed
  have wr: "preserves (same_conf s0) (\<lambda>s. if \<not> ok then (Inr (), s) else if ap_level (get_app s a) \<le> ll then
      bnd (formatted strf a ll event) (\<lambda>t. upd (\<lambda>s. s\<lparr>ls_files := (ls_files s)(g := ls_files s g @ t)\<rparr>)) s else (Inr (), s))" for ok g
    using preserves_app [OF preserves_bnd [OF formatted_keeps_conf print_keeps_conf(2)]] by (intro preservesI) simp
  have "preserves (same_conf s0) (FileLogAppender_log strf g a ll event)" for g
    unfolding FileLogAppender_log_def by (rule preserves_bnd [OF reopen_keeps_conf wr])
  with sout show ?thesis
    by (intro preservesI) (simp add: LogAppender_log_def preserves_app split: appender_kind.split)
qed

lemma log_to_keeps_conf: "preserves (same_conf s0) (log_to strf as ll event)"
  by (induction as) (auto intro: LogAppender_keeps_conf simp: preserves_def [of _ "Pair (Inr ())"])

lemma Logger_log_keeps_conf: "preserves (same_conf s0) (Logger_log strf fuel l ll event)"
proof (induction fuel arbitrary: l)
  case (Suc fuel)
  then show ?case
    by (intro preservesI) (simp add: Let_def preserves_app log_to_keeps_conf split: option.split)
qed (simp add: preserves_def)

lemma AGENT_LOG_keeps_conf: "preserves (same_conf s0) (AGENT_LOG_LEVEL strf fuel event content)"
  by (rule preservesI) (simp add: AGENT_LOG_LEVEL_def LogEventWrapper_destroy_def preserves_app Logger_log_keeps_conf)

lemma reopened:
  assumes "ap_open x \<longrightarrow> \<not> ap_fail x"
  shows "app_conf (open_stream ok (if \<not> ap_fail x then close_stream x else x)) = app_conf x"
    "ap_fail (open_stream ok (if \<not> ap_fail x then close_stream x else x)) = (\<not> ok)"
    "ap_open (open_stream ok (if \<not> ap_fail x then close_stream x else x)) = ok"
  using assms by (auto simp: open_stream_def close_stream_def app_conf_def)

lemma reopen_result:
  assumes "streams_ok s" "a < length (ls_apps s)"
  obtains s' where "FileLogAppender_reopen g a s = (Inr (ls_openable s g), s')" "same_conf s s'" "streams_ok s'"
    "ls_out s' = ls_out s" "ls_files s' = ls_files s"
proof -
  let ?x = "get_app s a"
  let ?x' = "open_stream (ls_openable s g) (if \<not> ap_fail ?x then close_stream ?x else ?x)"
  have x: "ap_open ?x \<longrightarrow> \<not> ap_fail ?x" using assms by (simp add: streams_ok_def get_app_def)
  have "same_conf s (upd_app a (\<lambda>_. ?x') s)"
    using reopened(1) [OF x] assms(2)
    by (auto simp: same_conf_def upd_app_def map_update get_app_def list_update_same_conv)
  moreover have "streams_ok (upd_app a (\<lambda>_. ?x') s)"
    unfolding streams_ok_def
  proof
    fix y assume "y \<in> set (ls_apps (upd_app a (\<lambda>_. ?x') s))"
    then have "y = ?x' \<or> y \<in> set (ls_apps s)" using set_update_subset_insert [of "ls_apps s" a ?x'] by (auto simp: upd_app_def)
    then show "ap_open y \<longrightarrow> \<not> ap_fail y"
      using assms(1) reopened(2,3) [OF x, of "ls_openable s g"] by (auto simp only: streams_ok_def)
  qed
  moreover have "FileLogAppender_reopen g a s = (Inr (ls_openable s g), upd_app a (\<lambda>_. ?x') s)"
    using reopened(2) [OF x, of "ls_openable s g"] by (simp add: FileLogAppender_reopen_def Let_def)
  ultimately show ?thesis using that by (simp add: upd_app_def)
qed

lemma formatted_run: "formatted strf a ll event s = (app_text strf s ll event a, s)"
  by (simp add: formatted_def app_text_def split: option.split)

lemma appender_logs:
  assumes "streams_ok s" "a < length (ls_apps s)" "app_text strf s ll event a = Inr t"
  obtains s' where "LogAppender_log strf a ll event s = (Inr (), s')" "same_conf s s'" "streams_ok s'"
    "ls_out s' = ls_out s @ sout_text strf s ll event a" "\<And>g. ls_files s' g = ls_files s g @ file_text strf s ll event g a"
proof (cases "ap_kind (get_app s a)")
  case SoutLogAppender
  then show ?thesis
    using that [of "s\<lparr>ls_out := ls_out s @ sout_text strf s ll event a\<rparr>"] assms
    by (auto simp: LogAppender_log_def SoutLogAppender_log_def bnd_run formatted_run put_out_def sout_text_def file_text_def
        same_conf_def streams_ok_def split: if_splits)
next
  case (FileLogAppender g)
  obtain s1 where s1: "FileLogAppender_reopen g a s = (Inr (ls_openable s g), s1)" "same_conf s s1" "streams_ok s1"
    "ls_out s1 = ls_out s" "ls_files s1 = ls_files s"
    using reopen_result [OF assms(1,2)] by blast
  have t: "app_text strf s1 ll event a = Inr t" using same_conf_texts(1) [OF s1(2) assms(2)] assms(3) by simp
  have level: "ap_level (get_app s1 a) = ap_level (get_app s a)" using same_conf_app(1) [OF s1(2) assms(2)] by (simp add: app_conf_def)
  have s2: "same_conf s (s1\<lparr>ls_files := f\<rparr>)" "streams_ok (s1\<lparr>ls_files := f\<rparr>)" for f
    using s1(2,3) by (simp_all add: same_conf_def streams_ok_def)
  define admitted where "admitted \<longleftrightarrow> ls_openable s g \<and> ap_level (get_app s a) \<le> ll"
  have out: "sout_text strf s ll event a = []" "\<And>h. file_text strf s ll event h a = (if h = g \<and> admitted then t else [])"
    using FileLogAppender assms(3) by (auto simp: sout_text_def file_text_def admitted_def)
  show ?thesis
  proof (cases admitted)
    case True
    then have "LogAppender_log strf a ll event s = (Inr (), s1\<lparr>ls_files := (ls_files s1)(g := ls_files s1 g @ t)\<rparr>)"
      using FileLogAppender s1(1) t level
      by (simp add: LogAppender_log_def FileLogAppender_log_def bnd_run formatted_run admitted_def)
    then show ?thesis using that s1(4,5) s2 out True by simp
  next
    case False
    then have "LogAppender_log strf a ll event s = (Inr (), s1)"
      using FileLogAppender s1(1) level by (auto simp: LogAppender_log_def FileLogAppender_log_def bnd_run admitted_def)
    then show ?thesis using that s1 out False by simp
  qed
qed

lemma log_to_delivers:
  assumes "streams_ok s" "\<And>a. a \<in> set as \<Longrightarrow> a < length (ls_apps s) \<and> (\<exists>t. app_text strf s ll event a = Inr t)"
  shows "\<exists>s'. log_to strf as ll event s = (Inr (), s') \<and> same_conf s s' \<and> streams_ok s'
    \<and> ls_out s' = ls_out s @ concat (map (sout_text strf s ll event) as)
    \<and> (\<forall>g. ls_files s' g = ls_files s g @ concat (map (file_text strf s ll event g) as))"
  using assms
proof (induction as arbitrary: s)
  case (Cons a as)
  have a: "a < length (ls_apps s)" "\<And>b. b \<in> set as \<Longrightarrow> b < length (ls_apps s)" using Cons.prems(2) by auto
  obtain t where t: "app_text strf s ll event a = Inr t" using Cons.prems(2) by auto
  obtain s1 where s1: "LogAppender_log strf a ll event s = (Inr (), s1)" "same_conf s s1" "streams_ok s1"
    "ls_out s1 = ls_out s @ sout_text strf s ll event a" "\<And>g. ls_files s1 g = ls_files s g @ file_text strf s ll event g a"
    using appender_logs [OF Cons.prems(1) a(1) t] by blast
  have texts: "map (sout_text strf s1 ll event) as = map (sout_text strf s ll event) as"
    "map (file_text strf s1 ll event g) as = map (file_text strf s ll event g) as" for g
    using a(2) same_conf_texts(2,3) [OF s1(2)] by auto
  have "\<And>b. b \<in> set as \<Longrightarrow> b < length (ls_apps s1) \<and> (\<exists>t. app_text strf s1 ll event b = Inr t)"
    using Cons.prems(2) a(2) same_conf_app(2) [OF s1(2)] same_conf_texts(1) [OF s1(2)] by auto
  then obtain s2 where "log_to strf as ll event s1 = (Inr (), s2)" "same_conf s1 s2" "streams_ok s2"
    "ls_out s2 = ls_out s1 @ concat (map (sout_text strf s1 ll event) as)"
    "\<forall>g. ls_files s2 g = ls_files s1 g @ concat (map (file_text strf s1 ll event g) as)"
    using Cons.IH [OF s1(3)] by blast
  then show ?case using s1 texts same_conf_trans by auto
qed (auto simp: same_conf_def)

text \<open>Which appenders an event reaches.\<close>

definition reached :: "log_state \<Rightarrow> nat \<Rightarrow> loglevel \<Rightarrow> nat list" where
  "reached s l ll =
     (let x = get_logger s l in
      if \<not> lg_level x \<le> ll then []
      else if lg_appenders x \<noteq> [] then lg_appenders x
      else (case lg_root x of
              None \<Rightarrow> []
            | Some r \<Rightarrow> if lg_level (get_logger s r) \<le> ll then lg_appenders (get_logger s r) else []))"

section \<open>Properties\<close>

text \<open>C33: an event of a logger whose root has no root of its own reaches the logger's appenders, or the root's when
  the logger has none, each of which prints it once, in order, when its level admits it: on the standard output in
  the level's colour, or at the end of its file when this can be opened. Nothing else is printed.\<close>

theorem log_delivers:
  assumes "streams_ok s" "\<And>r. lg_root (get_logger s l) = Some r \<Longrightarrow> lg_root (get_logger s r) = None"
    and "\<And>a. a \<in> set (reached s l ll) \<Longrightarrow> a < length (ls_apps s) \<and> (\<exists>t. app_text strf s ll event a = Inr t)"
  shows "\<exists>s'. Logger_log strf 2 l ll event s = (Inr (), s')
    \<and> ls_out s' = ls_out s @ concat (map (sout_text strf s ll event) (reached s l ll))
    \<and> (\<forall>g. ls_files s' g = ls_files s g @ concat (map (file_text strf s ll event g) (reached s l ll)))"
proof -
  have "Logger_log strf 2 l ll event s = log_to strf (reached s l ll) ll event s"
    using assms(2) by (auto simp: reached_def Let_def numeral_2_eq_2 split: option.split)
  then show ?thesis using log_to_delivers [OF assms(1,3)] by auto
qed

definition test_event :: log_event where
  "test_event = (LogEvent_new 1 L_WARN ''a.cpp'' 7 0 3 4 0 ''main'')\<lparr>ev_ss := ''hello''\<rparr>"

definition test_appender :: "appender_kind \<Rightarrow> log_appender" where
  "test_appender k = (new_appender k)\<lparr>ap_formatter := Some (LogFormatter_new ''[%p] %m%n'')\<rparr>"

definition test_loggers :: log_state where
  "test_loggers =
     \<lparr> ls_apps = [test_appender SoutLogAppender, test_appender (FileLogAppender ''root_log.txt'')],
       ls_loggers = [\<lparr> lg_name = ''root'', lg_level = L_DEBUG, lg_appenders = [0, 1], lg_formatter = None, lg_root = None \<rparr>,
                     \<lparr> lg_name = ''system'', lg_level = L_DEBUG, lg_appenders = [], lg_formatter = None, lg_root = Some 0 \<rparr>],
       ls_map = [(''root'', 0), (''system'', 1)], ls_root = 0, ls_out = [], ls_files = (\<lambda>_. []), ls_openable = (\<lambda>_. True) \<rparr>"

theorem log_delivers_witness:
  "ls_files (snd (Logger_log (\<lambda>f t. ''now'') 2 1 L_WARN test_event test_loggers)) ''root_log.txt''
     = ''[WARN] hello'' @ [CHR 0x0A]"
proof -
  have reached: "reached test_loggers 1 L_WARN = [0, 1]" by code_simp
  have "\<exists>s'. Logger_log (\<lambda>f t. ''now'') 2 1 L_WARN test_event test_loggers = (Inr (), s')
    \<and> ls_out s' = ls_out test_loggers @ concat (map (sout_text (\<lambda>f t. ''now'') test_loggers L_WARN test_event) (reached test_loggers 1 L_WARN))
    \<and> (\<forall>g. ls_files s' g = ls_files test_loggers g
          @ concat (map (file_text (\<lambda>f t. ''now'') test_loggers L_WARN test_event g) (reached test_loggers 1 L_WARN)))"
  proof (rule log_delivers)
    show "streams_ok test_loggers" unfolding streams_ok_def by code_simp
    show "lg_root (get_logger test_loggers r) = None" if "lg_root (get_logger test_loggers 1) = Some r" for r
    proof -
      have "lg_root (get_logger test_loggers 1) = Some 0" "lg_root (get_logger test_loggers 0) = None" by code_simp+
      then show ?thesis using that by simp
    qed
    show "a < length (ls_apps test_loggers) \<and> (\<exists>t. app_text (\<lambda>f t. ''now'') test_loggers L_WARN test_event a = Inr t)"
      if "a \<in> set (reached test_loggers 1 L_WARN)" for a
    proof -
      have "list_all (\<lambda>a. a < length (ls_apps test_loggers) \<and> \<not> isl (app_text (\<lambda>f t. ''now'') test_loggers L_WARN test_event a)) [0, 1]"
        by code_simp
      then show ?thesis
        using that unfolding reached
        by (cases "app_text (\<lambda>f t. ''now'') test_loggers L_WARN test_event a") (auto simp: list_all_iff)
    qed
  qed
  moreover have "concat (map (file_text (\<lambda>f t. ''now'') test_loggers L_WARN test_event ''root_log.txt'') [0, 1]) =
      ''[WARN] hello'' @ [CHR 0x0A]"
    by code_simp
  moreover have "ls_files test_loggers ''root_log.txt'' = []" by code_simp
  ultimately show ?thesis unfolding reached by auto
qed

end
