(* ===== verification/Log_Config.thy ===== *)
theory Log_Config
  imports Logger Lexical_Cast
begin

text \<open>
  The configuration of the loggers in \<open>src/src/log.cpp\<close>: \<open>LogDefine\<close>, its casts from and to YAML, the YAML
  texts of appenders and loggers, and the listener of \<open>LogIniter\<close> that makes the loggers follow a new set of
  definitions.
\<close>

section \<open>Definitions of loggers\<close>

record log_appender_define =
  ad_type :: nat
  ad_level :: loglevel
  ad_formatter :: string
  ad_file :: string

record log_define =
  ld_name :: string
  ld_level :: loglevel
  ld_formatter :: string
  ld_appenders :: "log_appender_define list"

text \<open>\<open>operator==\<close> compares all the members, so it is the equality of the records.\<close>

definition define_less :: "log_define \<Rightarrow> log_define \<Rightarrow> bool" where
  "define_less a b \<longleftrightarrow> ld_name a < ld_name b"

interpretation define_order: comparator define_less
  by unfold_locales (auto simp: define_less_def)

section \<open>YAML\<close>

text \<open>\<open>y_text\<close> makes a node of a string, \<open>y_member\<close> is \<open>node[key]\<close> when it is defined, \<open>y_as\<close> is \<open>as<std::string>()\<close>,
  \<open>None\<close> when it throws.\<close>

record 'n yaml_log_api = "'n yaml_api" +
  y_text :: "string \<Rightarrow> 'n"
  y_member :: "'n \<Rightarrow> string \<Rightarrow> 'n option"
  y_as :: "'n \<Rightarrow> string option"

text \<open>The texts of the loggers.\<close>

definition put_text :: "'n yaml_log_api \<Rightarrow> string \<Rightarrow> string \<Rightarrow> 'n \<Rightarrow> 'n" where
  "put_text y k t node = y_put y node k (y_text y t)"

definition SoutLogAppender_toYamlString :: "'n yaml_log_api \<Rightarrow> log_appender \<Rightarrow> string" where
  "SoutLogAppender_toYamlString y a =
     (let n1 = put_text y ''type'' ''SoutLogAppender'' (y_null y);
          n2 = (if ap_level a \<noteq> L_UNKONWN then put_text y ''level'' (LogLevelToString (ap_level a)) n1 else n1);
          n3 = (case ap_formatter a of
                  Some f \<Rightarrow> if ap_hasFormatter a then put_text y ''formatter'' (lf_pattern f) n2 else n2
                | None \<Rightarrow> n2)
      in y_emit y n3)"

definition FileLogAppender_toYamlString :: "'n yaml_log_api \<Rightarrow> string \<Rightarrow> log_appender \<Rightarrow> string" where
  "FileLogAppender_toYamlString y filename a =
     (let n0 = put_text y ''file'' filename (put_text y ''type'' ''FileLogAppender'' (y_null y));
          n1 = (if ap_level a \<noteq> L_UNKONWN then put_text y ''level'' (LogLevelToString (ap_level a)) n0 else n0);
          n2 = (case ap_formatter a of
                  Some f \<Rightarrow> if ap_hasFormatter a then put_text y ''formatter'' (lf_pattern f) n1 else n1
                | None \<Rightarrow> n1)
      in y_emit y n2)"

definition LogAppender_toYamlString :: "'n yaml_log_api \<Rightarrow> log_appender \<Rightarrow> string" where
  "LogAppender_toYamlString y a =
     (case ap_kind a of
        SoutLogAppender \<Rightarrow> SoutLogAppender_toYamlString y a
      | FileLogAppender f \<Rightarrow> FileLogAppender_toYamlString y f a)"

text \<open>\<open>node[key].push_back(m)\<close>.\<close>

definition push_at :: "'n yaml_log_api \<Rightarrow> string \<Rightarrow> 'n \<Rightarrow> 'n \<Rightarrow> 'n" where
  "push_at y k m node = y_put y node k (y_push y (case y_member y node k of None \<Rightarrow> y_null y | Some l \<Rightarrow> l) m)"

definition Logger_toYamlString :: "'n yaml_log_api \<Rightarrow> log_state \<Rightarrow> nat \<Rightarrow> string option" where
  "Logger_toYamlString y s l =
     (let x = get_logger s l;
          n1 = put_text y ''level'' (LogLevelToString (lg_level x)) (put_text y ''name'' (lg_name x) (y_null y));
          n2 = (case lg_formatter x of None \<Rightarrow> n1 | Some f \<Rightarrow> put_text y ''formatter'' (lf_pattern f) n1)
      in map_option (y_emit y)
           (collect (\<lambda>a. y_load y (LogAppender_toYamlString y (get_app s a))) (push_at y ''appenders'') (lg_appenders x) n2))"

definition LoggerManager_toYamlString :: "'n yaml_log_api \<Rightarrow> log_state \<Rightarrow> string option" where
  "LoggerManager_toYamlString y s =
     map_option (y_emit y)
       (collect (\<lambda>(_, l). case Logger_toYamlString y s l of None \<Rightarrow> None | Some t \<Rightarrow> y_load y t)
          (\<lambda>m node. y_push y node m) (ls_map s) (y_null y))"

text \<open>The text of a member when it is there; \<open>None\<close> is an exception.\<close>

definition text_or :: "'n yaml_log_api \<Rightarrow> 'n \<Rightarrow> string \<Rightarrow> string \<Rightarrow> string option" where
  "text_or y n k default_text = (case y_member y n k of None \<Rightarrow> Some default_text | Some m \<Rightarrow> y_as y m)"

text \<open>An appender of a definition: an exception, one that is passed over, or one that is taken. The level is read
  without asking whether it is there.\<close>

definition read_appender :: "'n yaml_log_api \<Rightarrow> 'n \<Rightarrow> log_appender_define option option" where
  "read_appender y a =
     (case y_member y a ''type'' of
        None \<Rightarrow> Some None
      | Some t \<Rightarrow>
          (case y_as y t of
             None \<Rightarrow> None
           | Some kind \<Rightarrow>
               (case (if kind = ''FileLogAppender'' then map_option (\<lambda>f. map_option (Pair 1) (y_as y f)) (y_member y a ''file'')
                      else if kind = ''SoutLogAppender'' then Some (Some (2, []))
                      else None) of
                  None \<Rightarrow> Some None
                | Some None \<Rightarrow> None
                | Some (Some (type, file)) \<Rightarrow>
                    (case Option.bind (y_member y a ''level'') (y_as y) of
                       None \<Rightarrow> None
                     | Some level \<Rightarrow>
                         map_option
                           (\<lambda>f. Some \<lparr> ad_type = type,
                              ad_level = (if level \<noteq> ''UNKNOW'' then FromStringToLogLevel level else L_UNKONWN),
                              ad_formatter = f, ad_file = file \<rparr>)
                           (text_or y a ''formatter'' [])))))"

definition read_define :: "'n yaml_log_api \<Rightarrow> 'n \<Rightarrow> log_define option option" where
  "read_define y n =
     (case y_member y n ''name'' of
        None \<Rightarrow> Some None
      | Some name_node \<Rightarrow>
          (case (y_as y name_node, text_or y n ''level'' [], text_or y n ''formatter'' []) of
             (Some name, Some level, Some f) \<Rightarrow>
               map_option
                 (\<lambda>as. Some \<lparr> ld_name = name, ld_level = FromStringToLogLevel level, ld_formatter = f, ld_appenders = as \<rparr>)
                 (case y_member y n ''appenders'' of
                    None \<Rightarrow> Some []
                  | Some l \<Rightarrow>
                      collect (\<lambda>x. read_appender y (y_index y l x)) (\<lambda>a as. case a of None \<Rightarrow> as | Some d \<Rightarrow> as @ [d])
                        [0..<y_size y l] [])
           | _ \<Rightarrow> None))"

definition string_to_defines :: "'n yaml_log_api \<Rightarrow> (string, log_define list) cast" where
  "string_to_defines y v =
     (case y_load y v of
        None \<Rightarrow> None
      | Some node \<Rightarrow>
          collect (\<lambda>i. read_define y (y_index y node i)) (\<lambda>d vec. case d of None \<Rightarrow> vec | Some ld \<Rightarrow> set_insert define_less ld vec)
            [0..<y_size y node] [])"

definition appender_node :: "'n yaml_log_api \<Rightarrow> log_appender_define \<Rightarrow> 'n" where
  "appender_node y a =
     (let n1 = (if ad_type a = 1 then put_text y ''file'' (ad_file a) (put_text y ''type'' ''FileLogAppender'' (y_null y))
                else if ad_type a = 2 then put_text y ''type'' ''SoutLogAppender'' (y_null y)
                else y_null y);
          n2 = put_text y ''level'' (LogLevelToString (ad_level a)) n1
      in if ad_formatter a \<noteq> [] then put_text y ''formatter'' (ad_formatter a) n2 else n2)"

definition define_node :: "'n yaml_log_api \<Rightarrow> log_define \<Rightarrow> 'n" where
  "define_node y d =
     (let n1 = put_text y ''level'' (LogLevelToString (ld_level d)) (put_text y ''name'' (ld_name d) (y_null y));
          n2 = (if ld_formatter d \<noteq> [] then put_text y ''formatter'' (ld_formatter d) n1 else n1)
      in fold (\<lambda>a. push_at y ''appenders'' (appender_node y a)) (ld_appenders d) n2)"

definition defines_to_string :: "'n yaml_log_api \<Rightarrow> log_define list \<Rightarrow> string" where
  "defines_to_string y v = y_emit y (fold (\<lambda>d node. y_push y node (define_node y d)) v (y_null y))"

section \<open>The listener\<close>

definition make_defined :: "log_appender_define \<Rightarrow> nat log_op" where
  "make_defined a =
     (if ad_type a = 1 then make_appender (FileLogAppender (ad_file a))
      else if ad_type a = 2 then make_appender SoutLogAppender
      else raise Null_Deref)"

definition configure_appender :: "nat \<Rightarrow> log_appender_define \<Rightarrow> unit log_op" where
  "configure_appender l a =
     bnd (make_defined a) (\<lambda>ap.
       thn (LogAppender_setLevel ap (ad_level a))
         (thn
           (if ad_formatter a \<noteq> [] then
              (if \<not> lf_error (LogFormatter_new (ad_formatter a)) then
                 LogAppender_setFormatter ap (Some (LogFormatter_new (ad_formatter a)))
               else put_out (''Formatter error.'' @ [CHR 0x0A]))
            else bnd (Logger_getFormatter l) (LogAppender_setFormatter ap))
           (addAppender l ap)))"

fun configure_appenders :: "nat \<Rightarrow> log_appender_define list \<Rightarrow> unit log_op" where
  "configure_appenders l [] = ret ()"
| "configure_appenders l (a # as) = thn (configure_appender l a) (configure_appenders l as)"

definition configure_logger :: "log_define \<Rightarrow> nat \<Rightarrow> unit log_op" where
  "configure_logger i l =
     thn (Logger_setLevel l (ld_level i))
       (thn (if ld_formatter i \<noteq> [] then Logger_setFormatter_string l (ld_formatter i) else ret ())
         (thn (clearAppenders l) (configure_appenders l (ld_appenders i))))"

text \<open>The pointer stays null for a definition that has not changed.\<close>

fun configure_all :: "log_define list \<Rightarrow> log_define list \<Rightarrow> unit log_op" where
  "configure_all old_value [] = ret ()"
| "configure_all old_value (i # is) =
     bnd (case set_find define_less i old_value of
            None \<Rightarrow> bnd (getLogger (ld_name i)) (\<lambda>l. ret (Some l))
          | Some d \<Rightarrow> if i \<noteq> d then bnd (getLogger (ld_name i)) (\<lambda>l. ret (Some l)) else ret None)
       (\<lambda>logger. thn (case logger of None \<Rightarrow> raise Null_Deref | Some l \<Rightarrow> configure_logger i l)
         (configure_all old_value is))"

definition silence :: "log_define \<Rightarrow> unit log_op" where
  "silence i = bnd (getLogger (ld_name i)) (\<lambda>l. thn (Logger_setLevel l (LogLevel 100)) (clearAppenders l))"

fun silence_missing :: "log_define list \<Rightarrow> log_define list \<Rightarrow> unit log_op" where
  "silence_missing new_value [] = ret ()"
| "silence_missing new_value (i # is) =
     thn (if set_find define_less i new_value = None then silence i else ret ()) (silence_missing new_value is)"

text \<open>\<open>event\<close> is the event of the message the listener begins with.\<close>

definition on_logger_conf_changed ::
  "(string \<Rightarrow> u64 \<Rightarrow> string) \<Rightarrow> nat \<Rightarrow> log_event \<Rightarrow> log_define list \<Rightarrow> log_define list \<Rightarrow> unit log_op" where
  "on_logger_conf_changed strf fuel event old_value new_value =
     thn (AGENT_LOG_LEVEL strf fuel event ''on_logger_conf_changed'')
       (thn (configure_all old_value new_value) (silence_missing new_value old_value))"

section \<open>What a program sees of the loggers\<close>

text \<open>By name: the level and the kinds and levels of the appenders.\<close>

type_synonym logger_view = "loglevel \<times> (appender_kind \<times> loglevel) list"

definition app_view :: "log_state \<Rightarrow> nat \<Rightarrow> appender_kind \<times> loglevel" where
  "app_view s a = (ap_kind (get_app s a), ap_level (get_app s a))"

definition view_at :: "log_state \<Rightarrow> nat \<Rightarrow> logger_view" where
  "view_at s l = (lg_level (get_logger s l), map (app_view s) (lg_appenders (get_logger s l)))"

definition view :: "log_state \<Rightarrow> string \<Rightarrow> logger_view option" where
  "view s name = map_option (view_at s) (map_of (ls_map s) name)"

definition defined_kind :: "log_appender_define \<Rightarrow> appender_kind" where
  "defined_kind a = (if ad_type a = 1 then FileLogAppender (ad_file a) else SoutLogAppender)"

definition defined_view :: "log_define \<Rightarrow> logger_view" where
  "defined_view i = (ld_level i, map (\<lambda>a. (defined_kind a, ad_level a)) (ld_appenders i))"

text \<open>What the definitions ask for.\<close>

definition configured :: "log_define list \<Rightarrow> log_define list \<Rightarrow> (string \<Rightarrow> logger_view option) \<Rightarrow> string \<Rightarrow> logger_view option" where
  "configured old_value new_value v name =
     (case find (\<lambda>d. ld_name d = name) new_value of
        Some d \<Rightarrow> Some (defined_view d)
      | None \<Rightarrow> if \<exists>d \<in> set old_value. ld_name d = name then Some (LogLevel 100, []) else v name)"

definition loggers_ok :: "log_state \<Rightarrow> bool" where
  "loggers_ok s \<longleftrightarrow>
     distinct (map snd (ls_map s)) \<and> (\<forall>l \<in> set (map snd (ls_map s)). l < length (ls_loggers s))
     \<and> (\<forall>x \<in> set (ls_loggers s). \<forall>a \<in> set (lg_appenders x). a < length (ls_apps s))"

lemma view_inj:
  assumes "loggers_ok s" "map_of (ls_map s) n = Some l" "map_of (ls_map s) m = Some l"
  shows "n = m"
proof -
  have "(n, l) \<in> set (ls_map s)" "(m, l) \<in> set (ls_map s)" using assms(2,3) map_of_SomeD by fast+
  moreover have "inj_on snd (set (ls_map s))" using assms(1) by (simp add: loggers_ok_def distinct_map)
  ultimately have "(n, l) = (m, l)" using inj_onD [of snd "set (ls_map s)" "(n, l)" "(m, l)"] by simp
  then show ?thesis by simp
qed

lemma logger_of: "loggers_ok s \<Longrightarrow> map_of (ls_map s) n = Some l \<Longrightarrow> l < length (ls_loggers s)"
  by (auto simp: loggers_ok_def dest!: map_of_SomeD)

lemma apps_of: "loggers_ok s \<Longrightarrow> l < length (ls_loggers s) \<Longrightarrow> a \<in> set (lg_appenders (ls_loggers s ! l)) \<Longrightarrow> a < length (ls_apps s)"
  unfolding loggers_ok_def by (meson nth_mem)

text \<open>One logger changes, and new appenders appear.\<close>

lemma view_upd:
  assumes "loggers_ok s" "map_of (ls_map s) name = Some l"
    and "ls_map s' = ls_map s" "ls_loggers s' = (ls_loggers s)[l := x]" "ls_apps s' = ls_apps s @ ys"
    and "\<And>a. a \<in> set (lg_appenders x) \<Longrightarrow> a < length (ls_apps s')"
  shows "loggers_ok s' \<and> view s' = (view s)(name \<mapsto> (lg_level x, map (app_view s') (lg_appenders x)))"
proof
  have l: "l < length (ls_loggers s)" using assms(1,2) by (rule logger_of)
  have old: "a < length (ls_apps s)" if "z \<in> set (ls_loggers s)" "a \<in> set (lg_appenders z)" for z a
    using assms(1) that by (auto simp: loggers_ok_def)
  have new: "z = x \<or> z \<in> set (ls_loggers s)" if "z \<in> set (ls_loggers s')" for z
    using that assms(4) set_update_subset_insert [of "ls_loggers s" l x] by auto
  have "a < length (ls_apps s')" if "z \<in> set (ls_loggers s')" "a \<in> set (lg_appenders z)" for z a
    using new [OF that(1)] that(2) assms(5,6) old [of z a] by auto
  then show "loggers_ok s'" using assms(1,3,4) by (simp add: loggers_ok_def)
  have apps: "app_view s' a = app_view s a" if "a < length (ls_apps s)" for a
    using that assms(5) by (simp add: app_view_def get_app_def nth_append)
  have "view s' n = ((view s)(name \<mapsto> (lg_level x, map (app_view s') (lg_appenders x)))) n" for n
  proof (cases "n = name")
    case True
    then show ?thesis using assms(2-4) l by (simp add: view_def view_at_def get_logger_def)
  next
    case False
    have "view_at s' m = view_at s m" if "map_of (ls_map s) n = Some m" for m
    proof -
      have "m \<noteq> l" using view_inj [OF assms(1) that] assms(2) False by blast
      moreover have "m < length (ls_loggers s)" using logger_of [OF assms(1) that] .
      ultimately show ?thesis using assms(4) apps apps_of [OF assms(1)] by (simp add: view_at_def get_logger_def)
    qed
    then show ?thesis using False assms(3) by (cases "map_of (ls_map s) n") (simp_all add: view_def)
  qed
  then show "view s' = (view s)(name \<mapsto> (lg_level x, map (app_view s') (lg_appenders x)))" by blast
qed

text \<open>Nothing changes that a program sees.\<close>

lemma view_same:
  assumes "loggers_ok s" "ls_map s' = ls_map s"
    and "map (\<lambda>x. (lg_level x, lg_appenders x)) (ls_loggers s') = map (\<lambda>x. (lg_level x, lg_appenders x)) (ls_loggers s)"
    and "map (\<lambda>x. (ap_kind x, ap_level x)) (ls_apps s') = map (\<lambda>x. (ap_kind x, ap_level x)) (ls_apps s)"
  shows "loggers_ok s'" "view s' = view s"
proof -
  have len: "length (ls_loggers s') = length (ls_loggers s)" "length (ls_apps s') = length (ls_apps s)"
    using assms(3,4) by (metis length_map)+
  have lg: "lg_level (ls_loggers s' ! l) = lg_level (ls_loggers s ! l)" "lg_appenders (ls_loggers s' ! l) = lg_appenders (ls_loggers s ! l)"
    if "l < length (ls_loggers s)" for l
    using that len assms(3) by (metis (no_types, lifting) nth_map fst_conv, metis (no_types, lifting) nth_map snd_conv)
  have ap: "app_view s' a = app_view s a" if "a < length (ls_apps s)" for a
    using that len assms(4) unfolding app_view_def get_app_def by (metis (no_types, lifting) nth_map)
  have "\<forall>x \<in> set (ls_loggers s'). \<forall>a \<in> set (lg_appenders x). a < length (ls_apps s')"
  proof
    fix x assume "x \<in> set (ls_loggers s')"
    then obtain l where l: "l < length (ls_loggers s)" "x = ls_loggers s' ! l" using len by (auto simp: in_set_conv_nth)
    then show "\<forall>a \<in> set (lg_appenders x). a < length (ls_apps s')"
      using apps_of [OF assms(1) l(1)] lg(2) [OF l(1)] len(2) by simp
  qed
  then show "loggers_ok s'" using assms(1,2) len by (simp add: loggers_ok_def)
  have "view_at s' l = view_at s l" if "l < length (ls_loggers s)" for l
  proof -
    show ?thesis using lg [OF that] ap apps_of [OF assms(1) that] by (simp add: view_at_def get_logger_def)
  qed
  then show "view s' = view s"
    using assms(1,2) logger_of by (intro ext) (auto simp: view_def split: option.split intro!: map_option_cong)
qed

section \<open>What configuring does\<close>

lemma put_out_view: "loggers_ok s \<Longrightarrow> put_out t s = (r, s') \<Longrightarrow> loggers_ok s' \<and> view s' = view s \<and> ls_map s' = ls_map s"
  using view_same [of s s'] by (auto simp: put_out_def)

lemma same_conf_view:
  assumes "loggers_ok s" "same_conf s s'"
  shows "loggers_ok s' \<and> view s' = view s"
proof -
  have same: "map app_conf (ls_apps s') = map app_conf (ls_apps s)" "ls_map s' = ls_map s" "ls_loggers s' = ls_loggers s"
    using assms(2) by (simp_all add: same_conf_def)
  have "map (\<lambda>(k, l, f). (k, l)) (map app_conf (ls_apps s')) = map (\<lambda>(k, l, f). (k, l)) (map app_conf (ls_apps s))"
    using same(1) by simp
  then have "map (\<lambda>x. (ap_kind x, ap_level x)) (ls_apps s') = map (\<lambda>x. (ap_kind x, ap_level x)) (ls_apps s)"
    by (simp only: map_map comp_def app_conf_def prod.case)
  then show ?thesis using view_same [OF assms(1) same(2)] same(3) by simp
qed

text \<open>Giving the appenders a formatter.\<close>

lemma inherit_all:
  "map (\<lambda>x. (ap_kind x, ap_level x)) (ls_apps (fold (\<lambda>a. upd_app a (inherit f)) as s)) = map (\<lambda>x. (ap_kind x, ap_level x)) (ls_apps s)
   \<and> ls_loggers (fold (\<lambda>a. upd_app a (inherit f)) as s) = ls_loggers s
   \<and> ls_map (fold (\<lambda>a. upd_app a (inherit f)) as s) = ls_map s"
proof (induction as arbitrary: s)
  case (Cons a as)
  have "(\<lambda>x. (ap_kind x, ap_level x)) (inherit f y) = (\<lambda>x. (ap_kind x, ap_level x)) y" for y by (simp add: inherit_def)
  then have "map (\<lambda>x. (ap_kind x, ap_level x)) (ls_apps (upd_app a (inherit f) s)) = map (\<lambda>x. (ap_kind x, ap_level x)) (ls_apps s)"
    by (cases "a < length (ls_apps s)") (simp_all add: upd_app_def map_update get_app_def list_update_same_conv list_update_beyond)
  then show ?case using Cons [of "upd_app a (inherit f) s"] by (simp add: upd_app_def)
qed simp

lemma setFormatter_view:
  assumes "loggers_ok s" "l < length (ls_loggers s)" "Logger_setFormatter l f s = (r, s')"
  shows "r = Inr () \<and> loggers_ok s' \<and> view s' = view s \<and> ls_map s' = ls_map s"
proof -
  define s1 where "s1 = upd_logger l (\<lambda>x. x\<lparr>lg_formatter := f\<rparr>) s"
  have s': "r = Inr ()" "s' = fold (\<lambda>a. upd_app a (inherit f)) (lg_appenders (get_logger s1 l)) s1"
    using assms(3) by (auto simp: Logger_setFormatter_def s1_def Let_def)
  have "map (\<lambda>x. (lg_level x, lg_appenders x)) (ls_loggers s1) = map (\<lambda>x. (lg_level x, lg_appenders x)) (ls_loggers s)"
    using assms(2) by (simp add: s1_def upd_logger_def map_update get_logger_def list_update_same_conv)
  moreover have "ls_map s1 = ls_map s" "ls_apps s1 = ls_apps s" by (simp_all add: s1_def upd_logger_def)
  ultimately show ?thesis
    using view_same [OF assms(1), of s'] inherit_all [of f "lg_appenders (get_logger s1 l)" s1] s' by simp
qed

lemma setFormatter_string_view:
  assumes "loggers_ok s" "l < length (ls_loggers s)"
  shows "\<exists>s'. Logger_setFormatter_string l t s = (Inr (), s') \<and> loggers_ok s' \<and> view s' = view s \<and> ls_map s' = ls_map s"
proof -
  obtain s1 where s1: "put_out (pattern_message t) s = (Inr (), s1)" by (simp add: put_out_def)
  then have ok1: "loggers_ok s1" "view s1 = view s" "ls_map s1 = ls_map s" "ls_loggers s1 = ls_loggers s"
    using put_out_view [OF assms(1) s1] by (auto simp: put_out_def)
  show ?thesis
  proof (cases "lf_error (LogFormatter_new t)")
    case True
    obtain s2 where "put_out (''Logger setFormatter name='' @ lg_name (get_logger s1 l) @ '' value='' @ t @ '' invalid formatter'' @ [CHR 0x0A]) s1
        = (Inr (), s2)" by (simp add: put_out_def)
    then show ?thesis
      using True s1 ok1 put_out_view [OF ok1(1)] by (simp add: Logger_setFormatter_string_def thn_run bnd_run)
  next
    case False
    obtain r s2 where s2: "Logger_setFormatter l (Some (LogFormatter_new t)) s1 = (r, s2)" by force
    then have "r = Inr () \<and> loggers_ok s2 \<and> view s2 = view s1 \<and> ls_map s2 = ls_map s1"
      using setFormatter_view [OF ok1(1) _ s2] assms(2) ok1(4) by simp
    then show ?thesis using False s1 s2 ok1 by (simp add: Logger_setFormatter_string_def thn_run)
  qed
qed

lemma setLevel_view:
  assumes "loggers_ok s" "map_of (ls_map s) name = Some l"
  shows "\<exists>s'. Logger_setLevel l ll s = (Inr (), s') \<and> loggers_ok s' \<and> ls_map s' = ls_map s
    \<and> view s' = (view s)(name \<mapsto> (ll, snd (view_at s l)))"
proof -
  let ?s' = "upd_logger l (\<lambda>x. x\<lparr>lg_level := ll\<rparr>) s"
  have "loggers_ok ?s' \<and> view ?s' = (view s)(name \<mapsto> (ll, map (app_view ?s') (lg_appenders (get_logger s l))))"
    using view_upd [OF assms, of ?s' "(get_logger s l)\<lparr>lg_level := ll\<rparr>" "[]"] apps_of [OF assms(1) logger_of [OF assms]]
    by (simp add: upd_logger_def get_logger_def)
  moreover have "app_view ?s' = app_view s" by (rule ext) (simp add: app_view_def get_app_def upd_logger_def)
  ultimately show ?thesis by (simp add: Logger_setLevel_def view_at_def upd_logger_def)
qed

lemma clearAppenders_view:
  assumes "loggers_ok s" "map_of (ls_map s) name = Some l"
  shows "\<exists>s'. clearAppenders l s = (Inr (), s') \<and> loggers_ok s' \<and> ls_map s' = ls_map s \<and> view s' = (view s)(name \<mapsto> (fst (view_at s l), []))"
  using view_upd [OF assms, of "upd_logger l (\<lambda>x. x\<lparr>lg_appenders := []\<rparr>) s" "(get_logger s l)\<lparr>lg_appenders := []\<rparr>" "[]"]
  by (simp add: upd_logger_def clearAppenders_def view_at_def)

lemma view_at_of: "map_of (ls_map s) name = Some l \<Longrightarrow> view s name = Some (view_at s l)"
  by (simp add: view_def)

text \<open>The new appender, as it ends up.\<close>

lemma configure_appender_state:
  assumes "ad_type a \<in> {1, 2}" "l < length (ls_loggers s)"
  obtains x s' where "configure_appender l a s = (Inr (), s')" "ap_kind x = defined_kind a" "ap_level x = ad_level a"
    "ls_apps s' = ls_apps s @ [x]" "ls_map s' = ls_map s"
    "ls_loggers s' = (ls_loggers s)[l := (get_logger s l)\<lparr>lg_appenders := lg_appenders (get_logger s l) @ [length (ls_apps s)]\<rparr>]"
proof -
  let ?n = "length (ls_apps s)"
  have made: "make_defined a s = (Inr ?n, s\<lparr>ls_apps := ls_apps s @ [new_appender (defined_kind a)]\<rparr>)"
    using assms(1) by (auto simp: make_defined_def make_appender_def defined_kind_def)
  define x0 where "x0 = (new_appender (defined_kind a))\<lparr>ap_level := ad_level a\<rparr>"
  define f where "f = (if ad_formatter a \<noteq> [] then
      (if \<not> lf_error (LogFormatter_new (ad_formatter a)) then Some (LogFormatter_new (ad_formatter a)) else None)
      else lg_formatter (get_logger s l))"
  define s2 where "s2 = s\<lparr>ls_apps := ls_apps s @ [x0]\<rparr>"
  have lev: "LogAppender_setLevel ?n (ad_level a) (s\<lparr>ls_apps := ls_apps s @ [new_appender (defined_kind a)]\<rparr>) = (Inr (), s2)"
    by (simp add: LogAppender_setLevel_def upd_app_def get_app_def s2_def x0_def)
  define fmt where "fmt = (if ad_formatter a \<noteq> [] then
      (if \<not> lf_error (LogFormatter_new (ad_formatter a)) then LogAppender_setFormatter ?n (Some (LogFormatter_new (ad_formatter a)))
       else put_out (''Formatter error.'' @ [CHR 0x0A]))
      else bnd (Logger_getFormatter l) (LogAppender_setFormatter ?n))"
  obtain x1 s3 where s3: "fmt s2 = (Inr (), s3)" "ls_apps s3 = ls_apps s @ [x1]" "ls_map s3 = ls_map s" "ls_loggers s3 = ls_loggers s"
    "ap_kind x1 = defined_kind a" "ap_level x1 = ad_level a"
  proof (cases "ad_formatter a \<noteq> [] \<and> lf_error (LogFormatter_new (ad_formatter a))")
    case True
    then show thesis
      using that [of "s2\<lparr>ls_out := ls_out s2 @ ''Formatter error.'' @ [CHR 0x0A]\<rparr>" x0]
      by (simp add: fmt_def put_out_def s2_def x0_def new_appender_def)
  next
    case False
    define g where "g = (if ad_formatter a \<noteq> [] then Some (LogFormatter_new (ad_formatter a)) else lg_formatter (get_logger s l))"
    have "fmt s2 = LogAppender_setFormatter ?n g s2"
      using False by (cases "ad_formatter a = []") (simp_all add: fmt_def g_def bnd_run Logger_getFormatter_def get_logger_def s2_def)
    then show thesis
      using that [of "s2\<lparr>ls_apps := ls_apps s @ [x0\<lparr>ap_formatter := g, ap_hasFormatter := (g \<noteq> None)\<rparr>]\<rparr>"
          "x0\<lparr>ap_formatter := g, ap_hasFormatter := (g \<noteq> None)\<rparr>"]
      by (simp add: LogAppender_setFormatter_def upd_app_def get_app_def s2_def x0_def new_appender_def)
  qed
  define x where "x = (if ap_formatter x1 = None then x1\<lparr>ap_formatter := lg_formatter (get_logger s3 l)\<rparr> else x1)"
  define s4 where "s4 = upd_logger l (\<lambda>y. y\<lparr>lg_appenders := lg_appenders y @ [?n]\<rparr>) (s3\<lparr>ls_apps := ls_apps s @ [x]\<rparr>)"
  have "addAppender l ?n s3 = (Inr (), s4)"
    using s3(2) by (auto simp: addAppender_def Let_def upd_app_def get_app_def s4_def x_def upd_logger_def get_logger_def)
  then have "configure_appender l a s = (Inr (), s4)"
    using made lev s3(1) unfolding fmt_def by (simp add: configure_appender_def bnd_run thn_run)
  then show ?thesis
    using that [of s4 x] s3 by (simp add: s4_def x_def upd_logger_def get_logger_def)
qed

lemma configure_appender_view:
  assumes "loggers_ok s" "map_of (ls_map s) name = Some l" "ad_type a \<in> {1, 2}"
  shows "\<exists>s'. configure_appender l a s = (Inr (), s') \<and> loggers_ok s' \<and> ls_map s' = ls_map s
    \<and> view s' = (view s)(name \<mapsto> (fst (view_at s l), snd (view_at s l) @ [(defined_kind a, ad_level a)]))"
proof -
  have l: "l < length (ls_loggers s)" using assms(1,2) by (rule logger_of)
  obtain x s' where s': "configure_appender l a s = (Inr (), s')" "ap_kind x = defined_kind a" "ap_level x = ad_level a"
    "ls_apps s' = ls_apps s @ [x]" "ls_map s' = ls_map s"
    "ls_loggers s' = (ls_loggers s)[l := (get_logger s l)\<lparr>lg_appenders := lg_appenders (get_logger s l) @ [length (ls_apps s)]\<rparr>]"
    using configure_appender_state [OF assms(3) l] by blast
  have old: "a < length (ls_apps s)" if "a \<in> set (lg_appenders (get_logger s l))" for a
    using that apps_of [OF assms(1) l] by (simp add: get_logger_def)
  then have "loggers_ok s' \<and> view s' = (view s)(name \<mapsto> (lg_level (get_logger s l),
      map (app_view s') (lg_appenders (get_logger s l) @ [length (ls_apps s)])))"
    using view_upd [OF assms(1,2) s'(5,6,4)] s'(4) by fastforce
  moreover have "map (app_view s') (lg_appenders (get_logger s l)) = map (app_view s) (lg_appenders (get_logger s l))"
    using old s'(4) by (simp add: app_view_def get_app_def nth_append)
  moreover have "app_view s' (length (ls_apps s)) = (defined_kind a, ad_level a)"
    using s'(2-4) by (simp add: app_view_def get_app_def)
  ultimately show ?thesis using s'(1,5) by (simp add: view_at_def)
qed

lemma configure_appenders_view:
  assumes "loggers_ok s" "map_of (ls_map s) name = Some l" "\<And>a. a \<in> set as \<Longrightarrow> ad_type a \<in> {1, 2}"
  shows "\<exists>s'. configure_appenders l as s = (Inr (), s') \<and> loggers_ok s' \<and> ls_map s' = ls_map s
    \<and> view s' = (view s)(name \<mapsto> (fst (view_at s l), snd (view_at s l) @ map (\<lambda>a. (defined_kind a, ad_level a)) as))"
  using assms
proof (induction as arbitrary: s)
  case Nil
  then show ?case using view_at_of [OF Nil(2)] by (auto simp: fun_upd_triv)
next
  case (Cons a as)
  obtain s1 where s1: "configure_appender l a s = (Inr (), s1)" "loggers_ok s1" "ls_map s1 = ls_map s"
    "view s1 = (view s)(name \<mapsto> (fst (view_at s l), snd (view_at s l) @ [(defined_kind a, ad_level a)]))"
    using configure_appender_view [OF Cons.prems(1,2), of a] Cons.prems(3) by auto
  have at: "view_at s1 l = (fst (view_at s l), snd (view_at s l) @ [(defined_kind a, ad_level a)])"
    using view_at_of [of s1 name l] s1(3,4) Cons.prems(2) by simp
  obtain s2 where "configure_appenders l as s1 = (Inr (), s2)" "loggers_ok s2" "ls_map s2 = ls_map s1"
    "view s2 = (view s1)(name \<mapsto> (fst (view_at s1 l), snd (view_at s1 l) @ map (\<lambda>a. (defined_kind a, ad_level a)) as))"
  proof -
    have "map_of (ls_map s1) name = Some l" "\<And>b. b \<in> set as \<Longrightarrow> ad_type b \<in> {1, 2}" using s1(3) Cons.prems(2,3) by simp_all
    from Cons.IH [OF s1(2) this] show thesis using that by blast
  qed
  moreover have "configure_appenders l (a # as) s = configure_appenders l as s1" using s1(1) by simp
  ultimately show ?case using s1(3,4) at by (intro exI [of _ s2]) simp
qed

lemma configure_logger_view:
  assumes "loggers_ok s" "map_of (ls_map s) (ld_name i) = Some l" "\<And>a. a \<in> set (ld_appenders i) \<Longrightarrow> ad_type a \<in> {1, 2}"
  shows "\<exists>s'. configure_logger i l s = (Inr (), s') \<and> loggers_ok s' \<and> ls_map s' = ls_map s
    \<and> view s' = (view s)(ld_name i \<mapsto> defined_view i)"
proof -
  obtain s1 where s1: "Logger_setLevel l (ld_level i) s = (Inr (), s1)" "loggers_ok s1" "ls_map s1 = ls_map s"
    "view s1 = (view s)(ld_name i \<mapsto> (ld_level i, snd (view_at s l)))"
    using setLevel_view [OF assms(1,2)] by blast
  have m1: "map_of (ls_map s1) (ld_name i) = Some l" using s1(3) assms(2) by simp
  obtain s2 where s2: "(if ld_formatter i \<noteq> [] then Logger_setFormatter_string l (ld_formatter i) else ret ()) s1 = (Inr (), s2)"
    "loggers_ok s2" "ls_map s2 = ls_map s1" "view s2 = view s1"
    using setFormatter_string_view [OF s1(2) logger_of [OF s1(2) m1], of "ld_formatter i"] s1(2)
    by (cases "ld_formatter i = []") auto
  have m2: "map_of (ls_map s2) (ld_name i) = Some l" using s2(3) m1 by simp
  have at2: "view_at s2 l = (ld_level i, snd (view_at s l))" using view_at_of [OF m2] s2(4) s1(4) by simp
  obtain s3 where s3: "clearAppenders l s2 = (Inr (), s3)" "loggers_ok s3" "ls_map s3 = ls_map s2"
    "view s3 = (view s2)(ld_name i \<mapsto> (fst (view_at s2 l), []))"
    using clearAppenders_view [OF s2(2) m2] by blast
  have m3: "map_of (ls_map s3) (ld_name i) = Some l" using s3(3) m2 by simp
  have at3: "view_at s3 l = (ld_level i, [])" using view_at_of [OF m3] s3(4) at2 by simp
  obtain s4 where s4: "configure_appenders l (ld_appenders i) s3 = (Inr (), s4)" "loggers_ok s4" "ls_map s4 = ls_map s3"
    "view s4 = (view s3)(ld_name i \<mapsto> (fst (view_at s3 l), snd (view_at s3 l) @ map (\<lambda>a. (defined_kind a, ad_level a)) (ld_appenders i)))"
    using configure_appenders_view [OF s3(2) m3 assms(3)] by auto
  have "configure_logger i l s = (Inr (), s4)" using s1(1) s2(1) s3(1) s4(1) by (simp add: configure_logger_def thn_run)
  then show ?thesis using s4 s3 s2 s1 at3 by (simp add: defined_view_def)
qed

lemma getLogger_view:
  assumes "loggers_ok s"
  shows "\<exists>l s'. getLogger name s = (Inr l, s') \<and> loggers_ok s' \<and> map_of (ls_map s') name = Some l
    \<and> (\<forall>n. n \<noteq> name \<longrightarrow> view s' n = view s n)"
proof (cases "map_of (ls_map s) name")
  case None
  let ?l = "length (ls_loggers s)"
  let ?s' = "s\<lparr>ls_loggers := ls_loggers s @ [(Logger_new name)\<lparr>lg_root := Some (ls_root s)\<rparr>], ls_map := ls_map s @ [(name, ?l)]\<rparr>"
  have "\<forall>l \<in> set (map snd (ls_map s)). l < ?l" using assms by (simp add: loggers_ok_def)
  then have ok: "loggers_ok ?s'"
    using assms by (auto simp: loggers_ok_def Logger_new_def less_Suc_eq)
  have "view ?s' n = view s n" if "n \<noteq> name" for n
  proof (cases "map_of (ls_map s) n")
    case None
    then show ?thesis using that by (simp add: view_def map_add_def)
  next
    case (Some m)
    then have "m < ?l" by (rule logger_of [OF assms])
    then have "view_at ?s' m = view_at s m" by (simp add: view_at_def get_logger_def nth_append app_view_def get_app_def)
    then show ?thesis using Some that by (simp add: view_def map_add_def)
  qed
  then show ?thesis using None ok by (simp add: getLogger_def Let_def map_add_def)
next
  case (Some l)
  then show ?thesis using assms by (simp add: getLogger_def)
qed

abbreviation well_typed :: "log_define list \<Rightarrow> bool" where
  "well_typed ds \<equiv> \<forall>d \<in> set ds. \<forall>a \<in> set (ld_appenders d). ad_type a \<in> {1, 2}"

lemma configure_all_view:
  assumes "loggers_ok s" "well_typed new_value"
  shows "if \<exists>i \<in> set new_value. set_find define_less i old_value = Some i
    then fst (configure_all old_value new_value s) = Inl Null_Deref
    else \<exists>s'. configure_all old_value new_value s = (Inr (), s') \<and> loggers_ok s'
      \<and> view s' = fold (\<lambda>i v. v(ld_name i \<mapsto> defined_view i)) new_value (view s)"
  using assms
proof (induction new_value arbitrary: s)
  case (Cons i new_value)
  show ?case
  proof (cases "set_find define_less i old_value = Some i")
    case True
    then show ?thesis by (simp add: bnd_run thn_run)
  next
    case False
    obtain l s1 where s1: "getLogger (ld_name i) s = (Inr l, s1)" "loggers_ok s1" "map_of (ls_map s1) (ld_name i) = Some l"
      "\<forall>n. n \<noteq> ld_name i \<longrightarrow> view s1 n = view s n"
      using getLogger_view [OF Cons.prems(1)] by blast
    obtain s2 where s2: "configure_logger i l s1 = (Inr (), s2)" "loggers_ok s2" "view s2 = (view s1)(ld_name i \<mapsto> defined_view i)"
      using configure_logger_view [OF s1(2,3)] Cons.prems(2) by auto
    have v: "view s2 = (view s)(ld_name i \<mapsto> defined_view i)" using s2(3) s1(4) by auto
    have "(case set_find define_less i old_value of
            None \<Rightarrow> bnd (getLogger (ld_name i)) (\<lambda>l. ret (Some l))
          | Some d \<Rightarrow> if i \<noteq> d then bnd (getLogger (ld_name i)) (\<lambda>l. ret (Some l)) else ret None) s = (Inr (Some l), s1)"
      using False s1(1) by (auto simp: bnd_run split: option.split)
    then have c: "configure_all old_value (i # new_value) s = configure_all old_value new_value s2"
      using s2(1) by (simp add: bnd_run thn_run)
    have u: "(\<exists>j \<in> set (i # new_value). set_find define_less j old_value = Some j)
        \<longleftrightarrow> (\<exists>j \<in> set new_value. set_find define_less j old_value = Some j)"
      using False by auto
    have "well_typed new_value" using Cons.prems(2) by simp
    from Cons.IH [OF s2(2) this] show ?thesis unfolding c u by (simp only: v fold.simps(2) comp_apply)
  qed
qed simp

lemma silence_view:
  assumes "loggers_ok s"
  shows "\<exists>s'. silence i s = (Inr (), s') \<and> loggers_ok s' \<and> view s' = (view s)(ld_name i \<mapsto> (LogLevel 100, []))"
proof -
  obtain l s1 where s1: "getLogger (ld_name i) s = (Inr l, s1)" "loggers_ok s1" "map_of (ls_map s1) (ld_name i) = Some l"
    "\<forall>n. n \<noteq> ld_name i \<longrightarrow> view s1 n = view s n"
    using getLogger_view [OF assms] by blast
  obtain s2 where s2: "Logger_setLevel l (LogLevel 100) s1 = (Inr (), s2)" "loggers_ok s2" "ls_map s2 = ls_map s1"
    "view s2 = (view s1)(ld_name i \<mapsto> (LogLevel 100, snd (view_at s1 l)))"
    using setLevel_view [OF s1(2,3)] by blast
  have m2: "map_of (ls_map s2) (ld_name i) = Some l" using s1(3) s2(3) by simp
  obtain s3 where s3: "clearAppenders l s2 = (Inr (), s3)" "loggers_ok s3" "view s3 = (view s2)(ld_name i \<mapsto> (fst (view_at s2 l), []))"
    using clearAppenders_view [OF s2(2) m2] by blast
  have "Some (view_at s2 l) = Some (LogLevel 100, snd (view_at s1 l))" using view_at_of [OF m2] s2(4) by (metis fun_upd_same)
  then have "fst (view_at s2 l) = LogLevel 100" by simp
  then have "view s3 = (view s)(ld_name i \<mapsto> (LogLevel 100, []))" using s3(3) s2(4) s1(4) by auto
  then show ?thesis using s1(1) s2(1) s3(1,2) by (simp add: silence_def bnd_run thn_run)
qed

lemma silence_missing_view:
  assumes "loggers_ok s"
  shows "\<exists>s'. silence_missing new_value old_value s = (Inr (), s') \<and> loggers_ok s'
    \<and> view s' = (\<lambda>n. if \<exists>d \<in> set old_value. ld_name d = n \<and> set_find define_less d new_value = None then Some (LogLevel 100, []) else view s n)"
  using assms
proof (induction old_value arbitrary: s)
  case (Cons d ds)
  obtain s1 where s1: "(if set_find define_less d new_value = None then silence d else ret ()) s = (Inr (), s1)" "loggers_ok s1"
    "view s1 = (if set_find define_less d new_value = None then (view s)(ld_name d \<mapsto> (LogLevel 100, [])) else view s)"
    using silence_view [OF Cons.prems, of d] Cons.prems by (cases "set_find define_less d new_value") auto
  obtain s2 where s2: "silence_missing new_value ds s1 = (Inr (), s2)" "loggers_ok s2"
    "view s2 = (\<lambda>n. if \<exists>d \<in> set ds. ld_name d = n \<and> set_find define_less d new_value = None then Some (LogLevel 100, []) else view s1 n)"
    using Cons.IH [OF s1(2)] by blast
  have "view s2 n = (if \<exists>e \<in> set (d # ds). ld_name e = n \<and> set_find define_less e new_value = None
      then Some (LogLevel 100, []) else view s n)" for n
    using s2(3) s1(3) by auto
  then have "view s2 = (\<lambda>n. if \<exists>e \<in> set (d # ds). ld_name e = n \<and> set_find define_less e new_value = None
      then Some (LogLevel 100, []) else view s n)" by blast
  moreover have "silence_missing new_value (d # ds) s = (Inr (), s2)" using s1(1) s2(1) by (simp only: silence_missing.simps thn_ok)
  ultimately show ?case using s2(2) by blast
qed simp

lemma find_by_name:
  "sorted_wrt define_less ds \<Longrightarrow> set_find define_less i ds = None \<longleftrightarrow> (\<forall>d \<in> set ds. ld_name d \<noteq> ld_name i)"
proof -
  assume sorted: "sorted_wrt define_less ds"
  have "set_find define_less i ds \<noteq> None \<longleftrightarrow> (\<exists>d \<in> set ds. ld_name d = ld_name i)"
    using define_order.find_Some_iff [OF sorted, of i] by (auto simp: define_less_def)
  then show ?thesis by blast
qed

lemma fold_defined:
  "sorted_wrt define_less ds \<Longrightarrow>
   fold (\<lambda>i v. v(ld_name i \<mapsto> defined_view i)) ds v n =
     (case find (\<lambda>d. ld_name d = n) ds of Some d \<Rightarrow> Some (defined_view d) | None \<Rightarrow> v n)"
proof (induction ds arbitrary: v)
  case (Cons d ds)
  have "find (\<lambda>e. ld_name e = n) ds = None" if "ld_name d = n"
    using Cons.prems that by (fastforce simp: find_None_iff define_less_def)
  then show ?case using Cons by auto
qed simp

section \<open>Properties\<close>

text \<open>C34: when every definition of a new set is new or changed and its appenders have a known type, the listener
  returns with each logger as its definition says, level and appenders in order; the loggers defined only in the old
  set are silenced, without appenders, and all others are as they were.\<close>

theorem loggers_follow_config:
  assumes "loggers_ok s" "sorted_wrt define_less new_value" "well_typed new_value"
    and "\<And>i. i \<in> set new_value \<Longrightarrow> set_find define_less i old_value \<noteq> Some i"
    and "fst (AGENT_LOG_LEVEL strf fuel event ''on_logger_conf_changed'' s) = Inr ()"
  shows "\<exists>s'. on_logger_conf_changed strf fuel event old_value new_value s = (Inr (), s')
    \<and> view s' = configured old_value new_value (view s)"
proof -
  obtain s1 where s1: "AGENT_LOG_LEVEL strf fuel event ''on_logger_conf_changed'' s = (Inr (), s1)"
    using assms(5) by (metis prod.collapse)
  have "same_conf s s1" using preservesD [OF AGENT_LOG_keeps_conf _ s1, of s] by (simp add: same_conf_def)
  then have ok1: "loggers_ok s1" "view s1 = view s" using same_conf_view [OF assms(1)] by auto
  obtain s2 where s2: "configure_all old_value new_value s1 = (Inr (), s2)" "loggers_ok s2"
    "view s2 = fold (\<lambda>i v. v(ld_name i \<mapsto> defined_view i)) new_value (view s1)"
    using configure_all_view [OF ok1(1) assms(3), of old_value] assms(4) by (auto split: if_splits)
  obtain s3 where s3: "silence_missing new_value old_value s2 = (Inr (), s3)"
    "view s3 = (\<lambda>n. if \<exists>d \<in> set old_value. ld_name d = n \<and> set_find define_less d new_value = None then Some (LogLevel 100, []) else view s2 n)"
    using silence_missing_view [OF s2(2)] by blast
  have "view s3 n = configured old_value new_value (view s) n" for n
  proof (cases "find (\<lambda>d. ld_name d = n) new_value")
    case None
    then have "set_find define_less d new_value = None" if "ld_name d = n" for d
      using that find_by_name [OF assms(2), of d] by (simp add: find_None_iff)
    then show ?thesis using None s3(2) s2(3) ok1(2) fold_defined [OF assms(2)] by (auto simp: configured_def)
  next
    case (Some d)
    then have "d \<in> set new_value" "ld_name d = n" by (auto simp: find_Some_iff)
    then have "set_find define_less e new_value \<noteq> None" if "ld_name e = n" for e
      using that find_by_name [OF assms(2), of e] by auto
    then have "view s3 n = view s2 n" unfolding s3(2) by meson
    then show ?thesis using Some s2(3) fold_defined [OF assms(2)] by (simp add: configured_def)
  qed
  then have "view s3 = configured old_value new_value (view s)" by blast
  then show ?thesis using s1 s2(1) s3(1) by (simp add: on_logger_conf_changed_def thn_run)
qed

text \<open>A definition that the new set repeats unchanged makes the listener use a null logger.\<close>

theorem unchanged_define_crashes:
  assumes "loggers_ok s" "sorted_wrt define_less old_value" "well_typed new_value"
    and "i \<in> set new_value" "i \<in> set old_value"
    and "fst (AGENT_LOG_LEVEL strf fuel event ''on_logger_conf_changed'' s) = Inr ()"
  shows "fst (on_logger_conf_changed strf fuel event old_value new_value s) = Inl Null_Deref"
proof -
  obtain s1 where s1: "AGENT_LOG_LEVEL strf fuel event ''on_logger_conf_changed'' s = (Inr (), s1)"
    using assms(6) by (metis prod.collapse)
  have "same_conf s s1" using preservesD [OF AGENT_LOG_keeps_conf _ s1, of s] by (simp add: same_conf_def)
  then have ok1: "loggers_ok s1" using same_conf_view [OF assms(1)] by auto
  have "set_find define_less i old_value = Some i" using define_order.find_self [OF assms(2,5)] .
  then have "fst (configure_all old_value new_value s1) = Inl Null_Deref"
    using configure_all_view [OF ok1 assms(3), of old_value] assms(4) by (auto split: if_splits)
  then show ?thesis using s1 by (auto simp: on_logger_conf_changed_def thn_run split: prod.splits)
qed

definition system_define :: log_define where
  "system_define = \<lparr> ld_name = ''system'', ld_level = L_WARN, ld_formatter = [], ld_appenders =
     [\<lparr> ad_type = 1, ad_level = L_ERROR, ad_formatter = [], ad_file = ''system.txt'' \<rparr>] \<rparr>"

definition quiet_event :: log_event where
  "quiet_event = test_event\<lparr>ev_logger := 0, ev_level := L_UNKONWN\<rparr>"

lemma quiet_defines:
  "loggers_ok test_loggers" "fst (AGENT_LOG_LEVEL strf fuel quiet_event ''on_logger_conf_changed'' test_loggers) = Inr ()"
  by (auto simp: loggers_ok_def test_loggers_def AGENT_LOG_LEVEL_def quiet_event_def get_logger_def level_defs)

theorem loggers_follow_config_witness:
  "view (snd (on_logger_conf_changed (\<lambda>f t. []) 2 quiet_event [] [system_define] test_loggers)) ''system''
     = Some (L_WARN, [(FileLogAppender ''system.txt'', L_ERROR)])"
proof -
  have "\<exists>s'. on_logger_conf_changed (\<lambda>f t. []) 2 quiet_event [] [system_define] test_loggers = (Inr (), s')
    \<and> view s' = configured [] [system_define] (view test_loggers)"
    by (rule loggers_follow_config) (simp_all add: quiet_defines system_define_def)
  then show ?thesis by (auto simp: configured_def system_define_def defined_view_def defined_kind_def)
qed

theorem unchanged_define_crashes_witness:
  "fst (on_logger_conf_changed (\<lambda>f t. []) 2 quiet_event [system_define] [system_define] test_loggers) = Inl Null_Deref"
  by (rule unchanged_define_crashes) (simp_all add: quiet_defines system_define_def)

end
