(* ===== verification/Ragel.thy ===== *)
theory Ragel
  imports Prelude "HOL-Library.Char_ord"
begin

text \<open>
  What the scanners Ragel generated have in common: a state leads a character to another state, \<open>St n\<close>, or
  to the actions of a transition, \<open>Tr n\<close>. State 0 is the error. Characters are compared as \<open>char\<close>, which is
  signed here.
\<close>

datatype label = St nat | Tr nat

definition byte_val :: "char \<Rightarrow> int" where
  "byte_val c = (let n = of_char c in if n < 128 then n else n - 256)"

text \<open>\<open>_widec\<close>: the characters \<open>{\<close>, \<open>}\<close> and \<open>^\<close> are moved out of the range of a character, and further under the
  flag \<open>uri_relaxed\<close>.\<close>

definition widen :: "bool \<Rightarrow> int \<Rightarrow> int" where
  "widen relaxed c = 128 + (c - - 128) + (if relaxed then 256 else 0)"

definition widec :: "bool \<Rightarrow> int \<Rightarrow> int" where
  "widec relaxed c =
     (if c < 123 then (if 94 \<le> c \<and> c \<le> 94 then widen relaxed c else c)
      else if c > 123 then (if 125 \<le> c \<and> c \<le> 125 then widen relaxed c else c)
      else widen relaxed c)"

section \<open>Pointers into a buffer\<close>

text \<open>\<open>MARK(M, p)\<close> stores \<open>p - buffer\<close>, and \<open>LEN(M, p)\<close> is \<open>p - buffer - M\<close> as a \<open>size_t\<close>. \<open>strtol\<close> skips white space and
  reads a sign and digits; its result is cut to an \<open>int\<close>.\<close>

definition LEN :: "nat \<Rightarrow> nat \<Rightarrow> nat" where
  "LEN m p = size_sub p m"

definition to_int32 :: "int \<Rightarrow> int" where
  "to_int32 n = signed_take_bit 31 n"

lemma to_int32_small: "- (2 ^ 31) \<le> n \<Longrightarrow> n < 2 ^ 31 \<Longrightarrow> to_int32 n = n"
  by (simp add: to_int32_def signed_take_bit_int_eq_self)

section \<open>Running a machine\<close>

text \<open>A machine has the states 1 to \<open>mc_last\<close>; a label is found from the state and the character, and the actions of
  a transition may change the record of the parser and make callbacks. \<open>fbreak\<close> leaves the machine behind the
  character.\<close>

record ('a, 's, 'e) machine =
  mc_last :: nat
  mc_case :: "nat \<Rightarrow> 's \<Rightarrow> char \<Rightarrow> label"
  mc_tr :: "nat \<Rightarrow> 'a list \<times> nat"
  mc_breaks :: "'a \<Rightarrow> bool"
  mc_act :: "nat \<Rightarrow> nat \<Rightarrow> 'a \<Rightarrow> 's \<Rightarrow> 'e list \<times> 's"

fun do_actions :: "('a, 's, 'e) machine \<Rightarrow> nat \<Rightarrow> nat \<Rightarrow> 'a list \<Rightarrow> 's \<Rightarrow> 'e list \<times> 's" where
  "do_actions M pe p [] s = ([], s)"
| "do_actions M pe p (a # as) s =
     (let (es, s') = mc_act M pe p a s; (es', s'') = do_actions M pe p as s' in (es @ es', s''))"

text \<open>One character at \<open>p\<close>: the callbacks, whether the machine goes on, the new \<open>p\<close> and the new state. A state with
  no case leaves everything as it is, the error state does not pass the character.\<close>

definition move ::
    "('a, 's, 'e) machine \<Rightarrow> nat \<Rightarrow> nat \<Rightarrow> nat \<Rightarrow> char \<Rightarrow> 's \<Rightarrow> 'e list \<times> (bool \<times> nat \<times> nat) \<times> 's" where
  "move M pe p cs c s =
     (if cs = 0 \<or> mc_last M < cs then ([], (False, p, cs), s)
      else (case mc_case M cs s c of
              St t \<Rightarrow> ([], (if t = 0 then (False, p, 0) else (True, p + 1, t)), s)
            | Tr n \<Rightarrow>
                (let (as, t) = mc_tr M n; (es, s') = do_actions M pe p as s
                 in (es, (\<not> list_ex (mc_breaks M) as, p + 1, t), s'))))"

fun scan :: "('a, 's, 'e) machine \<Rightarrow> nat \<Rightarrow> nat \<Rightarrow> nat \<Rightarrow> string \<Rightarrow> 's \<Rightarrow> 'e list \<times> (nat \<times> nat) \<times> 's" where
  "scan M pe p cs [] s = ([], (p, cs), s)"
| "scan M pe p cs (c # xs) s =
     (let (es, (go, q, t), s') = move M pe p cs c s
      in if go then (let (es', r, s'') = scan M pe q t xs s' in (es @ es', r, s'')) else (es, (q, t), s'))"

text \<open>The state and the parser from a position on, with callbacks already made.\<close>

definition after :: "'e list \<Rightarrow> 'e list \<times> (nat \<times> nat) \<times> 's \<Rightarrow> 'e list \<times> (nat \<times> nat) \<times> 's" where
  "after es r = (es @ fst r, snd r)"

lemma after_after [simp]: "after es (after es' r) = after (es @ es') r"
  by (simp add: after_def)

lemma after_none [simp]: "after [] r = r"
  by (simp add: after_def)

lemma scan_move: "move M pe p cs c s = (es, (True, q, t), s') \<Longrightarrow> scan M pe p cs (c # xs) s = after es (scan M pe q t xs s')"
  by (simp add: after_def split: prod.split)

lemma scan_stop: "move M pe p cs c s = (es, (False, q, t), s') \<Longrightarrow> scan M pe p cs (c # xs) s = (es, (q, t), s')"
  by simp

lemma move_St: "0 < cs \<Longrightarrow> cs \<le> mc_last M \<Longrightarrow> mc_case M cs s c = St t \<Longrightarrow> t \<noteq> 0 \<Longrightarrow> move M pe p cs c s = ([], (True, p + 1, t), s)"
  by (simp add: move_def)

lemma move_Tr: "0 < cs \<Longrightarrow> cs \<le> mc_last M \<Longrightarrow> mc_case M cs s c = Tr n \<Longrightarrow> mc_tr M n = (as, t) \<Longrightarrow> do_actions M pe p as s = (es, s')
    \<Longrightarrow> move M pe p cs c s = (es, (\<not> list_ex (mc_breaks M) as, p + 1, t), s')"
  by (simp add: move_def)

text \<open>A state that characters lead back to reads over them.\<close>

lemma scan_loop:
  assumes "0 < cs" "cs \<le> mc_last M" "\<forall>c \<in> set xs. mc_case M cs s c = St cs"
  shows "scan M pe p cs (xs @ ys) s = scan M pe (p + length xs) cs ys s"
  using assms(3)
proof (induction xs arbitrary: p)
  case (Cons c xs)
  have "move M pe p cs c s = ([], (True, p + 1, cs), s)" using assms Cons.prems by (simp add: move_def)
  then show ?case using Cons by (simp add: scan_move del: scan.simps)
qed simp

text \<open>States among which characters lead.\<close>

lemma scan_within:
  assumes "\<forall>cs \<in> S. 0 < cs \<and> cs \<le> mc_last M" "\<forall>cs \<in> S. \<forall>c \<in> set xs. \<exists>t \<in> S. mc_case M cs s c = St t" "cs \<in> S"
  shows "\<exists>t \<in> S. scan M pe p cs (xs @ ys) s = scan M pe (p + length xs) t ys s"
  using assms(2,3)
proof (induction xs arbitrary: p cs)
  case (Cons c xs)
  obtain t where t: "t \<in> S" "mc_case M cs s c = St t" using Cons.prems by auto
  then have "move M pe p cs c s = ([], (True, p + 1, t), s)" using assms(1) Cons.prems(2) by (auto simp: move_def)
  then show ?case using Cons.IH [OF _ t(1), of "p + 1"] Cons.prems(1) by (simp add: scan_move del: scan.simps)
qed auto

lemma scan_dead: "cs = 0 \<or> mc_last M < cs \<Longrightarrow> scan M pe p cs xs s = ([], (p, cs), s)"
  by (cases xs) (auto simp: move_def)

section \<open>What every character keeps\<close>

text \<open>A property of position, state and parser that one character keeps, where the callbacks it makes are allowed,
  is kept by a run, and all its callbacks are allowed.\<close>

locale scan_invariant =
  fixes M :: "('a, 's, 'e) machine"
    and Inv :: "nat \<Rightarrow> nat \<Rightarrow> nat \<Rightarrow> 's \<Rightarrow> bool"
    and allowed :: "nat \<Rightarrow> 'e \<Rightarrow> bool"
  assumes move_keeps:
    "Inv pe p cs s \<Longrightarrow> p < pe \<Longrightarrow> move M pe p cs c s = (es, (go, q, t), s')
      \<Longrightarrow> Inv pe q t s' \<and> list_all (allowed pe) es"
begin

lemma move_position: "move M pe p cs c s = (es, (go, q, t), s') \<Longrightarrow> p \<le> q \<and> q \<le> Suc p \<and> (go \<longrightarrow> q = Suc p)"
  by (auto simp: move_def split: if_splits label.splits prod.splits)

lemma scan_keeps:
  "Inv pe p cs s \<Longrightarrow> p + length xs \<le> pe \<Longrightarrow> scan M pe p cs xs s = (es, (q, t), s')
    \<Longrightarrow> Inv pe q t s' \<and> list_all (allowed pe) es \<and> p \<le> q \<and> q \<le> p + length xs"
proof (induction xs arbitrary: p cs s es)
  case (Cons c xs)
  obtain es1 go q1 t1 s1 where m: "move M pe p cs c s = (es1, (go, q1, t1), s1)" by (metis prod.exhaust)
  have keeps: "Inv pe q1 t1 s1" "list_all (allowed pe) es1" using move_keeps [OF Cons.prems(1) _ m] Cons.prems(2) by auto
  show ?case
  proof (cases go)
    case True
    then have "q1 = Suc p" using move_position [OF m] by simp
    moreover obtain es2 where "scan M pe q1 t1 xs s1 = (es2, (q, t), s')" "es = es1 @ es2"
      using Cons.prems(3) m True by (auto split: prod.splits)
    ultimately show ?thesis using Cons.IH [of q1 t1 s1 es2] Cons.prems(2) keeps by auto
  next
    case False
    then show ?thesis using Cons.prems(2,3) m keeps move_position [OF m] by auto
  qed
qed auto

end

end
