(* ===== verification/Http11_Machine.thy ===== *)
theory Http11_Machine
  imports Ragel
begin

text \<open>
  The state machine of \<open>src/src/http/http11_parser.cpp\<close>, as Ragel generated it: for each state the label the
  character leads to, and for each label \<open>trN\<close> its actions and the state behind them. \<open>relaxed\<close> is the flag
  \<open>uri_relaxed\<close>; the code widens the characters it decides on.
\<close>

named_theorems req_cases "what the states do"

section \<open>Actions\<close>

datatype req_action =
    Q_Mark
  | Q_Start_Field
  | Q_Write_Field
  | Q_Start_Value
  | Q_Write_Value
  | Q_Request_Method
  | Q_Request_Uri
  | Q_Fragment
  | Q_Start_Query
  | Q_Query_String
  | Q_Http_Version
  | Q_Request_Path
  | Q_Done
  | Q_Xml
  | Q_Json

section \<open>States\<close>

definition req_case_1 :: "bool \<Rightarrow> int \<Rightarrow> label" where [req_cases]:
  "req_case_1 relaxed c =
     (if c = 60 then Tr 2
      else if c = 64 then Tr 3
      else if c > 57 then (if 65 \<le> c \<and> c \<le> 90 then Tr 0 else St 0)
      else if c \<ge> 48 then Tr 0 else St 0)"

definition req_tr_0 :: "req_action list \<times> nat" where
  "req_tr_0 = ([Q_Mark], 2)"

definition req_case_2 :: "bool \<Rightarrow> int \<Rightarrow> label" where [req_cases]:
  "req_case_2 relaxed c =
     (if c = 32 then Tr 4
      else if c > 57 then (if 65 \<le> c \<and> c \<le> 90 then St 175 else St 0)
      else if c \<ge> 48 then St 175 else St 0)"

definition req_tr_4 :: "req_action list \<times> nat" where
  "req_tr_4 = ([Q_Request_Method], 3)"

definition req_case_3 :: "bool \<Rightarrow> int \<Rightarrow> label" where [req_cases]:
  "req_case_3 relaxed c =
     (let w = widec relaxed c
      in if w = 32 then Tr 6
         else if w = 33 then Tr 7
         else if w = 35 then Tr 8
         else if w = 37 then Tr 9
         else if w = 47 then Tr 10
         else if w = 59 \<or> w = 61 then Tr 7
         else if w = 63 then Tr 11
         else if w = 64 \<or> w = 95 \<or> w = 126 \<or> w = 606 \<or> w = 635 \<or> w = 637 then Tr 7
         else if w < 65 then (if 36 \<le> w \<and> w \<le> 57 then Tr 7 else St 0)
         else if w > 90 then (if 97 \<le> w \<and> w \<le> 122 then Tr 12 else St 0) else Tr 12)"

definition req_tr_6 :: "req_action list \<times> nat" where
  "req_tr_6 = ([Q_Mark, Q_Request_Path, Q_Request_Uri], 4)"

definition req_tr_37 :: "req_action list \<times> nat" where
  "req_tr_37 = ([Q_Request_Path, Q_Request_Uri], 4)"

definition req_tr_44 :: "req_action list \<times> nat" where
  "req_tr_44 = ([Q_Mark, Q_Fragment], 4)"

definition req_tr_47 :: "req_action list \<times> nat" where
  "req_tr_47 = ([Q_Fragment], 4)"

definition req_tr_54 :: "req_action list \<times> nat" where
  "req_tr_54 = ([Q_Start_Query, Q_Query_String, Q_Request_Uri], 4)"

definition req_tr_58 :: "req_action list \<times> nat" where
  "req_tr_58 = ([Q_Query_String, Q_Request_Uri], 4)"

definition req_case_4 :: "bool \<Rightarrow> int \<Rightarrow> label" where [req_cases]:
  "req_case_4 relaxed c =
     (if c = 72 then Tr 13 else St 0)"

definition req_tr_13 :: "req_action list \<times> nat" where
  "req_tr_13 = ([Q_Mark], 5)"

definition req_case_5 :: "bool \<Rightarrow> int \<Rightarrow> label" where [req_cases]:
  "req_case_5 relaxed c =
     (if c = 84 then St 6 else St 0)"

definition req_case_6 :: "bool \<Rightarrow> int \<Rightarrow> label" where [req_cases]:
  "req_case_6 relaxed c =
     (if c = 84 then St 7 else St 0)"

definition req_case_7 :: "bool \<Rightarrow> int \<Rightarrow> label" where [req_cases]:
  "req_case_7 relaxed c =
     (if c = 80 then St 8 else St 0)"

definition req_case_8 :: "bool \<Rightarrow> int \<Rightarrow> label" where [req_cases]:
  "req_case_8 relaxed c =
     (if c = 47 then St 9 else St 0)"

definition req_case_9 :: "bool \<Rightarrow> int \<Rightarrow> label" where [req_cases]:
  "req_case_9 relaxed c =
     (if c = 49 then St 10 else St 0)"

definition req_case_10 :: "bool \<Rightarrow> int \<Rightarrow> label" where [req_cases]:
  "req_case_10 relaxed c =
     (if c = 46 then St 11 else St 0)"

definition req_case_11 :: "bool \<Rightarrow> int \<Rightarrow> label" where [req_cases]:
  "req_case_11 relaxed c =
     (if 48 \<le> c \<and> c \<le> 49 then St 12 else St 0)"

definition req_case_12 :: "bool \<Rightarrow> int \<Rightarrow> label" where [req_cases]:
  "req_case_12 relaxed c =
     (if c = 10 then Tr 21
      else if c = 13 then Tr 22 else St 0)"

definition req_tr_21 :: "req_action list \<times> nat" where
  "req_tr_21 = ([Q_Http_Version], 13)"

definition req_tr_30 :: "req_action list \<times> nat" where
  "req_tr_30 = ([Q_Start_Value, Q_Write_Value], 13)"

definition req_tr_33 :: "req_action list \<times> nat" where
  "req_tr_33 = ([Q_Write_Value], 13)"

definition req_case_13 :: "bool \<Rightarrow> int \<Rightarrow> label" where [req_cases]:
  "req_case_13 relaxed c =
     (if c = 10 then Tr 24
      else if c = 13 then Tr 25
      else if c = 33 \<or> c = 124 \<or> c = 126 then Tr 23
      else if c < 42 then (if c < 11 then (if 1 \<le> c \<and> c \<le> 8 then Tr 23 else St 0) else if c > 31 then (if 35 \<le> c
        \<and> c \<le> 39 then Tr 23 else St 0) else Tr 23)
      else if c > 43 then (if c < 48 then (if 45 \<le> c \<and> c \<le> 46 then Tr 23 else St 0) else if c > 57 then (if c > 90
        then (if 94 \<le> c \<and> c \<le> 122 then Tr 23 else St 0) else if c \<ge> 65 then Tr 23 else St 0) else Tr 23) else Tr
        23)"

definition req_tr_23 :: "req_action list \<times> nat" where
  "req_tr_23 = ([Q_Start_Field], 14)"

definition req_case_14 :: "bool \<Rightarrow> int \<Rightarrow> label" where [req_cases]:
  "req_case_14 relaxed c =
     (if c = 33 then St 14
      else if c = 58 then Tr 27
      else if c = 124 \<or> c = 126 then St 14
      else if c < 42 then (if c < 10 then (if 1 \<le> c \<and> c \<le> 8 then St 14 else St 0) else if c > 31 then (if 35 \<le> c
        \<and> c \<le> 39 then St 14 else St 0) else St 14)
      else if c > 43 then (if c < 48 then (if 45 \<le> c \<and> c \<le> 46 then St 14 else St 0) else if c > 57 then (if c > 90
        then (if 94 \<le> c \<and> c \<le> 122 then St 14 else St 0) else if c \<ge> 65 then St 14 else St 0) else St 14) else St
        14)"

definition req_tr_27 :: "req_action list \<times> nat" where
  "req_tr_27 = ([Q_Write_Field], 15)"

definition req_tr_29 :: "req_action list \<times> nat" where
  "req_tr_29 = ([Q_Start_Value], 15)"

definition req_case_15 :: "bool \<Rightarrow> int \<Rightarrow> label" where [req_cases]:
  "req_case_15 relaxed c =
     (if c = 0 then St 0
      else if c = 9 then Tr 29
      else if c = 10 then Tr 30
      else if c = 13 then Tr 31
      else if c = 32 then Tr 29
      else if c = 127 then St 0 else Tr 28)"

definition req_tr_28 :: "req_action list \<times> nat" where
  "req_tr_28 = ([Q_Start_Value], 16)"

definition req_case_16 :: "bool \<Rightarrow> int \<Rightarrow> label" where [req_cases]:
  "req_case_16 relaxed c =
     (if c = 0 then St 0
      else if c = 10 then Tr 33
      else if c = 13 then Tr 34
      else if c = 127 then St 0 else St 16)"

definition req_tr_22 :: "req_action list \<times> nat" where
  "req_tr_22 = ([Q_Http_Version], 17)"

definition req_tr_31 :: "req_action list \<times> nat" where
  "req_tr_31 = ([Q_Start_Value, Q_Write_Value], 17)"

definition req_tr_34 :: "req_action list \<times> nat" where
  "req_tr_34 = ([Q_Write_Value], 17)"

definition req_case_17 :: "bool \<Rightarrow> int \<Rightarrow> label" where [req_cases]:
  "req_case_17 relaxed c =
     (if c = 10 then St 13 else St 0)"

definition req_tr_24 :: "req_action list \<times> nat" where
  "req_tr_24 = ([Q_Start_Field, Q_Done], 348)"

definition req_tr_36 :: "req_action list \<times> nat" where
  "req_tr_36 = ([Q_Done], 348)"

definition req_case_348 :: "bool \<Rightarrow> int \<Rightarrow> label" where [req_cases]:
  "req_case_348 relaxed c =
     (if c = 33 then St 14
      else if c = 58 then Tr 27
      else if c = 124 \<or> c = 126 then St 14
      else if c < 42 then (if c < 10 then (if 1 \<le> c \<and> c \<le> 8 then St 14 else St 0) else if c > 31 then (if 35 \<le> c
        \<and> c \<le> 39 then St 14 else St 0) else St 14)
      else if c > 43 then (if c < 48 then (if 45 \<le> c \<and> c \<le> 46 then St 14 else St 0) else if c > 57 then (if c > 90
        then (if 94 \<le> c \<and> c \<le> 122 then St 14 else St 0) else if c \<ge> 65 then St 14 else St 0) else St 14) else St
        14)"

definition req_tr_25 :: "req_action list \<times> nat" where
  "req_tr_25 = ([Q_Start_Field], 18)"

definition req_case_18 :: "bool \<Rightarrow> int \<Rightarrow> label" where [req_cases]:
  "req_case_18 relaxed c =
     (if c = 10 then Tr 36
      else if c = 33 then St 14
      else if c = 58 then Tr 27
      else if c = 124 \<or> c = 126 then St 14
      else if c < 42 then (if c < 11 then (if 1 \<le> c \<and> c \<le> 8 then St 14 else St 0) else if c > 31 then (if 35 \<le> c
        \<and> c \<le> 39 then St 14 else St 0) else St 14)
      else if c > 43 then (if c < 48 then (if 45 \<le> c \<and> c \<le> 46 then St 14 else St 0) else if c > 57 then (if c > 90
        then (if 94 \<le> c \<and> c \<le> 122 then St 14 else St 0) else if c \<ge> 65 then St 14 else St 0) else St 14) else St
        14)"

definition req_tr_7 :: "req_action list \<times> nat" where
  "req_tr_7 = ([Q_Mark], 19)"

definition req_case_19 :: "bool \<Rightarrow> int \<Rightarrow> label" where [req_cases]:
  "req_case_19 relaxed c =
     (let w = widec relaxed c
      in if w = 32 then Tr 37
         else if w = 33 then St 19
         else if w = 35 then Tr 39
         else if w = 37 then St 24
         else if w = 47 then St 26
         else if w = 59 \<or> w = 61 then St 19
         else if w = 63 then Tr 42
         else if w = 95 \<or> w = 126 \<or> w = 606 \<or> w = 635 \<or> w = 637 then St 19
         else if w < 64 then (if 36 \<le> w \<and> w \<le> 57 then St 19 else St 0)
         else if w > 90 then (if 97 \<le> w \<and> w \<le> 122 then St 19 else St 0) else St 19)"

definition req_tr_8 :: "req_action list \<times> nat" where
  "req_tr_8 = ([Q_Mark, Q_Request_Path, Q_Request_Uri], 20)"

definition req_tr_39 :: "req_action list \<times> nat" where
  "req_tr_39 = ([Q_Request_Path, Q_Request_Uri], 20)"

definition req_tr_55 :: "req_action list \<times> nat" where
  "req_tr_55 = ([Q_Start_Query, Q_Query_String, Q_Request_Uri], 20)"

definition req_tr_59 :: "req_action list \<times> nat" where
  "req_tr_59 = ([Q_Query_String, Q_Request_Uri], 20)"

definition req_case_20 :: "bool \<Rightarrow> int \<Rightarrow> label" where [req_cases]:
  "req_case_20 relaxed c =
     (let w = widec relaxed c
      in if w = 32 then Tr 44
         else if w = 33 then Tr 43
         else if w = 37 then Tr 45
         else if w = 61 \<or> w = 95 \<or> w = 126 \<or> w = 606 \<or> w = 635 \<or> w = 637 then Tr 43
         else if w < 36 then (if w \<le> (- 1) then Tr 43 else St 0)
         else if w > 59 then (if w > 90 then (if 97 \<le> w \<and> w \<le> 122 then Tr 43 else St 0) else if w \<ge> 63 then Tr 43
           else St 0) else Tr 43)"

definition req_tr_43 :: "req_action list \<times> nat" where
  "req_tr_43 = ([Q_Mark], 21)"

definition req_case_21 :: "bool \<Rightarrow> int \<Rightarrow> label" where [req_cases]:
  "req_case_21 relaxed c =
     (let w = widec relaxed c
      in if w = 32 then Tr 47
         else if w = 33 then St 21
         else if w = 37 then St 22
         else if w = 61 \<or> w = 95 \<or> w = 126 \<or> w = 606 \<or> w = 635 \<or> w = 637 then St 21
         else if w < 36 then (if w \<le> (- 1) then St 21 else St 0)
         else if w > 59 then (if w > 90 then (if 97 \<le> w \<and> w \<le> 122 then St 21 else St 0) else if w \<ge> 63 then St 21
           else St 0) else St 21)"

definition req_tr_45 :: "req_action list \<times> nat" where
  "req_tr_45 = ([Q_Mark], 22)"

definition req_case_22 :: "bool \<Rightarrow> int \<Rightarrow> label" where [req_cases]:
  "req_case_22 relaxed c =
     (if c < 65 then (if 48 \<le> c \<and> c \<le> 57 then St 23 else St 0)
      else if c > 70 then (if 97 \<le> c \<and> c \<le> 102 then St 23 else St 0) else St 23)"

definition req_case_23 :: "bool \<Rightarrow> int \<Rightarrow> label" where [req_cases]:
  "req_case_23 relaxed c =
     (if c < 65 then (if 48 \<le> c \<and> c \<le> 57 then St 21 else St 0)
      else if c > 70 then (if 97 \<le> c \<and> c \<le> 102 then St 21 else St 0) else St 21)"

definition req_tr_9 :: "req_action list \<times> nat" where
  "req_tr_9 = ([Q_Mark], 24)"

definition req_case_24 :: "bool \<Rightarrow> int \<Rightarrow> label" where [req_cases]:
  "req_case_24 relaxed c =
     (if c < 65 then (if 48 \<le> c \<and> c \<le> 57 then St 25 else St 0)
      else if c > 70 then (if 97 \<le> c \<and> c \<le> 102 then St 25 else St 0) else St 25)"

definition req_case_25 :: "bool \<Rightarrow> int \<Rightarrow> label" where [req_cases]:
  "req_case_25 relaxed c =
     (if c < 65 then (if 48 \<le> c \<and> c \<le> 57 then St 19 else St 0)
      else if c > 70 then (if 97 \<le> c \<and> c \<le> 102 then St 19 else St 0) else St 19)"

definition req_tr_203 :: "req_action list \<times> nat" where
  "req_tr_203 = ([Q_Mark], 26)"

definition req_case_26 :: "bool \<Rightarrow> int \<Rightarrow> label" where [req_cases]:
  "req_case_26 relaxed c =
     (let w = widec relaxed c
      in if w = 32 then Tr 37
         else if w = 33 then St 26
         else if w = 35 then Tr 39
         else if w = 37 then St 27
         else if w = 61 then St 26
         else if w = 63 then Tr 42
         else if w = 95 \<or> w = 126 \<or> w = 606 \<or> w = 635 \<or> w = 637 then St 26
         else if w < 36 then (if w \<le> (- 1) then St 26 else St 0)
         else if w > 59 then (if w > 90 then (if 97 \<le> w \<and> w \<le> 122 then St 26 else St 0) else if w \<ge> 64 then St 26
           else St 0) else St 26)"

definition req_tr_204 :: "req_action list \<times> nat" where
  "req_tr_204 = ([Q_Mark], 27)"

definition req_case_27 :: "bool \<Rightarrow> int \<Rightarrow> label" where [req_cases]:
  "req_case_27 relaxed c =
     (if c < 65 then (if 48 \<le> c \<and> c \<le> 57 then St 28 else St 0)
      else if c > 70 then (if 97 \<le> c \<and> c \<le> 102 then St 28 else St 0) else St 28)"

definition req_case_28 :: "bool \<Rightarrow> int \<Rightarrow> label" where [req_cases]:
  "req_case_28 relaxed c =
     (if c < 65 then (if 48 \<le> c \<and> c \<le> 57 then St 26 else St 0)
      else if c > 70 then (if 97 \<le> c \<and> c \<le> 102 then St 26 else St 0) else St 26)"

definition req_tr_11 :: "req_action list \<times> nat" where
  "req_tr_11 = ([Q_Mark, Q_Request_Path], 29)"

definition req_tr_42 :: "req_action list \<times> nat" where
  "req_tr_42 = ([Q_Request_Path], 29)"

definition req_case_29 :: "bool \<Rightarrow> int \<Rightarrow> label" where [req_cases]:
  "req_case_29 relaxed c =
     (let w = widec relaxed c
      in if w = 32 then Tr 54
         else if w = 33 then Tr 53
         else if w = 35 then Tr 55
         else if w = 37 then Tr 56
         else if w = 61 \<or> w = 95 \<or> w = 126 \<or> w = 606 \<or> w = 635 \<or> w = 637 then Tr 53
         else if w < 36 then (if w \<le> (- 1) then Tr 53 else St 0)
         else if w > 59 then (if w > 90 then (if 97 \<le> w \<and> w \<le> 122 then Tr 53 else St 0) else if w \<ge> 63 then Tr 53
           else St 0) else Tr 53)"

definition req_tr_53 :: "req_action list \<times> nat" where
  "req_tr_53 = ([Q_Start_Query], 30)"

definition req_case_30 :: "bool \<Rightarrow> int \<Rightarrow> label" where [req_cases]:
  "req_case_30 relaxed c =
     (let w = widec relaxed c
      in if w = 32 then Tr 58
         else if w = 33 then St 30
         else if w = 35 then Tr 59
         else if w = 37 then St 31
         else if w = 61 \<or> w = 95 \<or> w = 126 \<or> w = 606 \<or> w = 635 \<or> w = 637 then St 30
         else if w < 36 then (if w \<le> (- 1) then St 30 else St 0)
         else if w > 59 then (if w > 90 then (if 97 \<le> w \<and> w \<le> 122 then St 30 else St 0) else if w \<ge> 63 then St 30
           else St 0) else St 30)"

definition req_tr_56 :: "req_action list \<times> nat" where
  "req_tr_56 = ([Q_Start_Query], 31)"

definition req_case_31 :: "bool \<Rightarrow> int \<Rightarrow> label" where [req_cases]:
  "req_case_31 relaxed c =
     (if c < 65 then (if 48 \<le> c \<and> c \<le> 57 then St 32 else St 0)
      else if c > 70 then (if 97 \<le> c \<and> c \<le> 102 then St 32 else St 0) else St 32)"

definition req_case_32 :: "bool \<Rightarrow> int \<Rightarrow> label" where [req_cases]:
  "req_case_32 relaxed c =
     (if c < 65 then (if 48 \<le> c \<and> c \<le> 57 then St 30 else St 0)
      else if c > 70 then (if 97 \<le> c \<and> c \<le> 102 then St 30 else St 0) else St 30)"

definition req_tr_10 :: "req_action list \<times> nat" where
  "req_tr_10 = ([Q_Mark], 33)"

definition req_case_33 :: "bool \<Rightarrow> int \<Rightarrow> label" where [req_cases]:
  "req_case_33 relaxed c =
     (let w = widec relaxed c
      in if w = 32 then Tr 37
         else if w = 33 then St 26
         else if w = 35 then Tr 39
         else if w = 37 then St 27
         else if w = 47 then St 34
         else if w = 61 then St 26
         else if w = 63 then Tr 42
         else if w = 95 \<or> w = 126 \<or> w = 606 \<or> w = 635 \<or> w = 637 then St 26
         else if w < 36 then (if w \<le> (- 1) then St 26 else St 0)
         else if w > 59 then (if w > 90 then (if 97 \<le> w \<and> w \<le> 122 then St 26 else St 0) else if w \<ge> 64 then St 26
           else St 0) else St 26)"

definition req_case_34 :: "bool \<Rightarrow> int \<Rightarrow> label" where [req_cases]:
  "req_case_34 relaxed c =
     (let w = widec relaxed c
      in if w = 32 then Tr 37
         else if w = 33 then St 35
         else if w = 35 then Tr 39
         else if w = 37 then St 36
         else if w = 47 then St 26
         else if w = 58 then St 38
         else if w = 61 then St 35
         else if w = 63 then Tr 42
         else if w = 64 then St 42
         else if w = 91 then St 47
         else if w = 95 \<or> w = 126 \<or> w = 606 \<or> w = 635 \<or> w = 637 then St 35
         else if w < 65 then (if 36 \<le> w \<and> w \<le> 59 then St 35 else St 0)
         else if w > 90 then (if 97 \<le> w \<and> w \<le> 122 then St 35 else St 0) else St 35)"

definition req_case_35 :: "bool \<Rightarrow> int \<Rightarrow> label" where [req_cases]:
  "req_case_35 relaxed c =
     (let w = widec relaxed c
      in if w = 32 then Tr 37
         else if w = 33 then St 35
         else if w = 35 then Tr 39
         else if w = 37 then St 36
         else if w = 47 then St 26
         else if w = 58 then St 38
         else if w = 61 then St 35
         else if w = 63 then Tr 42
         else if w = 64 then St 42
         else if w = 95 \<or> w = 126 \<or> w = 606 \<or> w = 635 \<or> w = 637 then St 35
         else if w < 65 then (if 36 \<le> w \<and> w \<le> 59 then St 35 else St 0)
         else if w > 90 then (if 97 \<le> w \<and> w \<le> 122 then St 35 else St 0) else St 35)"

definition req_case_36 :: "bool \<Rightarrow> int \<Rightarrow> label" where [req_cases]:
  "req_case_36 relaxed c =
     (if c < 65 then (if 48 \<le> c \<and> c \<le> 57 then St 37 else St 0)
      else if c > 70 then (if 97 \<le> c \<and> c \<le> 102 then St 37 else St 0) else St 37)"

definition req_case_37 :: "bool \<Rightarrow> int \<Rightarrow> label" where [req_cases]:
  "req_case_37 relaxed c =
     (if c < 65 then (if 48 \<le> c \<and> c \<le> 57 then St 35 else St 0)
      else if c > 70 then (if 97 \<le> c \<and> c \<le> 102 then St 35 else St 0) else St 35)"

definition req_case_38 :: "bool \<Rightarrow> int \<Rightarrow> label" where [req_cases]:
  "req_case_38 relaxed c =
     (let w = widec relaxed c
      in if w = 32 then Tr 37
         else if w = 33 then St 39
         else if w = 35 then Tr 39
         else if w = 37 then St 40
         else if w = 47 then St 26
         else if w = 61 then St 39
         else if w = 63 then Tr 42
         else if w = 64 then St 42
         else if w = 95 \<or> w = 126 \<or> w = 606 \<or> w = 635 \<or> w = 637 then St 39
         else if w < 58 then (if w > 46 then (if 48 \<le> w \<and> w \<le> 57 then St 38 else St 0) else if w \<ge> 36 then St 39
           else St 0)
         else if w > 59 then (if w > 90 then (if 97 \<le> w \<and> w \<le> 122 then St 39 else St 0) else if w \<ge> 65 then St 39
           else St 0) else St 39)"

definition req_case_39 :: "bool \<Rightarrow> int \<Rightarrow> label" where [req_cases]:
  "req_case_39 relaxed c =
     (let w = widec relaxed c
      in if w = 33 then St 39
         else if w = 37 then St 40
         else if w = 61 then St 39
         else if w = 64 then St 42
         else if w = 95 \<or> w = 126 \<or> w = 606 \<or> w = 635 \<or> w = 637 then St 39
         else if w < 48 then (if 36 \<le> w \<and> w \<le> 46 then St 39 else St 0)
         else if w > 59 then (if w > 90 then (if 97 \<le> w \<and> w \<le> 122 then St 39 else St 0) else if w \<ge> 65 then St 39
           else St 0) else St 39)"

definition req_case_40 :: "bool \<Rightarrow> int \<Rightarrow> label" where [req_cases]:
  "req_case_40 relaxed c =
     (if c < 65 then (if 48 \<le> c \<and> c \<le> 57 then St 41 else St 0)
      else if c > 70 then (if 97 \<le> c \<and> c \<le> 102 then St 41 else St 0) else St 41)"

definition req_case_41 :: "bool \<Rightarrow> int \<Rightarrow> label" where [req_cases]:
  "req_case_41 relaxed c =
     (if c < 65 then (if 48 \<le> c \<and> c \<le> 57 then St 39 else St 0)
      else if c > 70 then (if 97 \<le> c \<and> c \<le> 102 then St 39 else St 0) else St 39)"

definition req_case_42 :: "bool \<Rightarrow> int \<Rightarrow> label" where [req_cases]:
  "req_case_42 relaxed c =
     (let w = widec relaxed c
      in if w = 32 then Tr 37
         else if w = 33 then St 43
         else if w = 35 then Tr 39
         else if w = 37 then St 44
         else if w = 47 then St 26
         else if w = 58 then St 46
         else if w = 61 then St 43
         else if w = 63 then Tr 42
         else if w = 91 then St 47
         else if w = 95 \<or> w = 126 \<or> w = 606 \<or> w = 635 \<or> w = 637 then St 43
         else if w < 65 then (if 36 \<le> w \<and> w \<le> 59 then St 43 else St 0)
         else if w > 90 then (if 97 \<le> w \<and> w \<le> 122 then St 43 else St 0) else St 43)"

definition req_case_43 :: "bool \<Rightarrow> int \<Rightarrow> label" where [req_cases]:
  "req_case_43 relaxed c =
     (let w = widec relaxed c
      in if w = 32 then Tr 37
         else if w = 33 then St 43
         else if w = 35 then Tr 39
         else if w = 37 then St 44
         else if w = 47 then St 26
         else if w = 58 then St 46
         else if w = 61 then St 43
         else if w = 63 then Tr 42
         else if w = 95 \<or> w = 126 \<or> w = 606 \<or> w = 635 \<or> w = 637 then St 43
         else if w < 65 then (if 36 \<le> w \<and> w \<le> 59 then St 43 else St 0)
         else if w > 90 then (if 97 \<le> w \<and> w \<le> 122 then St 43 else St 0) else St 43)"

definition req_case_44 :: "bool \<Rightarrow> int \<Rightarrow> label" where [req_cases]:
  "req_case_44 relaxed c =
     (if c < 65 then (if 48 \<le> c \<and> c \<le> 57 then St 45 else St 0)
      else if c > 70 then (if 97 \<le> c \<and> c \<le> 102 then St 45 else St 0) else St 45)"

definition req_case_45 :: "bool \<Rightarrow> int \<Rightarrow> label" where [req_cases]:
  "req_case_45 relaxed c =
     (if c < 65 then (if 48 \<le> c \<and> c \<le> 57 then St 43 else St 0)
      else if c > 70 then (if 97 \<le> c \<and> c \<le> 102 then St 43 else St 0) else St 43)"

definition req_case_46 :: "bool \<Rightarrow> int \<Rightarrow> label" where [req_cases]:
  "req_case_46 relaxed c =
     (if c = 32 then Tr 37
      else if c = 35 then Tr 39
      else if c = 47 then St 26
      else if c = 63 then Tr 42
      else if 48 \<le> c \<and> c \<le> 57 then St 46 else St 0)"

definition req_case_47 :: "bool \<Rightarrow> int \<Rightarrow> label" where [req_cases]:
  "req_case_47 relaxed c =
     (if c = 6 then St 48
      else if c = 58 then St 167
      else if c = 118 then St 169
      else if c < 65 then (if 48 \<le> c \<and> c \<le> 57 then St 91 else St 0)
      else if c > 70 then (if 97 \<le> c \<and> c \<le> 102 then St 91 else St 0) else St 91)"

definition req_case_48 :: "bool \<Rightarrow> int \<Rightarrow> label" where [req_cases]:
  "req_case_48 relaxed c =
     (if c < 65 then (if 48 \<le> c \<and> c \<le> 57 then St 49 else St 0)
      else if c > 70 then (if 97 \<le> c \<and> c \<le> 102 then St 49 else St 0) else St 49)"

definition req_case_49 :: "bool \<Rightarrow> int \<Rightarrow> label" where [req_cases]:
  "req_case_49 relaxed c =
     (if c = 58 then St 53
      else if c < 65 then (if 48 \<le> c \<and> c \<le> 57 then St 50 else St 0)
      else if c > 70 then (if 97 \<le> c \<and> c \<le> 102 then St 50 else St 0) else St 50)"

definition req_case_50 :: "bool \<Rightarrow> int \<Rightarrow> label" where [req_cases]:
  "req_case_50 relaxed c =
     (if c = 58 then St 53
      else if c < 65 then (if 48 \<le> c \<and> c \<le> 57 then St 51 else St 0)
      else if c > 70 then (if 97 \<le> c \<and> c \<le> 102 then St 51 else St 0) else St 51)"

definition req_case_51 :: "bool \<Rightarrow> int \<Rightarrow> label" where [req_cases]:
  "req_case_51 relaxed c =
     (if c = 58 then St 53
      else if c < 65 then (if 48 \<le> c \<and> c \<le> 57 then St 52 else St 0)
      else if c > 70 then (if 97 \<le> c \<and> c \<le> 102 then St 52 else St 0) else St 52)"

definition req_case_52 :: "bool \<Rightarrow> int \<Rightarrow> label" where [req_cases]:
  "req_case_52 relaxed c =
     (if c = 58 then St 53 else St 0)"

definition req_case_53 :: "bool \<Rightarrow> int \<Rightarrow> label" where [req_cases]:
  "req_case_53 relaxed c =
     (if c = 49 then St 84
      else if c = 50 then St 87
      else if c < 65 then (if 48 \<le> c \<and> c \<le> 57 then St 54 else St 0)
      else if c > 70 then (if 97 \<le> c \<and> c \<le> 102 then St 90 else St 0) else St 90)"

definition req_case_54 :: "bool \<Rightarrow> int \<Rightarrow> label" where [req_cases]:
  "req_case_54 relaxed c =
     (if c = 46 then St 55
      else if c = 58 then St 80
      else if c < 65 then (if 48 \<le> c \<and> c \<le> 57 then St 77 else St 0)
      else if c > 70 then (if 97 \<le> c \<and> c \<le> 102 then St 77 else St 0) else St 77)"

definition req_case_55 :: "bool \<Rightarrow> int \<Rightarrow> label" where [req_cases]:
  "req_case_55 relaxed c =
     (if c = 49 then St 72
      else if c = 50 then St 74
      else if 48 \<le> c \<and> c \<le> 57 then St 56 else St 0)"

definition req_case_56 :: "bool \<Rightarrow> int \<Rightarrow> label" where [req_cases]:
  "req_case_56 relaxed c =
     (if c = 46 then St 57 else St 0)"

definition req_case_57 :: "bool \<Rightarrow> int \<Rightarrow> label" where [req_cases]:
  "req_case_57 relaxed c =
     (if c = 49 then St 67
      else if c = 50 then St 69
      else if 48 \<le> c \<and> c \<le> 57 then St 58 else St 0)"

definition req_case_58 :: "bool \<Rightarrow> int \<Rightarrow> label" where [req_cases]:
  "req_case_58 relaxed c =
     (if c = 46 then St 59 else St 0)"

definition req_case_59 :: "bool \<Rightarrow> int \<Rightarrow> label" where [req_cases]:
  "req_case_59 relaxed c =
     (if c = 49 then St 62
      else if c = 50 then St 64
      else if 48 \<le> c \<and> c \<le> 57 then St 60 else St 0)"

definition req_case_60 :: "bool \<Rightarrow> int \<Rightarrow> label" where [req_cases]:
  "req_case_60 relaxed c =
     (if c = 93 then St 61 else St 0)"

definition req_case_61 :: "bool \<Rightarrow> int \<Rightarrow> label" where [req_cases]:
  "req_case_61 relaxed c =
     (if c = 32 then Tr 37
      else if c = 35 then Tr 39
      else if c = 47 then St 26
      else if c = 58 then St 46
      else if c = 63 then Tr 42 else St 0)"

definition req_case_62 :: "bool \<Rightarrow> int \<Rightarrow> label" where [req_cases]:
  "req_case_62 relaxed c =
     (if c = 93 then St 61
      else if 48 \<le> c \<and> c \<le> 57 then St 63 else St 0)"

definition req_case_63 :: "bool \<Rightarrow> int \<Rightarrow> label" where [req_cases]:
  "req_case_63 relaxed c =
     (if c = 93 then St 61
      else if 48 \<le> c \<and> c \<le> 57 then St 60 else St 0)"

definition req_case_64 :: "bool \<Rightarrow> int \<Rightarrow> label" where [req_cases]:
  "req_case_64 relaxed c =
     (if c = 48 then St 65
      else if c = 53 then St 66
      else if c = 93 then St 61 else St 0)"

definition req_case_65 :: "bool \<Rightarrow> int \<Rightarrow> label" where [req_cases]:
  "req_case_65 relaxed c =
     (if 48 \<le> c \<and> c \<le> 57 then St 60 else St 0)"

definition req_case_66 :: "bool \<Rightarrow> int \<Rightarrow> label" where [req_cases]:
  "req_case_66 relaxed c =
     (if c = 48 then St 60 else St 0)"

definition req_case_67 :: "bool \<Rightarrow> int \<Rightarrow> label" where [req_cases]:
  "req_case_67 relaxed c =
     (if c = 46 then St 59
      else if 48 \<le> c \<and> c \<le> 57 then St 68 else St 0)"

definition req_case_68 :: "bool \<Rightarrow> int \<Rightarrow> label" where [req_cases]:
  "req_case_68 relaxed c =
     (if c = 46 then St 59
      else if 48 \<le> c \<and> c \<le> 57 then St 58 else St 0)"

definition req_case_69 :: "bool \<Rightarrow> int \<Rightarrow> label" where [req_cases]:
  "req_case_69 relaxed c =
     (if c = 46 then St 59
      else if c = 48 then St 70
      else if c = 53 then St 71 else St 0)"

definition req_case_70 :: "bool \<Rightarrow> int \<Rightarrow> label" where [req_cases]:
  "req_case_70 relaxed c =
     (if 48 \<le> c \<and> c \<le> 57 then St 58 else St 0)"

definition req_case_71 :: "bool \<Rightarrow> int \<Rightarrow> label" where [req_cases]:
  "req_case_71 relaxed c =
     (if c = 48 then St 58 else St 0)"

definition req_case_72 :: "bool \<Rightarrow> int \<Rightarrow> label" where [req_cases]:
  "req_case_72 relaxed c =
     (if c = 46 then St 57
      else if 48 \<le> c \<and> c \<le> 57 then St 73 else St 0)"

definition req_case_73 :: "bool \<Rightarrow> int \<Rightarrow> label" where [req_cases]:
  "req_case_73 relaxed c =
     (if c = 46 then St 57
      else if 48 \<le> c \<and> c \<le> 57 then St 56 else St 0)"

definition req_case_74 :: "bool \<Rightarrow> int \<Rightarrow> label" where [req_cases]:
  "req_case_74 relaxed c =
     (if c = 46 then St 57
      else if c = 48 then St 75
      else if c = 53 then St 76 else St 0)"

definition req_case_75 :: "bool \<Rightarrow> int \<Rightarrow> label" where [req_cases]:
  "req_case_75 relaxed c =
     (if 48 \<le> c \<and> c \<le> 57 then St 56 else St 0)"

definition req_case_76 :: "bool \<Rightarrow> int \<Rightarrow> label" where [req_cases]:
  "req_case_76 relaxed c =
     (if c = 48 then St 56 else St 0)"

definition req_case_77 :: "bool \<Rightarrow> int \<Rightarrow> label" where [req_cases]:
  "req_case_77 relaxed c =
     (if c = 58 then St 80
      else if c < 65 then (if 48 \<le> c \<and> c \<le> 57 then St 78 else St 0)
      else if c > 70 then (if 97 \<le> c \<and> c \<le> 102 then St 78 else St 0) else St 78)"

definition req_case_78 :: "bool \<Rightarrow> int \<Rightarrow> label" where [req_cases]:
  "req_case_78 relaxed c =
     (if c = 58 then St 80
      else if c < 65 then (if 48 \<le> c \<and> c \<le> 57 then St 79 else St 0)
      else if c > 70 then (if 97 \<le> c \<and> c \<le> 102 then St 79 else St 0) else St 79)"

definition req_case_79 :: "bool \<Rightarrow> int \<Rightarrow> label" where [req_cases]:
  "req_case_79 relaxed c =
     (if c = 58 then St 80 else St 0)"

definition req_case_80 :: "bool \<Rightarrow> int \<Rightarrow> label" where [req_cases]:
  "req_case_80 relaxed c =
     (if c < 65 then (if 48 \<le> c \<and> c \<le> 57 then St 81 else St 0)
      else if c > 70 then (if 97 \<le> c \<and> c \<le> 102 then St 81 else St 0) else St 81)"

definition req_case_81 :: "bool \<Rightarrow> int \<Rightarrow> label" where [req_cases]:
  "req_case_81 relaxed c =
     (if c = 93 then St 61
      else if c < 65 then (if 48 \<le> c \<and> c \<le> 57 then St 82 else St 0)
      else if c > 70 then (if 97 \<le> c \<and> c \<le> 102 then St 82 else St 0) else St 82)"

definition req_case_82 :: "bool \<Rightarrow> int \<Rightarrow> label" where [req_cases]:
  "req_case_82 relaxed c =
     (if c = 93 then St 61
      else if c < 65 then (if 48 \<le> c \<and> c \<le> 57 then St 83 else St 0)
      else if c > 70 then (if 97 \<le> c \<and> c \<le> 102 then St 83 else St 0) else St 83)"

definition req_case_83 :: "bool \<Rightarrow> int \<Rightarrow> label" where [req_cases]:
  "req_case_83 relaxed c =
     (if c = 93 then St 61
      else if c < 65 then (if 48 \<le> c \<and> c \<le> 57 then St 60 else St 0)
      else if c > 70 then (if 97 \<le> c \<and> c \<le> 102 then St 60 else St 0) else St 60)"

definition req_case_84 :: "bool \<Rightarrow> int \<Rightarrow> label" where [req_cases]:
  "req_case_84 relaxed c =
     (if c = 46 then St 55
      else if c = 58 then St 80
      else if c < 65 then (if 48 \<le> c \<and> c \<le> 57 then St 85 else St 0)
      else if c > 70 then (if 97 \<le> c \<and> c \<le> 102 then St 77 else St 0) else St 77)"

definition req_case_85 :: "bool \<Rightarrow> int \<Rightarrow> label" where [req_cases]:
  "req_case_85 relaxed c =
     (if c = 46 then St 55
      else if c = 58 then St 80
      else if c < 65 then (if 48 \<le> c \<and> c \<le> 57 then St 86 else St 0)
      else if c > 70 then (if 97 \<le> c \<and> c \<le> 102 then St 78 else St 0) else St 78)"

definition req_case_86 :: "bool \<Rightarrow> int \<Rightarrow> label" where [req_cases]:
  "req_case_86 relaxed c =
     (if c = 46 then St 55
      else if c = 58 then St 80
      else if c < 65 then (if 48 \<le> c \<and> c \<le> 57 then St 79 else St 0)
      else if c > 70 then (if 97 \<le> c \<and> c \<le> 102 then St 79 else St 0) else St 79)"

definition req_case_87 :: "bool \<Rightarrow> int \<Rightarrow> label" where [req_cases]:
  "req_case_87 relaxed c =
     (if c = 46 then St 55
      else if c = 48 then St 88
      else if c = 53 then St 89
      else if c = 58 then St 80
      else if c < 65 then (if 49 \<le> c \<and> c \<le> 57 then St 77 else St 0)
      else if c > 70 then (if 97 \<le> c \<and> c \<le> 102 then St 77 else St 0) else St 77)"

definition req_case_88 :: "bool \<Rightarrow> int \<Rightarrow> label" where [req_cases]:
  "req_case_88 relaxed c =
     (if c = 58 then St 80
      else if c < 65 then (if 48 \<le> c \<and> c \<le> 57 then St 86 else St 0)
      else if c > 70 then (if 97 \<le> c \<and> c \<le> 102 then St 78 else St 0) else St 78)"

definition req_case_89 :: "bool \<Rightarrow> int \<Rightarrow> label" where [req_cases]:
  "req_case_89 relaxed c =
     (if c = 48 then St 86
      else if c = 58 then St 80
      else if c < 65 then (if 49 \<le> c \<and> c \<le> 57 then St 78 else St 0)
      else if c > 70 then (if 97 \<le> c \<and> c \<le> 102 then St 78 else St 0) else St 78)"

definition req_case_90 :: "bool \<Rightarrow> int \<Rightarrow> label" where [req_cases]:
  "req_case_90 relaxed c =
     (if c = 58 then St 80
      else if c < 65 then (if 48 \<le> c \<and> c \<le> 57 then St 77 else St 0)
      else if c > 70 then (if 97 \<le> c \<and> c \<le> 102 then St 77 else St 0) else St 77)"

definition req_case_91 :: "bool \<Rightarrow> int \<Rightarrow> label" where [req_cases]:
  "req_case_91 relaxed c =
     (if c = 58 then St 95
      else if c < 65 then (if 48 \<le> c \<and> c \<le> 57 then St 92 else St 0)
      else if c > 70 then (if 97 \<le> c \<and> c \<le> 102 then St 92 else St 0) else St 92)"

definition req_case_92 :: "bool \<Rightarrow> int \<Rightarrow> label" where [req_cases]:
  "req_case_92 relaxed c =
     (if c = 58 then St 95
      else if c < 65 then (if 48 \<le> c \<and> c \<le> 57 then St 93 else St 0)
      else if c > 70 then (if 97 \<le> c \<and> c \<le> 102 then St 93 else St 0) else St 93)"

definition req_case_93 :: "bool \<Rightarrow> int \<Rightarrow> label" where [req_cases]:
  "req_case_93 relaxed c =
     (if c = 58 then St 95
      else if c < 65 then (if 48 \<le> c \<and> c \<le> 57 then St 94 else St 0)
      else if c > 70 then (if 97 \<le> c \<and> c \<le> 102 then St 94 else St 0) else St 94)"

definition req_case_94 :: "bool \<Rightarrow> int \<Rightarrow> label" where [req_cases]:
  "req_case_94 relaxed c =
     (if c = 58 then St 95 else St 0)"

definition req_case_95 :: "bool \<Rightarrow> int \<Rightarrow> label" where [req_cases]:
  "req_case_95 relaxed c =
     (if c = 58 then St 166
      else if c < 65 then (if 48 \<le> c \<and> c \<le> 57 then St 96 else St 0)
      else if c > 70 then (if 97 \<le> c \<and> c \<le> 102 then St 96 else St 0) else St 96)"

definition req_case_96 :: "bool \<Rightarrow> int \<Rightarrow> label" where [req_cases]:
  "req_case_96 relaxed c =
     (if c = 58 then St 100
      else if c < 65 then (if 48 \<le> c \<and> c \<le> 57 then St 97 else St 0)
      else if c > 70 then (if 97 \<le> c \<and> c \<le> 102 then St 97 else St 0) else St 97)"

definition req_case_97 :: "bool \<Rightarrow> int \<Rightarrow> label" where [req_cases]:
  "req_case_97 relaxed c =
     (if c = 58 then St 100
      else if c < 65 then (if 48 \<le> c \<and> c \<le> 57 then St 98 else St 0)
      else if c > 70 then (if 97 \<le> c \<and> c \<le> 102 then St 98 else St 0) else St 98)"

definition req_case_98 :: "bool \<Rightarrow> int \<Rightarrow> label" where [req_cases]:
  "req_case_98 relaxed c =
     (if c = 58 then St 100
      else if c < 65 then (if 48 \<le> c \<and> c \<le> 57 then St 99 else St 0)
      else if c > 70 then (if 97 \<le> c \<and> c \<le> 102 then St 99 else St 0) else St 99)"

definition req_case_99 :: "bool \<Rightarrow> int \<Rightarrow> label" where [req_cases]:
  "req_case_99 relaxed c =
     (if c = 58 then St 100 else St 0)"

definition req_case_100 :: "bool \<Rightarrow> int \<Rightarrow> label" where [req_cases]:
  "req_case_100 relaxed c =
     (if c = 58 then St 165
      else if c < 65 then (if 48 \<le> c \<and> c \<le> 57 then St 101 else St 0)
      else if c > 70 then (if 97 \<le> c \<and> c \<le> 102 then St 101 else St 0) else St 101)"

definition req_case_101 :: "bool \<Rightarrow> int \<Rightarrow> label" where [req_cases]:
  "req_case_101 relaxed c =
     (if c = 58 then St 105
      else if c < 65 then (if 48 \<le> c \<and> c \<le> 57 then St 102 else St 0)
      else if c > 70 then (if 97 \<le> c \<and> c \<le> 102 then St 102 else St 0) else St 102)"

definition req_case_102 :: "bool \<Rightarrow> int \<Rightarrow> label" where [req_cases]:
  "req_case_102 relaxed c =
     (if c = 58 then St 105
      else if c < 65 then (if 48 \<le> c \<and> c \<le> 57 then St 103 else St 0)
      else if c > 70 then (if 97 \<le> c \<and> c \<le> 102 then St 103 else St 0) else St 103)"

definition req_case_103 :: "bool \<Rightarrow> int \<Rightarrow> label" where [req_cases]:
  "req_case_103 relaxed c =
     (if c = 58 then St 105
      else if c < 65 then (if 48 \<le> c \<and> c \<le> 57 then St 104 else St 0)
      else if c > 70 then (if 97 \<le> c \<and> c \<le> 102 then St 104 else St 0) else St 104)"

definition req_case_104 :: "bool \<Rightarrow> int \<Rightarrow> label" where [req_cases]:
  "req_case_104 relaxed c =
     (if c = 58 then St 105 else St 0)"

definition req_case_105 :: "bool \<Rightarrow> int \<Rightarrow> label" where [req_cases]:
  "req_case_105 relaxed c =
     (if c = 58 then St 164
      else if c < 65 then (if 48 \<le> c \<and> c \<le> 57 then St 106 else St 0)
      else if c > 70 then (if 97 \<le> c \<and> c \<le> 102 then St 106 else St 0) else St 106)"

definition req_case_106 :: "bool \<Rightarrow> int \<Rightarrow> label" where [req_cases]:
  "req_case_106 relaxed c =
     (if c = 58 then St 110
      else if c < 65 then (if 48 \<le> c \<and> c \<le> 57 then St 107 else St 0)
      else if c > 70 then (if 97 \<le> c \<and> c \<le> 102 then St 107 else St 0) else St 107)"

definition req_case_107 :: "bool \<Rightarrow> int \<Rightarrow> label" where [req_cases]:
  "req_case_107 relaxed c =
     (if c = 58 then St 110
      else if c < 65 then (if 48 \<le> c \<and> c \<le> 57 then St 108 else St 0)
      else if c > 70 then (if 97 \<le> c \<and> c \<le> 102 then St 108 else St 0) else St 108)"

definition req_case_108 :: "bool \<Rightarrow> int \<Rightarrow> label" where [req_cases]:
  "req_case_108 relaxed c =
     (if c = 58 then St 110
      else if c < 65 then (if 48 \<le> c \<and> c \<le> 57 then St 109 else St 0)
      else if c > 70 then (if 97 \<le> c \<and> c \<le> 102 then St 109 else St 0) else St 109)"

definition req_case_109 :: "bool \<Rightarrow> int \<Rightarrow> label" where [req_cases]:
  "req_case_109 relaxed c =
     (if c = 58 then St 110 else St 0)"

definition req_case_110 :: "bool \<Rightarrow> int \<Rightarrow> label" where [req_cases]:
  "req_case_110 relaxed c =
     (if c = 58 then St 163
      else if c < 65 then (if 48 \<le> c \<and> c \<le> 57 then St 111 else St 0)
      else if c > 70 then (if 97 \<le> c \<and> c \<le> 102 then St 111 else St 0) else St 111)"

definition req_case_111 :: "bool \<Rightarrow> int \<Rightarrow> label" where [req_cases]:
  "req_case_111 relaxed c =
     (if c = 58 then St 115
      else if c < 65 then (if 48 \<le> c \<and> c \<le> 57 then St 112 else St 0)
      else if c > 70 then (if 97 \<le> c \<and> c \<le> 102 then St 112 else St 0) else St 112)"

definition req_case_112 :: "bool \<Rightarrow> int \<Rightarrow> label" where [req_cases]:
  "req_case_112 relaxed c =
     (if c = 58 then St 115
      else if c < 65 then (if 48 \<le> c \<and> c \<le> 57 then St 113 else St 0)
      else if c > 70 then (if 97 \<le> c \<and> c \<le> 102 then St 113 else St 0) else St 113)"

definition req_case_113 :: "bool \<Rightarrow> int \<Rightarrow> label" where [req_cases]:
  "req_case_113 relaxed c =
     (if c = 58 then St 115
      else if c < 65 then (if 48 \<le> c \<and> c \<le> 57 then St 114 else St 0)
      else if c > 70 then (if 97 \<le> c \<and> c \<le> 102 then St 114 else St 0) else St 114)"

definition req_case_114 :: "bool \<Rightarrow> int \<Rightarrow> label" where [req_cases]:
  "req_case_114 relaxed c =
     (if c = 58 then St 115 else St 0)"

definition req_case_115 :: "bool \<Rightarrow> int \<Rightarrow> label" where [req_cases]:
  "req_case_115 relaxed c =
     (if c = 58 then St 151
      else if c < 65 then (if 48 \<le> c \<and> c \<le> 57 then St 116 else St 0)
      else if c > 70 then (if 97 \<le> c \<and> c \<le> 102 then St 116 else St 0) else St 116)"

definition req_case_116 :: "bool \<Rightarrow> int \<Rightarrow> label" where [req_cases]:
  "req_case_116 relaxed c =
     (if c = 58 then St 120
      else if c < 65 then (if 48 \<le> c \<and> c \<le> 57 then St 117 else St 0)
      else if c > 70 then (if 97 \<le> c \<and> c \<le> 102 then St 117 else St 0) else St 117)"

definition req_case_117 :: "bool \<Rightarrow> int \<Rightarrow> label" where [req_cases]:
  "req_case_117 relaxed c =
     (if c = 58 then St 120
      else if c < 65 then (if 48 \<le> c \<and> c \<le> 57 then St 118 else St 0)
      else if c > 70 then (if 97 \<le> c \<and> c \<le> 102 then St 118 else St 0) else St 118)"

definition req_case_118 :: "bool \<Rightarrow> int \<Rightarrow> label" where [req_cases]:
  "req_case_118 relaxed c =
     (if c = 58 then St 120
      else if c < 65 then (if 48 \<le> c \<and> c \<le> 57 then St 119 else St 0)
      else if c > 70 then (if 97 \<le> c \<and> c \<le> 102 then St 119 else St 0) else St 119)"

definition req_case_119 :: "bool \<Rightarrow> int \<Rightarrow> label" where [req_cases]:
  "req_case_119 relaxed c =
     (if c = 58 then St 120 else St 0)"

definition req_case_120 :: "bool \<Rightarrow> int \<Rightarrow> label" where [req_cases]:
  "req_case_120 relaxed c =
     (if c = 58 then St 150
      else if c < 65 then (if 48 \<le> c \<and> c \<le> 57 then St 121 else St 0)
      else if c > 70 then (if 97 \<le> c \<and> c \<le> 102 then St 121 else St 0) else St 121)"

definition req_case_121 :: "bool \<Rightarrow> int \<Rightarrow> label" where [req_cases]:
  "req_case_121 relaxed c =
     (if c = 58 then St 125
      else if c < 65 then (if 48 \<le> c \<and> c \<le> 57 then St 122 else St 0)
      else if c > 70 then (if 97 \<le> c \<and> c \<le> 102 then St 122 else St 0) else St 122)"

definition req_case_122 :: "bool \<Rightarrow> int \<Rightarrow> label" where [req_cases]:
  "req_case_122 relaxed c =
     (if c = 58 then St 125
      else if c < 65 then (if 48 \<le> c \<and> c \<le> 57 then St 123 else St 0)
      else if c > 70 then (if 97 \<le> c \<and> c \<le> 102 then St 123 else St 0) else St 123)"

definition req_case_123 :: "bool \<Rightarrow> int \<Rightarrow> label" where [req_cases]:
  "req_case_123 relaxed c =
     (if c = 58 then St 125
      else if c < 65 then (if 48 \<le> c \<and> c \<le> 57 then St 124 else St 0)
      else if c > 70 then (if 97 \<le> c \<and> c \<le> 102 then St 124 else St 0) else St 124)"

definition req_case_124 :: "bool \<Rightarrow> int \<Rightarrow> label" where [req_cases]:
  "req_case_124 relaxed c =
     (if c = 58 then St 125 else St 0)"

definition req_case_125 :: "bool \<Rightarrow> int \<Rightarrow> label" where [req_cases]:
  "req_case_125 relaxed c =
     (if c = 58 then St 126
      else if c < 65 then (if 48 \<le> c \<and> c \<le> 57 then St 121 else St 0)
      else if c > 70 then (if 97 \<le> c \<and> c \<le> 102 then St 121 else St 0) else St 121)"

definition req_case_126 :: "bool \<Rightarrow> int \<Rightarrow> label" where [req_cases]:
  "req_case_126 relaxed c =
     (if c = 49 then St 143
      else if c = 50 then St 146
      else if c = 93 then St 61
      else if c < 48 then (if 2 \<le> c \<and> c \<le> 3 then St 48 else St 0)
      else if c > 57 then (if c > 70 then (if 97 \<le> c \<and> c \<le> 102 then St 149 else St 0) else if c \<ge> 65 then St 149
        else St 0) else St 127)"

definition req_case_127 :: "bool \<Rightarrow> int \<Rightarrow> label" where [req_cases]:
  "req_case_127 relaxed c =
     (if c = 46 then St 55
      else if c = 58 then St 131
      else if c = 93 then St 61
      else if c < 65 then (if 48 \<le> c \<and> c \<le> 57 then St 128 else St 0)
      else if c > 70 then (if 97 \<le> c \<and> c \<le> 102 then St 128 else St 0) else St 128)"

definition req_case_128 :: "bool \<Rightarrow> int \<Rightarrow> label" where [req_cases]:
  "req_case_128 relaxed c =
     (if c = 58 then St 131
      else if c = 93 then St 61
      else if c < 65 then (if 48 \<le> c \<and> c \<le> 57 then St 129 else St 0)
      else if c > 70 then (if 97 \<le> c \<and> c \<le> 102 then St 129 else St 0) else St 129)"

definition req_case_129 :: "bool \<Rightarrow> int \<Rightarrow> label" where [req_cases]:
  "req_case_129 relaxed c =
     (if c = 58 then St 131
      else if c = 93 then St 61
      else if c < 65 then (if 48 \<le> c \<and> c \<le> 57 then St 130 else St 0)
      else if c > 70 then (if 97 \<le> c \<and> c \<le> 102 then St 130 else St 0) else St 130)"

definition req_case_130 :: "bool \<Rightarrow> int \<Rightarrow> label" where [req_cases]:
  "req_case_130 relaxed c =
     (if c = 58 then St 131
      else if c = 93 then St 61 else St 0)"

definition req_case_131 :: "bool \<Rightarrow> int \<Rightarrow> label" where [req_cases]:
  "req_case_131 relaxed c =
     (if c = 49 then St 136
      else if c = 50 then St 139
      else if c < 65 then (if 48 \<le> c \<and> c \<le> 57 then St 132 else St 0)
      else if c > 70 then (if 97 \<le> c \<and> c \<le> 102 then St 142 else St 0) else St 142)"

definition req_case_132 :: "bool \<Rightarrow> int \<Rightarrow> label" where [req_cases]:
  "req_case_132 relaxed c =
     (if c = 46 then St 55
      else if c = 58 then St 80
      else if c = 93 then St 61
      else if c < 65 then (if 48 \<le> c \<and> c \<le> 57 then St 133 else St 0)
      else if c > 70 then (if 97 \<le> c \<and> c \<le> 102 then St 133 else St 0) else St 133)"

definition req_case_133 :: "bool \<Rightarrow> int \<Rightarrow> label" where [req_cases]:
  "req_case_133 relaxed c =
     (if c = 58 then St 80
      else if c = 93 then St 61
      else if c < 65 then (if 48 \<le> c \<and> c \<le> 57 then St 134 else St 0)
      else if c > 70 then (if 97 \<le> c \<and> c \<le> 102 then St 134 else St 0) else St 134)"

definition req_case_134 :: "bool \<Rightarrow> int \<Rightarrow> label" where [req_cases]:
  "req_case_134 relaxed c =
     (if c = 58 then St 80
      else if c = 93 then St 61
      else if c < 65 then (if 48 \<le> c \<and> c \<le> 57 then St 135 else St 0)
      else if c > 70 then (if 97 \<le> c \<and> c \<le> 102 then St 135 else St 0) else St 135)"

definition req_case_135 :: "bool \<Rightarrow> int \<Rightarrow> label" where [req_cases]:
  "req_case_135 relaxed c =
     (if c = 58 then St 80
      else if c = 93 then St 61 else St 0)"

definition req_case_136 :: "bool \<Rightarrow> int \<Rightarrow> label" where [req_cases]:
  "req_case_136 relaxed c =
     (if c = 46 then St 55
      else if c = 58 then St 80
      else if c = 93 then St 61
      else if c < 65 then (if 48 \<le> c \<and> c \<le> 57 then St 137 else St 0)
      else if c > 70 then (if 97 \<le> c \<and> c \<le> 102 then St 133 else St 0) else St 133)"

definition req_case_137 :: "bool \<Rightarrow> int \<Rightarrow> label" where [req_cases]:
  "req_case_137 relaxed c =
     (if c = 46 then St 55
      else if c = 58 then St 80
      else if c = 93 then St 61
      else if c < 65 then (if 48 \<le> c \<and> c \<le> 57 then St 138 else St 0)
      else if c > 70 then (if 97 \<le> c \<and> c \<le> 102 then St 134 else St 0) else St 134)"

definition req_case_138 :: "bool \<Rightarrow> int \<Rightarrow> label" where [req_cases]:
  "req_case_138 relaxed c =
     (if c = 46 then St 55
      else if c = 58 then St 80
      else if c = 93 then St 61
      else if c < 65 then (if 48 \<le> c \<and> c \<le> 57 then St 135 else St 0)
      else if c > 70 then (if 97 \<le> c \<and> c \<le> 102 then St 135 else St 0) else St 135)"

definition req_case_139 :: "bool \<Rightarrow> int \<Rightarrow> label" where [req_cases]:
  "req_case_139 relaxed c =
     (if c = 46 then St 55
      else if c = 48 then St 140
      else if c = 53 then St 141
      else if c = 58 then St 80
      else if c = 93 then St 61
      else if c < 65 then (if 49 \<le> c \<and> c \<le> 57 then St 133 else St 0)
      else if c > 70 then (if 97 \<le> c \<and> c \<le> 102 then St 133 else St 0) else St 133)"

definition req_case_140 :: "bool \<Rightarrow> int \<Rightarrow> label" where [req_cases]:
  "req_case_140 relaxed c =
     (if c = 58 then St 80
      else if c = 93 then St 61
      else if c < 65 then (if 48 \<le> c \<and> c \<le> 57 then St 138 else St 0)
      else if c > 70 then (if 97 \<le> c \<and> c \<le> 102 then St 134 else St 0) else St 134)"

definition req_case_141 :: "bool \<Rightarrow> int \<Rightarrow> label" where [req_cases]:
  "req_case_141 relaxed c =
     (if c = 48 then St 138
      else if c = 58 then St 80
      else if c = 93 then St 61
      else if c < 65 then (if 49 \<le> c \<and> c \<le> 57 then St 134 else St 0)
      else if c > 70 then (if 97 \<le> c \<and> c \<le> 102 then St 134 else St 0) else St 134)"

definition req_case_142 :: "bool \<Rightarrow> int \<Rightarrow> label" where [req_cases]:
  "req_case_142 relaxed c =
     (if c = 58 then St 80
      else if c = 93 then St 61
      else if c < 65 then (if 48 \<le> c \<and> c \<le> 57 then St 133 else St 0)
      else if c > 70 then (if 97 \<le> c \<and> c \<le> 102 then St 133 else St 0) else St 133)"

definition req_case_143 :: "bool \<Rightarrow> int \<Rightarrow> label" where [req_cases]:
  "req_case_143 relaxed c =
     (if c = 46 then St 55
      else if c = 58 then St 131
      else if c = 93 then St 61
      else if c < 65 then (if 48 \<le> c \<and> c \<le> 57 then St 144 else St 0)
      else if c > 70 then (if 97 \<le> c \<and> c \<le> 102 then St 128 else St 0) else St 128)"

definition req_case_144 :: "bool \<Rightarrow> int \<Rightarrow> label" where [req_cases]:
  "req_case_144 relaxed c =
     (if c = 46 then St 55
      else if c = 58 then St 131
      else if c = 93 then St 61
      else if c < 65 then (if 48 \<le> c \<and> c \<le> 57 then St 145 else St 0)
      else if c > 70 then (if 97 \<le> c \<and> c \<le> 102 then St 129 else St 0) else St 129)"

definition req_case_145 :: "bool \<Rightarrow> int \<Rightarrow> label" where [req_cases]:
  "req_case_145 relaxed c =
     (if c = 46 then St 55
      else if c = 58 then St 131
      else if c = 93 then St 61
      else if c < 65 then (if 48 \<le> c \<and> c \<le> 57 then St 130 else St 0)
      else if c > 70 then (if 97 \<le> c \<and> c \<le> 102 then St 130 else St 0) else St 130)"

definition req_case_146 :: "bool \<Rightarrow> int \<Rightarrow> label" where [req_cases]:
  "req_case_146 relaxed c =
     (if c = 46 then St 55
      else if c = 48 then St 147
      else if c = 53 then St 148
      else if c = 58 then St 131
      else if c = 93 then St 61
      else if c < 65 then (if 49 \<le> c \<and> c \<le> 57 then St 128 else St 0)
      else if c > 70 then (if 97 \<le> c \<and> c \<le> 102 then St 128 else St 0) else St 128)"

definition req_case_147 :: "bool \<Rightarrow> int \<Rightarrow> label" where [req_cases]:
  "req_case_147 relaxed c =
     (if c = 58 then St 131
      else if c = 93 then St 61
      else if c < 65 then (if 48 \<le> c \<and> c \<le> 57 then St 145 else St 0)
      else if c > 70 then (if 97 \<le> c \<and> c \<le> 102 then St 129 else St 0) else St 129)"

definition req_case_148 :: "bool \<Rightarrow> int \<Rightarrow> label" where [req_cases]:
  "req_case_148 relaxed c =
     (if c = 48 then St 145
      else if c = 58 then St 131
      else if c = 93 then St 61
      else if c < 65 then (if 49 \<le> c \<and> c \<le> 57 then St 129 else St 0)
      else if c > 70 then (if 97 \<le> c \<and> c \<le> 102 then St 129 else St 0) else St 129)"

definition req_case_149 :: "bool \<Rightarrow> int \<Rightarrow> label" where [req_cases]:
  "req_case_149 relaxed c =
     (if c = 58 then St 131
      else if c = 93 then St 61
      else if c < 65 then (if 48 \<le> c \<and> c \<le> 57 then St 128 else St 0)
      else if c > 70 then (if 97 \<le> c \<and> c \<le> 102 then St 128 else St 0) else St 128)"

definition req_case_150 :: "bool \<Rightarrow> int \<Rightarrow> label" where [req_cases]:
  "req_case_150 relaxed c =
     (if c = 49 then St 143
      else if c = 50 then St 146
      else if c < 48 then (if 2 \<le> c \<and> c \<le> 3 then St 48 else St 0)
      else if c > 57 then (if c > 70 then (if 97 \<le> c \<and> c \<le> 102 then St 149 else St 0) else if c \<ge> 65 then St 149
        else St 0) else St 127)"

definition req_case_151 :: "bool \<Rightarrow> int \<Rightarrow> label" where [req_cases]:
  "req_case_151 relaxed c =
     (if c = 49 then St 156
      else if c = 50 then St 159
      else if c < 48 then (if 2 \<le> c \<and> c \<le> 3 then St 48 else St 0)
      else if c > 57 then (if c > 70 then (if 97 \<le> c \<and> c \<le> 102 then St 162 else St 0) else if c \<ge> 65 then St 162
        else St 0) else St 152)"

definition req_case_152 :: "bool \<Rightarrow> int \<Rightarrow> label" where [req_cases]:
  "req_case_152 relaxed c =
     (if c = 46 then St 55
      else if c = 58 then St 131
      else if c < 65 then (if 48 \<le> c \<and> c \<le> 57 then St 153 else St 0)
      else if c > 70 then (if 97 \<le> c \<and> c \<le> 102 then St 153 else St 0) else St 153)"

definition req_case_153 :: "bool \<Rightarrow> int \<Rightarrow> label" where [req_cases]:
  "req_case_153 relaxed c =
     (if c = 58 then St 131
      else if c < 65 then (if 48 \<le> c \<and> c \<le> 57 then St 154 else St 0)
      else if c > 70 then (if 97 \<le> c \<and> c \<le> 102 then St 154 else St 0) else St 154)"

definition req_case_154 :: "bool \<Rightarrow> int \<Rightarrow> label" where [req_cases]:
  "req_case_154 relaxed c =
     (if c = 58 then St 131
      else if c < 65 then (if 48 \<le> c \<and> c \<le> 57 then St 155 else St 0)
      else if c > 70 then (if 97 \<le> c \<and> c \<le> 102 then St 155 else St 0) else St 155)"

definition req_case_155 :: "bool \<Rightarrow> int \<Rightarrow> label" where [req_cases]:
  "req_case_155 relaxed c =
     (if c = 58 then St 131 else St 0)"

definition req_case_156 :: "bool \<Rightarrow> int \<Rightarrow> label" where [req_cases]:
  "req_case_156 relaxed c =
     (if c = 46 then St 55
      else if c = 58 then St 131
      else if c < 65 then (if 48 \<le> c \<and> c \<le> 57 then St 157 else St 0)
      else if c > 70 then (if 97 \<le> c \<and> c \<le> 102 then St 153 else St 0) else St 153)"

definition req_case_157 :: "bool \<Rightarrow> int \<Rightarrow> label" where [req_cases]:
  "req_case_157 relaxed c =
     (if c = 46 then St 55
      else if c = 58 then St 131
      else if c < 65 then (if 48 \<le> c \<and> c \<le> 57 then St 158 else St 0)
      else if c > 70 then (if 97 \<le> c \<and> c \<le> 102 then St 154 else St 0) else St 154)"

definition req_case_158 :: "bool \<Rightarrow> int \<Rightarrow> label" where [req_cases]:
  "req_case_158 relaxed c =
     (if c = 46 then St 55
      else if c = 58 then St 131
      else if c < 65 then (if 48 \<le> c \<and> c \<le> 57 then St 155 else St 0)
      else if c > 70 then (if 97 \<le> c \<and> c \<le> 102 then St 155 else St 0) else St 155)"

definition req_case_159 :: "bool \<Rightarrow> int \<Rightarrow> label" where [req_cases]:
  "req_case_159 relaxed c =
     (if c = 46 then St 55
      else if c = 48 then St 160
      else if c = 53 then St 161
      else if c = 58 then St 131
      else if c < 65 then (if 49 \<le> c \<and> c \<le> 57 then St 153 else St 0)
      else if c > 70 then (if 97 \<le> c \<and> c \<le> 102 then St 153 else St 0) else St 153)"

definition req_case_160 :: "bool \<Rightarrow> int \<Rightarrow> label" where [req_cases]:
  "req_case_160 relaxed c =
     (if c = 58 then St 131
      else if c < 65 then (if 48 \<le> c \<and> c \<le> 57 then St 158 else St 0)
      else if c > 70 then (if 97 \<le> c \<and> c \<le> 102 then St 154 else St 0) else St 154)"

definition req_case_161 :: "bool \<Rightarrow> int \<Rightarrow> label" where [req_cases]:
  "req_case_161 relaxed c =
     (if c = 48 then St 158
      else if c = 58 then St 131
      else if c < 65 then (if 49 \<le> c \<and> c \<le> 57 then St 154 else St 0)
      else if c > 70 then (if 97 \<le> c \<and> c \<le> 102 then St 154 else St 0) else St 154)"

definition req_case_162 :: "bool \<Rightarrow> int \<Rightarrow> label" where [req_cases]:
  "req_case_162 relaxed c =
     (if c = 58 then St 131
      else if c < 65 then (if 48 \<le> c \<and> c \<le> 57 then St 153 else St 0)
      else if c > 70 then (if 97 \<le> c \<and> c \<le> 102 then St 153 else St 0) else St 153)"

definition req_case_163 :: "bool \<Rightarrow> int \<Rightarrow> label" where [req_cases]:
  "req_case_163 relaxed c =
     (if c < 48 then (if 2 \<le> c \<and> c \<le> 3 then St 48 else St 0)
      else if c > 57 then (if c > 70 then (if 97 \<le> c \<and> c \<le> 102 then St 49 else St 0) else if c \<ge> 65 then St 49
        else St 0) else St 49)"

definition req_case_164 :: "bool \<Rightarrow> int \<Rightarrow> label" where [req_cases]:
  "req_case_164 relaxed c =
     (if 2 \<le> c \<and> c \<le> 3 then St 48 else St 0)"

definition req_case_165 :: "bool \<Rightarrow> int \<Rightarrow> label" where [req_cases]:
  "req_case_165 relaxed c =
     (if c = 3 then St 48 else St 0)"

definition req_case_166 :: "bool \<Rightarrow> int \<Rightarrow> label" where [req_cases]:
  "req_case_166 relaxed c =
     (if c = 4 then St 48 else St 0)"

definition req_case_167 :: "bool \<Rightarrow> int \<Rightarrow> label" where [req_cases]:
  "req_case_167 relaxed c =
     (if c = 58 then St 168 else St 0)"

definition req_case_168 :: "bool \<Rightarrow> int \<Rightarrow> label" where [req_cases]:
  "req_case_168 relaxed c =
     (if c = 49 then St 143
      else if c = 50 then St 146
      else if c = 93 then St 61
      else if c < 48 then (if 2 \<le> c \<and> c \<le> 5 then St 48 else St 0)
      else if c > 57 then (if c > 70 then (if 97 \<le> c \<and> c \<le> 102 then St 149 else St 0) else if c \<ge> 65 then St 149
        else St 0) else St 127)"

definition req_case_169 :: "bool \<Rightarrow> int \<Rightarrow> label" where [req_cases]:
  "req_case_169 relaxed c =
     (if c < 65 then (if 48 \<le> c \<and> c \<le> 57 then St 170 else St 0)
      else if c > 70 then (if 97 \<le> c \<and> c \<le> 102 then St 170 else St 0) else St 170)"

definition req_case_170 :: "bool \<Rightarrow> int \<Rightarrow> label" where [req_cases]:
  "req_case_170 relaxed c =
     (if c = 46 then St 171
      else if c < 65 then (if 48 \<le> c \<and> c \<le> 57 then St 170 else St 0)
      else if c > 70 then (if 97 \<le> c \<and> c \<le> 102 then St 170 else St 0) else St 170)"

definition req_case_171 :: "bool \<Rightarrow> int \<Rightarrow> label" where [req_cases]:
  "req_case_171 relaxed c =
     (let w = widec relaxed c
      in if w = 33 \<or> w = 36 \<or> w = 61 \<or> w = 95 \<or> w = 126 \<or> w = 606 \<or> w = 635 \<or> w = 637 then St 172
         else if w < 48 then (if 38 \<le> w \<and> w \<le> 46 then St 172 else St 0)
         else if w > 59 then (if w > 90 then (if 97 \<le> w \<and> w \<le> 122 then St 172 else St 0) else if w \<ge> 65 then St
           172 else St 0) else St 172)"

definition req_case_172 :: "bool \<Rightarrow> int \<Rightarrow> label" where [req_cases]:
  "req_case_172 relaxed c =
     (let w = widec relaxed c
      in if w = 33 \<or> w = 36 \<or> w = 61 then St 172
         else if w = 93 then St 61
         else if w = 95 \<or> w = 126 \<or> w = 606 \<or> w = 635 \<or> w = 637 then St 172
         else if w < 48 then (if 38 \<le> w \<and> w \<le> 46 then St 172 else St 0)
         else if w > 59 then (if w > 90 then (if 97 \<le> w \<and> w \<le> 122 then St 172 else St 0) else if w \<ge> 65 then St
           172 else St 0) else St 172)"

definition req_tr_12 :: "req_action list \<times> nat" where
  "req_tr_12 = ([Q_Mark], 173)"

definition req_case_173 :: "bool \<Rightarrow> int \<Rightarrow> label" where [req_cases]:
  "req_case_173 relaxed c =
     (let w = widec relaxed c
      in if w = 32 then Tr 37
         else if w = 33 then St 19
         else if w = 35 then Tr 39
         else if w = 37 then St 24
         else if w = 43 then St 173
         else if w = 47 then St 26
         else if w = 58 then St 174
         else if w = 59 \<or> w = 61 then St 19
         else if w = 63 then Tr 42
         else if w = 64 \<or> w = 95 \<or> w = 126 \<or> w = 606 \<or> w = 635 \<or> w = 637 then St 19
         else if w < 45 then (if 36 \<le> w \<and> w \<le> 44 then St 19 else St 0)
         else if w > 57 then (if w > 90 then (if 97 \<le> w \<and> w \<le> 122 then St 173 else St 0) else if w \<ge> 65 then St
           173 else St 0) else St 173)"

definition req_case_174 :: "bool \<Rightarrow> int \<Rightarrow> label" where [req_cases]:
  "req_case_174 relaxed c =
     (let w = widec relaxed c
      in if w = 32 then Tr 6
         else if w = 33 then Tr 203
         else if w = 35 then Tr 8
         else if w = 37 then Tr 204
         else if w = 47 then Tr 10
         else if w = 61 then Tr 203
         else if w = 63 then Tr 11
         else if w = 95 \<or> w = 126 \<or> w = 606 \<or> w = 635 \<or> w = 637 then Tr 203
         else if w < 36 then (if w \<le> (- 1) then Tr 203 else St 0)
         else if w > 59 then (if w > 90 then (if 97 \<le> w \<and> w \<le> 122 then Tr 203 else St 0) else if w \<ge> 64 then Tr
           203 else St 0) else Tr 203)"

definition req_case_175 :: "bool \<Rightarrow> int \<Rightarrow> label" where [req_cases]:
  "req_case_175 relaxed c =
     (if c = 32 then Tr 4
      else if c > 57 then (if 65 \<le> c \<and> c \<le> 90 then St 176 else St 0)
      else if c \<ge> 48 then St 176 else St 0)"

definition req_case_176 :: "bool \<Rightarrow> int \<Rightarrow> label" where [req_cases]:
  "req_case_176 relaxed c =
     (if c = 32 then Tr 4
      else if c > 57 then (if 65 \<le> c \<and> c \<le> 90 then St 177 else St 0)
      else if c \<ge> 48 then St 177 else St 0)"

definition req_case_177 :: "bool \<Rightarrow> int \<Rightarrow> label" where [req_cases]:
  "req_case_177 relaxed c =
     (if c = 32 then Tr 4
      else if c > 57 then (if 65 \<le> c \<and> c \<le> 90 then St 178 else St 0)
      else if c \<ge> 48 then St 178 else St 0)"

definition req_case_178 :: "bool \<Rightarrow> int \<Rightarrow> label" where [req_cases]:
  "req_case_178 relaxed c =
     (if c = 32 then Tr 4
      else if c > 57 then (if 65 \<le> c \<and> c \<le> 90 then St 179 else St 0)
      else if c \<ge> 48 then St 179 else St 0)"

definition req_case_179 :: "bool \<Rightarrow> int \<Rightarrow> label" where [req_cases]:
  "req_case_179 relaxed c =
     (if c = 32 then Tr 4
      else if c > 57 then (if 65 \<le> c \<and> c \<le> 90 then St 180 else St 0)
      else if c \<ge> 48 then St 180 else St 0)"

definition req_case_180 :: "bool \<Rightarrow> int \<Rightarrow> label" where [req_cases]:
  "req_case_180 relaxed c =
     (if c = 32 then Tr 4
      else if c > 57 then (if 65 \<le> c \<and> c \<le> 90 then St 181 else St 0)
      else if c \<ge> 48 then St 181 else St 0)"

definition req_case_181 :: "bool \<Rightarrow> int \<Rightarrow> label" where [req_cases]:
  "req_case_181 relaxed c =
     (if c = 32 then Tr 4
      else if c > 57 then (if 65 \<le> c \<and> c \<le> 90 then St 182 else St 0)
      else if c \<ge> 48 then St 182 else St 0)"

definition req_case_182 :: "bool \<Rightarrow> int \<Rightarrow> label" where [req_cases]:
  "req_case_182 relaxed c =
     (if c = 32 then Tr 4
      else if c > 57 then (if 65 \<le> c \<and> c \<le> 90 then St 183 else St 0)
      else if c \<ge> 48 then St 183 else St 0)"

definition req_case_183 :: "bool \<Rightarrow> int \<Rightarrow> label" where [req_cases]:
  "req_case_183 relaxed c =
     (if c = 32 then Tr 4
      else if c > 57 then (if 65 \<le> c \<and> c \<le> 90 then St 184 else St 0)
      else if c \<ge> 48 then St 184 else St 0)"

definition req_case_184 :: "bool \<Rightarrow> int \<Rightarrow> label" where [req_cases]:
  "req_case_184 relaxed c =
     (if c = 32 then Tr 4
      else if c > 57 then (if 65 \<le> c \<and> c \<le> 90 then St 185 else St 0)
      else if c \<ge> 48 then St 185 else St 0)"

definition req_case_185 :: "bool \<Rightarrow> int \<Rightarrow> label" where [req_cases]:
  "req_case_185 relaxed c =
     (if c = 32 then Tr 4
      else if c > 57 then (if 65 \<le> c \<and> c \<le> 90 then St 186 else St 0)
      else if c \<ge> 48 then St 186 else St 0)"

definition req_case_186 :: "bool \<Rightarrow> int \<Rightarrow> label" where [req_cases]:
  "req_case_186 relaxed c =
     (if c = 32 then Tr 4
      else if c > 57 then (if 65 \<le> c \<and> c \<le> 90 then St 187 else St 0)
      else if c \<ge> 48 then St 187 else St 0)"

definition req_case_187 :: "bool \<Rightarrow> int \<Rightarrow> label" where [req_cases]:
  "req_case_187 relaxed c =
     (if c = 32 then Tr 4
      else if c > 57 then (if 65 \<le> c \<and> c \<le> 90 then St 188 else St 0)
      else if c \<ge> 48 then St 188 else St 0)"

definition req_case_188 :: "bool \<Rightarrow> int \<Rightarrow> label" where [req_cases]:
  "req_case_188 relaxed c =
     (if c = 32 then Tr 4
      else if c > 57 then (if 65 \<le> c \<and> c \<le> 90 then St 189 else St 0)
      else if c \<ge> 48 then St 189 else St 0)"

definition req_case_189 :: "bool \<Rightarrow> int \<Rightarrow> label" where [req_cases]:
  "req_case_189 relaxed c =
     (if c = 32 then Tr 4
      else if c > 57 then (if 65 \<le> c \<and> c \<le> 90 then St 190 else St 0)
      else if c \<ge> 48 then St 190 else St 0)"

definition req_case_190 :: "bool \<Rightarrow> int \<Rightarrow> label" where [req_cases]:
  "req_case_190 relaxed c =
     (if c = 32 then Tr 4
      else if c > 57 then (if 65 \<le> c \<and> c \<le> 90 then St 191 else St 0)
      else if c \<ge> 48 then St 191 else St 0)"

definition req_case_191 :: "bool \<Rightarrow> int \<Rightarrow> label" where [req_cases]:
  "req_case_191 relaxed c =
     (if c = 32 then Tr 4
      else if c > 57 then (if 65 \<le> c \<and> c \<le> 90 then St 192 else St 0)
      else if c \<ge> 48 then St 192 else St 0)"

definition req_case_192 :: "bool \<Rightarrow> int \<Rightarrow> label" where [req_cases]:
  "req_case_192 relaxed c =
     (if c = 32 then Tr 4
      else if c > 57 then (if 65 \<le> c \<and> c \<le> 90 then St 193 else St 0)
      else if c \<ge> 48 then St 193 else St 0)"

definition req_case_193 :: "bool \<Rightarrow> int \<Rightarrow> label" where [req_cases]:
  "req_case_193 relaxed c =
     (if c = 32 then Tr 4 else St 0)"

definition req_tr_2 :: "req_action list \<times> nat" where
  "req_tr_2 = ([Q_Mark], 194)"

definition req_case_194 :: "bool \<Rightarrow> int \<Rightarrow> label" where [req_cases]:
  "req_case_194 relaxed c =
     (if c < 48 then (if 45 \<le> c \<and> c \<le> 46 then St 195 else St 0)
      else if c > 57 then (if c > 90 then (if 97 \<le> c \<and> c \<le> 122 then St 195 else St 0) else if c \<ge> 65 then St 195
        else St 0) else St 195)"

definition req_case_195 :: "bool \<Rightarrow> int \<Rightarrow> label" where [req_cases]:
  "req_case_195 relaxed c =
     (if c = 32 \<or> c = 47 \<or> c = 62 then Tr 224
      else if c < 45 then (if 9 \<le> c \<and> c \<le> 13 then Tr 224 else St 0)
      else if c > 57 then (if c > 90 then (if 97 \<le> c \<and> c \<le> 122 then St 195 else St 0) else if c \<ge> 65 then St 195
        else St 0) else St 195)"

definition req_tr_224 :: "req_action list \<times> nat" where
  "req_tr_224 = ([Q_Request_Path], 196)"

definition req_case_196 :: "bool \<Rightarrow> int \<Rightarrow> label" where [req_cases]:
  "req_case_196 relaxed c =
     (if c = 62 then St 197 else St 196)"

definition req_case_197 :: "bool \<Rightarrow> int \<Rightarrow> label" where [req_cases]:
  "req_case_197 relaxed c =
     (if c = 0 then Tr 227
      else if c = 62 then St 197 else St 196)"

definition req_tr_227 :: "req_action list \<times> nat" where
  "req_tr_227 = ([Q_Xml, Q_Done], 349)"

definition req_tr_235 :: "req_action list \<times> nat" where
  "req_tr_235 = ([Q_Json, Q_Done], 349)"

definition req_case_349 :: "bool \<Rightarrow> int \<Rightarrow> label" where [req_cases]:
  "req_case_349 relaxed c =
     (St 0)"

definition req_tr_3 :: "req_action list \<times> nat" where
  "req_tr_3 = ([Q_Mark], 198)"

definition req_case_198 :: "bool \<Rightarrow> int \<Rightarrow> label" where [req_cases]:
  "req_case_198 relaxed c =
     (let w = widec relaxed c
      in if w = 32 then Tr 228
         else if w = 33 then St 202
         else if w = 37 then St 203
         else if w = 47 then St 208
         else if w = 59 \<or> w = 61 \<or> w = 95 \<or> w = 126 \<or> w = 606 \<or> w = 635 \<or> w = 637 then St 202
         else if w < 64 then (if 36 \<le> w \<and> w \<le> 57 then St 202 else St 0)
         else if w > 90 then (if 97 \<le> w \<and> w \<le> 122 then St 202 else St 0) else St 202)"

definition req_tr_228 :: "req_action list \<times> nat" where
  "req_tr_228 = ([Q_Request_Path], 199)"

definition req_case_199 :: "bool \<Rightarrow> int \<Rightarrow> label" where [req_cases]:
  "req_case_199 relaxed c =
     (if c = 123 then Tr 232 else St 0)"

definition req_tr_232 :: "req_action list \<times> nat" where
  "req_tr_232 = ([Q_Mark], 200)"

definition req_case_200 :: "bool \<Rightarrow> int \<Rightarrow> label" where [req_cases]:
  "req_case_200 relaxed c =
     (if c = 125 then St 201 else St 200)"

definition req_case_201 :: "bool \<Rightarrow> int \<Rightarrow> label" where [req_cases]:
  "req_case_201 relaxed c =
     (if c = 0 then Tr 235
      else if c = 125 then St 201 else St 200)"

definition req_case_202 :: "bool \<Rightarrow> int \<Rightarrow> label" where [req_cases]:
  "req_case_202 relaxed c =
     (let w = widec relaxed c
      in if w = 32 then Tr 228
         else if w = 33 then St 202
         else if w = 37 then St 203
         else if w = 47 then St 205
         else if w = 59 \<or> w = 61 \<or> w = 95 \<or> w = 126 \<or> w = 606 \<or> w = 635 \<or> w = 637 then St 202
         else if w < 64 then (if 36 \<le> w \<and> w \<le> 57 then St 202 else St 0)
         else if w > 90 then (if 97 \<le> w \<and> w \<le> 122 then St 202 else St 0) else St 202)"

definition req_case_203 :: "bool \<Rightarrow> int \<Rightarrow> label" where [req_cases]:
  "req_case_203 relaxed c =
     (if c < 65 then (if 48 \<le> c \<and> c \<le> 57 then St 204 else St 0)
      else if c > 70 then (if 97 \<le> c \<and> c \<le> 102 then St 204 else St 0) else St 204)"

definition req_case_204 :: "bool \<Rightarrow> int \<Rightarrow> label" where [req_cases]:
  "req_case_204 relaxed c =
     (if c < 65 then (if 48 \<le> c \<and> c \<le> 57 then St 202 else St 0)
      else if c > 70 then (if 97 \<le> c \<and> c \<le> 102 then St 202 else St 0) else St 202)"

definition req_case_205 :: "bool \<Rightarrow> int \<Rightarrow> label" where [req_cases]:
  "req_case_205 relaxed c =
     (let w = widec relaxed c
      in if w = 32 then Tr 228
         else if w = 33 then St 205
         else if w = 37 then St 206
         else if w = 61 \<or> w = 95 \<or> w = 126 \<or> w = 606 \<or> w = 635 \<or> w = 637 then St 205
         else if w < 36 then (if w \<le> (- 1) then St 205 else St 0)
         else if w > 59 then (if w > 90 then (if 97 \<le> w \<and> w \<le> 122 then St 205 else St 0) else if w \<ge> 64 then St
           205 else St 0) else St 205)"

definition req_case_206 :: "bool \<Rightarrow> int \<Rightarrow> label" where [req_cases]:
  "req_case_206 relaxed c =
     (if c < 65 then (if 48 \<le> c \<and> c \<le> 57 then St 207 else St 0)
      else if c > 70 then (if 97 \<le> c \<and> c \<le> 102 then St 207 else St 0) else St 207)"

definition req_case_207 :: "bool \<Rightarrow> int \<Rightarrow> label" where [req_cases]:
  "req_case_207 relaxed c =
     (if c < 65 then (if 48 \<le> c \<and> c \<le> 57 then St 205 else St 0)
      else if c > 70 then (if 97 \<le> c \<and> c \<le> 102 then St 205 else St 0) else St 205)"

definition req_case_208 :: "bool \<Rightarrow> int \<Rightarrow> label" where [req_cases]:
  "req_case_208 relaxed c =
     (let w = widec relaxed c
      in if w = 32 then Tr 228
         else if w = 33 then St 205
         else if w = 37 then St 206
         else if w = 47 then St 209
         else if w = 61 \<or> w = 95 \<or> w = 126 \<or> w = 606 \<or> w = 635 \<or> w = 637 then St 205
         else if w < 36 then (if w \<le> (- 1) then St 205 else St 0)
         else if w > 59 then (if w > 90 then (if 97 \<le> w \<and> w \<le> 122 then St 205 else St 0) else if w \<ge> 64 then St
           205 else St 0) else St 205)"

definition req_case_209 :: "bool \<Rightarrow> int \<Rightarrow> label" where [req_cases]:
  "req_case_209 relaxed c =
     (let w = widec relaxed c
      in if w = 32 then Tr 228
         else if w = 33 then St 210
         else if w = 37 then St 211
         else if w = 47 then St 205
         else if w = 58 then St 213
         else if w = 61 then St 210
         else if w = 64 then St 217
         else if w = 91 then St 222
         else if w = 95 \<or> w = 126 \<or> w = 606 \<or> w = 635 \<or> w = 637 then St 210
         else if w < 65 then (if 36 \<le> w \<and> w \<le> 59 then St 210 else St 0)
         else if w > 90 then (if 97 \<le> w \<and> w \<le> 122 then St 210 else St 0) else St 210)"

definition req_case_210 :: "bool \<Rightarrow> int \<Rightarrow> label" where [req_cases]:
  "req_case_210 relaxed c =
     (let w = widec relaxed c
      in if w = 32 then Tr 228
         else if w = 33 then St 210
         else if w = 37 then St 211
         else if w = 47 then St 205
         else if w = 58 then St 213
         else if w = 61 then St 210
         else if w = 64 then St 217
         else if w = 95 \<or> w = 126 \<or> w = 606 \<or> w = 635 \<or> w = 637 then St 210
         else if w < 65 then (if 36 \<le> w \<and> w \<le> 59 then St 210 else St 0)
         else if w > 90 then (if 97 \<le> w \<and> w \<le> 122 then St 210 else St 0) else St 210)"

definition req_case_211 :: "bool \<Rightarrow> int \<Rightarrow> label" where [req_cases]:
  "req_case_211 relaxed c =
     (if c < 65 then (if 48 \<le> c \<and> c \<le> 57 then St 212 else St 0)
      else if c > 70 then (if 97 \<le> c \<and> c \<le> 102 then St 212 else St 0) else St 212)"

definition req_case_212 :: "bool \<Rightarrow> int \<Rightarrow> label" where [req_cases]:
  "req_case_212 relaxed c =
     (if c < 65 then (if 48 \<le> c \<and> c \<le> 57 then St 210 else St 0)
      else if c > 70 then (if 97 \<le> c \<and> c \<le> 102 then St 210 else St 0) else St 210)"

definition req_case_213 :: "bool \<Rightarrow> int \<Rightarrow> label" where [req_cases]:
  "req_case_213 relaxed c =
     (let w = widec relaxed c
      in if w = 32 then Tr 228
         else if w = 33 then St 214
         else if w = 37 then St 215
         else if w = 47 then St 205
         else if w = 61 then St 214
         else if w = 64 then St 217
         else if w = 95 \<or> w = 126 \<or> w = 606 \<or> w = 635 \<or> w = 637 then St 214
         else if w < 58 then (if w > 46 then (if 48 \<le> w \<and> w \<le> 57 then St 213 else St 0) else if w \<ge> 36 then St
           214 else St 0)
         else if w > 59 then (if w > 90 then (if 97 \<le> w \<and> w \<le> 122 then St 214 else St 0) else if w \<ge> 65 then St
           214 else St 0) else St 214)"

definition req_case_214 :: "bool \<Rightarrow> int \<Rightarrow> label" where [req_cases]:
  "req_case_214 relaxed c =
     (let w = widec relaxed c
      in if w = 33 then St 214
         else if w = 37 then St 215
         else if w = 61 then St 214
         else if w = 64 then St 217
         else if w = 95 \<or> w = 126 \<or> w = 606 \<or> w = 635 \<or> w = 637 then St 214
         else if w < 48 then (if 36 \<le> w \<and> w \<le> 46 then St 214 else St 0)
         else if w > 59 then (if w > 90 then (if 97 \<le> w \<and> w \<le> 122 then St 214 else St 0) else if w \<ge> 65 then St
           214 else St 0) else St 214)"

definition req_case_215 :: "bool \<Rightarrow> int \<Rightarrow> label" where [req_cases]:
  "req_case_215 relaxed c =
     (if c < 65 then (if 48 \<le> c \<and> c \<le> 57 then St 216 else St 0)
      else if c > 70 then (if 97 \<le> c \<and> c \<le> 102 then St 216 else St 0) else St 216)"

definition req_case_216 :: "bool \<Rightarrow> int \<Rightarrow> label" where [req_cases]:
  "req_case_216 relaxed c =
     (if c < 65 then (if 48 \<le> c \<and> c \<le> 57 then St 214 else St 0)
      else if c > 70 then (if 97 \<le> c \<and> c \<le> 102 then St 214 else St 0) else St 214)"

definition req_case_217 :: "bool \<Rightarrow> int \<Rightarrow> label" where [req_cases]:
  "req_case_217 relaxed c =
     (let w = widec relaxed c
      in if w = 32 then Tr 228
         else if w = 33 then St 218
         else if w = 37 then St 219
         else if w = 47 then St 205
         else if w = 58 then St 221
         else if w = 61 then St 218
         else if w = 91 then St 222
         else if w = 95 \<or> w = 126 \<or> w = 606 \<or> w = 635 \<or> w = 637 then St 218
         else if w < 65 then (if 36 \<le> w \<and> w \<le> 59 then St 218 else St 0)
         else if w > 90 then (if 97 \<le> w \<and> w \<le> 122 then St 218 else St 0) else St 218)"

definition req_case_218 :: "bool \<Rightarrow> int \<Rightarrow> label" where [req_cases]:
  "req_case_218 relaxed c =
     (let w = widec relaxed c
      in if w = 32 then Tr 228
         else if w = 33 then St 218
         else if w = 37 then St 219
         else if w = 47 then St 205
         else if w = 58 then St 221
         else if w = 61 \<or> w = 95 \<or> w = 126 \<or> w = 606 \<or> w = 635 \<or> w = 637 then St 218
         else if w < 65 then (if 36 \<le> w \<and> w \<le> 59 then St 218 else St 0)
         else if w > 90 then (if 97 \<le> w \<and> w \<le> 122 then St 218 else St 0) else St 218)"

definition req_case_219 :: "bool \<Rightarrow> int \<Rightarrow> label" where [req_cases]:
  "req_case_219 relaxed c =
     (if c < 65 then (if 48 \<le> c \<and> c \<le> 57 then St 220 else St 0)
      else if c > 70 then (if 97 \<le> c \<and> c \<le> 102 then St 220 else St 0) else St 220)"

definition req_case_220 :: "bool \<Rightarrow> int \<Rightarrow> label" where [req_cases]:
  "req_case_220 relaxed c =
     (if c < 65 then (if 48 \<le> c \<and> c \<le> 57 then St 218 else St 0)
      else if c > 70 then (if 97 \<le> c \<and> c \<le> 102 then St 218 else St 0) else St 218)"

definition req_case_221 :: "bool \<Rightarrow> int \<Rightarrow> label" where [req_cases]:
  "req_case_221 relaxed c =
     (if c = 32 then Tr 228
      else if c = 47 then St 205
      else if 48 \<le> c \<and> c \<le> 57 then St 221 else St 0)"

definition req_case_222 :: "bool \<Rightarrow> int \<Rightarrow> label" where [req_cases]:
  "req_case_222 relaxed c =
     (if c = 6 then St 223
      else if c = 58 then St 342
      else if c = 118 then St 344
      else if c < 65 then (if 48 \<le> c \<and> c \<le> 57 then St 266 else St 0)
      else if c > 70 then (if 97 \<le> c \<and> c \<le> 102 then St 266 else St 0) else St 266)"

definition req_case_223 :: "bool \<Rightarrow> int \<Rightarrow> label" where [req_cases]:
  "req_case_223 relaxed c =
     (if c < 65 then (if 48 \<le> c \<and> c \<le> 57 then St 224 else St 0)
      else if c > 70 then (if 97 \<le> c \<and> c \<le> 102 then St 224 else St 0) else St 224)"

definition req_case_224 :: "bool \<Rightarrow> int \<Rightarrow> label" where [req_cases]:
  "req_case_224 relaxed c =
     (if c = 58 then St 228
      else if c < 65 then (if 48 \<le> c \<and> c \<le> 57 then St 225 else St 0)
      else if c > 70 then (if 97 \<le> c \<and> c \<le> 102 then St 225 else St 0) else St 225)"

definition req_case_225 :: "bool \<Rightarrow> int \<Rightarrow> label" where [req_cases]:
  "req_case_225 relaxed c =
     (if c = 58 then St 228
      else if c < 65 then (if 48 \<le> c \<and> c \<le> 57 then St 226 else St 0)
      else if c > 70 then (if 97 \<le> c \<and> c \<le> 102 then St 226 else St 0) else St 226)"

definition req_case_226 :: "bool \<Rightarrow> int \<Rightarrow> label" where [req_cases]:
  "req_case_226 relaxed c =
     (if c = 58 then St 228
      else if c < 65 then (if 48 \<le> c \<and> c \<le> 57 then St 227 else St 0)
      else if c > 70 then (if 97 \<le> c \<and> c \<le> 102 then St 227 else St 0) else St 227)"

definition req_case_227 :: "bool \<Rightarrow> int \<Rightarrow> label" where [req_cases]:
  "req_case_227 relaxed c =
     (if c = 58 then St 228 else St 0)"

definition req_case_228 :: "bool \<Rightarrow> int \<Rightarrow> label" where [req_cases]:
  "req_case_228 relaxed c =
     (if c = 49 then St 259
      else if c = 50 then St 262
      else if c < 65 then (if 48 \<le> c \<and> c \<le> 57 then St 229 else St 0)
      else if c > 70 then (if 97 \<le> c \<and> c \<le> 102 then St 265 else St 0) else St 265)"

definition req_case_229 :: "bool \<Rightarrow> int \<Rightarrow> label" where [req_cases]:
  "req_case_229 relaxed c =
     (if c = 46 then St 230
      else if c = 58 then St 255
      else if c < 65 then (if 48 \<le> c \<and> c \<le> 57 then St 252 else St 0)
      else if c > 70 then (if 97 \<le> c \<and> c \<le> 102 then St 252 else St 0) else St 252)"

definition req_case_230 :: "bool \<Rightarrow> int \<Rightarrow> label" where [req_cases]:
  "req_case_230 relaxed c =
     (if c = 49 then St 247
      else if c = 50 then St 249
      else if 48 \<le> c \<and> c \<le> 57 then St 231 else St 0)"

definition req_case_231 :: "bool \<Rightarrow> int \<Rightarrow> label" where [req_cases]:
  "req_case_231 relaxed c =
     (if c = 46 then St 232 else St 0)"

definition req_case_232 :: "bool \<Rightarrow> int \<Rightarrow> label" where [req_cases]:
  "req_case_232 relaxed c =
     (if c = 49 then St 242
      else if c = 50 then St 244
      else if 48 \<le> c \<and> c \<le> 57 then St 233 else St 0)"

definition req_case_233 :: "bool \<Rightarrow> int \<Rightarrow> label" where [req_cases]:
  "req_case_233 relaxed c =
     (if c = 46 then St 234 else St 0)"

definition req_case_234 :: "bool \<Rightarrow> int \<Rightarrow> label" where [req_cases]:
  "req_case_234 relaxed c =
     (if c = 49 then St 237
      else if c = 50 then St 239
      else if 48 \<le> c \<and> c \<le> 57 then St 235 else St 0)"

definition req_case_235 :: "bool \<Rightarrow> int \<Rightarrow> label" where [req_cases]:
  "req_case_235 relaxed c =
     (if c = 93 then St 236 else St 0)"

definition req_case_236 :: "bool \<Rightarrow> int \<Rightarrow> label" where [req_cases]:
  "req_case_236 relaxed c =
     (if c = 32 then Tr 228
      else if c = 47 then St 205
      else if c = 58 then St 221 else St 0)"

definition req_case_237 :: "bool \<Rightarrow> int \<Rightarrow> label" where [req_cases]:
  "req_case_237 relaxed c =
     (if c = 93 then St 236
      else if 48 \<le> c \<and> c \<le> 57 then St 238 else St 0)"

definition req_case_238 :: "bool \<Rightarrow> int \<Rightarrow> label" where [req_cases]:
  "req_case_238 relaxed c =
     (if c = 93 then St 236
      else if 48 \<le> c \<and> c \<le> 57 then St 235 else St 0)"

definition req_case_239 :: "bool \<Rightarrow> int \<Rightarrow> label" where [req_cases]:
  "req_case_239 relaxed c =
     (if c = 48 then St 240
      else if c = 53 then St 241
      else if c = 93 then St 236 else St 0)"

definition req_case_240 :: "bool \<Rightarrow> int \<Rightarrow> label" where [req_cases]:
  "req_case_240 relaxed c =
     (if 48 \<le> c \<and> c \<le> 57 then St 235 else St 0)"

definition req_case_241 :: "bool \<Rightarrow> int \<Rightarrow> label" where [req_cases]:
  "req_case_241 relaxed c =
     (if c = 48 then St 235 else St 0)"

definition req_case_242 :: "bool \<Rightarrow> int \<Rightarrow> label" where [req_cases]:
  "req_case_242 relaxed c =
     (if c = 46 then St 234
      else if 48 \<le> c \<and> c \<le> 57 then St 243 else St 0)"

definition req_case_243 :: "bool \<Rightarrow> int \<Rightarrow> label" where [req_cases]:
  "req_case_243 relaxed c =
     (if c = 46 then St 234
      else if 48 \<le> c \<and> c \<le> 57 then St 233 else St 0)"

definition req_case_244 :: "bool \<Rightarrow> int \<Rightarrow> label" where [req_cases]:
  "req_case_244 relaxed c =
     (if c = 46 then St 234
      else if c = 48 then St 245
      else if c = 53 then St 246 else St 0)"

definition req_case_245 :: "bool \<Rightarrow> int \<Rightarrow> label" where [req_cases]:
  "req_case_245 relaxed c =
     (if 48 \<le> c \<and> c \<le> 57 then St 233 else St 0)"

definition req_case_246 :: "bool \<Rightarrow> int \<Rightarrow> label" where [req_cases]:
  "req_case_246 relaxed c =
     (if c = 48 then St 233 else St 0)"

definition req_case_247 :: "bool \<Rightarrow> int \<Rightarrow> label" where [req_cases]:
  "req_case_247 relaxed c =
     (if c = 46 then St 232
      else if 48 \<le> c \<and> c \<le> 57 then St 248 else St 0)"

definition req_case_248 :: "bool \<Rightarrow> int \<Rightarrow> label" where [req_cases]:
  "req_case_248 relaxed c =
     (if c = 46 then St 232
      else if 48 \<le> c \<and> c \<le> 57 then St 231 else St 0)"

definition req_case_249 :: "bool \<Rightarrow> int \<Rightarrow> label" where [req_cases]:
  "req_case_249 relaxed c =
     (if c = 46 then St 232
      else if c = 48 then St 250
      else if c = 53 then St 251 else St 0)"

definition req_case_250 :: "bool \<Rightarrow> int \<Rightarrow> label" where [req_cases]:
  "req_case_250 relaxed c =
     (if 48 \<le> c \<and> c \<le> 57 then St 231 else St 0)"

definition req_case_251 :: "bool \<Rightarrow> int \<Rightarrow> label" where [req_cases]:
  "req_case_251 relaxed c =
     (if c = 48 then St 231 else St 0)"

definition req_case_252 :: "bool \<Rightarrow> int \<Rightarrow> label" where [req_cases]:
  "req_case_252 relaxed c =
     (if c = 58 then St 255
      else if c < 65 then (if 48 \<le> c \<and> c \<le> 57 then St 253 else St 0)
      else if c > 70 then (if 97 \<le> c \<and> c \<le> 102 then St 253 else St 0) else St 253)"

definition req_case_253 :: "bool \<Rightarrow> int \<Rightarrow> label" where [req_cases]:
  "req_case_253 relaxed c =
     (if c = 58 then St 255
      else if c < 65 then (if 48 \<le> c \<and> c \<le> 57 then St 254 else St 0)
      else if c > 70 then (if 97 \<le> c \<and> c \<le> 102 then St 254 else St 0) else St 254)"

definition req_case_254 :: "bool \<Rightarrow> int \<Rightarrow> label" where [req_cases]:
  "req_case_254 relaxed c =
     (if c = 58 then St 255 else St 0)"

definition req_case_255 :: "bool \<Rightarrow> int \<Rightarrow> label" where [req_cases]:
  "req_case_255 relaxed c =
     (if c < 65 then (if 48 \<le> c \<and> c \<le> 57 then St 256 else St 0)
      else if c > 70 then (if 97 \<le> c \<and> c \<le> 102 then St 256 else St 0) else St 256)"

definition req_case_256 :: "bool \<Rightarrow> int \<Rightarrow> label" where [req_cases]:
  "req_case_256 relaxed c =
     (if c = 93 then St 236
      else if c < 65 then (if 48 \<le> c \<and> c \<le> 57 then St 257 else St 0)
      else if c > 70 then (if 97 \<le> c \<and> c \<le> 102 then St 257 else St 0) else St 257)"

definition req_case_257 :: "bool \<Rightarrow> int \<Rightarrow> label" where [req_cases]:
  "req_case_257 relaxed c =
     (if c = 93 then St 236
      else if c < 65 then (if 48 \<le> c \<and> c \<le> 57 then St 258 else St 0)
      else if c > 70 then (if 97 \<le> c \<and> c \<le> 102 then St 258 else St 0) else St 258)"

definition req_case_258 :: "bool \<Rightarrow> int \<Rightarrow> label" where [req_cases]:
  "req_case_258 relaxed c =
     (if c = 93 then St 236
      else if c < 65 then (if 48 \<le> c \<and> c \<le> 57 then St 235 else St 0)
      else if c > 70 then (if 97 \<le> c \<and> c \<le> 102 then St 235 else St 0) else St 235)"

definition req_case_259 :: "bool \<Rightarrow> int \<Rightarrow> label" where [req_cases]:
  "req_case_259 relaxed c =
     (if c = 46 then St 230
      else if c = 58 then St 255
      else if c < 65 then (if 48 \<le> c \<and> c \<le> 57 then St 260 else St 0)
      else if c > 70 then (if 97 \<le> c \<and> c \<le> 102 then St 252 else St 0) else St 252)"

definition req_case_260 :: "bool \<Rightarrow> int \<Rightarrow> label" where [req_cases]:
  "req_case_260 relaxed c =
     (if c = 46 then St 230
      else if c = 58 then St 255
      else if c < 65 then (if 48 \<le> c \<and> c \<le> 57 then St 261 else St 0)
      else if c > 70 then (if 97 \<le> c \<and> c \<le> 102 then St 253 else St 0) else St 253)"

definition req_case_261 :: "bool \<Rightarrow> int \<Rightarrow> label" where [req_cases]:
  "req_case_261 relaxed c =
     (if c = 46 then St 230
      else if c = 58 then St 255
      else if c < 65 then (if 48 \<le> c \<and> c \<le> 57 then St 254 else St 0)
      else if c > 70 then (if 97 \<le> c \<and> c \<le> 102 then St 254 else St 0) else St 254)"

definition req_case_262 :: "bool \<Rightarrow> int \<Rightarrow> label" where [req_cases]:
  "req_case_262 relaxed c =
     (if c = 46 then St 230
      else if c = 48 then St 263
      else if c = 53 then St 264
      else if c = 58 then St 255
      else if c < 65 then (if 49 \<le> c \<and> c \<le> 57 then St 252 else St 0)
      else if c > 70 then (if 97 \<le> c \<and> c \<le> 102 then St 252 else St 0) else St 252)"

definition req_case_263 :: "bool \<Rightarrow> int \<Rightarrow> label" where [req_cases]:
  "req_case_263 relaxed c =
     (if c = 58 then St 255
      else if c < 65 then (if 48 \<le> c \<and> c \<le> 57 then St 261 else St 0)
      else if c > 70 then (if 97 \<le> c \<and> c \<le> 102 then St 253 else St 0) else St 253)"

definition req_case_264 :: "bool \<Rightarrow> int \<Rightarrow> label" where [req_cases]:
  "req_case_264 relaxed c =
     (if c = 48 then St 261
      else if c = 58 then St 255
      else if c < 65 then (if 49 \<le> c \<and> c \<le> 57 then St 253 else St 0)
      else if c > 70 then (if 97 \<le> c \<and> c \<le> 102 then St 253 else St 0) else St 253)"

definition req_case_265 :: "bool \<Rightarrow> int \<Rightarrow> label" where [req_cases]:
  "req_case_265 relaxed c =
     (if c = 58 then St 255
      else if c < 65 then (if 48 \<le> c \<and> c \<le> 57 then St 252 else St 0)
      else if c > 70 then (if 97 \<le> c \<and> c \<le> 102 then St 252 else St 0) else St 252)"

definition req_case_266 :: "bool \<Rightarrow> int \<Rightarrow> label" where [req_cases]:
  "req_case_266 relaxed c =
     (if c = 58 then St 270
      else if c < 65 then (if 48 \<le> c \<and> c \<le> 57 then St 267 else St 0)
      else if c > 70 then (if 97 \<le> c \<and> c \<le> 102 then St 267 else St 0) else St 267)"

definition req_case_267 :: "bool \<Rightarrow> int \<Rightarrow> label" where [req_cases]:
  "req_case_267 relaxed c =
     (if c = 58 then St 270
      else if c < 65 then (if 48 \<le> c \<and> c \<le> 57 then St 268 else St 0)
      else if c > 70 then (if 97 \<le> c \<and> c \<le> 102 then St 268 else St 0) else St 268)"

definition req_case_268 :: "bool \<Rightarrow> int \<Rightarrow> label" where [req_cases]:
  "req_case_268 relaxed c =
     (if c = 58 then St 270
      else if c < 65 then (if 48 \<le> c \<and> c \<le> 57 then St 269 else St 0)
      else if c > 70 then (if 97 \<le> c \<and> c \<le> 102 then St 269 else St 0) else St 269)"

definition req_case_269 :: "bool \<Rightarrow> int \<Rightarrow> label" where [req_cases]:
  "req_case_269 relaxed c =
     (if c = 58 then St 270 else St 0)"

definition req_case_270 :: "bool \<Rightarrow> int \<Rightarrow> label" where [req_cases]:
  "req_case_270 relaxed c =
     (if c = 58 then St 341
      else if c < 65 then (if 48 \<le> c \<and> c \<le> 57 then St 271 else St 0)
      else if c > 70 then (if 97 \<le> c \<and> c \<le> 102 then St 271 else St 0) else St 271)"

definition req_case_271 :: "bool \<Rightarrow> int \<Rightarrow> label" where [req_cases]:
  "req_case_271 relaxed c =
     (if c = 58 then St 275
      else if c < 65 then (if 48 \<le> c \<and> c \<le> 57 then St 272 else St 0)
      else if c > 70 then (if 97 \<le> c \<and> c \<le> 102 then St 272 else St 0) else St 272)"

definition req_case_272 :: "bool \<Rightarrow> int \<Rightarrow> label" where [req_cases]:
  "req_case_272 relaxed c =
     (if c = 58 then St 275
      else if c < 65 then (if 48 \<le> c \<and> c \<le> 57 then St 273 else St 0)
      else if c > 70 then (if 97 \<le> c \<and> c \<le> 102 then St 273 else St 0) else St 273)"

definition req_case_273 :: "bool \<Rightarrow> int \<Rightarrow> label" where [req_cases]:
  "req_case_273 relaxed c =
     (if c = 58 then St 275
      else if c < 65 then (if 48 \<le> c \<and> c \<le> 57 then St 274 else St 0)
      else if c > 70 then (if 97 \<le> c \<and> c \<le> 102 then St 274 else St 0) else St 274)"

definition req_case_274 :: "bool \<Rightarrow> int \<Rightarrow> label" where [req_cases]:
  "req_case_274 relaxed c =
     (if c = 58 then St 275 else St 0)"

definition req_case_275 :: "bool \<Rightarrow> int \<Rightarrow> label" where [req_cases]:
  "req_case_275 relaxed c =
     (if c = 58 then St 340
      else if c < 65 then (if 48 \<le> c \<and> c \<le> 57 then St 276 else St 0)
      else if c > 70 then (if 97 \<le> c \<and> c \<le> 102 then St 276 else St 0) else St 276)"

definition req_case_276 :: "bool \<Rightarrow> int \<Rightarrow> label" where [req_cases]:
  "req_case_276 relaxed c =
     (if c = 58 then St 280
      else if c < 65 then (if 48 \<le> c \<and> c \<le> 57 then St 277 else St 0)
      else if c > 70 then (if 97 \<le> c \<and> c \<le> 102 then St 277 else St 0) else St 277)"

definition req_case_277 :: "bool \<Rightarrow> int \<Rightarrow> label" where [req_cases]:
  "req_case_277 relaxed c =
     (if c = 58 then St 280
      else if c < 65 then (if 48 \<le> c \<and> c \<le> 57 then St 278 else St 0)
      else if c > 70 then (if 97 \<le> c \<and> c \<le> 102 then St 278 else St 0) else St 278)"

definition req_case_278 :: "bool \<Rightarrow> int \<Rightarrow> label" where [req_cases]:
  "req_case_278 relaxed c =
     (if c = 58 then St 280
      else if c < 65 then (if 48 \<le> c \<and> c \<le> 57 then St 279 else St 0)
      else if c > 70 then (if 97 \<le> c \<and> c \<le> 102 then St 279 else St 0) else St 279)"

definition req_case_279 :: "bool \<Rightarrow> int \<Rightarrow> label" where [req_cases]:
  "req_case_279 relaxed c =
     (if c = 58 then St 280 else St 0)"

definition req_case_280 :: "bool \<Rightarrow> int \<Rightarrow> label" where [req_cases]:
  "req_case_280 relaxed c =
     (if c = 58 then St 339
      else if c < 65 then (if 48 \<le> c \<and> c \<le> 57 then St 281 else St 0)
      else if c > 70 then (if 97 \<le> c \<and> c \<le> 102 then St 281 else St 0) else St 281)"

definition req_case_281 :: "bool \<Rightarrow> int \<Rightarrow> label" where [req_cases]:
  "req_case_281 relaxed c =
     (if c = 58 then St 285
      else if c < 65 then (if 48 \<le> c \<and> c \<le> 57 then St 282 else St 0)
      else if c > 70 then (if 97 \<le> c \<and> c \<le> 102 then St 282 else St 0) else St 282)"

definition req_case_282 :: "bool \<Rightarrow> int \<Rightarrow> label" where [req_cases]:
  "req_case_282 relaxed c =
     (if c = 58 then St 285
      else if c < 65 then (if 48 \<le> c \<and> c \<le> 57 then St 283 else St 0)
      else if c > 70 then (if 97 \<le> c \<and> c \<le> 102 then St 283 else St 0) else St 283)"

definition req_case_283 :: "bool \<Rightarrow> int \<Rightarrow> label" where [req_cases]:
  "req_case_283 relaxed c =
     (if c = 58 then St 285
      else if c < 65 then (if 48 \<le> c \<and> c \<le> 57 then St 284 else St 0)
      else if c > 70 then (if 97 \<le> c \<and> c \<le> 102 then St 284 else St 0) else St 284)"

definition req_case_284 :: "bool \<Rightarrow> int \<Rightarrow> label" where [req_cases]:
  "req_case_284 relaxed c =
     (if c = 58 then St 285 else St 0)"

definition req_case_285 :: "bool \<Rightarrow> int \<Rightarrow> label" where [req_cases]:
  "req_case_285 relaxed c =
     (if c = 58 then St 338
      else if c < 65 then (if 48 \<le> c \<and> c \<le> 57 then St 286 else St 0)
      else if c > 70 then (if 97 \<le> c \<and> c \<le> 102 then St 286 else St 0) else St 286)"

definition req_case_286 :: "bool \<Rightarrow> int \<Rightarrow> label" where [req_cases]:
  "req_case_286 relaxed c =
     (if c = 58 then St 290
      else if c < 65 then (if 48 \<le> c \<and> c \<le> 57 then St 287 else St 0)
      else if c > 70 then (if 97 \<le> c \<and> c \<le> 102 then St 287 else St 0) else St 287)"

definition req_case_287 :: "bool \<Rightarrow> int \<Rightarrow> label" where [req_cases]:
  "req_case_287 relaxed c =
     (if c = 58 then St 290
      else if c < 65 then (if 48 \<le> c \<and> c \<le> 57 then St 288 else St 0)
      else if c > 70 then (if 97 \<le> c \<and> c \<le> 102 then St 288 else St 0) else St 288)"

definition req_case_288 :: "bool \<Rightarrow> int \<Rightarrow> label" where [req_cases]:
  "req_case_288 relaxed c =
     (if c = 58 then St 290
      else if c < 65 then (if 48 \<le> c \<and> c \<le> 57 then St 289 else St 0)
      else if c > 70 then (if 97 \<le> c \<and> c \<le> 102 then St 289 else St 0) else St 289)"

definition req_case_289 :: "bool \<Rightarrow> int \<Rightarrow> label" where [req_cases]:
  "req_case_289 relaxed c =
     (if c = 58 then St 290 else St 0)"

definition req_case_290 :: "bool \<Rightarrow> int \<Rightarrow> label" where [req_cases]:
  "req_case_290 relaxed c =
     (if c = 58 then St 326
      else if c < 65 then (if 48 \<le> c \<and> c \<le> 57 then St 291 else St 0)
      else if c > 70 then (if 97 \<le> c \<and> c \<le> 102 then St 291 else St 0) else St 291)"

definition req_case_291 :: "bool \<Rightarrow> int \<Rightarrow> label" where [req_cases]:
  "req_case_291 relaxed c =
     (if c = 58 then St 295
      else if c < 65 then (if 48 \<le> c \<and> c \<le> 57 then St 292 else St 0)
      else if c > 70 then (if 97 \<le> c \<and> c \<le> 102 then St 292 else St 0) else St 292)"

definition req_case_292 :: "bool \<Rightarrow> int \<Rightarrow> label" where [req_cases]:
  "req_case_292 relaxed c =
     (if c = 58 then St 295
      else if c < 65 then (if 48 \<le> c \<and> c \<le> 57 then St 293 else St 0)
      else if c > 70 then (if 97 \<le> c \<and> c \<le> 102 then St 293 else St 0) else St 293)"

definition req_case_293 :: "bool \<Rightarrow> int \<Rightarrow> label" where [req_cases]:
  "req_case_293 relaxed c =
     (if c = 58 then St 295
      else if c < 65 then (if 48 \<le> c \<and> c \<le> 57 then St 294 else St 0)
      else if c > 70 then (if 97 \<le> c \<and> c \<le> 102 then St 294 else St 0) else St 294)"

definition req_case_294 :: "bool \<Rightarrow> int \<Rightarrow> label" where [req_cases]:
  "req_case_294 relaxed c =
     (if c = 58 then St 295 else St 0)"

definition req_case_295 :: "bool \<Rightarrow> int \<Rightarrow> label" where [req_cases]:
  "req_case_295 relaxed c =
     (if c = 58 then St 325
      else if c < 65 then (if 48 \<le> c \<and> c \<le> 57 then St 296 else St 0)
      else if c > 70 then (if 97 \<le> c \<and> c \<le> 102 then St 296 else St 0) else St 296)"

definition req_case_296 :: "bool \<Rightarrow> int \<Rightarrow> label" where [req_cases]:
  "req_case_296 relaxed c =
     (if c = 58 then St 300
      else if c < 65 then (if 48 \<le> c \<and> c \<le> 57 then St 297 else St 0)
      else if c > 70 then (if 97 \<le> c \<and> c \<le> 102 then St 297 else St 0) else St 297)"

definition req_case_297 :: "bool \<Rightarrow> int \<Rightarrow> label" where [req_cases]:
  "req_case_297 relaxed c =
     (if c = 58 then St 300
      else if c < 65 then (if 48 \<le> c \<and> c \<le> 57 then St 298 else St 0)
      else if c > 70 then (if 97 \<le> c \<and> c \<le> 102 then St 298 else St 0) else St 298)"

definition req_case_298 :: "bool \<Rightarrow> int \<Rightarrow> label" where [req_cases]:
  "req_case_298 relaxed c =
     (if c = 58 then St 300
      else if c < 65 then (if 48 \<le> c \<and> c \<le> 57 then St 299 else St 0)
      else if c > 70 then (if 97 \<le> c \<and> c \<le> 102 then St 299 else St 0) else St 299)"

definition req_case_299 :: "bool \<Rightarrow> int \<Rightarrow> label" where [req_cases]:
  "req_case_299 relaxed c =
     (if c = 58 then St 300 else St 0)"

definition req_case_300 :: "bool \<Rightarrow> int \<Rightarrow> label" where [req_cases]:
  "req_case_300 relaxed c =
     (if c = 58 then St 301
      else if c < 65 then (if 48 \<le> c \<and> c \<le> 57 then St 296 else St 0)
      else if c > 70 then (if 97 \<le> c \<and> c \<le> 102 then St 296 else St 0) else St 296)"

definition req_case_301 :: "bool \<Rightarrow> int \<Rightarrow> label" where [req_cases]:
  "req_case_301 relaxed c =
     (if c = 49 then St 318
      else if c = 50 then St 321
      else if c = 93 then St 236
      else if c < 48 then (if 2 \<le> c \<and> c \<le> 3 then St 223 else St 0)
      else if c > 57 then (if c > 70 then (if 97 \<le> c \<and> c \<le> 102 then St 324 else St 0) else if c \<ge> 65 then St 324
        else St 0) else St 302)"

definition req_case_302 :: "bool \<Rightarrow> int \<Rightarrow> label" where [req_cases]:
  "req_case_302 relaxed c =
     (if c = 46 then St 230
      else if c = 58 then St 306
      else if c = 93 then St 236
      else if c < 65 then (if 48 \<le> c \<and> c \<le> 57 then St 303 else St 0)
      else if c > 70 then (if 97 \<le> c \<and> c \<le> 102 then St 303 else St 0) else St 303)"

definition req_case_303 :: "bool \<Rightarrow> int \<Rightarrow> label" where [req_cases]:
  "req_case_303 relaxed c =
     (if c = 58 then St 306
      else if c = 93 then St 236
      else if c < 65 then (if 48 \<le> c \<and> c \<le> 57 then St 304 else St 0)
      else if c > 70 then (if 97 \<le> c \<and> c \<le> 102 then St 304 else St 0) else St 304)"

definition req_case_304 :: "bool \<Rightarrow> int \<Rightarrow> label" where [req_cases]:
  "req_case_304 relaxed c =
     (if c = 58 then St 306
      else if c = 93 then St 236
      else if c < 65 then (if 48 \<le> c \<and> c \<le> 57 then St 305 else St 0)
      else if c > 70 then (if 97 \<le> c \<and> c \<le> 102 then St 305 else St 0) else St 305)"

definition req_case_305 :: "bool \<Rightarrow> int \<Rightarrow> label" where [req_cases]:
  "req_case_305 relaxed c =
     (if c = 58 then St 306
      else if c = 93 then St 236 else St 0)"

definition req_case_306 :: "bool \<Rightarrow> int \<Rightarrow> label" where [req_cases]:
  "req_case_306 relaxed c =
     (if c = 49 then St 311
      else if c = 50 then St 314
      else if c < 65 then (if 48 \<le> c \<and> c \<le> 57 then St 307 else St 0)
      else if c > 70 then (if 97 \<le> c \<and> c \<le> 102 then St 317 else St 0) else St 317)"

definition req_case_307 :: "bool \<Rightarrow> int \<Rightarrow> label" where [req_cases]:
  "req_case_307 relaxed c =
     (if c = 46 then St 230
      else if c = 58 then St 255
      else if c = 93 then St 236
      else if c < 65 then (if 48 \<le> c \<and> c \<le> 57 then St 308 else St 0)
      else if c > 70 then (if 97 \<le> c \<and> c \<le> 102 then St 308 else St 0) else St 308)"

definition req_case_308 :: "bool \<Rightarrow> int \<Rightarrow> label" where [req_cases]:
  "req_case_308 relaxed c =
     (if c = 58 then St 255
      else if c = 93 then St 236
      else if c < 65 then (if 48 \<le> c \<and> c \<le> 57 then St 309 else St 0)
      else if c > 70 then (if 97 \<le> c \<and> c \<le> 102 then St 309 else St 0) else St 309)"

definition req_case_309 :: "bool \<Rightarrow> int \<Rightarrow> label" where [req_cases]:
  "req_case_309 relaxed c =
     (if c = 58 then St 255
      else if c = 93 then St 236
      else if c < 65 then (if 48 \<le> c \<and> c \<le> 57 then St 310 else St 0)
      else if c > 70 then (if 97 \<le> c \<and> c \<le> 102 then St 310 else St 0) else St 310)"

definition req_case_310 :: "bool \<Rightarrow> int \<Rightarrow> label" where [req_cases]:
  "req_case_310 relaxed c =
     (if c = 58 then St 255
      else if c = 93 then St 236 else St 0)"

definition req_case_311 :: "bool \<Rightarrow> int \<Rightarrow> label" where [req_cases]:
  "req_case_311 relaxed c =
     (if c = 46 then St 230
      else if c = 58 then St 255
      else if c = 93 then St 236
      else if c < 65 then (if 48 \<le> c \<and> c \<le> 57 then St 312 else St 0)
      else if c > 70 then (if 97 \<le> c \<and> c \<le> 102 then St 308 else St 0) else St 308)"

definition req_case_312 :: "bool \<Rightarrow> int \<Rightarrow> label" where [req_cases]:
  "req_case_312 relaxed c =
     (if c = 46 then St 230
      else if c = 58 then St 255
      else if c = 93 then St 236
      else if c < 65 then (if 48 \<le> c \<and> c \<le> 57 then St 313 else St 0)
      else if c > 70 then (if 97 \<le> c \<and> c \<le> 102 then St 309 else St 0) else St 309)"

definition req_case_313 :: "bool \<Rightarrow> int \<Rightarrow> label" where [req_cases]:
  "req_case_313 relaxed c =
     (if c = 46 then St 230
      else if c = 58 then St 255
      else if c = 93 then St 236
      else if c < 65 then (if 48 \<le> c \<and> c \<le> 57 then St 310 else St 0)
      else if c > 70 then (if 97 \<le> c \<and> c \<le> 102 then St 310 else St 0) else St 310)"

definition req_case_314 :: "bool \<Rightarrow> int \<Rightarrow> label" where [req_cases]:
  "req_case_314 relaxed c =
     (if c = 46 then St 230
      else if c = 48 then St 315
      else if c = 53 then St 316
      else if c = 58 then St 255
      else if c = 93 then St 236
      else if c < 65 then (if 49 \<le> c \<and> c \<le> 57 then St 308 else St 0)
      else if c > 70 then (if 97 \<le> c \<and> c \<le> 102 then St 308 else St 0) else St 308)"

definition req_case_315 :: "bool \<Rightarrow> int \<Rightarrow> label" where [req_cases]:
  "req_case_315 relaxed c =
     (if c = 58 then St 255
      else if c = 93 then St 236
      else if c < 65 then (if 48 \<le> c \<and> c \<le> 57 then St 313 else St 0)
      else if c > 70 then (if 97 \<le> c \<and> c \<le> 102 then St 309 else St 0) else St 309)"

definition req_case_316 :: "bool \<Rightarrow> int \<Rightarrow> label" where [req_cases]:
  "req_case_316 relaxed c =
     (if c = 48 then St 313
      else if c = 58 then St 255
      else if c = 93 then St 236
      else if c < 65 then (if 49 \<le> c \<and> c \<le> 57 then St 309 else St 0)
      else if c > 70 then (if 97 \<le> c \<and> c \<le> 102 then St 309 else St 0) else St 309)"

definition req_case_317 :: "bool \<Rightarrow> int \<Rightarrow> label" where [req_cases]:
  "req_case_317 relaxed c =
     (if c = 58 then St 255
      else if c = 93 then St 236
      else if c < 65 then (if 48 \<le> c \<and> c \<le> 57 then St 308 else St 0)
      else if c > 70 then (if 97 \<le> c \<and> c \<le> 102 then St 308 else St 0) else St 308)"

definition req_case_318 :: "bool \<Rightarrow> int \<Rightarrow> label" where [req_cases]:
  "req_case_318 relaxed c =
     (if c = 46 then St 230
      else if c = 58 then St 306
      else if c = 93 then St 236
      else if c < 65 then (if 48 \<le> c \<and> c \<le> 57 then St 319 else St 0)
      else if c > 70 then (if 97 \<le> c \<and> c \<le> 102 then St 303 else St 0) else St 303)"

definition req_case_319 :: "bool \<Rightarrow> int \<Rightarrow> label" where [req_cases]:
  "req_case_319 relaxed c =
     (if c = 46 then St 230
      else if c = 58 then St 306
      else if c = 93 then St 236
      else if c < 65 then (if 48 \<le> c \<and> c \<le> 57 then St 320 else St 0)
      else if c > 70 then (if 97 \<le> c \<and> c \<le> 102 then St 304 else St 0) else St 304)"

definition req_case_320 :: "bool \<Rightarrow> int \<Rightarrow> label" where [req_cases]:
  "req_case_320 relaxed c =
     (if c = 46 then St 230
      else if c = 58 then St 306
      else if c = 93 then St 236
      else if c < 65 then (if 48 \<le> c \<and> c \<le> 57 then St 305 else St 0)
      else if c > 70 then (if 97 \<le> c \<and> c \<le> 102 then St 305 else St 0) else St 305)"

definition req_case_321 :: "bool \<Rightarrow> int \<Rightarrow> label" where [req_cases]:
  "req_case_321 relaxed c =
     (if c = 46 then St 230
      else if c = 48 then St 322
      else if c = 53 then St 323
      else if c = 58 then St 306
      else if c = 93 then St 236
      else if c < 65 then (if 49 \<le> c \<and> c \<le> 57 then St 303 else St 0)
      else if c > 70 then (if 97 \<le> c \<and> c \<le> 102 then St 303 else St 0) else St 303)"

definition req_case_322 :: "bool \<Rightarrow> int \<Rightarrow> label" where [req_cases]:
  "req_case_322 relaxed c =
     (if c = 58 then St 306
      else if c = 93 then St 236
      else if c < 65 then (if 48 \<le> c \<and> c \<le> 57 then St 320 else St 0)
      else if c > 70 then (if 97 \<le> c \<and> c \<le> 102 then St 304 else St 0) else St 304)"

definition req_case_323 :: "bool \<Rightarrow> int \<Rightarrow> label" where [req_cases]:
  "req_case_323 relaxed c =
     (if c = 48 then St 320
      else if c = 58 then St 306
      else if c = 93 then St 236
      else if c < 65 then (if 49 \<le> c \<and> c \<le> 57 then St 304 else St 0)
      else if c > 70 then (if 97 \<le> c \<and> c \<le> 102 then St 304 else St 0) else St 304)"

definition req_case_324 :: "bool \<Rightarrow> int \<Rightarrow> label" where [req_cases]:
  "req_case_324 relaxed c =
     (if c = 58 then St 306
      else if c = 93 then St 236
      else if c < 65 then (if 48 \<le> c \<and> c \<le> 57 then St 303 else St 0)
      else if c > 70 then (if 97 \<le> c \<and> c \<le> 102 then St 303 else St 0) else St 303)"

definition req_case_325 :: "bool \<Rightarrow> int \<Rightarrow> label" where [req_cases]:
  "req_case_325 relaxed c =
     (if c = 49 then St 318
      else if c = 50 then St 321
      else if c < 48 then (if 2 \<le> c \<and> c \<le> 3 then St 223 else St 0)
      else if c > 57 then (if c > 70 then (if 97 \<le> c \<and> c \<le> 102 then St 324 else St 0) else if c \<ge> 65 then St 324
        else St 0) else St 302)"

definition req_case_326 :: "bool \<Rightarrow> int \<Rightarrow> label" where [req_cases]:
  "req_case_326 relaxed c =
     (if c = 49 then St 331
      else if c = 50 then St 334
      else if c < 48 then (if 2 \<le> c \<and> c \<le> 3 then St 223 else St 0)
      else if c > 57 then (if c > 70 then (if 97 \<le> c \<and> c \<le> 102 then St 337 else St 0) else if c \<ge> 65 then St 337
        else St 0) else St 327)"

definition req_case_327 :: "bool \<Rightarrow> int \<Rightarrow> label" where [req_cases]:
  "req_case_327 relaxed c =
     (if c = 46 then St 230
      else if c = 58 then St 306
      else if c < 65 then (if 48 \<le> c \<and> c \<le> 57 then St 328 else St 0)
      else if c > 70 then (if 97 \<le> c \<and> c \<le> 102 then St 328 else St 0) else St 328)"

definition req_case_328 :: "bool \<Rightarrow> int \<Rightarrow> label" where [req_cases]:
  "req_case_328 relaxed c =
     (if c = 58 then St 306
      else if c < 65 then (if 48 \<le> c \<and> c \<le> 57 then St 329 else St 0)
      else if c > 70 then (if 97 \<le> c \<and> c \<le> 102 then St 329 else St 0) else St 329)"

definition req_case_329 :: "bool \<Rightarrow> int \<Rightarrow> label" where [req_cases]:
  "req_case_329 relaxed c =
     (if c = 58 then St 306
      else if c < 65 then (if 48 \<le> c \<and> c \<le> 57 then St 330 else St 0)
      else if c > 70 then (if 97 \<le> c \<and> c \<le> 102 then St 330 else St 0) else St 330)"

definition req_case_330 :: "bool \<Rightarrow> int \<Rightarrow> label" where [req_cases]:
  "req_case_330 relaxed c =
     (if c = 58 then St 306 else St 0)"

definition req_case_331 :: "bool \<Rightarrow> int \<Rightarrow> label" where [req_cases]:
  "req_case_331 relaxed c =
     (if c = 46 then St 230
      else if c = 58 then St 306
      else if c < 65 then (if 48 \<le> c \<and> c \<le> 57 then St 332 else St 0)
      else if c > 70 then (if 97 \<le> c \<and> c \<le> 102 then St 328 else St 0) else St 328)"

definition req_case_332 :: "bool \<Rightarrow> int \<Rightarrow> label" where [req_cases]:
  "req_case_332 relaxed c =
     (if c = 46 then St 230
      else if c = 58 then St 306
      else if c < 65 then (if 48 \<le> c \<and> c \<le> 57 then St 333 else St 0)
      else if c > 70 then (if 97 \<le> c \<and> c \<le> 102 then St 329 else St 0) else St 329)"

definition req_case_333 :: "bool \<Rightarrow> int \<Rightarrow> label" where [req_cases]:
  "req_case_333 relaxed c =
     (if c = 46 then St 230
      else if c = 58 then St 306
      else if c < 65 then (if 48 \<le> c \<and> c \<le> 57 then St 330 else St 0)
      else if c > 70 then (if 97 \<le> c \<and> c \<le> 102 then St 330 else St 0) else St 330)"

definition req_case_334 :: "bool \<Rightarrow> int \<Rightarrow> label" where [req_cases]:
  "req_case_334 relaxed c =
     (if c = 46 then St 230
      else if c = 48 then St 335
      else if c = 53 then St 336
      else if c = 58 then St 306
      else if c < 65 then (if 49 \<le> c \<and> c \<le> 57 then St 328 else St 0)
      else if c > 70 then (if 97 \<le> c \<and> c \<le> 102 then St 328 else St 0) else St 328)"

definition req_case_335 :: "bool \<Rightarrow> int \<Rightarrow> label" where [req_cases]:
  "req_case_335 relaxed c =
     (if c = 58 then St 306
      else if c < 65 then (if 48 \<le> c \<and> c \<le> 57 then St 333 else St 0)
      else if c > 70 then (if 97 \<le> c \<and> c \<le> 102 then St 329 else St 0) else St 329)"

definition req_case_336 :: "bool \<Rightarrow> int \<Rightarrow> label" where [req_cases]:
  "req_case_336 relaxed c =
     (if c = 48 then St 333
      else if c = 58 then St 306
      else if c < 65 then (if 49 \<le> c \<and> c \<le> 57 then St 329 else St 0)
      else if c > 70 then (if 97 \<le> c \<and> c \<le> 102 then St 329 else St 0) else St 329)"

definition req_case_337 :: "bool \<Rightarrow> int \<Rightarrow> label" where [req_cases]:
  "req_case_337 relaxed c =
     (if c = 58 then St 306
      else if c < 65 then (if 48 \<le> c \<and> c \<le> 57 then St 328 else St 0)
      else if c > 70 then (if 97 \<le> c \<and> c \<le> 102 then St 328 else St 0) else St 328)"

definition req_case_338 :: "bool \<Rightarrow> int \<Rightarrow> label" where [req_cases]:
  "req_case_338 relaxed c =
     (if c < 48 then (if 2 \<le> c \<and> c \<le> 3 then St 223 else St 0)
      else if c > 57 then (if c > 70 then (if 97 \<le> c \<and> c \<le> 102 then St 224 else St 0) else if c \<ge> 65 then St 224
        else St 0) else St 224)"

definition req_case_339 :: "bool \<Rightarrow> int \<Rightarrow> label" where [req_cases]:
  "req_case_339 relaxed c =
     (if 2 \<le> c \<and> c \<le> 3 then St 223 else St 0)"

definition req_case_340 :: "bool \<Rightarrow> int \<Rightarrow> label" where [req_cases]:
  "req_case_340 relaxed c =
     (if c = 3 then St 223 else St 0)"

definition req_case_341 :: "bool \<Rightarrow> int \<Rightarrow> label" where [req_cases]:
  "req_case_341 relaxed c =
     (if c = 4 then St 223 else St 0)"

definition req_case_342 :: "bool \<Rightarrow> int \<Rightarrow> label" where [req_cases]:
  "req_case_342 relaxed c =
     (if c = 58 then St 343 else St 0)"

definition req_case_343 :: "bool \<Rightarrow> int \<Rightarrow> label" where [req_cases]:
  "req_case_343 relaxed c =
     (if c = 49 then St 318
      else if c = 50 then St 321
      else if c = 93 then St 236
      else if c < 48 then (if 2 \<le> c \<and> c \<le> 5 then St 223 else St 0)
      else if c > 57 then (if c > 70 then (if 97 \<le> c \<and> c \<le> 102 then St 324 else St 0) else if c \<ge> 65 then St 324
        else St 0) else St 302)"

definition req_case_344 :: "bool \<Rightarrow> int \<Rightarrow> label" where [req_cases]:
  "req_case_344 relaxed c =
     (if c < 65 then (if 48 \<le> c \<and> c \<le> 57 then St 345 else St 0)
      else if c > 70 then (if 97 \<le> c \<and> c \<le> 102 then St 345 else St 0) else St 345)"

definition req_case_345 :: "bool \<Rightarrow> int \<Rightarrow> label" where [req_cases]:
  "req_case_345 relaxed c =
     (if c = 46 then St 346
      else if c < 65 then (if 48 \<le> c \<and> c \<le> 57 then St 345 else St 0)
      else if c > 70 then (if 97 \<le> c \<and> c \<le> 102 then St 345 else St 0) else St 345)"

definition req_case_346 :: "bool \<Rightarrow> int \<Rightarrow> label" where [req_cases]:
  "req_case_346 relaxed c =
     (let w = widec relaxed c
      in if w = 33 \<or> w = 36 \<or> w = 61 \<or> w = 95 \<or> w = 126 \<or> w = 606 \<or> w = 635 \<or> w = 637 then St 347
         else if w < 48 then (if 38 \<le> w \<and> w \<le> 46 then St 347 else St 0)
         else if w > 59 then (if w > 90 then (if 97 \<le> w \<and> w \<le> 122 then St 347 else St 0) else if w \<ge> 65 then St
           347 else St 0) else St 347)"

definition req_case_347 :: "bool \<Rightarrow> int \<Rightarrow> label" where [req_cases]:
  "req_case_347 relaxed c =
     (let w = widec relaxed c
      in if w = 33 \<or> w = 36 \<or> w = 61 then St 347
         else if w = 93 then St 236
         else if w = 95 \<or> w = 126 \<or> w = 606 \<or> w = 635 \<or> w = 637 then St 347
         else if w < 48 then (if 38 \<le> w \<and> w \<le> 46 then St 347 else St 0)
         else if w > 59 then (if w > 90 then (if 97 \<le> w \<and> w \<le> 122 then St 347 else St 0) else if w \<ge> 65 then St
           347 else St 0) else St 347)"

text \<open>\<open>switch (cs)\<close>, for the states there are, and the targets of the jumps, as binary searches.\<close>

definition req_case :: "nat \<Rightarrow> bool \<Rightarrow> int \<Rightarrow> label" where
  "req_case n =
     (if n < 175 then (if n < 88 then (if n < 44 then (if n < 22 then (if n < 11 then (if n < 6 then (if n < 3 then (if n < 2 then
     req_case_1 else req_case_2) else (if n < 4 then req_case_3 else (if n < 5 then req_case_4 else req_case_5))) else (if n < 8
     then (if n < 7 then req_case_6 else req_case_7) else (if n < 9 then req_case_8 else (if n < 10 then req_case_9 else
     req_case_10)))) else (if n < 16 then (if n < 13 then (if n < 12 then req_case_11 else req_case_12) else (if n < 14 then
     req_case_13 else (if n < 15 then req_case_14 else req_case_15))) else (if n < 19 then (if n < 17 then req_case_16 else (if n
     < 18 then req_case_17 else req_case_18)) else (if n < 20 then req_case_19 else (if n < 21 then req_case_20 else
     req_case_21))))) else (if n < 33 then (if n < 27 then (if n < 24 then (if n < 23 then req_case_22 else req_case_23) else (if
     n < 25 then req_case_24 else (if n < 26 then req_case_25 else req_case_26))) else (if n < 30 then (if n < 28 then req_case_27
     else (if n < 29 then req_case_28 else req_case_29)) else (if n < 31 then req_case_30 else (if n < 32 then req_case_31 else
     req_case_32)))) else (if n < 38 then (if n < 35 then (if n < 34 then req_case_33 else req_case_34) else (if n < 36 then
     req_case_35 else (if n < 37 then req_case_36 else req_case_37))) else (if n < 41 then (if n < 39 then req_case_38 else (if n
     < 40 then req_case_39 else req_case_40)) else (if n < 42 then req_case_41 else (if n < 43 then req_case_42 else
     req_case_43)))))) else (if n < 66 then (if n < 55 then (if n < 49 then (if n < 46 then (if n < 45 then req_case_44 else
     req_case_45) else (if n < 47 then req_case_46 else (if n < 48 then req_case_47 else req_case_48))) else (if n < 52 then (if n
     < 50 then req_case_49 else (if n < 51 then req_case_50 else req_case_51)) else (if n < 53 then req_case_52 else (if n < 54
     then req_case_53 else req_case_54)))) else (if n < 60 then (if n < 57 then (if n < 56 then req_case_55 else req_case_56) else
     (if n < 58 then req_case_57 else (if n < 59 then req_case_58 else req_case_59))) else (if n < 63 then (if n < 61 then
     req_case_60 else (if n < 62 then req_case_61 else req_case_62)) else (if n < 64 then req_case_63 else (if n < 65 then
     req_case_64 else req_case_65))))) else (if n < 77 then (if n < 71 then (if n < 68 then (if n < 67 then req_case_66 else
     req_case_67) else (if n < 69 then req_case_68 else (if n < 70 then req_case_69 else req_case_70))) else (if n < 74 then (if n
     < 72 then req_case_71 else (if n < 73 then req_case_72 else req_case_73)) else (if n < 75 then req_case_74 else (if n < 76
     then req_case_75 else req_case_76)))) else (if n < 82 then (if n < 79 then (if n < 78 then req_case_77 else req_case_78) else
     (if n < 80 then req_case_79 else (if n < 81 then req_case_80 else req_case_81))) else (if n < 85 then (if n < 83 then
     req_case_82 else (if n < 84 then req_case_83 else req_case_84)) else (if n < 86 then req_case_85 else (if n < 87 then
     req_case_86 else req_case_87))))))) else (if n < 131 then (if n < 109 then (if n < 98 then (if n < 93 then (if n < 90 then
     (if n < 89 then req_case_88 else req_case_89) else (if n < 91 then req_case_90 else (if n < 92 then req_case_91 else
     req_case_92))) else (if n < 95 then (if n < 94 then req_case_93 else req_case_94) else (if n < 96 then req_case_95 else (if n
     < 97 then req_case_96 else req_case_97)))) else (if n < 103 then (if n < 100 then (if n < 99 then req_case_98 else
     req_case_99) else (if n < 101 then req_case_100 else (if n < 102 then req_case_101 else req_case_102))) else (if n < 106 then
     (if n < 104 then req_case_103 else (if n < 105 then req_case_104 else req_case_105)) else (if n < 107 then req_case_106 else
     (if n < 108 then req_case_107 else req_case_108))))) else (if n < 120 then (if n < 114 then (if n < 111 then (if n < 110 then
     req_case_109 else req_case_110) else (if n < 112 then req_case_111 else (if n < 113 then req_case_112 else req_case_113)))
     else (if n < 117 then (if n < 115 then req_case_114 else (if n < 116 then req_case_115 else req_case_116)) else (if n < 118
     then req_case_117 else (if n < 119 then req_case_118 else req_case_119)))) else (if n < 125 then (if n < 122 then (if n < 121
     then req_case_120 else req_case_121) else (if n < 123 then req_case_122 else (if n < 124 then req_case_123 else
     req_case_124))) else (if n < 128 then (if n < 126 then req_case_125 else (if n < 127 then req_case_126 else req_case_127))
     else (if n < 129 then req_case_128 else (if n < 130 then req_case_129 else req_case_130)))))) else (if n < 153 then (if n <
     142 then (if n < 136 then (if n < 133 then (if n < 132 then req_case_131 else req_case_132) else (if n < 134 then
     req_case_133 else (if n < 135 then req_case_134 else req_case_135))) else (if n < 139 then (if n < 137 then req_case_136 else
     (if n < 138 then req_case_137 else req_case_138)) else (if n < 140 then req_case_139 else (if n < 141 then req_case_140 else
     req_case_141)))) else (if n < 147 then (if n < 144 then (if n < 143 then req_case_142 else req_case_143) else (if n < 145
     then req_case_144 else (if n < 146 then req_case_145 else req_case_146))) else (if n < 150 then (if n < 148 then req_case_147
     else (if n < 149 then req_case_148 else req_case_149)) else (if n < 151 then req_case_150 else (if n < 152 then req_case_151
     else req_case_152))))) else (if n < 164 then (if n < 158 then (if n < 155 then (if n < 154 then req_case_153 else
     req_case_154) else (if n < 156 then req_case_155 else (if n < 157 then req_case_156 else req_case_157))) else (if n < 161
     then (if n < 159 then req_case_158 else (if n < 160 then req_case_159 else req_case_160)) else (if n < 162 then req_case_161
     else (if n < 163 then req_case_162 else req_case_163)))) else (if n < 169 then (if n < 166 then (if n < 165 then req_case_164
     else req_case_165) else (if n < 167 then req_case_166 else (if n < 168 then req_case_167 else req_case_168))) else (if n <
     172 then (if n < 170 then req_case_169 else (if n < 171 then req_case_170 else req_case_171)) else (if n < 173 then
     req_case_172 else (if n < 174 then req_case_173 else req_case_174)))))))) else (if n < 262 then (if n < 218 then (if n < 196
     then (if n < 185 then (if n < 180 then (if n < 177 then (if n < 176 then req_case_175 else req_case_176) else (if n < 178
     then req_case_177 else (if n < 179 then req_case_178 else req_case_179))) else (if n < 182 then (if n < 181 then req_case_180
     else req_case_181) else (if n < 183 then req_case_182 else (if n < 184 then req_case_183 else req_case_184)))) else (if n <
     190 then (if n < 187 then (if n < 186 then req_case_185 else req_case_186) else (if n < 188 then req_case_187 else (if n <
     189 then req_case_188 else req_case_189))) else (if n < 193 then (if n < 191 then req_case_190 else (if n < 192 then
     req_case_191 else req_case_192)) else (if n < 194 then req_case_193 else (if n < 195 then req_case_194 else req_case_195)))))
     else (if n < 207 then (if n < 201 then (if n < 198 then (if n < 197 then req_case_196 else req_case_197) else (if n < 199
     then req_case_198 else (if n < 200 then req_case_199 else req_case_200))) else (if n < 204 then (if n < 202 then req_case_201
     else (if n < 203 then req_case_202 else req_case_203)) else (if n < 205 then req_case_204 else (if n < 206 then req_case_205
     else req_case_206)))) else (if n < 212 then (if n < 209 then (if n < 208 then req_case_207 else req_case_208) else (if n <
     210 then req_case_209 else (if n < 211 then req_case_210 else req_case_211))) else (if n < 215 then (if n < 213 then
     req_case_212 else (if n < 214 then req_case_213 else req_case_214)) else (if n < 216 then req_case_215 else (if n < 217 then
     req_case_216 else req_case_217)))))) else (if n < 240 then (if n < 229 then (if n < 223 then (if n < 220 then (if n < 219
     then req_case_218 else req_case_219) else (if n < 221 then req_case_220 else (if n < 222 then req_case_221 else
     req_case_222))) else (if n < 226 then (if n < 224 then req_case_223 else (if n < 225 then req_case_224 else req_case_225))
     else (if n < 227 then req_case_226 else (if n < 228 then req_case_227 else req_case_228)))) else (if n < 234 then (if n < 231
     then (if n < 230 then req_case_229 else req_case_230) else (if n < 232 then req_case_231 else (if n < 233 then req_case_232
     else req_case_233))) else (if n < 237 then (if n < 235 then req_case_234 else (if n < 236 then req_case_235 else
     req_case_236)) else (if n < 238 then req_case_237 else (if n < 239 then req_case_238 else req_case_239))))) else (if n < 251
     then (if n < 245 then (if n < 242 then (if n < 241 then req_case_240 else req_case_241) else (if n < 243 then req_case_242
     else (if n < 244 then req_case_243 else req_case_244))) else (if n < 248 then (if n < 246 then req_case_245 else (if n < 247
     then req_case_246 else req_case_247)) else (if n < 249 then req_case_248 else (if n < 250 then req_case_249 else
     req_case_250)))) else (if n < 256 then (if n < 253 then (if n < 252 then req_case_251 else req_case_252) else (if n < 254
     then req_case_253 else (if n < 255 then req_case_254 else req_case_255))) else (if n < 259 then (if n < 257 then req_case_256
     else (if n < 258 then req_case_257 else req_case_258)) else (if n < 260 then req_case_259 else (if n < 261 then req_case_260
     else req_case_261))))))) else (if n < 306 then (if n < 284 then (if n < 273 then (if n < 267 then (if n < 264 then (if n <
     263 then req_case_262 else req_case_263) else (if n < 265 then req_case_264 else (if n < 266 then req_case_265 else
     req_case_266))) else (if n < 270 then (if n < 268 then req_case_267 else (if n < 269 then req_case_268 else req_case_269))
     else (if n < 271 then req_case_270 else (if n < 272 then req_case_271 else req_case_272)))) else (if n < 278 then (if n < 275
     then (if n < 274 then req_case_273 else req_case_274) else (if n < 276 then req_case_275 else (if n < 277 then req_case_276
     else req_case_277))) else (if n < 281 then (if n < 279 then req_case_278 else (if n < 280 then req_case_279 else
     req_case_280)) else (if n < 282 then req_case_281 else (if n < 283 then req_case_282 else req_case_283))))) else (if n < 295
     then (if n < 289 then (if n < 286 then (if n < 285 then req_case_284 else req_case_285) else (if n < 287 then req_case_286
     else (if n < 288 then req_case_287 else req_case_288))) else (if n < 292 then (if n < 290 then req_case_289 else (if n < 291
     then req_case_290 else req_case_291)) else (if n < 293 then req_case_292 else (if n < 294 then req_case_293 else
     req_case_294)))) else (if n < 300 then (if n < 297 then (if n < 296 then req_case_295 else req_case_296) else (if n < 298
     then req_case_297 else (if n < 299 then req_case_298 else req_case_299))) else (if n < 303 then (if n < 301 then req_case_300
     else (if n < 302 then req_case_301 else req_case_302)) else (if n < 304 then req_case_303 else (if n < 305 then req_case_304
     else req_case_305)))))) else (if n < 328 then (if n < 317 then (if n < 311 then (if n < 308 then (if n < 307 then
     req_case_306 else req_case_307) else (if n < 309 then req_case_308 else (if n < 310 then req_case_309 else req_case_310)))
     else (if n < 314 then (if n < 312 then req_case_311 else (if n < 313 then req_case_312 else req_case_313)) else (if n < 315
     then req_case_314 else (if n < 316 then req_case_315 else req_case_316)))) else (if n < 322 then (if n < 319 then (if n < 318
     then req_case_317 else req_case_318) else (if n < 320 then req_case_319 else (if n < 321 then req_case_320 else
     req_case_321))) else (if n < 325 then (if n < 323 then req_case_322 else (if n < 324 then req_case_323 else req_case_324))
     else (if n < 326 then req_case_325 else (if n < 327 then req_case_326 else req_case_327))))) else (if n < 339 then (if n <
     333 then (if n < 330 then (if n < 329 then req_case_328 else req_case_329) else (if n < 331 then req_case_330 else (if n <
     332 then req_case_331 else req_case_332))) else (if n < 336 then (if n < 334 then req_case_333 else (if n < 335 then
     req_case_334 else req_case_335)) else (if n < 337 then req_case_336 else (if n < 338 then req_case_337 else req_case_338))))
     else (if n < 344 then (if n < 341 then (if n < 340 then req_case_339 else req_case_340) else (if n < 342 then req_case_341
     else (if n < 343 then req_case_342 else req_case_343))) else (if n < 347 then (if n < 345 then req_case_344 else (if n < 346
     then req_case_345 else req_case_346)) else (if n < 348 then req_case_347 else (if n < 349 then req_case_348 else
     req_case_349)))))))))"

definition req_tr :: "nat \<Rightarrow> req_action list \<times> nat" where
  "req_tr n =
     (if n < 33 then (if n < 13 then (if n < 7 then (if n < 3 then (if n < 2 then req_tr_0 else req_tr_2) else (if n < 4 then
     req_tr_3 else (if n < 6 then req_tr_4 else req_tr_6))) else (if n < 10 then (if n < 8 then req_tr_7 else (if n < 9 then
     req_tr_8 else req_tr_9)) else (if n < 11 then req_tr_10 else (if n < 12 then req_tr_11 else req_tr_12)))) else (if n < 25
     then (if n < 22 then (if n < 21 then req_tr_13 else req_tr_21) else (if n < 23 then req_tr_22 else (if n < 24 then req_tr_23
     else req_tr_24))) else (if n < 29 then (if n < 27 then req_tr_25 else (if n < 28 then req_tr_27 else req_tr_28)) else (if n <
     30 then req_tr_29 else (if n < 31 then req_tr_30 else req_tr_31))))) else (if n < 54 then (if n < 42 then (if n < 36 then (if
     n < 34 then req_tr_33 else req_tr_34) else (if n < 37 then req_tr_36 else (if n < 39 then req_tr_37 else req_tr_39))) else
     (if n < 45 then (if n < 43 then req_tr_42 else (if n < 44 then req_tr_43 else req_tr_44)) else (if n < 47 then req_tr_45 else
     (if n < 53 then req_tr_47 else req_tr_53)))) else (if n < 204 then (if n < 58 then (if n < 55 then req_tr_54 else (if n < 56
     then req_tr_55 else req_tr_56)) else (if n < 59 then req_tr_58 else (if n < 203 then req_tr_59 else req_tr_203))) else (if n
     < 228 then (if n < 224 then req_tr_204 else (if n < 227 then req_tr_224 else req_tr_227)) else (if n < 232 then req_tr_228
     else (if n < 235 then req_tr_232 else req_tr_235))))))"

lemma req_tr_values:
  "req_tr 0 = ([Q_Mark], 2)"
  "req_tr 2 = ([Q_Mark], 194)"
  "req_tr 3 = ([Q_Mark], 198)"
  "req_tr 4 = ([Q_Request_Method], 3)"
  "req_tr 6 = ([Q_Mark, Q_Request_Path, Q_Request_Uri], 4)"
  "req_tr 7 = ([Q_Mark], 19)"
  "req_tr 8 = ([Q_Mark, Q_Request_Path, Q_Request_Uri], 20)"
  "req_tr 9 = ([Q_Mark], 24)"
  "req_tr 10 = ([Q_Mark], 33)"
  "req_tr 11 = ([Q_Mark, Q_Request_Path], 29)"
  "req_tr 12 = ([Q_Mark], 173)"
  "req_tr 13 = ([Q_Mark], 5)"
  "req_tr 21 = ([Q_Http_Version], 13)"
  "req_tr 22 = ([Q_Http_Version], 17)"
  "req_tr 23 = ([Q_Start_Field], 14)"
  "req_tr 24 = ([Q_Start_Field, Q_Done], 348)"
  "req_tr 25 = ([Q_Start_Field], 18)"
  "req_tr 27 = ([Q_Write_Field], 15)"
  "req_tr 28 = ([Q_Start_Value], 16)"
  "req_tr 29 = ([Q_Start_Value], 15)"
  "req_tr 30 = ([Q_Start_Value, Q_Write_Value], 13)"
  "req_tr 31 = ([Q_Start_Value, Q_Write_Value], 17)"
  "req_tr 33 = ([Q_Write_Value], 13)"
  "req_tr 34 = ([Q_Write_Value], 17)"
  "req_tr 36 = ([Q_Done], 348)"
  "req_tr 37 = ([Q_Request_Path, Q_Request_Uri], 4)"
  "req_tr 39 = ([Q_Request_Path, Q_Request_Uri], 20)"
  "req_tr 42 = ([Q_Request_Path], 29)"
  "req_tr 43 = ([Q_Mark], 21)"
  "req_tr 44 = ([Q_Mark, Q_Fragment], 4)"
  "req_tr 45 = ([Q_Mark], 22)"
  "req_tr 47 = ([Q_Fragment], 4)"
  "req_tr 53 = ([Q_Start_Query], 30)"
  "req_tr 54 = ([Q_Start_Query, Q_Query_String, Q_Request_Uri], 4)"
  "req_tr 55 = ([Q_Start_Query, Q_Query_String, Q_Request_Uri], 20)"
  "req_tr 56 = ([Q_Start_Query], 31)"
  "req_tr 58 = ([Q_Query_String, Q_Request_Uri], 4)"
  "req_tr 59 = ([Q_Query_String, Q_Request_Uri], 20)"
  "req_tr 203 = ([Q_Mark], 26)"
  "req_tr 204 = ([Q_Mark], 27)"
  "req_tr 224 = ([Q_Request_Path], 196)"
  "req_tr 227 = ([Q_Xml, Q_Done], 349)"
  "req_tr 228 = ([Q_Request_Path], 199)"
  "req_tr 232 = ([Q_Mark], 200)"
  "req_tr 235 = ([Q_Json, Q_Done], 349)"
  by (simp_all add: req_tr_def req_tr_0_def req_tr_2_def req_tr_3_def req_tr_4_def req_tr_6_def req_tr_7_def req_tr_8_def req_tr_9_def req_tr_10_def
    req_tr_11_def req_tr_12_def req_tr_13_def req_tr_21_def req_tr_22_def req_tr_23_def req_tr_24_def req_tr_25_def req_tr_27_def
    req_tr_28_def req_tr_29_def req_tr_30_def req_tr_31_def req_tr_33_def req_tr_34_def req_tr_36_def req_tr_37_def req_tr_39_def
    req_tr_42_def req_tr_43_def req_tr_44_def req_tr_45_def req_tr_47_def req_tr_53_def req_tr_54_def req_tr_55_def req_tr_56_def
    req_tr_58_def req_tr_59_def req_tr_203_def req_tr_204_def req_tr_224_def req_tr_227_def req_tr_228_def req_tr_232_def
    req_tr_235_def)

end
