(* ===== verification/Http11_Scanner.thy ===== *)
theory Http11_Scanner
  imports Http_Parser Http11_Machine
begin

text \<open>
  The rest of \<open>src/src/http/http11_parser.cpp\<close> and \<open>http11_parser.h\<close>: the record of the parser, what the actions of
  \<open>Http11_Machine\<close> do with it, and the functions \<open>http_parser_init\<close>, \<open>http_parser_execute\<close>, \<open>http_parser_finish\<close>,
  \<open>http_parser_has_error\<close> and \<open>http_parser_is_finished\<close>. They make the scanner of \<open>Http_Parser\<close>. The buffer is
  given as its characters, \<open>p\<close> and \<open>pe\<close> are positions in it.
\<close>

section \<open>The parser\<close>

text \<open>The callbacks that are not \<open>NULL\<close>.\<close>

datatype request_callback =
    CB_http_field | CB_request_method | CB_request_uri | CB_fragment | CB_request_path | CB_query_string |
    CB_http_version | CB_header_done

record http_parser =
  hp_cs :: nat
  hp_body_start :: nat
  hp_content_len :: int
  hp_nread :: nat
  hp_mark :: nat
  hp_field_start :: nat
  hp_field_len :: nat
  hp_query_start :: nat
  hp_xml_sent :: int
  hp_json_sent :: int
  hp_uri_relaxed :: int
  hp_callbacks :: "request_callback list"

text \<open>\<open>http_parser_init\<close> is given the memory of the parser as it is: the start of a query and \<open>uri_relaxed\<close> stay.\<close>

definition http_parser_init :: "http_parser \<Rightarrow> http_parser" where
  "http_parser_init hp =
     hp\<lparr>hp_cs := 1, hp_body_start := 0, hp_content_len := 0, hp_mark := 0, hp_nread := 0, hp_field_len := 0,
       hp_field_start := 0, hp_xml_sent := 0, hp_json_sent := 0\<rparr>"

section \<open>Actions\<close>

text \<open>A callback that is not \<open>NULL\<close> is called.\<close>

definition req_call :: "request_callback \<Rightarrow> parser_event \<Rightarrow> http_parser \<Rightarrow> parser_event list \<times> http_parser" where
  "req_call cb e hp = (if cb \<in> set (hp_callbacks hp) then [e] else [], hp)"

definition req_done :: "nat \<Rightarrow> nat \<Rightarrow> http_parser \<Rightarrow> parser_event list \<times> http_parser" where
  "req_done pe p hp =
     (if hp_xml_sent hp \<noteq> 0 \<or> hp_json_sent hp \<noteq> 0
      then ([], hp\<lparr>hp_body_start := hp_mark hp, hp_content_len := to_int32 (int (size_sub p (hp_mark hp) + 1))\<rparr>)
      else req_call CB_header_done (Header_Done (p + 1) (pe - p - 1)) (hp\<lparr>hp_body_start := p + 1\<rparr>))"

fun req_act :: "nat \<Rightarrow> nat \<Rightarrow> req_action \<Rightarrow> http_parser \<Rightarrow> parser_event list \<times> http_parser" where
  "req_act pe p Q_Mark hp = ([], hp\<lparr>hp_mark := p\<rparr>)"
| "req_act pe p Q_Start_Field hp = ([], hp\<lparr>hp_field_start := p\<rparr>)"
| "req_act pe p Q_Write_Field hp = ([], hp\<lparr>hp_field_len := LEN (hp_field_start hp) p\<rparr>)"
| "req_act pe p Q_Start_Value hp = ([], hp\<lparr>hp_mark := p\<rparr>)"
| "req_act pe p Q_Write_Value hp =
     req_call CB_http_field (Http_Field (hp_field_start hp) (hp_field_len hp) (hp_mark hp) (LEN (hp_mark hp) p)) hp"
| "req_act pe p Q_Request_Method hp = req_call CB_request_method (Request_Method (hp_mark hp) (LEN (hp_mark hp) p)) hp"
| "req_act pe p Q_Request_Uri hp = req_call CB_request_uri (Request_Uri (hp_mark hp) (LEN (hp_mark hp) p)) hp"
| "req_act pe p Q_Fragment hp = req_call CB_fragment (Fragment (hp_mark hp) (LEN (hp_mark hp) p)) hp"
| "req_act pe p Q_Start_Query hp = ([], hp\<lparr>hp_query_start := p\<rparr>)"
| "req_act pe p Q_Query_String hp =
     req_call CB_query_string (Query_String (hp_query_start hp) (LEN (hp_query_start hp) p)) hp"
| "req_act pe p Q_Http_Version hp = req_call CB_http_version (Http_Version (hp_mark hp) (LEN (hp_mark hp) p)) hp"
| "req_act pe p Q_Request_Path hp = req_call CB_request_path (Request_Path (hp_mark hp) (LEN (hp_mark hp) p)) hp"
| "req_act pe p Q_Done hp = req_done pe p hp"
| "req_act pe p Q_Xml hp = ([], hp\<lparr>hp_xml_sent := 1\<rparr>)"
| "req_act pe p Q_Json hp = ([], hp\<lparr>hp_json_sent := 1\<rparr>)"

definition req_machine :: "(req_action, http_parser, parser_event) machine" where
  "req_machine =
     \<lparr>mc_last = 349, mc_case = (\<lambda>cs hp c. req_case cs (hp_uri_relaxed hp \<noteq> 0) (byte_val c)), mc_tr = req_tr,
      mc_breaks = (\<lambda>a. a = Q_Done), mc_act = req_act\<rparr>"

section \<open>Running it\<close>

definition http_parser_has_error :: "http_parser \<Rightarrow> bool" where
  "http_parser_has_error hp \<longleftrightarrow> hp_cs hp = 0"

definition http_parser_is_finished :: "http_parser \<Rightarrow> bool" where
  "http_parser_is_finished hp \<longleftrightarrow> 348 \<le> hp_cs hp"

definition http_parser_finish :: "http_parser \<Rightarrow> int" where
  "http_parser_finish hp = (if http_parser_has_error hp then - 1 else if http_parser_is_finished hp then 1 else 0)"

definition begin_execute :: "http_parser \<Rightarrow> http_parser" where
  "begin_execute hp = hp\<lparr>hp_nread := 0, hp_mark := 0, hp_field_len := 0, hp_field_start := 0\<rparr>"

text \<open>The assertions before and after the run; a failing one ends the program, \<open>None\<close>. Lengths are cast to
  \<open>int\<close> in one of them.\<close>

definition entry_asserts :: "nat \<Rightarrow> nat \<Rightarrow> bool" where
  "entry_asserts len off \<longleftrightarrow> off \<le> len \<and> int len - int off = to_int32 (int len) - to_int32 (int off)"

definition exit_asserts :: "nat \<Rightarrow> http_parser \<Rightarrow> bool" where
  "exit_asserts len hp \<longleftrightarrow>
     hp_nread hp \<le> len \<and> hp_body_start hp \<le> len \<and> hp_mark hp < len \<and> hp_field_len hp \<le> len \<and> hp_field_start hp < len"

definition http_parser_execute ::
    "string \<Rightarrow> nat \<Rightarrow> nat \<Rightarrow> http_parser \<Rightarrow> ((parser_event list \<times> nat) \<times> http_parser) option" where
  "http_parser_execute data len off hp =
     (if len = 0 then Some (([], 0), hp)
      else if \<not> entry_asserts len off then None
      else
        (let hp1 = begin_execute hp;
             (es, (q, t), hp2) = scan req_machine len off (hp_cs hp) (take (len - off) (drop off data)) hp1;
             hp3 = (if http_parser_has_error hp2 then hp2 else hp2\<lparr>hp_cs := t\<rparr>);
             hp4 = hp3\<lparr>hp_nread := hp_nread hp3 + (q - off)\<rparr>
         in if q \<le> len \<and> exit_asserts len hp4 then Some ((es, hp_nread hp4), hp4) else None))"

text \<open>The constructor of \<open>HttpRequestParser\<close> registers every callback. The scanner runs from the start of its
  buffer; \<open>request_execute_total\<close> is why there is nothing to say of an assertion that fails.\<close>

definition all_callbacks :: "request_callback list" where
  "all_callbacks = [CB_request_method, CB_request_uri, CB_fragment, CB_request_path, CB_query_string, CB_http_version,
     CB_header_done, CB_http_field]"

definition http11_scanner :: "http_parser \<Rightarrow> http_parser scanner" where
  "http11_scanner memory =
     \<lparr>sc_init = (http_parser_init memory)\<lparr>hp_callbacks := all_callbacks\<rparr>,
      sc_execute = (\<lambda>hp data len. case http_parser_execute data len 0 hp of Some r \<Rightarrow> r | None \<Rightarrow> (([], 0), hp)),
      sc_finish = http_parser_finish,
      sc_has_error = http_parser_has_error\<rparr>"

section \<open>Where the states of a query and of a field are entered\<close>

text \<open>In the states 30 to 32 a query has been started, in 15 and 16 the name of a field is known. A transition comes
  into them from outside only with the actions that make this so, and the actions that use it come from there.\<close>

definition query_state :: "nat \<Rightarrow> bool" where "query_state t \<longleftrightarrow> 30 \<le> t \<and> t \<le> 32"
definition value_state :: "nat \<Rightarrow> bool" where "value_state t \<longleftrightarrow> 15 \<le> t \<and> t \<le> 16"

fun flows :: "bool \<Rightarrow> bool \<Rightarrow> req_action list \<Rightarrow> nat \<Rightarrow> bool" where
  "flows q v [] t \<longleftrightarrow> (query_state t \<longrightarrow> q) \<and> (value_state t \<longrightarrow> v)"
| "flows q v (a # as) t \<longleftrightarrow>
     (a = Q_Query_String \<longrightarrow> q) \<and> (a = Q_Write_Value \<longrightarrow> v)
     \<and> flows (q \<or> a = Q_Start_Query) (v \<and> a \<noteq> Q_Start_Field \<or> a = Q_Write_Field) as t"

lemma flows_more: "flows q v as t \<Longrightarrow> q \<le> q' \<Longrightarrow> v \<le> v' \<Longrightarrow> flows q' v' as t"
proof (induction as arbitrary: q v q' v')
  case (Cons a as)
  have "flows (q' \<or> a = Q_Start_Query) (v' \<and> a \<noteq> Q_Start_Field \<or> a = Q_Write_Field) as t"
    by (rule Cons.IH [of "q \<or> a = Q_Start_Query" "v \<and> a \<noteq> Q_Start_Field \<or> a = Q_Write_Field"]) (use Cons.prems in auto)
  then show ?case using Cons.prems by auto
qed auto

fun label_flow :: "nat \<Rightarrow> label \<Rightarrow> bool" where
  "label_flow cs (St t) \<longleftrightarrow> flows (query_state cs) (value_state cs) [] t"
| "label_flow cs (Tr n) \<longleftrightarrow> flows (query_state cs) (value_state cs) (fst (req_tr n)) (snd (req_tr n))"

lemma flow_if: "label_flow n a \<Longrightarrow> label_flow n b \<Longrightarrow> label_flow n (if c then a else b)"
  by simp

lemma flow_both: "label_flow n a \<Longrightarrow> label_flow n b \<Longrightarrow> label_flow n (if c then a else b) = True"
  by simp

lemma flow_tree:
  "(n < k \<Longrightarrow> label_flow n (f r c)) \<Longrightarrow> (\<not> n < k \<Longrightarrow> label_flow n (g r c)) \<Longrightarrow> label_flow n ((if n < k then f else g) r c)"
  by simp

lemma flow_St: "t < 15 \<or> 16 < t \<and> t < 30 \<or> 32 < t \<Longrightarrow> label_flow n (St t)"
  by (auto simp: query_state_def value_state_def)

lemma flow_special:
  "n = 14 \<Longrightarrow> label_flow n (req_case_14 r c)" "n = 15 \<Longrightarrow> label_flow n (req_case_15 r c)"
  "n = 16 \<Longrightarrow> label_flow n (req_case_16 r c)" "n = 18 \<Longrightarrow> label_flow n (req_case_18 r c)"
  "n = 29 \<Longrightarrow> label_flow n (req_case_29 r c)" "n = 30 \<Longrightarrow> label_flow n (req_case_30 r c)"
  "n = 31 \<Longrightarrow> label_flow n (req_case_31 r c)" "n = 32 \<Longrightarrow> label_flow n (req_case_32 r c)"
  "n = 348 \<Longrightarrow> label_flow n (req_case_348 r c)"
  by (unfold req_case_14_def req_case_15_def req_case_16_def req_case_18_def req_case_29_def req_case_30_def
      req_case_31_def req_case_32_def req_case_348_def Let_def; intro flow_if;
    simp add: query_state_def value_state_def req_tr_values)+

text \<open>The other transitions need nothing of the state they come from.\<close>

lemma flow_Tr: "req_tr k = (as, t) \<Longrightarrow> flows False False as t \<Longrightarrow> label_flow n (Tr k) = True"
  by (auto intro: flows_more)

lemma req_flow: "0 < n \<Longrightarrow> n \<le> 349 \<Longrightarrow> label_flow n (req_case n r c)"
  unfolding req_case_def
  by (intro flow_tree;
      ((rule flow_special, simp)
       | (simp (no_asm) only: req_cases Let_def,
          (simp (no_asm) add: flow_both flow_St flow_Tr query_state_def value_state_def req_tr_values del: label_flow.simps)?)))

section \<open>Every token lies in the buffer\<close>

fun in_buffer :: "nat \<Rightarrow> parser_event \<Rightarrow> bool" where
  "in_buffer len (Http_Field f fl v vl) \<longleftrightarrow> f + fl \<le> len \<and> v + vl \<le> len"
| "in_buffer len (Request_Method at n) \<longleftrightarrow> at + n \<le> len"
| "in_buffer len (Request_Uri at n) \<longleftrightarrow> at + n \<le> len"
| "in_buffer len (Fragment at n) \<longleftrightarrow> at + n \<le> len"
| "in_buffer len (Request_Path at n) \<longleftrightarrow> at + n \<le> len"
| "in_buffer len (Query_String at n) \<longleftrightarrow> at + n \<le> len"
| "in_buffer len (Http_Version at n) \<longleftrightarrow> at + n \<le> len"
| "in_buffer len (Header_Done at n) \<longleftrightarrow> at + n \<le> len"
| "in_buffer len (Reason_Phrase at n) \<longleftrightarrow> at + n \<le> len"
| "in_buffer len (Status_Code at n) \<longleftrightarrow> at + n \<le> len"
| "in_buffer len (Chunk_Size at n) \<longleftrightarrow> at + n \<le> len"
| "in_buffer len (Last_Chunk at n) \<longleftrightarrow> at + n \<le> len"

definition req_inv :: "nat \<Rightarrow> nat \<Rightarrow> nat \<Rightarrow> http_parser \<Rightarrow> bool" where
  "req_inv pe p cs hp \<longleftrightarrow>
     hp_mark hp \<le> p - 1 \<and> hp_field_start hp \<le> p - 1 \<and> hp_field_len hp \<le> p \<and> hp_body_start hp \<le> pe \<and> hp_nread hp = 0
     \<and> (query_state cs \<longrightarrow> hp_query_start hp \<le> p) \<and> (value_state cs \<longrightarrow> hp_field_start hp + hp_field_len hp \<le> p)"

text \<open>Within a transition, at position \<open>p\<close>: \<open>q\<close> says that a query has been started, \<open>v\<close> that a field has its name.\<close>

definition act_inv :: "nat \<Rightarrow> nat \<Rightarrow> bool \<Rightarrow> bool \<Rightarrow> http_parser \<Rightarrow> bool" where
  "act_inv pe p q v hp \<longleftrightarrow>
     hp_mark hp \<le> p \<and> hp_field_start hp \<le> p \<and> hp_field_len hp \<le> p \<and> hp_body_start hp \<le> pe \<and> hp_nread hp = 0
     \<and> (q \<longrightarrow> hp_query_start hp \<le> p) \<and> (v \<longrightarrow> hp_field_start hp + hp_field_len hp \<le> p)"

lemma act_keeps:
  assumes "act_inv pe p q v hp" "p < pe" "a = Q_Query_String \<longrightarrow> q" "a = Q_Write_Value \<longrightarrow> v" "req_act pe p a hp = (es, hp')"
  shows "act_inv pe p (q \<or> a = Q_Start_Query) (v \<and> a \<noteq> Q_Start_Field \<or> a = Q_Write_Field) hp' \<and> list_all (in_buffer pe) es"
  using assms by (cases a) (auto simp: act_inv_def req_call_def req_done_def LEN_def split: if_splits)

lemma actions_keep:
  "act_inv pe p q v hp \<Longrightarrow> p < pe \<Longrightarrow> flows q v as t \<Longrightarrow> do_actions req_machine pe p as hp = (es, hp')
    \<Longrightarrow> req_inv pe (p + 1) t hp' \<and> list_all (in_buffer pe) es"
proof (induction as arbitrary: q v hp es)
  case Nil
  then show ?case by (auto simp: act_inv_def req_inv_def)
next
  case (Cons a as)
  obtain es1 hp1 es2 where "req_act pe p a hp = (es1, hp1)" "do_actions req_machine pe p as hp1 = (es2, hp')" "es = es1 @ es2"
    using Cons.prems(4) by (auto simp: req_machine_def split: prod.splits)
  note steps = this
  have first: "act_inv pe p (q \<or> a = Q_Start_Query) (v \<and> a \<noteq> Q_Start_Field \<or> a = Q_Write_Field) hp1 \<and> list_all (in_buffer pe) es1"
    using Cons.prems(1-3) steps(1) by (intro act_keeps) simp_all
  have "req_inv pe (p + 1) t hp' \<and> list_all (in_buffer pe) es2"
    using Cons.prems(2,3) first steps(2)
    by (intro Cons.IH [of "q \<or> a = Q_Start_Query" "v \<and> a \<noteq> Q_Start_Field \<or> a = Q_Write_Field" hp1]) simp_all
  then show ?case using first steps(3) by simp
qed

lemma req_move_keeps:
  assumes inv: "req_inv pe p cs hp" and "p < pe" and m: "move req_machine pe p cs c hp = (es, (go, q, t), hp')"
  shows "req_inv pe q t hp' \<and> list_all (in_buffer pe) es"
proof (cases "cs = 0 \<or> 349 < cs")
  case True
  then show ?thesis using assms by (auto simp: move_def req_machine_def)
next
  case False
  then have flow: "label_flow cs (req_case cs (hp_uri_relaxed hp \<noteq> 0) (byte_val c))" using req_flow by simp
  show ?thesis
  proof (cases "req_case cs (hp_uri_relaxed hp \<noteq> 0) (byte_val c)")
    case (St k)
    then have "flows (query_state cs) (value_state cs) [] k" using flow by simp
    then show ?thesis using False St assms
      by (auto simp: move_def req_machine_def req_inv_def query_state_def value_state_def split: if_splits)
  next
    case (Tr k)
    then have "flows (query_state cs) (value_state cs) (fst (req_tr k)) (snd (req_tr k))" using flow by simp
    moreover have "act_inv pe p (query_state cs) (value_state cs) hp" using inv by (auto simp: req_inv_def act_inv_def)
    ultimately show ?thesis using False Tr m actions_keep [of pe p "query_state cs" "value_state cs" hp _ t es hp'] \<open>p < pe\<close>
      by (auto simp: move_def req_machine_def split: prod.splits)
  qed
qed

interpretation req: scan_invariant req_machine req_inv in_buffer
  by unfold_locales (rule req_move_keeps)

lemma execute_total:
  assumes "\<not> query_state (hp_cs hp)" "hp_body_start hp \<le> len" "len \<le> length data" "len < 2 ^ 31"
  shows "\<exists>es n hp'. http_parser_execute data len 0 hp = Some ((es, n), hp')
    \<and> n \<le> len \<and> hp_body_start hp' \<le> len \<and> list_all (in_buffer len) es"
proof (cases "len = 0")
  case True
  then show ?thesis using assms(2) by (simp add: http_parser_execute_def)
next
  case False
  obtain es q t hp2 where s: "scan req_machine len 0 (hp_cs hp) (take len data) (begin_execute hp) = (es, (q, t), hp2)"
    by (metis prod.exhaust)
  have "req_inv len 0 (hp_cs hp) (begin_execute hp)"
    using assms(1,2) by (simp add: req_inv_def begin_execute_def)
  then have "req_inv len q t hp2 \<and> list_all (in_buffer len) es \<and> 0 \<le> q \<and> q \<le> 0 + length (take len data)"
    by (rule req.scan_keeps [OF _ _ s]) (use assms(3) in simp)
  moreover have "to_int32 (int len) = int len"
    using assms(4) by (simp add: to_int32_small)
  moreover have "to_int32 0 = 0" by (simp add: to_int32_small)
  ultimately show ?thesis using False assms(3) s
    by (auto simp: http_parser_execute_def entry_asserts_def exit_asserts_def req_inv_def Let_def)
qed

section \<open>Properties\<close>



text \<open>In the middle of a query a read starts with the offset that the last buffer left behind. When it is behind
  what the rest of the query takes here, the length reported for the query is the difference as a \<open>size_t\<close>,
  close to 2 to the 64.\<close>

definition query_char :: "char \<Rightarrow> bool" where
  "query_char c \<longleftrightarrow> (let b = byte_val c in
     b < 0 \<or> b = 33 \<or> 36 \<le> b \<and> b \<le> 59 \<and> b \<noteq> 37 \<or> b = 61 \<or> 63 \<le> b \<and> b \<le> 90 \<or> b = 95 \<or> 97 \<le> b \<and> b \<le> 122 \<or> b = 126)"

lemma widec_same: "c \<noteq> 94 \<Longrightarrow> c \<noteq> 123 \<Longrightarrow> c \<noteq> 125 \<Longrightarrow> widec r c = c"
  by (auto simp: widec_def)

lemma query_loop: "query_char c \<Longrightarrow> mc_case req_machine 30 hp c = St 30"
  by (auto simp: query_char_def req_machine_def req_case_def req_case_30_def Let_def widec_same)

theorem split_query_wraps:
  assumes "hp_cs hp = 30" "\<forall>c \<in> set xs. query_char c" "length xs < hp_query_start hp" "hp_query_start hp < 2 ^ 64"
    and "CB_query_string \<in> set (hp_callbacks hp)" "hp_body_start hp = 0" "length xs + 1 < 2 ^ 31"
  shows "\<exists>es hp'. http_parser_execute (xs @ '' '') (length xs + 1) 0 hp
    = Some ((Query_String (hp_query_start hp) (2 ^ 64 - (hp_query_start hp - length xs)) # es, length xs + 1), hp')"
proof -
  have "mc_case req_machine 30 (begin_execute hp) (CHR '' '') = Tr 58"
    by (simp add: req_machine_def req_case_def req_case_30_def byte_val_def widec_def)
  moreover have "\<forall>c \<in> set xs. mc_case req_machine 30 (begin_execute hp) c = St 30" using assms(2) query_loop by simp
  moreover have "to_int32 (int (length xs) + 1) = int (length xs) + 1" "to_int32 0 = 0"
    using assms(7) by (simp_all add: to_int32_small)
  ultimately show ?thesis using assms
    by (simp add: http_parser_execute_def entry_asserts_def exit_asserts_def scan_loop move_def req_machine_def req_tr_values
        req_call_def LEN_def begin_execute_def size_sub_def Let_def http_parser_has_error_def add.commute)
qed

definition in_query :: http_parser where
  "in_query = \<lparr>hp_cs = 30, hp_body_start = 0, hp_content_len = 0, hp_nread = 10, hp_mark = 4, hp_field_start = 0,
     hp_field_len = 0, hp_query_start = 6, hp_xml_sent = 0, hp_json_sent = 0, hp_uri_relaxed = 0, hp_callbacks = all_callbacks\<rparr>"

lemma split_query_wraps_witness:
  "\<exists>es hp'. http_parser_execute (''b=2'' @ '' '') (length ''b=2'' + 1) 0 in_query
    = Some ((Query_String (hp_query_start in_query) (2 ^ 64 - (hp_query_start in_query - length ''b=2'')) # es, length ''b=2'' + 1), hp')"
  by (rule split_query_wraps) (simp_all add: in_query_def all_callbacks_def query_char_def byte_val_def)

end
