(* ===== verification/Http11_Requests.thy ===== *)
theory Http11_Requests
  imports Http11_Scanner
begin

text \<open>
  The scanner of requests on well-formed requests: what each part of a request line and of a field makes the machine
  do, the callbacks for a whole head, and what \<open>HttpRequestParser\<close> makes of them. The request line is a method of
  1 to 20 capital letters and digits, an absolute path, a query and a fragment without escapes, and a version 1.0 or 1.1.
\<close>

section \<open>Characters\<close>

definition name_char :: "char \<Rightarrow> bool" where
  "name_char c \<longleftrightarrow> (let b = byte_val c in 48 \<le> b \<and> b \<le> 57 \<or> 65 \<le> b \<and> b \<le> 90)"

definition path_char :: "char \<Rightarrow> bool" where
  "path_char c \<longleftrightarrow> query_char c \<and> byte_val c \<noteq> 63"

text \<open>The names of fields: the tokens of the grammar, and nearly every control character, line breaks included.\<close>

definition field_char :: "char \<Rightarrow> bool" where
  "field_char c \<longleftrightarrow> (let b = byte_val c in
     1 \<le> b \<and> b \<le> 8 \<or> 10 \<le> b \<and> b \<le> 31 \<or> b \<in> {33, 124, 126} \<or> 35 \<le> b \<and> b \<le> 39 \<or> b \<in> {42, 43} \<or> b \<in> {45, 46} \<or> 48 \<le> b \<and> b \<le> 57 \<or> 65 \<le> b \<and> b \<le> 90
     \<or> 94 \<le> b \<and> b \<le> 122)"

definition value_char :: "char \<Rightarrow> bool" where
  "value_char c \<longleftrightarrow> byte_val c \<notin> {0, 10, 13, 127}"

definition blank_char :: "char \<Rightarrow> bool" where
  "blank_char c \<longleftrightarrow> byte_val c \<in> {9, 32}"

lemma byte_vals:
  "byte_val (CHR '' '') = 32" "byte_val (CHR ''/'') = 47" "byte_val (CHR ''?'') = 63" "byte_val (CHR ''#'') = 35"
  "byte_val (CHR ''H'') = 72" "byte_val (CHR ''T'') = 84" "byte_val (CHR ''P'') = 80" "byte_val (CHR ''1'') = 49"
  "byte_val (CHR ''0'') = 48" "byte_val (CHR ''.'') = 46" "byte_val (CHR '':'') = 58" "byte_val (CHR 0x0D) = 13"
  "byte_val (CHR 0x0A) = 10"
  by (simp_all add: byte_val_def)

lemma byte_val_inj: "byte_val c = byte_val d \<longleftrightarrow> c = d"
proof -
  have "0 \<le> (of_char x :: int) \<and> (of_char x :: int) < 256" for x :: char
    using nat_of_char_less_256 [of x] by (metis of_nat_of_char of_nat_0_le_iff of_nat_less_iff of_nat_numeral)
  from this [of c] this [of d] show ?thesis by (auto simp: byte_val_def Let_def split: if_splits)
qed

lemma byte_47: "byte_val c = 47 \<longleftrightarrow> c = CHR ''/''"
  using byte_val_inj [of c "CHR ''/''"] by (simp add: byte_vals)

section \<open>What the states do with them\<close>

text \<open>A parser with every callback, and one whose marks have moved.\<close>

definition complete :: "http_parser \<Rightarrow> bool" where
  "complete hp \<longleftrightarrow> (\<forall>cb. cb \<in> set (hp_callbacks hp)) \<and> hp_xml_sent hp = 0 \<and> hp_json_sent hp = 0"

lemma req_machine_parts [simp]:
  "mc_last req_machine = 349" "mc_tr req_machine = req_tr" "mc_breaks req_machine = (\<lambda>a. a = Q_Done)" "mc_act req_machine = req_act"
  "mc_case req_machine cs hp c = req_case cs (hp_uri_relaxed hp \<noteq> 0) (byte_val c)"
  by (simp_all add: req_machine_def)

lemma call_complete [simp]: "complete hp \<Longrightarrow> req_call cb e hp = ([e], hp)"
  by (simp add: req_call_def complete_def)

lemma complete_update [simp]:
  "complete (hp\<lparr>hp_mark := n\<rparr>) = complete hp" "complete (hp\<lparr>hp_field_start := n\<rparr>) = complete hp"
  "complete (hp\<lparr>hp_field_len := n\<rparr>) = complete hp" "complete (hp\<lparr>hp_query_start := n\<rparr>) = complete hp"
  "complete (hp\<lparr>hp_body_start := n\<rparr>) = complete hp" "complete (hp\<lparr>hp_cs := n\<rparr>) = complete hp"
  "complete (hp\<lparr>hp_nread := n\<rparr>) = complete hp"
  by (simp_all add: complete_def)

text \<open>The method: state 2 behind one character, 175 to 193 behind two to twenty.\<close>

definition method_state :: "nat \<Rightarrow> nat" where
  "method_state n = (if n \<le> 1 then n + 1 else n + 173)"

lemma method_states:
  "name_char c \<Longrightarrow> list_all (\<lambda>n. req_case (method_state n) r (byte_val c) = (if n = 0 then Tr 0 else St (method_state (n + 1)))) [0..<20]"
  "list_all (\<lambda>n. req_case (method_state n) r 32 = Tr 4) [1..<21]"
  by (auto simp: upt_rec method_state_def name_char_def Let_def req_case_def
      req_case_1_def req_case_2_def req_case_175_def req_case_176_def req_case_177_def req_case_178_def
      req_case_179_def req_case_180_def req_case_181_def req_case_182_def req_case_183_def req_case_184_def
      req_case_185_def req_case_186_def req_case_187_def req_case_188_def req_case_189_def req_case_190_def
      req_case_191_def req_case_192_def req_case_193_def)

lemma method_char:
  assumes "name_char c" "n < 20"
  shows "req_case (method_state n) r (byte_val c) = (if n = 0 then Tr 0 else St (method_state (n + 1)))"
  using method_states(1) [OF assms(1), of r] assms(2) by (simp add: list_all_iff)

lemma method_end:
  assumes "1 \<le> n" "n \<le> 20"
  shows "req_case (method_state n) r 32 = Tr 4"
  using method_states(2) [of r] assms by (simp add: list_all_iff)

lemma method_loop:
  "\<forall>c \<in> set xs. name_char c \<Longrightarrow> 1 \<le> n \<Longrightarrow> n + length xs \<le> 20
    \<Longrightarrow> scan req_machine pe p (method_state n) (xs @ ys) hp = scan req_machine pe (p + length xs) (method_state (n + length xs)) ys hp"
proof (induction xs arbitrary: n p)
  case (Cons c xs)
  have "method_state n \<noteq> 0" "method_state n \<le> 349" "method_state (n + 1) \<noteq> 0" using Cons.prems by (auto simp: method_state_def)
  then have "move req_machine pe p (method_state n) c hp = ([], (True, p + 1, method_state (n + 1)), hp)"
    using Cons.prems method_char [of c n] by (simp add: move_def)
  then show ?case using Cons.IH [of "n + 1" "p + 1"] Cons.prems by (simp add: scan_move del: scan.simps)
qed simp

lemma scan_method:
  assumes "complete hp" "xs \<noteq> []" "length xs \<le> 20" "\<forall>c \<in> set xs. name_char c"
  shows "scan req_machine pe p 1 (xs @ '' '' @ ys) hp
    = after [Request_Method p (length xs)] (scan req_machine pe (p + length xs + 1) 3 ys (hp\<lparr>hp_mark := p\<rparr>))"
proof -
  obtain c cs where xs: "xs = c # cs" using assms(2) by (cases xs) auto
  have 1: "move req_machine pe p 1 c hp = ([], (True, p + 1, 2), hp\<lparr>hp_mark := p\<rparr>)"
    using method_char [of c 0 "hp_uri_relaxed hp \<noteq> 0"] assms(4) xs by (simp add: move_def method_state_def req_tr_values)
  have n: "1 \<le> length xs" "method_state (length xs) \<noteq> 0" "method_state (length xs) \<le> 349"
    using assms(2,3) by (cases xs; simp add: method_state_def)+
  have 2: "move req_machine pe (p + length xs) (method_state (length xs)) (CHR '' '') (hp\<lparr>hp_mark := p\<rparr>)
    = ([Request_Method p (length xs)], (True, p + length xs + 1, 3), hp\<lparr>hp_mark := p\<rparr>)"
    using method_end [of "length xs"] n assms(1,3) by (simp add: move_def byte_vals req_tr_values LEN_def)
  have "scan req_machine pe (p + 1) (method_state 1) (cs @ '' '' @ ys) (hp\<lparr>hp_mark := p\<rparr>)
    = scan req_machine pe (p + length xs) (method_state (length xs)) ('' '' @ ys) (hp\<lparr>hp_mark := p\<rparr>)"
    using method_loop [of cs 1 pe "p + 1"] assms xs by simp
  then show ?thesis using scan_move [OF 1] scan_move [OF 2] xs by (simp add: method_state_def numeral_2_eq_2 del: scan.simps)
qed

declare scan.simps(2) [simp del]

section \<open>Targets\<close>

lemma scan_slash:
  "scan req_machine pe p 3 (CHR ''/'' # ys) hp = scan req_machine pe (p + 1) 33 ys (hp\<lparr>hp_mark := p\<rparr>)"
  by (simp add: scan_move move_def req_case_def req_case_3_def byte_vals widec_same req_tr_values)

lemma path_loop: "path_char c \<Longrightarrow> req_case 26 r (byte_val c) = St 26"
  by (auto simp: path_char_def query_char_def req_case_def req_case_26_def Let_def widec_same)

lemma path_first: "path_char c \<Longrightarrow> c \<noteq> CHR ''/'' \<Longrightarrow> req_case 33 r (byte_val c) = St 26"
  by (auto simp: path_char_def query_char_def req_case_def req_case_33_def Let_def widec_same byte_47)

lemma scan_path:
  assumes "\<forall>c \<in> set xs. path_char c" "xs \<noteq> [] \<longrightarrow> hd xs \<noteq> CHR ''/''"
  shows "scan req_machine pe p 33 (xs @ ys) hp = scan req_machine pe (p + length xs) (if xs = [] then 33 else 26) ys hp"
proof (cases xs)
  case (Cons c cs)
  have "move req_machine pe p 33 c hp = ([], (True, p + 1, 26), hp)"
    using path_first assms Cons by (simp add: move_def)
  moreover have "scan req_machine pe (p + 1) 26 (cs @ ys) hp = scan req_machine pe (p + 1 + length cs) 26 ys hp"
    using assms(1) Cons path_loop by (intro scan_loop) simp_all
  ultimately show ?thesis using Cons by (simp add: scan_move del: scan.simps)
qed simp

text \<open>What may follow a path, a query and a fragment.\<close>

lemma path_end:
  assumes "complete hp" "s = 26 \<or> s = 33" "hp_mark hp \<le> p"
  shows "scan req_machine pe p s (CHR '' '' # ys) hp
      = after [Request_Path (hp_mark hp) (p - hp_mark hp), Request_Uri (hp_mark hp) (p - hp_mark hp)] (scan req_machine pe (p + 1) 4 ys hp)"
    "scan req_machine pe p s (CHR ''#'' # ys) hp
      = after [Request_Path (hp_mark hp) (p - hp_mark hp), Request_Uri (hp_mark hp) (p - hp_mark hp)] (scan req_machine pe (p + 1) 20 ys hp)"
    "scan req_machine pe p s (CHR ''?'' # ys) hp
      = after [Request_Path (hp_mark hp) (p - hp_mark hp)] (scan req_machine pe (p + 1) 29 ys hp)"
  using assms(2)
  by (elim disjE; simp add: scan_move move_def req_case_def req_case_26_def req_case_33_def byte_vals widec_same req_tr_values LEN_def assms(1,3))+

lemma query_first: "query_char c \<Longrightarrow> req_case 29 r (byte_val c) = Tr 53"
  by (auto simp: query_char_def req_case_def req_case_29_def Let_def widec_same)

lemma scan_query:
  assumes "\<forall>c \<in> set xs. query_char c" "xs \<noteq> []"
  shows "scan req_machine pe p 29 (xs @ ys) hp = scan req_machine pe (p + length xs) 30 ys (hp\<lparr>hp_query_start := p\<rparr>)"
proof -
  obtain c cs where xs: "xs = c # cs" using assms(2) by (cases xs) auto
  have "move req_machine pe p 29 c hp = ([], (True, p + 1, 30), hp\<lparr>hp_query_start := p\<rparr>)"
    using query_first assms xs by (simp add: move_def req_tr_values)
  moreover have "scan req_machine pe (p + 1) 30 (cs @ ys) (hp\<lparr>hp_query_start := p\<rparr>)
    = scan req_machine pe (p + 1 + length cs) 30 ys (hp\<lparr>hp_query_start := p\<rparr>)"
    using assms(1) xs query_loop by (intro scan_loop) simp_all
  ultimately show ?thesis using xs by (simp add: scan_move del: scan.simps)
qed

lemma query_end:
  assumes "complete hp" "hp_query_start hp \<le> p" "hp_mark hp \<le> p"
  shows "scan req_machine pe p 30 (CHR '' '' # ys) hp
      = after [Query_String (hp_query_start hp) (p - hp_query_start hp), Request_Uri (hp_mark hp) (p - hp_mark hp)]
          (scan req_machine pe (p + 1) 4 ys hp)"
    "scan req_machine pe p 30 (CHR ''#'' # ys) hp
      = after [Query_String (hp_query_start hp) (p - hp_query_start hp), Request_Uri (hp_mark hp) (p - hp_mark hp)]
          (scan req_machine pe (p + 1) 20 ys hp)"
  using assms
  by (auto simp: scan_move move_def req_case_def req_case_30_def byte_vals widec_same req_tr_values LEN_def)

lemma fragment_first: "query_char c \<Longrightarrow> req_case 20 r (byte_val c) = Tr 43"
  by (auto simp: query_char_def req_case_def req_case_20_def Let_def widec_same)

lemma fragment_loop: "query_char c \<Longrightarrow> req_case 21 r (byte_val c) = St 21"
  by (auto simp: query_char_def req_case_def req_case_21_def Let_def widec_same)

lemma scan_fragment:
  assumes "complete hp" "\<forall>c \<in> set xs. query_char c" "xs \<noteq> []"
  shows "scan req_machine pe p 20 (xs @ '' '' @ ys) hp
    = after [Fragment p (length xs)] (scan req_machine pe (p + length xs + 1) 4 ys (hp\<lparr>hp_mark := p\<rparr>))"
proof -
  obtain c cs where xs: "xs = c # cs" using assms(3) by (cases xs) auto
  let ?hp = "hp\<lparr>hp_mark := p\<rparr>"
  have "move req_machine pe p 20 c hp = ([], (True, p + 1, 21), ?hp)"
    using fragment_first assms xs by (simp add: move_def req_tr_values)
  moreover have "scan req_machine pe (p + 1) 21 (cs @ '' '' @ ys) ?hp = scan req_machine pe (p + 1 + length cs) 21 ('' '' @ ys) ?hp"
    using assms(2) xs fragment_loop by (intro scan_loop) simp_all
  moreover have "move req_machine pe (p + 1 + length cs) 21 (CHR '' '') ?hp = ([Fragment p (length xs)], (True, p + 1 + length cs + 1, 4), ?hp)"
    using assms(1) xs by (simp add: move_def req_case_def req_case_21_def byte_vals widec_same req_tr_values LEN_def)
  ultimately show ?thesis using xs by (simp add: scan_move del: scan.simps)
qed

section \<open>Versions and fields\<close>

lemma plus_ten: "p + 10 = Suc (Suc (Suc (Suc (Suc (Suc (Suc (Suc (Suc (Suc p)))))))))"
  by simp

lemma scan_version:
  assumes "complete hp" "d \<in> set ''01''"
  shows "scan req_machine pe p 4 (''HTTP/1.'' @ d # crlf @ ys) hp
    = after [Http_Version p 8] (scan req_machine pe (p + 10) 13 ys (hp\<lparr>hp_mark := p\<rparr>))"
  using assms
  by (auto simp: crlf_def scan_move move_def req_case_def req_case_4_def req_case_5_def req_case_6_def req_case_7_def req_case_8_def
      req_case_9_def req_case_10_def req_case_11_def req_case_12_def req_case_17_def byte_vals req_tr_values LEN_def plus_ten)


lemma token_first: "field_char c \<Longrightarrow> byte_val c \<notin> {10, 13} \<Longrightarrow> req_case 13 r (byte_val c) = Tr 23"
  by (auto simp: field_char_def req_case_def req_case_13_def Let_def)

lemma token_loop: "field_char c \<Longrightarrow> req_case 14 r (byte_val c) = St 14"
  by (auto simp: field_char_def req_case_def req_case_14_def Let_def)

lemma value_first: "value_char c \<Longrightarrow> \<not> blank_char c \<Longrightarrow> req_case 15 r (byte_val c) = Tr 28"
  by (simp add: value_char_def blank_char_def req_case_def req_case_15_def)

lemma value_loop: "value_char c \<Longrightarrow> req_case 16 r (byte_val c) = St 16"
  by (simp add: value_char_def req_case_def req_case_16_def)

lemma scan_name:
  assumes "xs \<noteq> []" "\<forall>c \<in> set xs. field_char c" "byte_val (hd xs) \<notin> {10, 13}"
  shows "scan req_machine pe p 13 (xs @ CHR '':'' # ys) hp
    = scan req_machine pe (p + length xs + 1) 15 ys (hp\<lparr>hp_field_start := p, hp_field_len := length xs\<rparr>)"
proof -
  obtain c cs where xs: "xs = c # cs" using assms(1) by (cases xs) auto
  let ?hp = "hp\<lparr>hp_field_start := p\<rparr>"
  have "move req_machine pe p 13 c hp = ([], (True, p + 1, 14), ?hp)"
    using token_first assms xs by (simp add: move_def req_tr_values)
  moreover have "scan req_machine pe (p + 1) 14 (cs @ CHR '':'' # ys) ?hp = scan req_machine pe (p + 1 + length cs) 14 (CHR '':'' # ys) ?hp"
    using assms(2) xs token_loop by (intro scan_loop) simp_all
  moreover have "move req_machine pe (p + 1 + length cs) 14 (CHR '':'') ?hp
    = ([], (True, p + 1 + length cs + 1, 15), ?hp\<lparr>hp_field_len := length xs\<rparr>)"
    using xs by (simp add: move_def req_case_def req_case_14_def byte_vals req_tr_values LEN_def)
  ultimately show ?thesis using xs by (simp add: scan_move)
qed

lemma scan_blanks:
  "\<forall>c \<in> set xs. blank_char c \<Longrightarrow> \<exists>m. scan req_machine pe p 15 (xs @ ys) hp = scan req_machine pe (p + length xs) 15 ys (hp\<lparr>hp_mark := m\<rparr>)"
proof (induction xs arbitrary: p hp)
  case Nil
  show ?case by (intro exI [of _ "hp_mark hp"]) simp
next
  case (Cons c xs)
  have "move req_machine pe p 15 c hp = ([], (True, p + 1, 15), hp\<lparr>hp_mark := p\<rparr>)"
    using Cons.prems by (auto simp: move_def blank_char_def req_case_def req_case_15_def req_tr_values)
  then show ?case using Cons.IH [of "p + 1" "hp\<lparr>hp_mark := p\<rparr>"] Cons.prems by (simp add: scan_move)
qed

lemma scan_value:
  assumes "complete hp" "\<forall>c \<in> set xs. value_char c" "xs \<noteq> [] \<longrightarrow> \<not> blank_char (hd xs)"
  shows "scan req_machine pe p 15 (xs @ crlf @ ys) hp
    = after [Http_Field (hp_field_start hp) (hp_field_len hp) p (length xs)]
        (scan req_machine pe (p + length xs + 2) 13 ys (hp\<lparr>hp_mark := p\<rparr>))"
proof (cases xs)
  case Nil
  then show ?thesis using assms(1)
    by (simp add: crlf_def scan_move move_def req_case_def req_case_15_def req_case_17_def byte_vals req_tr_values LEN_def)
next
  case (Cons c cs)
  let ?hp = "hp\<lparr>hp_mark := p\<rparr>"
  have "move req_machine pe p 15 c hp = ([], (True, p + 1, 16), ?hp)"
    using value_first assms Cons by (simp add: move_def req_tr_values)
  moreover have "scan req_machine pe (p + 1) 16 (cs @ crlf @ ys) ?hp = scan req_machine pe (p + 1 + length cs) 16 (crlf @ ys) ?hp"
    using assms(2) Cons value_loop by (intro scan_loop) simp_all
  moreover have "scan req_machine pe (p + 1 + length cs) 16 (crlf @ ys) ?hp
    = after [Http_Field (hp_field_start hp) (hp_field_len hp) p (length xs)] (scan req_machine pe (p + 1 + length cs + 2) 13 ys ?hp)"
    using assms(1) Cons
    by (simp add: crlf_def scan_move move_def req_case_def req_case_16_def req_case_17_def byte_vals req_tr_values LEN_def)
  ultimately show ?thesis using Cons by (simp add: scan_move)
qed

lemma scan_end:
  assumes "complete hp"
  shows "scan req_machine pe p 13 (crlf @ ys) hp
    = ([Header_Done (p + 2) (pe - p - 2)], (p + 2, 348), hp\<lparr>hp_field_start := p, hp_body_start := p + 2\<rparr>)"
proof -
  have "move req_machine pe p 13 (CHR 0x0D) hp = ([], (True, p + 1, 18), hp\<lparr>hp_field_start := p\<rparr>)"
    by (simp add: move_def req_case_def req_case_13_def byte_vals req_tr_values)
  moreover have "move req_machine pe (p + 1) 18 (CHR 0x0A) (hp\<lparr>hp_field_start := p\<rparr>)
    = ([Header_Done (p + 2) (pe - p - 2)], (False, p + 2, 348), hp\<lparr>hp_field_start := p, hp_body_start := p + 2\<rparr>)"
    using assms by (simp add: move_def req_case_def req_case_18_def byte_vals req_tr_values req_done_def complete_def req_call_def)
  ultimately show ?thesis by (simp add: crlf_def scan_move scan_stop)
qed

section \<open>Requests as they are written\<close>

text \<open>A field on the wire: its name, white space, its value. The parts of a request the scanner knows.\<close>

type_synonym wire_field = "string \<times> string \<times> string"

record wire_request =
  w_method :: string
  w_path :: string
  w_query :: string
  w_fragment :: string
  w_minor :: char
  w_fields :: "wire_field list"

definition field_line :: "wire_field \<Rightarrow> string" where
  "field_line f = (case f of (k, blanks, v) \<Rightarrow> k @ '':'' @ blanks @ v @ crlf)"

definition good_field :: "wire_field \<Rightarrow> bool" where
  "good_field f \<longleftrightarrow> (case f of (k, blanks, v) \<Rightarrow>
     k \<noteq> [] \<and> list_all field_char k \<and> byte_val (hd k) \<notin> {10, 13} \<and> list_all blank_char blanks \<and> list_all value_char v
     \<and> (v \<noteq> [] \<longrightarrow> \<not> blank_char (hd v)))"

definition wire_target :: "wire_request \<Rightarrow> string" where
  "wire_target w = w_path w @ (if w_query w = [] then [] else ''?'') @ w_query w
     @ (if w_fragment w = [] then [] else ''#'') @ w_fragment w"

definition wire_text :: "wire_request \<Rightarrow> string" where
  "wire_text w = w_method w @ '' '' @ wire_target w @ '' HTTP/1.'' @ w_minor w # crlf
     @ concat (map field_line (w_fields w)) @ crlf"

text \<open>A path is absolute and does not begin with two slashes.\<close>

definition good_path :: "string \<Rightarrow> bool" where
  "good_path s \<longleftrightarrow> (\<exists>xs. s = CHR ''/'' # xs \<and> list_all path_char xs \<and> (xs \<noteq> [] \<longrightarrow> hd xs \<noteq> CHR ''/''))"

definition good_wire :: "wire_request \<Rightarrow> bool" where
  "good_wire w \<longleftrightarrow> w_method w \<noteq> [] \<and> length (w_method w) \<le> 20 \<and> list_all name_char (w_method w) \<and> good_path (w_path w)
     \<and> list_all query_char (w_query w) \<and> list_all query_char (w_fragment w) \<and> w_minor w \<in> set ''01''
     \<and> list_all good_field (w_fields w)"

text \<open>The callbacks, in their order and with their offsets.\<close>

definition target_events :: "nat \<Rightarrow> wire_request \<Rightarrow> parser_event list" where
  "target_events p w =
     (let n = length (w_path w);
          u = n + (if w_query w = [] then 0 else 1) + length (w_query w)
      in [Request_Path p n] @ (if w_query w = [] then [] else [Query_String (p + n + 1) (length (w_query w))])
         @ [Request_Uri p u] @ (if w_fragment w = [] then [] else [Fragment (p + u + 1) (length (w_fragment w))]))"

fun field_events :: "nat \<Rightarrow> wire_field list \<Rightarrow> parser_event list" where
  "field_events p [] = []"
| "field_events p ((k, blanks, v) # fs) =
     Http_Field p (length k) (p + length k + 1 + length blanks) (length v)
     # field_events (p + length (field_line (k, blanks, v))) fs"

text \<open>A parser that differs only in its offsets.\<close>

definition at_zero :: "http_parser \<Rightarrow> http_parser" where
  "at_zero hp = hp\<lparr>hp_mark := 0, hp_field_start := 0, hp_field_len := 0, hp_query_start := 0\<rparr>"

definition moved :: "http_parser \<Rightarrow> http_parser \<Rightarrow> bool" where
  "moved hp hp' \<longleftrightarrow> at_zero hp' = at_zero hp"

lemma at_zero_update [simp]:
  "at_zero (hp\<lparr>hp_mark := n\<rparr>) = at_zero hp" "at_zero (hp\<lparr>hp_field_start := n\<rparr>) = at_zero hp"
  "at_zero (hp\<lparr>hp_field_len := n\<rparr>) = at_zero hp" "at_zero (hp\<lparr>hp_query_start := n\<rparr>) = at_zero hp"
  by (simp_all add: at_zero_def)

lemma moves [simp]:
  "moved hp hp" "moved hp (hp'\<lparr>hp_mark := n\<rparr>) = moved hp hp'" "moved hp (hp'\<lparr>hp_field_start := n\<rparr>) = moved hp hp'"
  "moved hp (hp'\<lparr>hp_field_len := n\<rparr>) = moved hp hp'" "moved hp (hp'\<lparr>hp_query_start := n\<rparr>) = moved hp hp'"
  "moved (hp\<lparr>hp_mark := n\<rparr>) hp' = moved hp hp'"
  by (simp_all add: moved_def)

lemma moved_complete: "moved hp hp' \<Longrightarrow> complete hp' = complete hp"
proof -
  have "complete (at_zero hp) = complete hp" for hp by (simp add: at_zero_def complete_def)
  then show "moved hp hp' \<Longrightarrow> complete hp' = complete hp" unfolding moved_def by metis
qed

lemma moved_trans: "moved a b \<Longrightarrow> moved b c \<Longrightarrow> moved a c"
  by (simp add: moved_def)

lemma scan_target:
  assumes "complete hp" "good_path (w_path w)" "list_all query_char (w_query w)" "list_all query_char (w_fragment w)"
  shows "\<exists>hp'. moved hp hp' \<and> scan req_machine pe p 3 (wire_target w @ '' '' @ ys) hp
    = after (target_events p w) (scan req_machine pe (p + length (wire_target w) + 1) 4 ys hp')"
proof -
  obtain xs where xs: "w_path w = CHR ''/'' # xs" "\<forall>c \<in> set xs. path_char c" "xs \<noteq> [] \<longrightarrow> hd xs \<noteq> CHR ''/''"
    using assms(2) by (auto simp: good_path_def list_all_iff)
  let ?q = "w_query w" and ?f = "w_fragment w" and ?s = "if xs = [] then 33 else 26 :: nat"
  let ?hp = "hp\<lparr>hp_mark := p\<rparr>"
  have s: "?s = 26 \<or> ?s = 33" by simp
  have path: "scan req_machine pe p 3 (CHR ''/'' # xs @ zs) hp = scan req_machine pe (p + 1 + length xs) ?s zs ?hp" for zs
    using scan_slash scan_path xs by simp
  have c: "complete ?hp" using assms(1) by simp
  show ?thesis
  proof (cases "?q = []")
    case True
    show ?thesis
    proof (cases "?f = []")
      case True
      then show ?thesis using \<open>?q = []\<close> path [of "'' '' @ ys"] xs(1) path_end(1) [OF c s, of "p + 1 + length xs" pe ys]
        by (intro exI [of _ ?hp]) (simp add: wire_target_def target_events_def Let_def)
    next
      case False
      then have "scan req_machine pe (p + 1 + length xs + 1) 20 (?f @ '' '' @ ys) ?hp
        = after [Fragment (p + 1 + length xs + 1) (length ?f)] (scan req_machine pe (p + 1 + length xs + 1 + length ?f + 1) 4 ys
            (?hp\<lparr>hp_mark := p + 1 + length xs + 1\<rparr>))"
        using scan_fragment [OF c] assms(4) by (simp add: list_all_iff)
      then show ?thesis using False \<open>?q = []\<close> path [of "''#'' @ ?f @ '' '' @ ys"] xs(1)
          path_end(2) [OF c s, of "p + 1 + length xs" pe "?f @ '' '' @ ys"]
        by (intro exI [of _ "?hp\<lparr>hp_mark := p + 1 + length xs + 1\<rparr>"]) (simp add: wire_target_def target_events_def Let_def add.assoc)
    qed
  next
    case False
    let ?hq = "?hp\<lparr>hp_query_start := p + 1 + length xs + 1\<rparr>"
    have query: "scan req_machine pe (p + 1 + length xs + 1) 29 (?q @ zs) ?hp
      = scan req_machine pe (p + 1 + length xs + 1 + length ?q) 30 zs ?hq" for zs
      using False assms(3) by (intro scan_query) (simp_all add: list_all_iff)
    have cq: "complete ?hq" using assms(1) by simp
    show ?thesis
    proof (cases "?f = []")
      case True
      then show ?thesis using False path [of "''?'' @ ?q @ '' '' @ ys"] xs(1) query [of "'' '' @ ys"]
          path_end(3) [OF c s, of "p + 1 + length xs" pe "?q @ '' '' @ ys"]
          query_end(1) [OF cq, of "p + 1 + length xs + 1 + length ?q" pe ys]
        by (intro exI [of _ ?hq]) (simp add: wire_target_def target_events_def Let_def add.assoc)
    next
      case f: False
      let ?n = "p + 1 + length xs + 1 + length ?q + 1"
      have "scan req_machine pe ?n 20 (?f @ '' '' @ ys) ?hq
        = after [Fragment ?n (length ?f)] (scan req_machine pe (?n + length ?f + 1) 4 ys (?hq\<lparr>hp_mark := ?n\<rparr>))"
        using scan_fragment [OF cq] f assms(4) by (simp add: list_all_iff)
      then show ?thesis using False f path [of "''?'' @ ?q @ ''#'' @ ?f @ '' '' @ ys"] xs(1) query [of "''#'' @ ?f @ '' '' @ ys"]
          path_end(3) [OF c s, of "p + 1 + length xs" pe "?q @ ''#'' @ ?f @ '' '' @ ys"]
          query_end(2) [OF cq, of "p + 1 + length xs + 1 + length ?q" pe "?f @ '' '' @ ys"]
        by (intro exI [of _ "?hq\<lparr>hp_mark := ?n\<rparr>"]) (simp add: wire_target_def target_events_def Let_def add.assoc)
    qed
  qed
qed

lemma scan_field:
  assumes "complete hp" "good_field (k, blanks, v)"
  shows "\<exists>hp'. moved hp hp' \<and> scan req_machine pe p 13 (field_line (k, blanks, v) @ ys) hp
    = after [Http_Field p (length k) (p + length k + 1 + length blanks) (length v)]
        (scan req_machine pe (p + length (field_line (k, blanks, v))) 13 ys hp')"
proof -
  let ?hp = "hp\<lparr>hp_field_start := p, hp_field_len := length k\<rparr>"
  have "scan req_machine pe p 13 (k @ CHR '':'' # blanks @ v @ crlf @ ys) hp
    = scan req_machine pe (p + length k + 1) 15 (blanks @ v @ crlf @ ys) ?hp"
    using assms(2) by (intro scan_name) (auto simp: good_field_def list_all_iff)
  moreover obtain m where "scan req_machine pe (p + length k + 1) 15 (blanks @ v @ crlf @ ys) ?hp
    = scan req_machine pe (p + length k + 1 + length blanks) 15 (v @ crlf @ ys) (?hp\<lparr>hp_mark := m\<rparr>)"
    using scan_blanks [of blanks pe "p + length k + 1" "v @ crlf @ ys" ?hp] assms(2) by (auto simp: good_field_def list_all_iff)
  moreover have "scan req_machine pe (p + length k + 1 + length blanks) 15 (v @ crlf @ ys) (?hp\<lparr>hp_mark := m\<rparr>)
    = after [Http_Field p (length k) (p + length k + 1 + length blanks) (length v)]
       (scan req_machine pe (p + length k + 1 + length blanks + length v + 2) 13 ys
         (?hp\<lparr>hp_mark := p + length k + 1 + length blanks\<rparr>))"
    using scan_value [of "?hp\<lparr>hp_mark := m\<rparr>" v pe "p + length k + 1 + length blanks" ys] assms
    by (simp add: good_field_def list_all_iff)
  ultimately show ?thesis
    by (intro exI [of _ "?hp\<lparr>hp_mark := p + length k + 1 + length blanks\<rparr>"]) (simp add: field_line_def crlf_def add.assoc)
qed

lemma scan_fields:
  "complete hp \<Longrightarrow> list_all good_field fs
    \<Longrightarrow> \<exists>hp'. moved hp hp' \<and> scan req_machine pe p 13 (concat (map field_line fs) @ ys) hp
      = after (field_events p fs) (scan req_machine pe (p + length (concat (map field_line fs))) 13 ys hp')"
proof (induction fs arbitrary: p hp)
  case Nil
  then show ?case by (intro exI [of _ hp]) simp
next
  case (Cons f fs)
  obtain k blanks v where f: "f = (k, blanks, v)" by (cases f)
  obtain hp1 where 1: "moved hp hp1"
      "scan req_machine pe p 13 (field_line f @ concat (map field_line fs) @ ys) hp
        = after [Http_Field p (length k) (p + length k + 1 + length blanks) (length v)]
            (scan req_machine pe (p + length (field_line f)) 13 (concat (map field_line fs) @ ys) hp1)"
    using scan_field [of hp k blanks v pe p "concat (map field_line fs) @ ys"] Cons.prems f by auto
  moreover obtain hp2 where "moved hp1 hp2"
      "scan req_machine pe (p + length (field_line f)) 13 (concat (map field_line fs) @ ys) hp1
        = after (field_events (p + length (field_line f)) fs)
            (scan req_machine pe (p + length (field_line f) + length (concat (map field_line fs))) 13 ys hp2)"
    using Cons.IH [of hp1 "p + length (field_line f)"] Cons.prems 1(1) moved_complete by auto
  ultimately show ?case using f by (intro exI [of _ hp2]) (auto simp: add.assoc intro: moved_trans)
qed

text \<open>The whole head of a request.\<close>

definition wire_events :: "nat \<Rightarrow> wire_request \<Rightarrow> parser_event list" where
  "wire_events pe w =
     (let t = length (w_method w) + 1;
          v = t + length (wire_target w) + 1;
          f = v + 10;
          e = f + length (concat (map field_line (w_fields w)))
      in [Request_Method 0 (length (w_method w))] @ target_events t w @ [Http_Version v 8] @ field_events f (w_fields w)
         @ [Header_Done (e + 2) (pe - e - 2)])"

lemma scan_request:
  assumes "complete hp" "good_wire w"
  shows "\<exists>hp'. moved hp hp' \<and> scan req_machine pe 0 1 (wire_text w @ ys) hp
    = (wire_events pe w, (length (wire_text w), 348), hp'\<lparr>hp_body_start := length (wire_text w)\<rparr>)"
proof -
  let ?m = "w_method w" and ?t = "wire_target w" and ?fs = "concat (map field_line (w_fields w))"
  let ?rest = "?fs @ crlf @ ys" and ?hp = "hp\<lparr>hp_mark := 0\<rparr>"
  have good: "?m \<noteq> []" "length ?m \<le> 20" "\<forall>c \<in> set ?m. name_char c" "good_path (w_path w)" "list_all query_char (w_query w)"
      "list_all query_char (w_fragment w)" "w_minor w \<in> set ''01''" "list_all good_field (w_fields w)"
    using assms(2) unfolding good_wire_def list_all_iff by blast+
  let ?a = "length ?m + 1" let ?b = "?a + length ?t + 1"
  obtain h1 where 1: "moved ?hp h1" "scan req_machine pe ?a 3 (?t @ '' '' @ ''HTTP/1.'' @ w_minor w # crlf @ ?rest) ?hp
      = after (target_events ?a w) (scan req_machine pe ?b 4 (''HTTP/1.'' @ w_minor w # crlf @ ?rest) h1)"
    using scan_target [of ?hp w pe ?a "''HTTP/1.'' @ w_minor w # crlf @ ?rest"] assms(1) good by auto
  have c1: "complete h1" using moved_complete [OF 1(1)] assms(1) by simp
  obtain h2 where 2: "moved (h1\<lparr>hp_mark := ?b\<rparr>) h2" "scan req_machine pe (?b + 10) 13 ?rest (h1\<lparr>hp_mark := ?b\<rparr>)
      = after (field_events (?b + 10) (w_fields w)) (scan req_machine pe (?b + 10 + length ?fs) 13 (crlf @ ys) h2)"
    using scan_fields [of "h1\<lparr>hp_mark := ?b\<rparr>" "w_fields w" pe "?b + 10" "crlf @ ys"] c1 good(8) by auto
  have c2: "complete h2" using moved_complete [OF 2(1)] c1 by simp
  have m: "moved hp (h2\<lparr>hp_field_start := ?b + 10 + length ?fs\<rparr>)"
    using moved_trans [of hp h1 h2] 1(1) 2(1) by simp
  show ?thesis
  proof (intro exI [of _ "h2\<lparr>hp_field_start := ?b + 10 + length ?fs\<rparr>"] conjI m)
    have "scan req_machine pe 0 1 (wire_text w @ ys) hp = scan req_machine pe 0 1 (?m @ '' '' @ ?t @ '' '' @ ''HTTP/1.'' @ w_minor w # crlf @ ?rest) hp"
      by (simp add: wire_text_def)
    also have "\<dots> = after ([Request_Method 0 (length ?m)] @ target_events ?a w @ [Http_Version ?b 8] @ field_events (?b + 10) (w_fields w))
        (scan req_machine pe (?b + 10 + length ?fs) 13 (crlf @ ys) h2)"
      using scan_method [OF assms(1) good(1-3), of pe 0] 1(2) scan_version [OF c1 good(7), of pe ?b ?rest] 2(2) by simp
    finally show "scan req_machine pe 0 1 (wire_text w @ ys) hp = (wire_events pe w, (length (wire_text w), 348),
        h2\<lparr>hp_field_start := ?b + 10 + length ?fs, hp_body_start := length (wire_text w)\<rparr>)"
      using scan_end [OF c2, of pe "?b + 10 + length ?fs" ys]
      by (simp add: after_def wire_events_def wire_text_def crlf_def Let_def)
  qed
qed


end
