(* ===== verification/Http11_Parsing.thy ===== *)
theory Http11_Parsing
  imports Http11_Requests
begin

text \<open>
  What \<open>HttpRequestParser\<close> of \<open>src/src/http/http_parser.cpp\<close> makes of the callbacks of the scanner: a well-formed head
  becomes the request it stands for, what \<open>HttpRequest::dump\<close> writes is read back, and two weaknesses, names of fields
  with line breaks and paths split over two reads, are shown for all requests.
\<close>

section \<open>What the callbacks make of it\<close>

lemma token_at [simp]: "token (pre @ tok @ post) (length pre) (length tok) = tok"
  by (simp add: token_def)

lemma token_in: "data = pre @ tok @ post \<Longrightarrow> at = length pre \<Longrightarrow> n = length tok \<Longrightarrow> token data at n = tok"
  by (simp add: token_def)

lemma c_str_append: "CHR 0x00 \<notin> set a \<Longrightarrow> c_str (a @ b) = a @ c_str b"
  by (induction a) (auto simp: c_str_def before_char_def)

definition wire_version :: "wire_request \<Rightarrow> byte" where
  "wire_version w = (if w_minor w = CHR ''1'' then 0x11 else 0x10)"

definition wire_headers :: "'m map_ops \<Rightarrow> wire_field list \<Rightarrow> 'm \<Rightarrow> 'm" where
  "wire_headers mo fs h = fold (\<lambda>(k, blanks, v). mo_put mo k v) fs h"

text \<open>The request that the text stands for.\<close>

definition wire_result :: "'m map_ops \<Rightarrow> http_method \<Rightarrow> wire_request \<Rightarrow> 'm http_request" where
  "wire_result mo m w =
     (HttpRequest_new mo 0x11 True)\<lparr>rq_method := m, rq_path := w_path w, rq_query := w_query w, rq_fragment := w_fragment w,
       rq_version := wire_version w, rq_headers := wire_headers mo (w_fields w) (mo_empty mo)\<rparr>"

lemma field_line_parts: "field_line (k, blanks, v) = k @ '':'' @ blanks @ v @ crlf"
  by (simp add: field_line_def)

lemma fields_put:
  "list_all good_field fs \<Longrightarrow> data = pre @ concat (map field_line fs) @ post
    \<Longrightarrow> fold (request_event mo data) (field_events (length pre) fs) p
      = p\<lparr>qp_data := (qp_data p)\<lparr>rq_headers := wire_headers mo fs (rq_headers (qp_data p))\<rparr>\<rparr>"
proof (induction fs arbitrary: pre p)
  case Nil
  then show ?case by (simp add: wire_headers_def)
next
  case (Cons f fs)
  obtain k blanks v where f: "f = (k, blanks, v)" by (cases f)
  have d: "data = pre @ k @ '':'' @ blanks @ v @ crlf @ concat (map field_line fs) @ post"
    using Cons.prems(2) f by (simp add: field_line_parts)
  have k: "token data (length pre) (length k) = k" "k \<noteq> []"
    using Cons.prems(1) f d by (auto simp: good_field_def intro: token_in)
  have v: "token data (length pre + length k + 1 + length blanks) (length v) = v"
    using d by (intro token_in [where pre = "pre @ k @ '':'' @ blanks" and post = "crlf @ concat (map field_line fs) @ post"]) simp_all
  let ?p = "p\<lparr>qp_data := setHeader mo k v (qp_data p)\<rparr>"
  have "fold (request_event mo data) (field_events (length (pre @ field_line f)) fs) ?p
    = ?p\<lparr>qp_data := (qp_data ?p)\<lparr>rq_headers := wire_headers mo fs (rq_headers (qp_data ?p))\<rparr>\<rparr>"
    using Cons.prems by (intro Cons.IH) simp_all
  then show ?case using k v f by (simp add: on_request_http_field_def setHeader_def wire_headers_def)
qed

lemma method_reads:
  assumes "(i, m, s) \<in> set HTTP_METHOD_MAP" "s \<noteq> []" "list_all name_char s"
  shows "CharsToHttpMethod (s @ rest) = m"
proof -
  have "CHR 0x00 \<notin> set s" using assms(3) by (auto simp: list_all_iff name_char_def byte_val_def)
  then have "take (length s) (c_str (s @ rest)) = s" by (simp add: c_str_append)
  then show ?thesis using CharsToHttpMethod_prefix [of "s @ rest" m] assms(1) by blast
qed

lemma version_reads:
  assumes "d \<in> set ''01''"
  shows "on_request_version (pre @ ''HTTP/1.'' @ d # post) (length pre) 8 p
    = p\<lparr>qp_data := (qp_data p)\<lparr>rq_version := if d = CHR ''1'' then 0x11 else 0x10\<rparr>\<rparr>"
proof -
  have "c_str (''HTTP/1.'' @ d # post) = ''HTTP/1.'' @ d # c_str post"
    using c_str_append [of "''HTTP/1.'' @ [d]" post] assms by auto
  then show ?thesis using assms by (auto simp: on_request_version_def strncmp_eq_def c_str_def before_char_def)
qed

lemma target_reads:
  assumes "data = pre @ wire_target w @ post" "w_path w \<noteq> []"
  shows "\<exists>q f. fold (request_event mo data) (target_events (length pre) w) p
    = p\<lparr>qp_data := (qp_data p)\<lparr>rq_path := w_path w, rq_query := q, rq_fragment := f\<rparr>\<rparr>
    \<and> q = (if w_query w = [] then rq_query (qp_data p) else w_query w)
    \<and> f = (if w_fragment w = [] then rq_fragment (qp_data p) else w_fragment w)"
proof -
  have path: "token data (length pre) (length (w_path w)) = w_path w"
    using assms(1) by (intro token_in) (auto simp: wire_target_def)
  have query: "token data (length pre + length (w_path w) + 1) (length (w_query w)) = w_query w" if "w_query w \<noteq> []"
    using assms(1) that by (intro token_in [where pre = "pre @ w_path w @ ''?''"]) (auto simp: wire_target_def)
  have fragment: "token data (length pre + (length (w_path w) + (if w_query w = [] then 0 else 1) + length (w_query w)) + 1)
      (length (w_fragment w)) = w_fragment w" if "w_fragment w \<noteq> []"
    using assms(1) that
    by (intro token_in [where pre = "pre @ w_path w @ (if w_query w = [] then [] else ''?'') @ w_query w @ ''#''"])
      (auto simp: wire_target_def)
  show ?thesis using path query fragment
    by (auto simp: target_events_def Let_def on_request_path_def on_request_query_def on_request_uri_def on_request_fragment_def)
qed

text \<open>What a run gives, from the run of the machine.\<close>

lemma execute_scan:
  assumes "\<not> query_state (hp_cs hp)" "hp_body_start hp = 0" "0 < hp_cs hp" "data \<noteq> []" "length data < 2 ^ 31"
    and "scan req_machine (length data) 0 (hp_cs hp) data (begin_execute hp) = (es, (q, t), hp')" "hp_cs hp' \<noteq> 0"
  shows "http_parser_execute data (length data) 0 hp = Some ((es, q), hp'\<lparr>hp_cs := t, hp_nread := hp_nread hp' + q\<rparr>)
    \<and> hp_nread hp' = 0"
proof -
  obtain es' n hp1 where "http_parser_execute data (length data) 0 hp = Some ((es', n), hp1)"
    using execute_total [of hp "length data" data] assms(1,2,5) by auto
  moreover have "req_inv (length data) q t hp'"
    using req.scan_keeps [OF _ _ assms(6)] assms(1,2) by (simp add: req_inv_def begin_execute_def)
  then have "hp_nread hp' = 0" by (simp add: req_inv_def)
  ultimately show ?thesis using assms(4,6,7)
    by (auto simp: http_parser_execute_def http_parser_has_error_def Let_def split: if_splits)
qed

lemma moved_cs: "moved hp hp' \<Longrightarrow> hp_cs hp' = hp_cs hp"
  by (auto simp: moved_def at_zero_def dest: arg_cong [where f = hp_cs])

text \<open>A parser as the constructor leaves it, on a buffer that starts with a well-formed head.\<close>

lemma fresh_parser:
  "\<not> query_state (hp_cs (sc_init (http11_scanner mem)))" "hp_body_start (sc_init (http11_scanner mem)) = 0"
  "hp_cs (sc_init (http11_scanner mem)) = 1" "complete (begin_execute (sc_init (http11_scanner mem)))"
  "hp_cs (begin_execute (sc_init (http11_scanner mem))) = 1"
  by (auto simp: http11_scanner_def http_parser_init_def query_state_def begin_execute_def complete_def all_callbacks_def
      intro: request_callback.exhaust)

lemma fresh_execute:
  assumes "good_wire w" "length (wire_text w @ rest) < 2 ^ 31"
  shows "\<exists>hp'. http_parser_execute (wire_text w @ rest) (length (wire_text w @ rest)) 0 (sc_init (http11_scanner mem))
    = Some ((wire_events (length (wire_text w @ rest)) w, length (wire_text w)), hp') \<and> hp_cs hp' = 348"
proof -
  obtain hp2 where s: "moved (begin_execute (sc_init (http11_scanner mem))) hp2"
      "scan req_machine (length (wire_text w @ rest)) 0 1 (wire_text w @ rest) (begin_execute (sc_init (http11_scanner mem)))
      = (wire_events (length (wire_text w @ rest)) w, (length (wire_text w), 348), hp2\<lparr>hp_body_start := length (wire_text w)\<rparr>)"
    using scan_request [OF fresh_parser(4) assms(1)] by blast
  have "wire_text w @ rest \<noteq> []" by (simp add: wire_text_def)
  then show ?thesis
    using execute_scan [OF fresh_parser(1,2) _ _ assms(2), of mem] s moved_cs [OF s(1)] by (simp add: fresh_parser)
qed

lemma wire_reads:
  fixes mo :: "'m map_ops" and sc :: "'p scanner"
  assumes "good_wire w" "(i, m, w_method w) \<in> set HTTP_METHOD_MAP"
  shows "fold (request_event mo (wire_text w @ rest)) (wire_events pe w) (HttpRequestParser_new sc mo)
    = (HttpRequestParser_new sc mo)\<lparr>qp_data := wire_result mo m w\<rparr>"
proof -
  let ?data = "wire_text w @ rest" and ?m = "w_method w" and ?t = "wire_target w" and ?fs = "concat (map field_line (w_fields w))"
  let ?a = "?m @ '' ''" let ?b = "?a @ ?t @ '' ''" let ?c = "?b @ ''HTTP/1.'' @ w_minor w # crlf"
  have good: "?m \<noteq> []" "list_all name_char ?m" "w_path w \<noteq> []" "w_minor w \<in> set ''01''" "list_all good_field (w_fields w)"
    using assms(1) by (auto simp: good_wire_def good_path_def)
  have data: "?data = ?a @ ?t @ '' HTTP/1.'' @ w_minor w # crlf @ ?fs @ crlf @ rest"
    "?data = ?b @ ''HTTP/1.'' @ w_minor w # crlf @ ?fs @ crlf @ rest" "?data = ?c @ ?fs @ crlf @ rest"
    by (simp_all add: wire_text_def)
  have meth: "CharsToHttpMethod ?data = m"
    using method_reads [OF assms(2) good(1,2), of "'' '' @ ?t @ '' HTTP/1.'' @ w_minor w # crlf @ ?fs @ crlf @ rest"] data(1) by simp
  have "m \<noteq> INVALID_METHOD" using assms(2) method_table by fast
  then have 1: "request_event mo ?data (Request_Method 0 (length ?m)) p = p\<lparr>qp_data := (qp_data p)\<lparr>rq_method := m\<rparr>\<rparr>"
    for p :: "('p, 'm) request_parser" using meth by (simp add: on_request_method_def)
  let ?p0 = "HttpRequestParser_new sc mo" let ?p1 = "?p0\<lparr>qp_data := (qp_data ?p0)\<lparr>rq_method := m\<rparr>\<rparr>"
  have 2: "fold (request_event mo ?data) (target_events (length ?a) w) ?p1
    = ?p1\<lparr>qp_data := (qp_data ?p1)\<lparr>rq_path := w_path w, rq_query := w_query w, rq_fragment := w_fragment w\<rparr>\<rparr>"
    using target_reads [OF data(1) good(3), of mo ?p1] by (auto simp: HttpRequestParser_new_def HttpRequest_new_def)
  have 3: "request_event mo ?data (Http_Version (length ?b) 8) p = p\<lparr>qp_data := (qp_data p)\<lparr>rq_version := wire_version w\<rparr>\<rparr>"
    for p :: "('p, 'm) request_parser"
    using version_reads [OF good(4), of ?b "crlf @ ?fs @ crlf @ rest" p] data(2) by (simp add: wire_version_def)
  have 4: "fold (request_event mo ?data) (field_events (length ?c) (w_fields w)) p
    = p\<lparr>qp_data := (qp_data p)\<lparr>rq_headers := wire_headers mo (w_fields w) (rq_headers (qp_data p))\<rparr>\<rparr>"
    for p :: "('p, 'm) request_parser" by (rule fields_put [OF good(5) data(3)])
  have lengths: "length ?a = length ?m + 1" "length ?b = length ?m + 1 + length ?t + 1"
      "length ?c = length ?m + 1 + length ?t + 1 + 10" by (simp_all add: crlf_def)
  have "wire_events pe w = Request_Method 0 (length ?m) # target_events (length ?a) w @ Http_Version (length ?b) 8
      # field_events (length ?c) (w_fields w) @ [Header_Done (length ?c + length ?fs + 2) (pe - (length ?c + length ?fs) - 2)]"
    unfolding lengths by (simp add: wire_events_def Let_def)
  then show ?thesis
    by (simp only: fold_append fold.simps comp_apply id_apply 1 2 3 4)
      (simp add: on_request_header_done_def HttpRequestParser_new_def wire_result_def HttpRequest_new_def)
qed

lemma wire_parses:
  fixes mo :: "'m map_ops"
  assumes "good_wire w" "(i, m, w_method w) \<in> set HTTP_METHOD_MAP" "length (wire_text w @ rest) < 2 ^ 31"
  shows "\<exists>data' p'. request_execute (http11_scanner mem) mo (wire_text w @ rest) (length (wire_text w @ rest))
      (HttpRequestParser_new (http11_scanner mem) mo) = ((length (wire_text w), data'), p')
    \<and> qp_data p' = wire_result mo m w \<and> \<not> request_hasError (http11_scanner mem) p'
    \<and> request_isFinished (http11_scanner mem) p' = 1 \<and> take (length rest) data' = rest"
proof -
  let ?sc = "http11_scanner mem" and ?data = "wire_text w @ rest"
  obtain hp' where x: "sc_execute ?sc (sc_init ?sc) ?data (length ?data)
      = ((wire_events (length ?data) w, length (wire_text w)), hp')" "hp_cs hp' = 348"
    using fresh_execute [OF assms(1,3), of mem] by (auto simp: http11_scanner_def)
  have shifted: "take (length rest) (shift_left ?data (length (wire_text w)) (length ?data)) = rest"
    by (simp add: shift_left_def overwrite_def)
  have q: "qp_parser (HttpRequestParser_new ?sc mo) = sc_init ?sc" by (simp add: HttpRequestParser_new_def)
  show ?thesis
    using x shifted wire_reads [OF assms(1,2), of mo rest "length ?data" ?sc]
    by (simp add: request_execute_def q request_hasError_def request_isFinished_def http11_scanner_def HttpRequestParser_new_def
        http_parser_finish_def http_parser_has_error_def http_parser_is_finished_def)
qed
text \<open>The scanner knows no minus sign in a method, so that M-SEARCH, which the table of methods has, is refused.\<close>

lemma msearch_refused:
  "fst (snd (scan req_machine pe 0 1 (''M-SEARCH'' @ rest) hp)) = (1, 0)"
proof -
  have "move req_machine pe 0 1 (CHR ''M'') hp = ([], (True, 1, 2), hp\<lparr>hp_mark := 0\<rparr>)"
    using method_char [of "CHR ''M''" 0] by (simp add: move_def method_state_def name_char_def byte_val_def req_tr_values)
  moreover have "move req_machine pe 1 2 (CHR ''-'') (hp\<lparr>hp_mark := 0\<rparr>) = ([], (False, 1, 0), hp\<lparr>hp_mark := 0\<rparr>)"
    by (simp add: move_def req_case_def req_case_2_def byte_val_def)
  ultimately show ?thesis by (simp add: scan_move scan_stop after_def)
qed

section \<open>What \<open>HttpRequest::dump\<close> writes\<close>

definition dump_fields :: "'m map_ops \<Rightarrow> 'm http_request \<Rightarrow> wire_field list" where
  "dump_fields mo r =
     map (\<lambda>(k, v). (k, [], v)) (filter (\<lambda>(k, v). strcasecmp k ''connection'' \<noteq> 0) (mo_entries mo (rq_headers r)))
     @ [(''connection'', [], if rq_close r then ''close'' else ''keep-alive'')]
     @ (if rq_body r = [] then [] else [(''content-length'', '' '', dec (length (rq_body r)))])"

definition dump_wire :: "'m map_ops \<Rightarrow> 'm http_request \<Rightarrow> string \<Rightarrow> wire_request" where
  "dump_wire mo r name =
     \<lparr>w_method = name, w_path = rq_path r, w_query = rq_query r, w_fragment = rq_fragment r,
      w_minor = (if rq_version r = 0x11 then CHR ''1'' else CHR ''0''), w_fields = dump_fields mo r\<rparr>"

definition dump_rest :: "'m http_request \<Rightarrow> string" where
  "dump_rest r = (if rq_body r = [] then crlf else rq_body r)"

lemma header_lines_wire:
  "header_lines '':'' hs = concat (map field_line (map (\<lambda>(k, v). (k, [], v)) (filter (\<lambda>(k, v). strcasecmp k ''connection'' \<noteq> 0) hs)))"
  by (induction "'':''" hs rule: header_lines.induct) (auto simp: field_line_def)

lemma version_texts: "version_text 0x11 = ''HTTP/1.1''" "version_text 0x10 = ''HTTP/1.0''"
  by code_simp+

lemma dump_is_wire:
  assumes "HttpMethodToString (rq_method r) = Inr name" "rq_version r \<in> {0x10, 0x11}"
  shows "request_dump mo r = Inr (wire_text (dump_wire mo r name) @ dump_rest r)"
proof -
  have "version_text (rq_version r) = ''HTTP/1.'' @ [if rq_version r = 0x11 then CHR ''1'' else CHR ''0'']"
    using assms(2) version_texts by auto
  then show ?thesis using assms(1)
    by (simp add: request_dump_def wire_text_def dump_wire_def wire_target_def request_target_def dump_fields_def dump_rest_def
        header_lines_wire connection_line_def body_text_def field_line_def)
qed

lemma method_name_chars:
  assumes "(i, m, s) \<in> set HTTP_METHOD_MAP" "m \<noteq> MSEARCH"
  shows "s \<noteq> [] \<and> length s \<le> 20 \<and> list_all name_char s"
proof -
  have "list_all (\<lambda>(i, m, s). m = MSEARCH \<or> s \<noteq> [] \<and> length s \<le> 20 \<and> list_all name_char s) HTTP_METHOD_MAP"
    by (simp add: HTTP_METHOD_MAP_def name_char_def byte_val_def)
  then show ?thesis using assms by (auto simp: list_all_iff)
qed

lemma dec_value: "list_all value_char (dec n) \<and> (dec n \<noteq> [] \<longrightarrow> \<not> blank_char (hd (dec n)))"
proof -
  have "value_char c \<and> \<not> blank_char c" if "digit c" for c
    using that by (auto simp: digit_def value_char_def blank_char_def byte_val_def)
  then show ?thesis using dec_digits [of _ n] by (auto simp: list_all_iff)
qed

text \<open>The fields of a request that survive being written: names of token characters, values without control
  characters and without leading white space.\<close>

definition good_fields :: "'m map_ops \<Rightarrow> 'm \<Rightarrow> bool" where
  "good_fields mo m \<longleftrightarrow> list_all (\<lambda>(k, v). good_field (k, [], v)) (mo_entries mo m)"

lemma good_dump_fields:
  assumes "good_fields mo (rq_headers r)"
  shows "list_all good_field (dump_fields mo r)"
proof -
  have "good_field (''connection'', [], if rq_close r then ''close'' else ''keep-alive'')"
    by (simp add: good_field_def field_char_def value_char_def blank_char_def byte_val_def)
  moreover have "good_field (''content-length'', '' '', dec n)" for n
    using dec_value [of n] by (simp add: good_field_def field_char_def blank_char_def byte_val_def)
  ultimately show ?thesis using assms by (auto simp: dump_fields_def good_fields_def list_all_iff)
qed

section \<open>Properties\<close>

text \<open>A well-formed head at the start of a buffer is read as the request it stands for: its method, path, query,
  fragment, version and fields, put into the map in their order. The parser is finished without an error, has taken
  the head, and leaves what follows at the start of the buffer.\<close>

theorem request_parses:
  fixes mo :: "'m map_ops"
  assumes "good_wire w" "(i, m, w_method w) \<in> set HTTP_METHOD_MAP" "length (wire_text w @ rest) < 2 ^ 31"
  shows "\<exists>data' p'. request_execute (http11_scanner mem) mo (wire_text w @ rest) (length (wire_text w @ rest))
      (HttpRequestParser_new (http11_scanner mem) mo) = ((length (wire_text w), data'), p')
    \<and> qp_data p' = wire_result mo m w \<and> \<not> request_hasError (http11_scanner mem) p'
    \<and> request_isFinished (http11_scanner mem) p' = 1 \<and> take (length rest) data' = rest"
  using assms by (rule wire_parses)

definition demo_wire :: wire_request where
  "demo_wire = \<lparr>w_method = ''GET'', w_path = ''/a'', w_query = ''b=1'', w_fragment = [], w_minor = CHR ''1'',
     w_fields = [(''Host'', '' '', ''x'')]\<rparr>"

lemma good_demo_wire: "good_wire demo_wire" "(1, GET, w_method demo_wire) \<in> set HTTP_METHOD_MAP" "length (wire_text demo_wire @ ''xy'') < 2 ^ 31"
  by (auto simp: demo_wire_def good_wire_def good_path_def name_char_def path_char_def query_char_def good_field_def field_char_def
    blank_char_def value_char_def byte_val_def HTTP_METHOD_MAP_def wire_text_def wire_target_def field_line_def crlf_def)

lemma request_parses_witness:
  "\<exists>data' p'. request_execute (http11_scanner in_query) demo_map (wire_text demo_wire @ ''xy'') (length (wire_text demo_wire @ ''xy''))
      (HttpRequestParser_new (http11_scanner in_query) demo_map) = ((length (wire_text demo_wire), data'), p')
    \<and> qp_data p' = wire_result demo_map GET demo_wire \<and> \<not> request_hasError (http11_scanner in_query) p'
    \<and> request_isFinished (http11_scanner in_query) p' = 1 \<and> take (length ''xy'') data' = ''xy''"
  by (rule request_parses) (rule good_demo_wire)+

text \<open>C36: what \<open>HttpRequest::dump\<close> writes is read back as a request with the same method, path, query, fragment and version;
  its fields are those that were written, with the one for the connection and, where there is a body, its length. What
  is left in the buffer is the body, or the second empty line that a request without a body ends in. This needs a
  method other than M-SEARCH, one of the two versions, and a target and fields without characters that have a
  meaning in them.\<close>

theorem request_dump_parses:
  fixes mo :: "'m map_ops"
  assumes "HttpMethodToString (rq_method r) = Inr name" "rq_method r \<notin> {MSEARCH, INVALID_METHOD}" "rq_version r \<in> {0x10, 0x11}"
    and "good_path (rq_path r)" "list_all query_char (rq_query r)" "list_all query_char (rq_fragment r)"
    and "good_fields mo (rq_headers r)" "request_dump mo r = Inr data" "length data < 2 ^ 31"
  shows "\<exists>n data' p'. request_execute (http11_scanner mem) mo data (length data) (HttpRequestParser_new (http11_scanner mem) mo)
      = ((n, data'), p') \<and> take (length data - n) data' = dump_rest r
    \<and> request_isFinished (http11_scanner mem) p' = 1 \<and> \<not> request_hasError (http11_scanner mem) p'
    \<and> qp_data p' = (HttpRequest_new mo 0x11 True)\<lparr>rq_method := rq_method r, rq_path := rq_path r, rq_query := rq_query r,
        rq_fragment := rq_fragment r, rq_version := rq_version r, rq_headers := wire_headers mo (dump_fields mo r) (mo_empty mo)\<rparr>"
proof -
  let ?w = "dump_wire mo r name"
  have data: "data = wire_text ?w @ dump_rest r" using dump_is_wire [OF assms(1,3), of mo] assms(8) by simp
  obtain i s where row: "(i, rq_method r, s) \<in> set HTTP_METHOD_MAP" using method_listed assms(2) by blast
  then have "name = s" using method_table assms(1) by (auto simp: HttpMethodToString_def length_method_string)
  then have named: "(i, rq_method r, w_method ?w) \<in> set HTTP_METHOD_MAP" using row by (simp add: dump_wire_def)
  have "good_wire ?w"
    using method_name_chars [OF named] assms(2-6) good_dump_fields [OF assms(7)] by (auto simp: good_wire_def dump_wire_def)
  from wire_parses [OF this named, of "dump_rest r" mem mo] assms(3,9) data show ?thesis
    by (auto simp: wire_result_def dump_wire_def wire_version_def)
qed

definition demo_request :: "(string \<times> string) list http_request" where
  "demo_request = (HttpRequest_new demo_map 0x11 True)\<lparr>rq_method := POST, rq_path := ''/a'', rq_query := ''b=1'',
     rq_headers := [(''Host'', ''x'')], rq_body := ''hi''\<rparr>"

lemma request_dump_parses_witness:
  "\<exists>data. request_dump demo_map demo_request = Inr data \<and> (\<exists>n data' p'. request_execute (http11_scanner in_query) demo_map data
      (length data) (HttpRequestParser_new (http11_scanner in_query) demo_map) = ((n, data'), p')
    \<and> take (length data - n) data' = dump_rest demo_request \<and> request_isFinished (http11_scanner in_query) p' = 1)"
proof -
  let ?data = "wire_text (dump_wire demo_map demo_request ''POST'') @ dump_rest demo_request"
  have name: "HttpMethodToString (rq_method demo_request) = Inr ''POST''"
  proof -
    have "HttpMethodToString POST = Inr ''POST''" by code_simp
    then show ?thesis by (simp add: demo_request_def)
  qed
  have dumped: "request_dump demo_map demo_request = Inr ?data"
    using name by (rule dump_is_wire) (simp add: demo_request_def HttpRequest_new_def)
  have "length ?data < 200" by code_simp
  then have "length ?data < 2 ^ 31" by simp
  moreover have "good_path (rq_path demo_request)" "list_all query_char (rq_query demo_request)"
      "list_all query_char (rq_fragment demo_request)" "good_fields demo_map (rq_headers demo_request)"
    by (simp_all add: demo_request_def HttpRequest_new_def good_path_def path_char_def query_char_def good_fields_def demo_map_def
        good_field_def field_char_def value_char_def blank_char_def byte_val_def)
  moreover have "rq_method demo_request \<notin> {MSEARCH, INVALID_METHOD}" "rq_version demo_request \<in> {0x10, 0x11}"
    by (simp_all add: demo_request_def HttpRequest_new_def)
  ultimately have "\<exists>n data' p'. request_execute (http11_scanner in_query) demo_map ?data
      (length ?data) (HttpRequestParser_new (http11_scanner in_query) demo_map) = ((n, data'), p')
    \<and> take (length ?data - n) data' = dump_rest demo_request \<and> request_isFinished (http11_scanner in_query) p' = 1"
    using request_dump_parses [OF name _ _ _ _ _ _ dumped, of in_query] by blast
  then show ?thesis using dumped by blast
qed

text \<open>A line break does not end the name of a field: a line without a colon is taken into the name of the next
  one.\<close>

theorem field_name_takes_line_breaks:
  fixes mo :: "'m map_ops"
  assumes "good_field (k, [], [])" "good_field (k', blanks, v)"
    and "data = ''GET / HTTP/1.1'' @ crlf @ k @ crlf @ k' @ '':'' @ blanks @ v @ crlf @ crlf" "length data < 2 ^ 31"
  shows "rq_headers (qp_data (snd (request_execute (http11_scanner mem) mo data (length data)
      (HttpRequestParser_new (http11_scanner mem) mo)))) = mo_put mo (k @ crlf @ k') v (mo_empty mo)"
proof -
  define w where "w = \<lparr>w_method = ''GET'', w_path = ''/'', w_query = [], w_fragment = [], w_minor = CHR ''1'',
      w_fields = [(k @ crlf @ k', blanks, v)]\<rparr>"
  have "good_field (k @ crlf @ k', blanks, v)"
    using assms(1,2) by (auto simp: good_field_def crlf_def field_char_def byte_val_def)
  then have "good_wire w"
    by (simp add: w_def good_wire_def good_path_def name_char_def byte_val_def)
  moreover have "data = wire_text w @ []"
    by (simp add: w_def assms(3) wire_text_def wire_target_def field_line_def)
  moreover have "(1, GET, w_method w) \<in> set HTTP_METHOD_MAP" by (simp add: w_def HTTP_METHOD_MAP_def)
  ultimately show ?thesis using wire_parses [of w 1 GET "[]" mem mo] assms(4)
    by (auto simp: wire_result_def wire_headers_def HttpRequest_new_def w_def)
qed

lemma field_name_takes_line_breaks_witness:
  "rq_headers (qp_data (snd (request_execute (http11_scanner in_query) demo_map
      (''GET / HTTP/1.1'' @ crlf @ ''abc'' @ crlf @ ''Host'' @ '':'' @ '' '' @ ''x'' @ crlf @ crlf)
      (length (''GET / HTTP/1.1'' @ crlf @ ''abc'' @ crlf @ ''Host'' @ '':'' @ '' '' @ ''x'' @ crlf @ crlf))
      (HttpRequestParser_new (http11_scanner in_query) demo_map)))) = mo_put demo_map (''abc'' @ crlf @ ''Host'') ''x'' (mo_empty demo_map)"
  by (rule field_name_takes_line_breaks)
    (simp_all add: good_field_def field_char_def value_char_def blank_char_def byte_val_def crlf_def)

text \<open>A request whose path continues after the first buffer: what the machine makes of the two.\<close>

lemma first_part:
  assumes "list_all path_char xs" "xs \<noteq> []" "hd xs \<noteq> CHR ''/''" "length xs < 2 ^ 30" "data = ''GET /'' @ xs"
  shows "\<exists>h. http_parser_execute data (length data) 0 (sc_init (http11_scanner mem)) = Some (([Request_Method 0 3], length data), h)
    \<and> hp_cs h = 26 \<and> hp_body_start h = 0 \<and> complete h"
proof -
  let ?h0 = "sc_init (http11_scanner mem)"
  have "scan req_machine (length data) 0 1 data (begin_execute ?h0)
    = ([Request_Method 0 3], (length data, 26), (begin_execute ?h0)\<lparr>hp_mark := Suc (Suc (Suc (Suc 0)))\<rparr>)"
    using scan_method [OF fresh_parser(4), of "''GET''" "length data" 0 "CHR ''/'' # xs"]
      scan_slash [of "length data" "length ''GET'' + 1" xs] scan_path [of xs "length data" "length ''GET'' + 1 + 1" "[]"] assms(1-3,5)
    by (simp add: list_all_iff name_char_def byte_val_def after_def)
  then show ?thesis
    using execute_scan [OF fresh_parser(1,2), of mem data] fresh_parser(2-5) [of mem] assms(4,5) by (auto simp: begin_execute_def)
qed

definition second_events :: "string \<Rightarrow> parser_event list" where
  "second_events ys = [Request_Path 0 (length ys), Request_Uri 0 (length ys), Http_Version (length ys + 1) 8, Header_Done (length ys + 13) 0]"

lemma second_part:
  assumes "complete h" "hp_cs h = 26" "hp_body_start h = 0" "list_all path_char ys" "length ys < 2 ^ 30"
    and "data = ys @ '' HTTP/1.1'' @ crlf @ crlf"
  shows "\<exists>h'. http_parser_execute data (length data) 0 h = Some ((second_events ys, length data), h') \<and> hp_cs h' = 348"
proof -
  let ?h = "begin_execute h" let ?v = "length ys + 1"
  have c: "complete ?h" "hp_mark ?h = 0" "\<not> query_state (hp_cs h)"
    using assms(1,2) by (auto simp: begin_execute_def complete_def query_state_def)
  have "scan req_machine (length data) 0 26 data ?h = scan req_machine (length data) (0 + length ys) 26 ('' HTTP/1.1'' @ crlf @ crlf) ?h"
    unfolding assms(6) using assms(4) path_loop by (intro scan_loop) (simp_all add: list_all_iff)
  also have "\<dots> = after [Request_Path 0 (length ys), Request_Uri 0 (length ys)]
      (scan req_machine (length data) ?v 4 (''HTTP/1.1'' @ crlf @ crlf) ?h)"
    using path_end(1) [OF c(1), of 26 "length ys" "length data" "''HTTP/1.1'' @ crlf @ crlf"] c(2) by simp
  also have "scan req_machine (length data) ?v 4 (''HTTP/1.1'' @ crlf @ crlf) ?h
    = after [Http_Version ?v 8] (scan req_machine (length data) (?v + 10) 13 crlf (?h\<lparr>hp_mark := ?v\<rparr>))"
    using scan_version [OF c(1), of "CHR ''1''" "length data" ?v crlf] by simp
  also have "scan req_machine (length data) (?v + 10) 13 crlf (?h\<lparr>hp_mark := ?v\<rparr>)
    = ([Header_Done (?v + 10 + 2) (length data - (?v + 10) - 2)], (?v + 10 + 2, 348),
        ?h\<lparr>hp_mark := ?v, hp_field_start := ?v + 10, hp_body_start := ?v + 10 + 2\<rparr>)"
    using scan_end [of "?h\<lparr>hp_mark := ?v\<rparr>" "length data" "?v + 10" "[]"] c(1) by simp
  finally have "scan req_machine (length data) 0 (hp_cs h) data ?h = (second_events ys, (length data, 348),
      ?h\<lparr>hp_mark := ?v, hp_field_start := ?v + 10, hp_body_start := ?v + 10 + 2\<rparr>)"
    unfolding assms(2) by (simp add: second_events_def after_def assms(6) crlf_def)
  from execute_scan [OF c(3) assms(3) _ _ _ this] show ?thesis
    using assms(2,5,6) by (auto simp: begin_execute_def crlf_def)
qed

text \<open>A path that is split over two reads loses what came with the first: the offsets start anew with each buffer, and
  only the second part is reported.\<close>

theorem split_path_truncated:
  fixes mo :: "'m map_ops"
  assumes "list_all path_char xs" "xs \<noteq> []" "hd xs \<noteq> CHR ''/''" "list_all path_char ys" "length xs + length ys < 2 ^ 30"
    and "data1 = ''GET /'' @ xs" "data2 = ys @ '' HTTP/1.1'' @ crlf @ crlf" "sc = http11_scanner mem"
    and "p1 = snd (request_execute sc mo data1 (length data1) (HttpRequestParser_new sc mo))"
    and "p2 = snd (request_execute sc mo data2 (length data2) p1)"
  shows "rq_path (qp_data p2) = ys \<and> request_isFinished sc p2 = 1 \<and> \<not> request_hasError sc p2"
proof -
  obtain h1 where e1: "http_parser_execute data1 (length data1) 0 (sc_init sc) = Some (([Request_Method 0 3], length data1), h1)"
      "hp_cs h1 = 26" "hp_body_start h1 = 0" "complete h1"
    using first_part [OF assms(1-3) _ assms(6), of mem] assms(5,8) by auto
  obtain h2 where e2: "http_parser_execute data2 (length data2) 0 h1 = Some ((second_events ys, length data2), h2)" "hp_cs h2 = 348"
    using second_part [OF e1(4,2,3) assms(4) _ assms(7)] assms(5) by auto
  have "CharsToHttpMethod data1 = GET"
    using method_reads [of 1 GET "''GET''" "'' /'' @ xs"] assms(6) by (simp add: HTTP_METHOD_MAP_def name_char_def byte_val_def)
  then have p1: "p1 = (HttpRequestParser_new sc mo)\<lparr>qp_data := (qp_data (HttpRequestParser_new sc mo))\<lparr>rq_method := GET\<rparr>, qp_parser := h1\<rparr>"
    using e1(1) assms(8,9) by (simp add: request_execute_def HttpRequestParser_new_def http11_scanner_def on_request_method_def)
  have "token data2 0 (length ys) = ys" by (simp add: token_def assms(7))
  moreover have "on_request_version data2 (length ys + 1) 8 p = p\<lparr>qp_data := (qp_data p)\<lparr>rq_version := 0x11\<rparr>\<rparr>"
      for p :: "(http_parser, 'm) request_parser"
    using version_reads [of "CHR ''1''" "ys @ '' ''" "crlf @ crlf" p] assms(7) by simp
  ultimately show ?thesis using e2 assms(8,10) p1
    by (simp add: request_execute_def HttpRequestParser_new_def http11_scanner_def on_request_path_def on_request_uri_def
        on_request_header_done_def request_isFinished_def request_hasError_def http_parser_finish_def http_parser_has_error_def
        http_parser_is_finished_def second_events_def)
qed

lemma split_path_truncated_witness:
  "let sc = http11_scanner in_query; d1 = ''GET /'' @ ''ab''; d2 = ''c'' @ '' HTTP/1.1'' @ crlf @ crlf;
     p1 = snd (request_execute sc demo_map d1 (length d1) (HttpRequestParser_new sc demo_map));
     p2 = snd (request_execute sc demo_map d2 (length d2) p1)
   in rq_path (qp_data p2) = ''c'' \<and> request_isFinished sc p2 = 1"
  using split_path_truncated [of "''ab''" "''c''" _ _ _ in_query _ demo_map, OF _ _ _ _ _ refl refl refl refl refl]
  by (simp add: path_char_def query_char_def byte_val_def Let_def)

end
