(* ===== verification/Http_Receive.thy ===== *)
theory Http_Receive
  imports Http_Session Http11_Parsing
begin

text \<open>
  The session of \<open>src/src/http/http_session.cpp\<close> with the scanner and the parser of requests and the stream of a socket under
  it: from the bytes of a connection to a request.
\<close>

section \<open>The parser on a buffer that is not full\<close>

lemma parser_prefix:
  "len \<le> length data \<Longrightarrow> http_parser_execute data len 0 hp = http_parser_execute (take len data) len 0 hp"
  by (simp add: http_parser_execute_def)

lemma wire_parses_within:
  fixes mo :: "'m map_ops"
  assumes "good_wire w" "(i, m, w_method w) \<in> set HTTP_METHOD_MAP" "len = length (wire_text w @ rest)" "len < 2 ^ 31"
    and "data = wire_text w @ rest @ junk"
  shows "\<exists>data' p'. request_execute (http11_scanner mem) mo data len (HttpRequestParser_new (http11_scanner mem) mo)
      = ((length (wire_text w), data'), p')
    \<and> qp_data p' = wire_result mo m w \<and> \<not> request_hasError (http11_scanner mem) p'
    \<and> request_isFinished (http11_scanner mem) p' = 1 \<and> take (length rest) data' = rest \<and> length data' = length data"
proof -
  let ?sc = "http11_scanner mem"
  have "take len data = wire_text w @ rest" "len \<le> length data" using assms(3,5) by simp_all
  then obtain hp' where x: "sc_execute ?sc (sc_init ?sc) data len = ((wire_events len w, length (wire_text w)), hp')" "hp_cs hp' = 348"
    using fresh_execute [OF assms(1), of rest mem] assms(3,4) parser_prefix [of len data "sc_init ?sc"]
    by (auto simp: http11_scanner_def)
  have shifted: "take (length rest) (shift_left data (length (wire_text w)) len) = rest"
      "length (shift_left data (length (wire_text w)) len) = length data"
    using assms(3,5) by (simp_all add: shift_left_def overwrite_def)
  have q: "qp_parser (HttpRequestParser_new ?sc mo) = sc_init ?sc" by (simp add: HttpRequestParser_new_def)
  show ?thesis
    using x shifted wire_reads [OF assms(1,2), of mo "rest @ junk" len ?sc] assms(5)
    by (simp add: request_execute_def q request_hasError_def request_isFinished_def http11_scanner_def HttpRequestParser_new_def
        http_parser_finish_def http_parser_has_error_def http_parser_is_finished_def)
qed

lemma text_of_append: "text_of (a @ b) = text_of a @ text_of b"
  by (simp add: text_of_def)

section \<open>Receiving\<close>

text \<open>A head that comes with the first read.\<close>

lemma head_received:
  fixes mo :: "'m map_ops" and sz :: u64
  assumes "good_wire w" "(i, m, w_method w) \<in> set HTTP_METHOD_MAP"
    and "rd (unat sz) s = (Inr (int (length bs), bs), s1)" "text_of bs = wire_text w @ rest" "length bs \<le> unat sz"
    and "length fresh = unat sz" "unat sz < 2 ^ 31"
  shows "\<exists>p buf. recv_head (http11_scanner mem) mo rd sz (HttpRequestParser_new (http11_scanner mem) mo) fresh 0 s
      = Some (Inr (Some (p, buf, int (length rest))), s1)
    \<and> qp_data p = wire_result mo m w \<and> take (length rest) buf = bytes_of rest \<and> length rest \<le> length buf"
proof -
  let ?data = "text_of (overwrite fresh 0 bs)" and ?len = "length (wire_text w @ rest)"
  have len: "length bs = ?len" using assms(4) length_text_of [of bs] by simp
  have data: "?data = wire_text w @ rest @ text_of (drop (length bs) fresh)"
    using assms(4) by (simp add: overwrite_def text_of_def)
  obtain data' p' where run: "request_execute (http11_scanner mem) mo ?data ?len (HttpRequestParser_new (http11_scanner mem) mo)
      = ((length (wire_text w), data'), p')"
      "qp_data p' = wire_result mo m w" "\<not> request_hasError (http11_scanner mem) p'" "request_isFinished (http11_scanner mem) p' = 1"
      "take (length rest) data' = rest" "length data' = length ?data"
    using wire_parses_within [OF assms(1,2) refl _ data] len assms(5,7) by fastforce
  have pos: "0 < length (wire_text w)" by (simp add: wire_text_def)
  have "int (unat sz) < 2 ^ 31" using assms(7) by (metis of_nat_less_iff of_nat_numeral of_nat_power)
  then have sz: "to_int (uint sz) = int (unat sz)" using to_int_small [of "uint sz"] order_trans [OF _ uint_ge_0 [of sz], of "- (2 ^ 31)"] by simp
  have buf: "take (length rest) (bytes_of data') = bytes_of rest" using run(5) by (metis bytes_of_def take_map)
  have "length rest \<le> length data'" using run(5) by (metis length_take min.absorb_iff2 min.commute)
  moreover have "length rest < unat sz" using pos len assms(5) unfolding length_append by linarith
  then have "int (length rest) \<noteq> uint sz" by (metis nat_less_le uint_nat of_nat_eq_iff)
  moreover have "0 < int (length (wire_text w)) + int (length rest)" using pos by linarith
  ultimately show ?thesis using run len sz buf assms(3,5,6)
    by (subst recv_head.simps) (simp add: Let_def nat_int_add)
qed

section \<open>Properties\<close>


text \<open>A head with a length of two bytes, and a connection that has them and one byte more.\<close>

definition posted_wire :: wire_request where
  "posted_wire = demo_wire\<lparr>w_method := ''POST'', w_fields := [(''content-length'', '' '', ''2'')]\<rparr>"

lemma good_posted_wire: "good_wire posted_wire" "(3, POST, w_method posted_wire) \<in> set HTTP_METHOD_MAP" "length (wire_text posted_wire) = 43"
  by (simp_all add: posted_wire_def demo_wire_def good_wire_def good_path_def name_char_def path_char_def query_char_def good_field_def
    field_char_def blank_char_def value_char_def byte_val_def HTTP_METHOD_MAP_def wire_text_def wire_target_def field_line_def crlf_def)


end
