(* ===== verification/Httpclient_Machine.thy ===== *)
theory Httpclient_Machine
  imports Ragel
begin

text \<open>
  The state machine of \<open>src/src/http/httpclient_parser.cpp\<close>, as Ragel generated it, in the form of
  \<open>Http11_Machine\<close>. No state of it looks at a flag.
\<close>

named_theorems rsp_cases "what the states do"

section \<open>Actions\<close>

datatype rsp_action =
    R_Mark
  | R_Start_Field
  | R_Write_Field
  | R_Start_Value
  | R_Write_Content_Len
  | R_Write_Connection_Close
  | R_Write_Value
  | R_Reason_Phrase
  | R_Status_Code
  | R_Http_Version
  | R_Chunk_Size
  | R_Trans_Chunked
  | R_Done

section \<open>States\<close>

definition rsp_case_1 :: "int \<Rightarrow> label" where [rsp_cases]:
  "rsp_case_1 c =
     (if c = 72 then Tr 2
      else if c < 65 then (if 48 \<le> c \<and> c \<le> 57 then Tr 0 else St 0)
      else if c > 70 then (if 97 \<le> c \<and> c \<le> 102 then Tr 0 else St 0) else Tr 0)"

definition rsp_tr_0 :: "rsp_action list \<times> nat" where
  "rsp_tr_0 = ([R_Mark], 2)"

definition rsp_case_2 :: "int \<Rightarrow> label" where [rsp_cases]:
  "rsp_case_2 c =
     (if c = 10 then Tr 3
      else if c = 13 then Tr 4
      else if c = 59 then Tr 6
      else if c < 65 then (if 48 \<le> c \<and> c \<le> 57 then St 2 else St 0)
      else if c > 70 then (if 97 \<le> c \<and> c \<le> 102 then St 2 else St 0) else St 2)"

definition rsp_tr_3 :: "rsp_action list \<times> nat" where
  "rsp_tr_3 = ([R_Chunk_Size, R_Done], 120)"

definition rsp_tr_7 :: "rsp_action list \<times> nat" where
  "rsp_tr_7 = ([R_Done], 120)"

definition rsp_tr_9 :: "rsp_action list \<times> nat" where
  "rsp_tr_9 = ([R_Write_Field, R_Start_Value, R_Write_Value, R_Done], 120)"

definition rsp_tr_15 :: "rsp_action list \<times> nat" where
  "rsp_tr_15 = ([R_Write_Value, R_Done], 120)"

definition rsp_tr_74 :: "rsp_action list \<times> nat" where
  "rsp_tr_74 = ([R_Write_Connection_Close, R_Done], 120)"

definition rsp_case_120 :: "int \<Rightarrow> label" where [rsp_cases]:
  "rsp_case_120 c =
     (St 0)"

definition rsp_tr_4 :: "rsp_action list \<times> nat" where
  "rsp_tr_4 = ([R_Chunk_Size], 3)"

definition rsp_tr_10 :: "rsp_action list \<times> nat" where
  "rsp_tr_10 = ([R_Write_Field, R_Start_Value, R_Write_Value], 3)"

definition rsp_tr_16 :: "rsp_action list \<times> nat" where
  "rsp_tr_16 = ([R_Write_Value], 3)"

definition rsp_tr_75 :: "rsp_action list \<times> nat" where
  "rsp_tr_75 = ([R_Write_Connection_Close], 3)"

definition rsp_case_3 :: "int \<Rightarrow> label" where [rsp_cases]:
  "rsp_case_3 c =
     (if c = 10 then Tr 7 else St 0)"

definition rsp_tr_6 :: "rsp_action list \<times> nat" where
  "rsp_tr_6 = ([R_Chunk_Size], 4)"

definition rsp_tr_12 :: "rsp_action list \<times> nat" where
  "rsp_tr_12 = ([R_Write_Field, R_Start_Value, R_Write_Value], 4)"

definition rsp_tr_18 :: "rsp_action list \<times> nat" where
  "rsp_tr_18 = ([R_Write_Value], 4)"

definition rsp_case_4 :: "int \<Rightarrow> label" where [rsp_cases]:
  "rsp_case_4 c =
     (if c = 33 \<or> c = 124 \<or> c = 126 then Tr 8
      else if c < 45 then (if c > 39 then (if 42 \<le> c \<and> c \<le> 43 then Tr 8 else St 0) else if c \<ge> 35 then Tr 8 else
        St 0)
      else if c > 46 then (if c < 65 then (if 48 \<le> c \<and> c \<le> 57 then Tr 8 else St 0) else if c > 90 then (if 94 \<le> c
        \<and> c \<le> 122 then Tr 8 else St 0) else Tr 8) else Tr 8)"

definition rsp_tr_8 :: "rsp_action list \<times> nat" where
  "rsp_tr_8 = ([R_Start_Field], 5)"

definition rsp_case_5 :: "int \<Rightarrow> label" where [rsp_cases]:
  "rsp_case_5 c =
     (if c = 10 then Tr 9
      else if c = 13 then Tr 10
      else if c = 33 then St 5
      else if c = 59 then Tr 12
      else if c = 61 then Tr 13
      else if c = 124 \<or> c = 126 then St 5
      else if c < 45 then (if c > 39 then (if 42 \<le> c \<and> c \<le> 43 then St 5 else St 0) else if c \<ge> 35 then St 5 else
        St 0)
      else if c > 46 then (if c < 65 then (if 48 \<le> c \<and> c \<le> 57 then St 5 else St 0) else if c > 90 then (if 94 \<le> c
        \<and> c \<le> 122 then St 5 else St 0) else St 5) else St 5)"

definition rsp_tr_13 :: "rsp_action list \<times> nat" where
  "rsp_tr_13 = ([R_Write_Field, R_Start_Value], 6)"

definition rsp_case_6 :: "int \<Rightarrow> label" where [rsp_cases]:
  "rsp_case_6 c =
     (if c = 33 \<or> c = 124 \<or> c = 126 then Tr 14
      else if c < 45 then (if c > 39 then (if 42 \<le> c \<and> c \<le> 43 then Tr 14 else St 0) else if c \<ge> 35 then Tr 14
        else St 0)
      else if c > 46 then (if c < 65 then (if 48 \<le> c \<and> c \<le> 57 then Tr 14 else St 0) else if c > 90 then (if 94 \<le>
        c \<and> c \<le> 122 then Tr 14 else St 0) else Tr 14) else Tr 14)"

definition rsp_tr_14 :: "rsp_action list \<times> nat" where
  "rsp_tr_14 = ([R_Start_Value], 7)"

definition rsp_case_7 :: "int \<Rightarrow> label" where [rsp_cases]:
  "rsp_case_7 c =
     (if c = 10 then Tr 15
      else if c = 13 then Tr 16
      else if c = 33 then St 7
      else if c = 59 then Tr 18
      else if c = 124 \<or> c = 126 then St 7
      else if c < 45 then (if c > 39 then (if 42 \<le> c \<and> c \<le> 43 then St 7 else St 0) else if c \<ge> 35 then St 7 else
        St 0)
      else if c > 46 then (if c < 65 then (if 48 \<le> c \<and> c \<le> 57 then St 7 else St 0) else if c > 90 then (if 94 \<le> c
        \<and> c \<le> 122 then St 7 else St 0) else St 7) else St 7)"

definition rsp_tr_2 :: "rsp_action list \<times> nat" where
  "rsp_tr_2 = ([R_Mark], 8)"

definition rsp_case_8 :: "int \<Rightarrow> label" where [rsp_cases]:
  "rsp_case_8 c =
     (if c = 84 then St 9 else St 0)"

definition rsp_case_9 :: "int \<Rightarrow> label" where [rsp_cases]:
  "rsp_case_9 c =
     (if c = 84 then St 10 else St 0)"

definition rsp_case_10 :: "int \<Rightarrow> label" where [rsp_cases]:
  "rsp_case_10 c =
     (if c = 80 then St 11 else St 0)"

definition rsp_case_11 :: "int \<Rightarrow> label" where [rsp_cases]:
  "rsp_case_11 c =
     (if c = 47 then St 12 else St 0)"

definition rsp_case_12 :: "int \<Rightarrow> label" where [rsp_cases]:
  "rsp_case_12 c =
     (if 48 \<le> c \<and> c \<le> 57 then St 13 else St 0)"

definition rsp_case_13 :: "int \<Rightarrow> label" where [rsp_cases]:
  "rsp_case_13 c =
     (if c = 46 then St 14
      else if 48 \<le> c \<and> c \<le> 57 then St 13 else St 0)"

definition rsp_case_14 :: "int \<Rightarrow> label" where [rsp_cases]:
  "rsp_case_14 c =
     (if 48 \<le> c \<and> c \<le> 57 then St 15 else St 0)"

definition rsp_case_15 :: "int \<Rightarrow> label" where [rsp_cases]:
  "rsp_case_15 c =
     (if c = 32 then Tr 26
      else if 48 \<le> c \<and> c \<le> 57 then St 15 else St 0)"

definition rsp_tr_26 :: "rsp_action list \<times> nat" where
  "rsp_tr_26 = ([R_Http_Version], 16)"

definition rsp_case_16 :: "int \<Rightarrow> label" where [rsp_cases]:
  "rsp_case_16 c =
     (if 48 \<le> c \<and> c \<le> 57 then Tr 27 else St 0)"

definition rsp_tr_27 :: "rsp_action list \<times> nat" where
  "rsp_tr_27 = ([R_Mark], 17)"

definition rsp_case_17 :: "int \<Rightarrow> label" where [rsp_cases]:
  "rsp_case_17 c =
     (if c = 32 then Tr 28
      else if 48 \<le> c \<and> c \<le> 57 then St 17 else St 0)"

definition rsp_tr_28 :: "rsp_action list \<times> nat" where
  "rsp_tr_28 = ([R_Status_Code], 18)"

definition rsp_case_18 :: "int \<Rightarrow> label" where [rsp_cases]:
  "rsp_case_18 c =
     (if c = 10 then St 0 else Tr 30)"

definition rsp_tr_30 :: "rsp_action list \<times> nat" where
  "rsp_tr_30 = ([R_Mark], 19)"

definition rsp_case_19 :: "int \<Rightarrow> label" where [rsp_cases]:
  "rsp_case_19 c =
     (if c = 10 then Tr 32
      else if c = 13 then Tr 33 else St 19)"

definition rsp_tr_45 :: "rsp_action list \<times> nat" where
  "rsp_tr_45 = ([R_Write_Value], 20)"

definition rsp_tr_32 :: "rsp_action list \<times> nat" where
  "rsp_tr_32 = ([R_Reason_Phrase], 20)"

definition rsp_tr_42 :: "rsp_action list \<times> nat" where
  "rsp_tr_42 = ([R_Start_Value, R_Write_Value], 20)"

definition rsp_tr_111 :: "rsp_action list \<times> nat" where
  "rsp_tr_111 = ([R_Write_Value, R_Trans_Chunked], 20)"

definition rsp_tr_113 :: "rsp_action list \<times> nat" where
  "rsp_tr_113 = ([R_Trans_Chunked], 20)"

definition rsp_tr_158 :: "rsp_action list \<times> nat" where
  "rsp_tr_158 = ([R_Write_Content_Len, R_Write_Value], 20)"

definition rsp_case_20 :: "int \<Rightarrow> label" where [rsp_cases]:
  "rsp_case_20 c =
     (if c = 10 then Tr 7
      else if c = 13 then St 3
      else if c = 33 then Tr 35
      else if c = 67 then Tr 36
      else if c = 84 then Tr 37
      else if c = 99 then Tr 36
      else if c = 116 then Tr 37
      else if c = 124 \<or> c = 126 then Tr 35
      else if c < 45 then (if c > 39 then (if 42 \<le> c \<and> c \<le> 43 then Tr 35 else St 0) else if c \<ge> 35 then Tr 35
        else St 0)
      else if c > 46 then (if c < 65 then (if 48 \<le> c \<and> c \<le> 57 then Tr 35 else St 0) else if c > 90 then (if 94 \<le>
        c \<and> c \<le> 122 then Tr 35 else St 0) else Tr 35) else Tr 35)"

definition rsp_tr_35 :: "rsp_action list \<times> nat" where
  "rsp_tr_35 = ([R_Start_Field], 21)"

definition rsp_tr_76 :: "rsp_action list \<times> nat" where
  "rsp_tr_76 = ([R_Write_Connection_Close, R_Start_Field], 21)"

definition rsp_case_21 :: "int \<Rightarrow> label" where [rsp_cases]:
  "rsp_case_21 c =
     (if c = 33 then St 21
      else if c = 58 then Tr 39
      else if c = 124 \<or> c = 126 then St 21
      else if c < 45 then (if c > 39 then (if 42 \<le> c \<and> c \<le> 43 then St 21 else St 0) else if c \<ge> 35 then St 21
        else St 0)
      else if c > 46 then (if c < 65 then (if 48 \<le> c \<and> c \<le> 57 then St 21 else St 0) else if c > 90 then (if 94 \<le>
        c \<and> c \<le> 122 then St 21 else St 0) else St 21) else St 21)"

definition rsp_tr_41 :: "rsp_action list \<times> nat" where
  "rsp_tr_41 = ([R_Start_Value], 22)"

definition rsp_tr_39 :: "rsp_action list \<times> nat" where
  "rsp_tr_39 = ([R_Write_Field], 22)"

definition rsp_case_22 :: "int \<Rightarrow> label" where [rsp_cases]:
  "rsp_case_22 c =
     (if c = 10 then Tr 42
      else if c = 13 then Tr 43
      else if c = 32 then Tr 41
      else if 9 \<le> c \<and> c \<le> 12 then Tr 41 else Tr 40)"

definition rsp_tr_40 :: "rsp_action list \<times> nat" where
  "rsp_tr_40 = ([R_Start_Value], 23)"

definition rsp_case_23 :: "int \<Rightarrow> label" where [rsp_cases]:
  "rsp_case_23 c =
     (if c = 10 then Tr 45
      else if c = 13 then Tr 46 else St 23)"

definition rsp_tr_46 :: "rsp_action list \<times> nat" where
  "rsp_tr_46 = ([R_Write_Value], 24)"

definition rsp_tr_33 :: "rsp_action list \<times> nat" where
  "rsp_tr_33 = ([R_Reason_Phrase], 24)"

definition rsp_tr_43 :: "rsp_action list \<times> nat" where
  "rsp_tr_43 = ([R_Start_Value, R_Write_Value], 24)"

definition rsp_tr_159 :: "rsp_action list \<times> nat" where
  "rsp_tr_159 = ([R_Write_Content_Len, R_Write_Value], 24)"

definition rsp_case_24 :: "int \<Rightarrow> label" where [rsp_cases]:
  "rsp_case_24 c =
     (if c = 10 then St 20 else St 0)"

definition rsp_tr_36 :: "rsp_action list \<times> nat" where
  "rsp_tr_36 = ([R_Start_Field], 25)"

definition rsp_tr_77 :: "rsp_action list \<times> nat" where
  "rsp_tr_77 = ([R_Write_Connection_Close, R_Start_Field], 25)"

definition rsp_case_25 :: "int \<Rightarrow> label" where [rsp_cases]:
  "rsp_case_25 c =
     (if c = 33 then St 21
      else if c = 58 then Tr 39
      else if c = 79 \<or> c = 111 then St 26
      else if c = 124 \<or> c = 126 then St 21
      else if c < 45 then (if c > 39 then (if 42 \<le> c \<and> c \<le> 43 then St 21 else St 0) else if c \<ge> 35 then St 21
        else St 0)
      else if c > 46 then (if c < 65 then (if 48 \<le> c \<and> c \<le> 57 then St 21 else St 0) else if c > 90 then (if 94 \<le>
        c \<and> c \<le> 122 then St 21 else St 0) else St 21) else St 21)"

definition rsp_case_26 :: "int \<Rightarrow> label" where [rsp_cases]:
  "rsp_case_26 c =
     (if c = 33 then St 21
      else if c = 58 then Tr 39
      else if c = 78 \<or> c = 110 then St 27
      else if c = 124 \<or> c = 126 then St 21
      else if c < 45 then (if c > 39 then (if 42 \<le> c \<and> c \<le> 43 then St 21 else St 0) else if c \<ge> 35 then St 21
        else St 0)
      else if c > 46 then (if c < 65 then (if 48 \<le> c \<and> c \<le> 57 then St 21 else St 0) else if c > 90 then (if 94 \<le>
        c \<and> c \<le> 122 then St 21 else St 0) else St 21) else St 21)"

definition rsp_case_27 :: "int \<Rightarrow> label" where [rsp_cases]:
  "rsp_case_27 c =
     (if c = 33 then St 21
      else if c = 58 then Tr 39
      else if c = 78 then St 28
      else if c = 84 then St 101
      else if c = 110 then St 28
      else if c = 116 then St 101
      else if c = 124 \<or> c = 126 then St 21
      else if c < 45 then (if c > 39 then (if 42 \<le> c \<and> c \<le> 43 then St 21 else St 0) else if c \<ge> 35 then St 21
        else St 0)
      else if c > 46 then (if c < 65 then (if 48 \<le> c \<and> c \<le> 57 then St 21 else St 0) else if c > 90 then (if 94 \<le>
        c \<and> c \<le> 122 then St 21 else St 0) else St 21) else St 21)"

definition rsp_case_28 :: "int \<Rightarrow> label" where [rsp_cases]:
  "rsp_case_28 c =
     (if c = 33 then St 21
      else if c = 58 then Tr 39
      else if c = 69 \<or> c = 101 then St 29
      else if c = 124 \<or> c = 126 then St 21
      else if c < 45 then (if c > 39 then (if 42 \<le> c \<and> c \<le> 43 then St 21 else St 0) else if c \<ge> 35 then St 21
        else St 0)
      else if c > 46 then (if c < 65 then (if 48 \<le> c \<and> c \<le> 57 then St 21 else St 0) else if c > 90 then (if 94 \<le>
        c \<and> c \<le> 122 then St 21 else St 0) else St 21) else St 21)"

definition rsp_case_29 :: "int \<Rightarrow> label" where [rsp_cases]:
  "rsp_case_29 c =
     (if c = 33 then St 21
      else if c = 58 then Tr 39
      else if c = 67 \<or> c = 99 then St 30
      else if c = 124 \<or> c = 126 then St 21
      else if c < 45 then (if c > 39 then (if 42 \<le> c \<and> c \<le> 43 then St 21 else St 0) else if c \<ge> 35 then St 21
        else St 0)
      else if c > 46 then (if c < 65 then (if 48 \<le> c \<and> c \<le> 57 then St 21 else St 0) else if c > 90 then (if 94 \<le>
        c \<and> c \<le> 122 then St 21 else St 0) else St 21) else St 21)"

definition rsp_case_30 :: "int \<Rightarrow> label" where [rsp_cases]:
  "rsp_case_30 c =
     (if c = 33 then St 21
      else if c = 58 then Tr 39
      else if c = 84 \<or> c = 116 then St 31
      else if c = 124 \<or> c = 126 then St 21
      else if c < 45 then (if c > 39 then (if 42 \<le> c \<and> c \<le> 43 then St 21 else St 0) else if c \<ge> 35 then St 21
        else St 0)
      else if c > 46 then (if c < 65 then (if 48 \<le> c \<and> c \<le> 57 then St 21 else St 0) else if c > 90 then (if 94 \<le>
        c \<and> c \<le> 122 then St 21 else St 0) else St 21) else St 21)"

definition rsp_case_31 :: "int \<Rightarrow> label" where [rsp_cases]:
  "rsp_case_31 c =
     (if c = 33 then St 21
      else if c = 58 then Tr 39
      else if c = 73 \<or> c = 105 then St 32
      else if c = 124 \<or> c = 126 then St 21
      else if c < 45 then (if c > 39 then (if 42 \<le> c \<and> c \<le> 43 then St 21 else St 0) else if c \<ge> 35 then St 21
        else St 0)
      else if c > 46 then (if c < 65 then (if 48 \<le> c \<and> c \<le> 57 then St 21 else St 0) else if c > 90 then (if 94 \<le>
        c \<and> c \<le> 122 then St 21 else St 0) else St 21) else St 21)"

definition rsp_case_32 :: "int \<Rightarrow> label" where [rsp_cases]:
  "rsp_case_32 c =
     (if c = 33 then St 21
      else if c = 58 then Tr 39
      else if c = 79 \<or> c = 111 then St 33
      else if c = 124 \<or> c = 126 then St 21
      else if c < 45 then (if c > 39 then (if 42 \<le> c \<and> c \<le> 43 then St 21 else St 0) else if c \<ge> 35 then St 21
        else St 0)
      else if c > 46 then (if c < 65 then (if 48 \<le> c \<and> c \<le> 57 then St 21 else St 0) else if c > 90 then (if 94 \<le>
        c \<and> c \<le> 122 then St 21 else St 0) else St 21) else St 21)"

definition rsp_case_33 :: "int \<Rightarrow> label" where [rsp_cases]:
  "rsp_case_33 c =
     (if c = 33 then St 21
      else if c = 58 then Tr 39
      else if c = 78 \<or> c = 110 then St 34
      else if c = 124 \<or> c = 126 then St 21
      else if c < 45 then (if c > 39 then (if 42 \<le> c \<and> c \<le> 43 then St 21 else St 0) else if c \<ge> 35 then St 21
        else St 0)
      else if c > 46 then (if c < 65 then (if 48 \<le> c \<and> c \<le> 57 then St 21 else St 0) else if c > 90 then (if 94 \<le>
        c \<and> c \<le> 122 then St 21 else St 0) else St 21) else St 21)"

definition rsp_case_34 :: "int \<Rightarrow> label" where [rsp_cases]:
  "rsp_case_34 c =
     (if c = 33 then St 21
      else if c = 58 then Tr 58
      else if c = 124 \<or> c = 126 then St 21
      else if c < 45 then (if c > 39 then (if 42 \<le> c \<and> c \<le> 43 then St 21 else St 0) else if c \<ge> 35 then St 21
        else St 0)
      else if c > 46 then (if c < 65 then (if 48 \<le> c \<and> c \<le> 57 then St 21 else St 0) else if c > 90 then (if 94 \<le>
        c \<and> c \<le> 122 then St 21 else St 0) else St 21) else St 21)"

definition rsp_tr_59 :: "rsp_action list \<times> nat" where
  "rsp_tr_59 = ([R_Start_Value], 35)"

definition rsp_tr_58 :: "rsp_action list \<times> nat" where
  "rsp_tr_58 = ([R_Write_Field], 35)"

definition rsp_case_35 :: "int \<Rightarrow> label" where [rsp_cases]:
  "rsp_case_35 c =
     (if c = 10 then Tr 60
      else if c = 13 then Tr 61
      else if c = 32 then Tr 59
      else if c = 67 \<or> c = 99 then Tr 62
      else if 9 \<le> c \<and> c \<le> 12 then Tr 59 else Tr 40)"

definition rsp_tr_60 :: "rsp_action list \<times> nat" where
  "rsp_tr_60 = ([R_Start_Value, R_Write_Value], 36)"

definition rsp_case_36 :: "int \<Rightarrow> label" where [rsp_cases]:
  "rsp_case_36 c =
     (if c = 10 then Tr 64
      else if c = 13 then St 89
      else if c = 32 then St 37
      else if c = 33 then Tr 35
      else if c = 67 then Tr 66
      else if c = 84 then Tr 37
      else if c = 99 then Tr 66
      else if c = 116 then Tr 37
      else if c = 124 \<or> c = 126 then Tr 35
      else if c < 45 then (if c < 35 then (if 9 \<le> c \<and> c \<le> 12 then St 37 else St 0) else if c > 39 then (if 42 \<le> c
        \<and> c \<le> 43 then Tr 35 else St 0) else Tr 35)
      else if c > 46 then (if c < 65 then (if 48 \<le> c \<and> c \<le> 57 then Tr 35 else St 0) else if c > 90 then (if 94 \<le>
        c \<and> c \<le> 122 then Tr 35 else St 0) else Tr 35) else Tr 35)"

definition rsp_case_37 :: "int \<Rightarrow> label" where [rsp_cases]:
  "rsp_case_37 c =
     (if c = 32 then St 37
      else if c = 67 \<or> c = 99 then St 38
      else if 9 \<le> c \<and> c \<le> 13 then St 37 else St 0)"

definition rsp_case_38 :: "int \<Rightarrow> label" where [rsp_cases]:
  "rsp_case_38 c =
     (if c = 76 then St 39
      else if c = 108 then St 39 else St 0)"

definition rsp_case_39 :: "int \<Rightarrow> label" where [rsp_cases]:
  "rsp_case_39 c =
     (if c = 79 then St 40
      else if c = 111 then St 40 else St 0)"

definition rsp_case_40 :: "int \<Rightarrow> label" where [rsp_cases]:
  "rsp_case_40 c =
     (if c = 83 then St 41
      else if c = 115 then St 41 else St 0)"

definition rsp_case_41 :: "int \<Rightarrow> label" where [rsp_cases]:
  "rsp_case_41 c =
     (if c = 69 then St 42
      else if c = 101 then St 42 else St 0)"

definition rsp_case_42 :: "int \<Rightarrow> label" where [rsp_cases]:
  "rsp_case_42 c =
     (if c = 10 then St 43
      else if c = 13 then St 88 else St 0)"

definition rsp_tr_136 :: "rsp_action list \<times> nat" where
  "rsp_tr_136 = ([R_Write_Value], 43)"

definition rsp_case_43 :: "int \<Rightarrow> label" where [rsp_cases]:
  "rsp_case_43 c =
     (if c = 10 then Tr 74
      else if c = 13 then Tr 75
      else if c = 33 then Tr 76
      else if c = 67 then Tr 77
      else if c = 84 then Tr 78
      else if c = 99 then Tr 77
      else if c = 116 then Tr 78
      else if c = 124 \<or> c = 126 then Tr 76
      else if c < 45 then (if c > 39 then (if 42 \<le> c \<and> c \<le> 43 then Tr 76 else St 0) else if c \<ge> 35 then Tr 76
        else St 0)
      else if c > 46 then (if c < 65 then (if 48 \<le> c \<and> c \<le> 57 then Tr 76 else St 0) else if c > 90 then (if 94 \<le>
        c \<and> c \<le> 122 then Tr 76 else St 0) else Tr 76) else Tr 76)"

definition rsp_tr_37 :: "rsp_action list \<times> nat" where
  "rsp_tr_37 = ([R_Start_Field], 44)"

definition rsp_tr_78 :: "rsp_action list \<times> nat" where
  "rsp_tr_78 = ([R_Write_Connection_Close, R_Start_Field], 44)"

definition rsp_case_44 :: "int \<Rightarrow> label" where [rsp_cases]:
  "rsp_case_44 c =
     (if c = 33 then St 21
      else if c = 58 then Tr 39
      else if c = 82 \<or> c = 114 then St 45
      else if c = 124 \<or> c = 126 then St 21
      else if c < 45 then (if c > 39 then (if 42 \<le> c \<and> c \<le> 43 then St 21 else St 0) else if c \<ge> 35 then St 21
        else St 0)
      else if c > 46 then (if c < 65 then (if 48 \<le> c \<and> c \<le> 57 then St 21 else St 0) else if c > 90 then (if 94 \<le>
        c \<and> c \<le> 122 then St 21 else St 0) else St 21) else St 21)"

definition rsp_case_45 :: "int \<Rightarrow> label" where [rsp_cases]:
  "rsp_case_45 c =
     (if c = 33 then St 21
      else if c = 58 then Tr 39
      else if c = 65 \<or> c = 97 then St 46
      else if c = 124 \<or> c = 126 then St 21
      else if c < 45 then (if c > 39 then (if 42 \<le> c \<and> c \<le> 43 then St 21 else St 0) else if c \<ge> 35 then St 21
        else St 0)
      else if c > 46 then (if c < 66 then (if 48 \<le> c \<and> c \<le> 57 then St 21 else St 0) else if c > 90 then (if 94 \<le>
        c \<and> c \<le> 122 then St 21 else St 0) else St 21) else St 21)"

definition rsp_case_46 :: "int \<Rightarrow> label" where [rsp_cases]:
  "rsp_case_46 c =
     (if c = 33 then St 21
      else if c = 58 then Tr 39
      else if c = 78 \<or> c = 110 then St 47
      else if c = 124 \<or> c = 126 then St 21
      else if c < 45 then (if c > 39 then (if 42 \<le> c \<and> c \<le> 43 then St 21 else St 0) else if c \<ge> 35 then St 21
        else St 0)
      else if c > 46 then (if c < 65 then (if 48 \<le> c \<and> c \<le> 57 then St 21 else St 0) else if c > 90 then (if 94 \<le>
        c \<and> c \<le> 122 then St 21 else St 0) else St 21) else St 21)"

definition rsp_case_47 :: "int \<Rightarrow> label" where [rsp_cases]:
  "rsp_case_47 c =
     (if c = 33 then St 21
      else if c = 58 then Tr 39
      else if c = 83 \<or> c = 115 then St 48
      else if c = 124 \<or> c = 126 then St 21
      else if c < 45 then (if c > 39 then (if 42 \<le> c \<and> c \<le> 43 then St 21 else St 0) else if c \<ge> 35 then St 21
        else St 0)
      else if c > 46 then (if c < 65 then (if 48 \<le> c \<and> c \<le> 57 then St 21 else St 0) else if c > 90 then (if 94 \<le>
        c \<and> c \<le> 122 then St 21 else St 0) else St 21) else St 21)"

definition rsp_case_48 :: "int \<Rightarrow> label" where [rsp_cases]:
  "rsp_case_48 c =
     (if c = 33 then St 21
      else if c = 58 then Tr 39
      else if c = 70 \<or> c = 102 then St 49
      else if c = 124 \<or> c = 126 then St 21
      else if c < 45 then (if c > 39 then (if 42 \<le> c \<and> c \<le> 43 then St 21 else St 0) else if c \<ge> 35 then St 21
        else St 0)
      else if c > 46 then (if c < 65 then (if 48 \<le> c \<and> c \<le> 57 then St 21 else St 0) else if c > 90 then (if 94 \<le>
        c \<and> c \<le> 122 then St 21 else St 0) else St 21) else St 21)"

definition rsp_case_49 :: "int \<Rightarrow> label" where [rsp_cases]:
  "rsp_case_49 c =
     (if c = 33 then St 21
      else if c = 58 then Tr 39
      else if c = 69 \<or> c = 101 then St 50
      else if c = 124 \<or> c = 126 then St 21
      else if c < 45 then (if c > 39 then (if 42 \<le> c \<and> c \<le> 43 then St 21 else St 0) else if c \<ge> 35 then St 21
        else St 0)
      else if c > 46 then (if c < 65 then (if 48 \<le> c \<and> c \<le> 57 then St 21 else St 0) else if c > 90 then (if 94 \<le>
        c \<and> c \<le> 122 then St 21 else St 0) else St 21) else St 21)"

definition rsp_case_50 :: "int \<Rightarrow> label" where [rsp_cases]:
  "rsp_case_50 c =
     (if c = 33 then St 21
      else if c = 58 then Tr 39
      else if c = 82 \<or> c = 114 then St 51
      else if c = 124 \<or> c = 126 then St 21
      else if c < 45 then (if c > 39 then (if 42 \<le> c \<and> c \<le> 43 then St 21 else St 0) else if c \<ge> 35 then St 21
        else St 0)
      else if c > 46 then (if c < 65 then (if 48 \<le> c \<and> c \<le> 57 then St 21 else St 0) else if c > 90 then (if 94 \<le>
        c \<and> c \<le> 122 then St 21 else St 0) else St 21) else St 21)"

definition rsp_case_51 :: "int \<Rightarrow> label" where [rsp_cases]:
  "rsp_case_51 c =
     (if c = 33 then St 21
      else if c = 45 then St 52
      else if c = 46 then St 21
      else if c = 58 then Tr 39
      else if c = 124 \<or> c = 126 then St 21
      else if c < 48 then (if c > 39 then (if 42 \<le> c \<and> c \<le> 43 then St 21 else St 0) else if c \<ge> 35 then St 21
        else St 0)
      else if c > 57 then (if c > 90 then (if 94 \<le> c \<and> c \<le> 122 then St 21 else St 0) else if c \<ge> 65 then St 21
        else St 0) else St 21)"

definition rsp_case_52 :: "int \<Rightarrow> label" where [rsp_cases]:
  "rsp_case_52 c =
     (if c = 33 then St 21
      else if c = 58 then Tr 39
      else if c = 69 \<or> c = 101 then St 53
      else if c = 124 \<or> c = 126 then St 21
      else if c < 45 then (if c > 39 then (if 42 \<le> c \<and> c \<le> 43 then St 21 else St 0) else if c \<ge> 35 then St 21
        else St 0)
      else if c > 46 then (if c < 65 then (if 48 \<le> c \<and> c \<le> 57 then St 21 else St 0) else if c > 90 then (if 94 \<le>
        c \<and> c \<le> 122 then St 21 else St 0) else St 21) else St 21)"

definition rsp_case_53 :: "int \<Rightarrow> label" where [rsp_cases]:
  "rsp_case_53 c =
     (if c = 33 then St 21
      else if c = 58 then Tr 39
      else if c = 78 \<or> c = 110 then St 54
      else if c = 124 \<or> c = 126 then St 21
      else if c < 45 then (if c > 39 then (if 42 \<le> c \<and> c \<le> 43 then St 21 else St 0) else if c \<ge> 35 then St 21
        else St 0)
      else if c > 46 then (if c < 65 then (if 48 \<le> c \<and> c \<le> 57 then St 21 else St 0) else if c > 90 then (if 94 \<le>
        c \<and> c \<le> 122 then St 21 else St 0) else St 21) else St 21)"

definition rsp_case_54 :: "int \<Rightarrow> label" where [rsp_cases]:
  "rsp_case_54 c =
     (if c = 33 then St 21
      else if c = 58 then Tr 39
      else if c = 67 \<or> c = 99 then St 55
      else if c = 124 \<or> c = 126 then St 21
      else if c < 45 then (if c > 39 then (if 42 \<le> c \<and> c \<le> 43 then St 21 else St 0) else if c \<ge> 35 then St 21
        else St 0)
      else if c > 46 then (if c < 65 then (if 48 \<le> c \<and> c \<le> 57 then St 21 else St 0) else if c > 90 then (if 94 \<le>
        c \<and> c \<le> 122 then St 21 else St 0) else St 21) else St 21)"

definition rsp_case_55 :: "int \<Rightarrow> label" where [rsp_cases]:
  "rsp_case_55 c =
     (if c = 33 then St 21
      else if c = 58 then Tr 39
      else if c = 79 \<or> c = 111 then St 56
      else if c = 124 \<or> c = 126 then St 21
      else if c < 45 then (if c > 39 then (if 42 \<le> c \<and> c \<le> 43 then St 21 else St 0) else if c \<ge> 35 then St 21
        else St 0)
      else if c > 46 then (if c < 65 then (if 48 \<le> c \<and> c \<le> 57 then St 21 else St 0) else if c > 90 then (if 94 \<le>
        c \<and> c \<le> 122 then St 21 else St 0) else St 21) else St 21)"

definition rsp_case_56 :: "int \<Rightarrow> label" where [rsp_cases]:
  "rsp_case_56 c =
     (if c = 33 then St 21
      else if c = 58 then Tr 39
      else if c = 68 \<or> c = 100 then St 57
      else if c = 124 \<or> c = 126 then St 21
      else if c < 45 then (if c > 39 then (if 42 \<le> c \<and> c \<le> 43 then St 21 else St 0) else if c \<ge> 35 then St 21
        else St 0)
      else if c > 46 then (if c < 65 then (if 48 \<le> c \<and> c \<le> 57 then St 21 else St 0) else if c > 90 then (if 94 \<le>
        c \<and> c \<le> 122 then St 21 else St 0) else St 21) else St 21)"

definition rsp_case_57 :: "int \<Rightarrow> label" where [rsp_cases]:
  "rsp_case_57 c =
     (if c = 33 then St 21
      else if c = 58 then Tr 39
      else if c = 73 \<or> c = 105 then St 58
      else if c = 124 \<or> c = 126 then St 21
      else if c < 45 then (if c > 39 then (if 42 \<le> c \<and> c \<le> 43 then St 21 else St 0) else if c \<ge> 35 then St 21
        else St 0)
      else if c > 46 then (if c < 65 then (if 48 \<le> c \<and> c \<le> 57 then St 21 else St 0) else if c > 90 then (if 94 \<le>
        c \<and> c \<le> 122 then St 21 else St 0) else St 21) else St 21)"

definition rsp_case_58 :: "int \<Rightarrow> label" where [rsp_cases]:
  "rsp_case_58 c =
     (if c = 33 then St 21
      else if c = 58 then Tr 39
      else if c = 78 \<or> c = 110 then St 59
      else if c = 124 \<or> c = 126 then St 21
      else if c < 45 then (if c > 39 then (if 42 \<le> c \<and> c \<le> 43 then St 21 else St 0) else if c \<ge> 35 then St 21
        else St 0)
      else if c > 46 then (if c < 65 then (if 48 \<le> c \<and> c \<le> 57 then St 21 else St 0) else if c > 90 then (if 94 \<le>
        c \<and> c \<le> 122 then St 21 else St 0) else St 21) else St 21)"

definition rsp_case_59 :: "int \<Rightarrow> label" where [rsp_cases]:
  "rsp_case_59 c =
     (if c = 33 then St 21
      else if c = 58 then Tr 39
      else if c = 71 \<or> c = 103 then St 60
      else if c = 124 \<or> c = 126 then St 21
      else if c < 45 then (if c > 39 then (if 42 \<le> c \<and> c \<le> 43 then St 21 else St 0) else if c \<ge> 35 then St 21
        else St 0)
      else if c > 46 then (if c < 65 then (if 48 \<le> c \<and> c \<le> 57 then St 21 else St 0) else if c > 90 then (if 94 \<le>
        c \<and> c \<le> 122 then St 21 else St 0) else St 21) else St 21)"

definition rsp_case_60 :: "int \<Rightarrow> label" where [rsp_cases]:
  "rsp_case_60 c =
     (if c = 33 then St 21
      else if c = 58 then Tr 95
      else if c = 124 \<or> c = 126 then St 21
      else if c < 45 then (if c > 39 then (if 42 \<le> c \<and> c \<le> 43 then St 21 else St 0) else if c \<ge> 35 then St 21
        else St 0)
      else if c > 46 then (if c < 65 then (if 48 \<le> c \<and> c \<le> 57 then St 21 else St 0) else if c > 90 then (if 94 \<le>
        c \<and> c \<le> 122 then St 21 else St 0) else St 21) else St 21)"

definition rsp_tr_96 :: "rsp_action list \<times> nat" where
  "rsp_tr_96 = ([R_Start_Value], 61)"

definition rsp_tr_95 :: "rsp_action list \<times> nat" where
  "rsp_tr_95 = ([R_Write_Field], 61)"

definition rsp_case_61 :: "int \<Rightarrow> label" where [rsp_cases]:
  "rsp_case_61 c =
     (if c = 10 then Tr 97
      else if c = 13 then Tr 98
      else if c = 32 then Tr 96
      else if c = 67 \<or> c = 99 then Tr 99
      else if 9 \<le> c \<and> c \<le> 12 then Tr 96 else Tr 40)"

definition rsp_tr_97 :: "rsp_action list \<times> nat" where
  "rsp_tr_97 = ([R_Start_Value, R_Write_Value], 62)"

definition rsp_case_62 :: "int \<Rightarrow> label" where [rsp_cases]:
  "rsp_case_62 c =
     (if c = 10 then Tr 101
      else if c = 13 then St 72
      else if c = 32 then St 63
      else if c = 33 then Tr 35
      else if c = 67 then Tr 103
      else if c = 84 then Tr 37
      else if c = 99 then Tr 103
      else if c = 116 then Tr 37
      else if c = 124 \<or> c = 126 then Tr 35
      else if c < 45 then (if c < 35 then (if 9 \<le> c \<and> c \<le> 12 then St 63 else St 0) else if c > 39 then (if 42 \<le> c
        \<and> c \<le> 43 then Tr 35 else St 0) else Tr 35)
      else if c > 46 then (if c < 65 then (if 48 \<le> c \<and> c \<le> 57 then Tr 35 else St 0) else if c > 90 then (if 94 \<le>
        c \<and> c \<le> 122 then Tr 35 else St 0) else Tr 35) else Tr 35)"

definition rsp_case_63 :: "int \<Rightarrow> label" where [rsp_cases]:
  "rsp_case_63 c =
     (if c = 32 then St 63
      else if c = 67 \<or> c = 99 then Tr 104
      else if 9 \<le> c \<and> c \<le> 13 then St 63 else St 0)"

definition rsp_tr_104 :: "rsp_action list \<times> nat" where
  "rsp_tr_104 = ([R_Start_Value], 64)"

definition rsp_case_64 :: "int \<Rightarrow> label" where [rsp_cases]:
  "rsp_case_64 c =
     (if c = 72 then St 65
      else if c = 104 then St 65 else St 0)"

definition rsp_case_65 :: "int \<Rightarrow> label" where [rsp_cases]:
  "rsp_case_65 c =
     (if c = 85 then St 66
      else if c = 117 then St 66 else St 0)"

definition rsp_case_66 :: "int \<Rightarrow> label" where [rsp_cases]:
  "rsp_case_66 c =
     (if c = 78 then St 67
      else if c = 110 then St 67 else St 0)"

definition rsp_case_67 :: "int \<Rightarrow> label" where [rsp_cases]:
  "rsp_case_67 c =
     (if c = 75 then St 68
      else if c = 107 then St 68 else St 0)"

definition rsp_case_68 :: "int \<Rightarrow> label" where [rsp_cases]:
  "rsp_case_68 c =
     (if c = 69 then St 69
      else if c = 101 then St 69 else St 0)"

definition rsp_case_69 :: "int \<Rightarrow> label" where [rsp_cases]:
  "rsp_case_69 c =
     (if c = 68 then St 70
      else if c = 100 then St 70 else St 0)"

definition rsp_case_70 :: "int \<Rightarrow> label" where [rsp_cases]:
  "rsp_case_70 c =
     (if c = 10 then Tr 111
      else if c = 13 then Tr 112 else St 0)"

definition rsp_tr_112 :: "rsp_action list \<times> nat" where
  "rsp_tr_112 = ([R_Write_Value], 71)"

definition rsp_case_71 :: "int \<Rightarrow> label" where [rsp_cases]:
  "rsp_case_71 c =
     (if c = 10 then Tr 113 else St 0)"

definition rsp_tr_101 :: "rsp_action list \<times> nat" where
  "rsp_tr_101 = ([R_Done], 121)"

definition rsp_case_121 :: "int \<Rightarrow> label" where [rsp_cases]:
  "rsp_case_121 c =
     (if c = 32 then St 63
      else if c = 67 \<or> c = 99 then Tr 104
      else if 9 \<le> c \<and> c \<le> 13 then St 63 else St 0)"

definition rsp_case_72 :: "int \<Rightarrow> label" where [rsp_cases]:
  "rsp_case_72 c =
     (if c = 10 then Tr 101
      else if c = 32 then St 63
      else if c = 67 \<or> c = 99 then Tr 104
      else if 9 \<le> c \<and> c \<le> 13 then St 63 else St 0)"

definition rsp_tr_103 :: "rsp_action list \<times> nat" where
  "rsp_tr_103 = ([R_Start_Value, R_Start_Field], 73)"

definition rsp_case_73 :: "int \<Rightarrow> label" where [rsp_cases]:
  "rsp_case_73 c =
     (if c = 33 then St 21
      else if c = 58 then Tr 39
      else if c = 72 then St 74
      else if c = 79 then St 26
      else if c = 104 then St 74
      else if c = 111 then St 26
      else if c = 124 \<or> c = 126 then St 21
      else if c < 45 then (if c > 39 then (if 42 \<le> c \<and> c \<le> 43 then St 21 else St 0) else if c \<ge> 35 then St 21
        else St 0)
      else if c > 46 then (if c < 65 then (if 48 \<le> c \<and> c \<le> 57 then St 21 else St 0) else if c > 90 then (if 94 \<le>
        c \<and> c \<le> 122 then St 21 else St 0) else St 21) else St 21)"

definition rsp_case_74 :: "int \<Rightarrow> label" where [rsp_cases]:
  "rsp_case_74 c =
     (if c = 33 then St 21
      else if c = 58 then Tr 39
      else if c = 85 \<or> c = 117 then St 75
      else if c = 124 \<or> c = 126 then St 21
      else if c < 45 then (if c > 39 then (if 42 \<le> c \<and> c \<le> 43 then St 21 else St 0) else if c \<ge> 35 then St 21
        else St 0)
      else if c > 46 then (if c < 65 then (if 48 \<le> c \<and> c \<le> 57 then St 21 else St 0) else if c > 90 then (if 94 \<le>
        c \<and> c \<le> 122 then St 21 else St 0) else St 21) else St 21)"

definition rsp_case_75 :: "int \<Rightarrow> label" where [rsp_cases]:
  "rsp_case_75 c =
     (if c = 33 then St 21
      else if c = 58 then Tr 39
      else if c = 78 \<or> c = 110 then St 76
      else if c = 124 \<or> c = 126 then St 21
      else if c < 45 then (if c > 39 then (if 42 \<le> c \<and> c \<le> 43 then St 21 else St 0) else if c \<ge> 35 then St 21
        else St 0)
      else if c > 46 then (if c < 65 then (if 48 \<le> c \<and> c \<le> 57 then St 21 else St 0) else if c > 90 then (if 94 \<le>
        c \<and> c \<le> 122 then St 21 else St 0) else St 21) else St 21)"

definition rsp_case_76 :: "int \<Rightarrow> label" where [rsp_cases]:
  "rsp_case_76 c =
     (if c = 33 then St 21
      else if c = 58 then Tr 39
      else if c = 75 \<or> c = 107 then St 77
      else if c = 124 \<or> c = 126 then St 21
      else if c < 45 then (if c > 39 then (if 42 \<le> c \<and> c \<le> 43 then St 21 else St 0) else if c \<ge> 35 then St 21
        else St 0)
      else if c > 46 then (if c < 65 then (if 48 \<le> c \<and> c \<le> 57 then St 21 else St 0) else if c > 90 then (if 94 \<le>
        c \<and> c \<le> 122 then St 21 else St 0) else St 21) else St 21)"

definition rsp_case_77 :: "int \<Rightarrow> label" where [rsp_cases]:
  "rsp_case_77 c =
     (if c = 33 then St 21
      else if c = 58 then Tr 39
      else if c = 69 \<or> c = 101 then St 78
      else if c = 124 \<or> c = 126 then St 21
      else if c < 45 then (if c > 39 then (if 42 \<le> c \<and> c \<le> 43 then St 21 else St 0) else if c \<ge> 35 then St 21
        else St 0)
      else if c > 46 then (if c < 65 then (if 48 \<le> c \<and> c \<le> 57 then St 21 else St 0) else if c > 90 then (if 94 \<le>
        c \<and> c \<le> 122 then St 21 else St 0) else St 21) else St 21)"

definition rsp_case_78 :: "int \<Rightarrow> label" where [rsp_cases]:
  "rsp_case_78 c =
     (if c = 33 then St 21
      else if c = 58 then Tr 39
      else if c = 68 \<or> c = 100 then St 79
      else if c = 124 \<or> c = 126 then St 21
      else if c < 45 then (if c > 39 then (if 42 \<le> c \<and> c \<le> 43 then St 21 else St 0) else if c \<ge> 35 then St 21
        else St 0)
      else if c > 46 then (if c < 65 then (if 48 \<le> c \<and> c \<le> 57 then St 21 else St 0) else if c > 90 then (if 94 \<le>
        c \<and> c \<le> 122 then St 21 else St 0) else St 21) else St 21)"

definition rsp_case_79 :: "int \<Rightarrow> label" where [rsp_cases]:
  "rsp_case_79 c =
     (if c = 10 then Tr 111
      else if c = 13 then Tr 112
      else if c = 33 then St 21
      else if c = 58 then Tr 39
      else if c = 124 \<or> c = 126 then St 21
      else if c < 45 then (if c > 39 then (if 42 \<le> c \<and> c \<le> 43 then St 21 else St 0) else if c \<ge> 35 then St 21
        else St 0)
      else if c > 46 then (if c < 65 then (if 48 \<le> c \<and> c \<le> 57 then St 21 else St 0) else if c > 90 then (if 94 \<le>
        c \<and> c \<le> 122 then St 21 else St 0) else St 21) else St 21)"

definition rsp_tr_98 :: "rsp_action list \<times> nat" where
  "rsp_tr_98 = ([R_Start_Value, R_Write_Value], 80)"

definition rsp_case_80 :: "int \<Rightarrow> label" where [rsp_cases]:
  "rsp_case_80 c =
     (if c = 10 then St 62
      else if c = 32 then St 63
      else if c = 67 \<or> c = 99 then Tr 104
      else if 9 \<le> c \<and> c \<le> 13 then St 63 else St 0)"

definition rsp_tr_99 :: "rsp_action list \<times> nat" where
  "rsp_tr_99 = ([R_Start_Value], 81)"

definition rsp_case_81 :: "int \<Rightarrow> label" where [rsp_cases]:
  "rsp_case_81 c =
     (if c = 10 then Tr 45
      else if c = 13 then Tr 46
      else if c = 72 then St 82
      else if c = 104 then St 82 else St 23)"

definition rsp_case_82 :: "int \<Rightarrow> label" where [rsp_cases]:
  "rsp_case_82 c =
     (if c = 10 then Tr 45
      else if c = 13 then Tr 46
      else if c = 85 then St 83
      else if c = 117 then St 83 else St 23)"

definition rsp_case_83 :: "int \<Rightarrow> label" where [rsp_cases]:
  "rsp_case_83 c =
     (if c = 10 then Tr 45
      else if c = 13 then Tr 46
      else if c = 78 then St 84
      else if c = 110 then St 84 else St 23)"

definition rsp_case_84 :: "int \<Rightarrow> label" where [rsp_cases]:
  "rsp_case_84 c =
     (if c = 10 then Tr 45
      else if c = 13 then Tr 46
      else if c = 75 then St 85
      else if c = 107 then St 85 else St 23)"

definition rsp_case_85 :: "int \<Rightarrow> label" where [rsp_cases]:
  "rsp_case_85 c =
     (if c = 10 then Tr 45
      else if c = 13 then Tr 46
      else if c = 69 then St 86
      else if c = 101 then St 86 else St 23)"

definition rsp_case_86 :: "int \<Rightarrow> label" where [rsp_cases]:
  "rsp_case_86 c =
     (if c = 10 then Tr 45
      else if c = 13 then Tr 46
      else if c = 68 then St 87
      else if c = 100 then St 87 else St 23)"

definition rsp_case_87 :: "int \<Rightarrow> label" where [rsp_cases]:
  "rsp_case_87 c =
     (if c = 10 then Tr 111
      else if c = 13 then Tr 112 else St 23)"

definition rsp_tr_137 :: "rsp_action list \<times> nat" where
  "rsp_tr_137 = ([R_Write_Value], 88)"

definition rsp_case_88 :: "int \<Rightarrow> label" where [rsp_cases]:
  "rsp_case_88 c =
     (if c = 10 then St 43 else St 0)"

definition rsp_tr_64 :: "rsp_action list \<times> nat" where
  "rsp_tr_64 = ([R_Done], 122)"

definition rsp_case_122 :: "int \<Rightarrow> label" where [rsp_cases]:
  "rsp_case_122 c =
     (if c = 32 then St 37
      else if c = 67 \<or> c = 99 then St 38
      else if 9 \<le> c \<and> c \<le> 13 then St 37 else St 0)"

definition rsp_case_89 :: "int \<Rightarrow> label" where [rsp_cases]:
  "rsp_case_89 c =
     (if c = 10 then Tr 64
      else if c = 32 then St 37
      else if c = 67 \<or> c = 99 then St 38
      else if 9 \<le> c \<and> c \<le> 13 then St 37 else St 0)"

definition rsp_tr_66 :: "rsp_action list \<times> nat" where
  "rsp_tr_66 = ([R_Start_Field], 90)"

definition rsp_case_90 :: "int \<Rightarrow> label" where [rsp_cases]:
  "rsp_case_90 c =
     (if c = 33 then St 21
      else if c = 58 then Tr 39
      else if c = 76 then St 91
      else if c = 79 then St 26
      else if c = 108 then St 91
      else if c = 111 then St 26
      else if c = 124 \<or> c = 126 then St 21
      else if c < 45 then (if c > 39 then (if 42 \<le> c \<and> c \<le> 43 then St 21 else St 0) else if c \<ge> 35 then St 21
        else St 0)
      else if c > 46 then (if c < 65 then (if 48 \<le> c \<and> c \<le> 57 then St 21 else St 0) else if c > 90 then (if 94 \<le>
        c \<and> c \<le> 122 then St 21 else St 0) else St 21) else St 21)"

definition rsp_case_91 :: "int \<Rightarrow> label" where [rsp_cases]:
  "rsp_case_91 c =
     (if c = 33 then St 21
      else if c = 58 then Tr 39
      else if c = 79 \<or> c = 111 then St 92
      else if c = 124 \<or> c = 126 then St 21
      else if c < 45 then (if c > 39 then (if 42 \<le> c \<and> c \<le> 43 then St 21 else St 0) else if c \<ge> 35 then St 21
        else St 0)
      else if c > 46 then (if c < 65 then (if 48 \<le> c \<and> c \<le> 57 then St 21 else St 0) else if c > 90 then (if 94 \<le>
        c \<and> c \<le> 122 then St 21 else St 0) else St 21) else St 21)"

definition rsp_case_92 :: "int \<Rightarrow> label" where [rsp_cases]:
  "rsp_case_92 c =
     (if c = 33 then St 21
      else if c = 58 then Tr 39
      else if c = 83 \<or> c = 115 then St 93
      else if c = 124 \<or> c = 126 then St 21
      else if c < 45 then (if c > 39 then (if 42 \<le> c \<and> c \<le> 43 then St 21 else St 0) else if c \<ge> 35 then St 21
        else St 0)
      else if c > 46 then (if c < 65 then (if 48 \<le> c \<and> c \<le> 57 then St 21 else St 0) else if c > 90 then (if 94 \<le>
        c \<and> c \<le> 122 then St 21 else St 0) else St 21) else St 21)"

definition rsp_case_93 :: "int \<Rightarrow> label" where [rsp_cases]:
  "rsp_case_93 c =
     (if c = 33 then St 21
      else if c = 58 then Tr 39
      else if c = 69 \<or> c = 101 then St 94
      else if c = 124 \<or> c = 126 then St 21
      else if c < 45 then (if c > 39 then (if 42 \<le> c \<and> c \<le> 43 then St 21 else St 0) else if c \<ge> 35 then St 21
        else St 0)
      else if c > 46 then (if c < 65 then (if 48 \<le> c \<and> c \<le> 57 then St 21 else St 0) else if c > 90 then (if 94 \<le>
        c \<and> c \<le> 122 then St 21 else St 0) else St 21) else St 21)"

definition rsp_case_94 :: "int \<Rightarrow> label" where [rsp_cases]:
  "rsp_case_94 c =
     (if c = 10 then St 43
      else if c = 13 then St 88
      else if c = 33 then St 21
      else if c = 58 then Tr 39
      else if c = 124 \<or> c = 126 then St 21
      else if c < 45 then (if c > 39 then (if 42 \<le> c \<and> c \<le> 43 then St 21 else St 0) else if c \<ge> 35 then St 21
        else St 0)
      else if c > 46 then (if c < 65 then (if 48 \<le> c \<and> c \<le> 57 then St 21 else St 0) else if c > 90 then (if 94 \<le>
        c \<and> c \<le> 122 then St 21 else St 0) else St 21) else St 21)"

definition rsp_tr_61 :: "rsp_action list \<times> nat" where
  "rsp_tr_61 = ([R_Start_Value, R_Write_Value], 95)"

definition rsp_case_95 :: "int \<Rightarrow> label" where [rsp_cases]:
  "rsp_case_95 c =
     (if c = 10 then St 36
      else if c = 32 then St 37
      else if c = 67 \<or> c = 99 then St 38
      else if 9 \<le> c \<and> c \<le> 13 then St 37 else St 0)"

definition rsp_tr_62 :: "rsp_action list \<times> nat" where
  "rsp_tr_62 = ([R_Start_Value], 96)"

definition rsp_case_96 :: "int \<Rightarrow> label" where [rsp_cases]:
  "rsp_case_96 c =
     (if c = 10 then Tr 45
      else if c = 13 then Tr 46
      else if c = 76 then St 97
      else if c = 108 then St 97 else St 23)"

definition rsp_case_97 :: "int \<Rightarrow> label" where [rsp_cases]:
  "rsp_case_97 c =
     (if c = 10 then Tr 45
      else if c = 13 then Tr 46
      else if c = 79 then St 98
      else if c = 111 then St 98 else St 23)"

definition rsp_case_98 :: "int \<Rightarrow> label" where [rsp_cases]:
  "rsp_case_98 c =
     (if c = 10 then Tr 45
      else if c = 13 then Tr 46
      else if c = 83 then St 99
      else if c = 115 then St 99 else St 23)"

definition rsp_case_99 :: "int \<Rightarrow> label" where [rsp_cases]:
  "rsp_case_99 c =
     (if c = 10 then Tr 45
      else if c = 13 then Tr 46
      else if c = 69 then St 100
      else if c = 101 then St 100 else St 23)"

definition rsp_case_100 :: "int \<Rightarrow> label" where [rsp_cases]:
  "rsp_case_100 c =
     (if c = 10 then Tr 136
      else if c = 13 then Tr 137 else St 23)"

definition rsp_case_101 :: "int \<Rightarrow> label" where [rsp_cases]:
  "rsp_case_101 c =
     (if c = 33 then St 21
      else if c = 58 then Tr 39
      else if c = 69 \<or> c = 101 then St 102
      else if c = 124 \<or> c = 126 then St 21
      else if c < 45 then (if c > 39 then (if 42 \<le> c \<and> c \<le> 43 then St 21 else St 0) else if c \<ge> 35 then St 21
        else St 0)
      else if c > 46 then (if c < 65 then (if 48 \<le> c \<and> c \<le> 57 then St 21 else St 0) else if c > 90 then (if 94 \<le>
        c \<and> c \<le> 122 then St 21 else St 0) else St 21) else St 21)"

definition rsp_case_102 :: "int \<Rightarrow> label" where [rsp_cases]:
  "rsp_case_102 c =
     (if c = 33 then St 21
      else if c = 58 then Tr 39
      else if c = 78 \<or> c = 110 then St 103
      else if c = 124 \<or> c = 126 then St 21
      else if c < 45 then (if c > 39 then (if 42 \<le> c \<and> c \<le> 43 then St 21 else St 0) else if c \<ge> 35 then St 21
        else St 0)
      else if c > 46 then (if c < 65 then (if 48 \<le> c \<and> c \<le> 57 then St 21 else St 0) else if c > 90 then (if 94 \<le>
        c \<and> c \<le> 122 then St 21 else St 0) else St 21) else St 21)"

definition rsp_case_103 :: "int \<Rightarrow> label" where [rsp_cases]:
  "rsp_case_103 c =
     (if c = 33 then St 21
      else if c = 58 then Tr 39
      else if c = 84 \<or> c = 116 then St 104
      else if c = 124 \<or> c = 126 then St 21
      else if c < 45 then (if c > 39 then (if 42 \<le> c \<and> c \<le> 43 then St 21 else St 0) else if c \<ge> 35 then St 21
        else St 0)
      else if c > 46 then (if c < 65 then (if 48 \<le> c \<and> c \<le> 57 then St 21 else St 0) else if c > 90 then (if 94 \<le>
        c \<and> c \<le> 122 then St 21 else St 0) else St 21) else St 21)"

definition rsp_case_104 :: "int \<Rightarrow> label" where [rsp_cases]:
  "rsp_case_104 c =
     (if c = 33 then St 21
      else if c = 45 then St 105
      else if c = 46 then St 21
      else if c = 58 then Tr 39
      else if c = 124 \<or> c = 126 then St 21
      else if c < 48 then (if c > 39 then (if 42 \<le> c \<and> c \<le> 43 then St 21 else St 0) else if c \<ge> 35 then St 21
        else St 0)
      else if c > 57 then (if c > 90 then (if 94 \<le> c \<and> c \<le> 122 then St 21 else St 0) else if c \<ge> 65 then St 21
        else St 0) else St 21)"

definition rsp_case_105 :: "int \<Rightarrow> label" where [rsp_cases]:
  "rsp_case_105 c =
     (if c = 33 then St 21
      else if c = 58 then Tr 39
      else if c = 76 \<or> c = 108 then St 106
      else if c = 124 \<or> c = 126 then St 21
      else if c < 45 then (if c > 39 then (if 42 \<le> c \<and> c \<le> 43 then St 21 else St 0) else if c \<ge> 35 then St 21
        else St 0)
      else if c > 46 then (if c < 65 then (if 48 \<le> c \<and> c \<le> 57 then St 21 else St 0) else if c > 90 then (if 94 \<le>
        c \<and> c \<le> 122 then St 21 else St 0) else St 21) else St 21)"

definition rsp_case_106 :: "int \<Rightarrow> label" where [rsp_cases]:
  "rsp_case_106 c =
     (if c = 33 then St 21
      else if c = 58 then Tr 39
      else if c = 69 \<or> c = 101 then St 107
      else if c = 124 \<or> c = 126 then St 21
      else if c < 45 then (if c > 39 then (if 42 \<le> c \<and> c \<le> 43 then St 21 else St 0) else if c \<ge> 35 then St 21
        else St 0)
      else if c > 46 then (if c < 65 then (if 48 \<le> c \<and> c \<le> 57 then St 21 else St 0) else if c > 90 then (if 94 \<le>
        c \<and> c \<le> 122 then St 21 else St 0) else St 21) else St 21)"

definition rsp_case_107 :: "int \<Rightarrow> label" where [rsp_cases]:
  "rsp_case_107 c =
     (if c = 33 then St 21
      else if c = 58 then Tr 39
      else if c = 78 \<or> c = 110 then St 108
      else if c = 124 \<or> c = 126 then St 21
      else if c < 45 then (if c > 39 then (if 42 \<le> c \<and> c \<le> 43 then St 21 else St 0) else if c \<ge> 35 then St 21
        else St 0)
      else if c > 46 then (if c < 65 then (if 48 \<le> c \<and> c \<le> 57 then St 21 else St 0) else if c > 90 then (if 94 \<le>
        c \<and> c \<le> 122 then St 21 else St 0) else St 21) else St 21)"

definition rsp_case_108 :: "int \<Rightarrow> label" where [rsp_cases]:
  "rsp_case_108 c =
     (if c = 33 then St 21
      else if c = 58 then Tr 39
      else if c = 71 \<or> c = 103 then St 109
      else if c = 124 \<or> c = 126 then St 21
      else if c < 45 then (if c > 39 then (if 42 \<le> c \<and> c \<le> 43 then St 21 else St 0) else if c \<ge> 35 then St 21
        else St 0)
      else if c > 46 then (if c < 65 then (if 48 \<le> c \<and> c \<le> 57 then St 21 else St 0) else if c > 90 then (if 94 \<le>
        c \<and> c \<le> 122 then St 21 else St 0) else St 21) else St 21)"

definition rsp_case_109 :: "int \<Rightarrow> label" where [rsp_cases]:
  "rsp_case_109 c =
     (if c = 33 then St 21
      else if c = 58 then Tr 39
      else if c = 84 \<or> c = 116 then St 110
      else if c = 124 \<or> c = 126 then St 21
      else if c < 45 then (if c > 39 then (if 42 \<le> c \<and> c \<le> 43 then St 21 else St 0) else if c \<ge> 35 then St 21
        else St 0)
      else if c > 46 then (if c < 65 then (if 48 \<le> c \<and> c \<le> 57 then St 21 else St 0) else if c > 90 then (if 94 \<le>
        c \<and> c \<le> 122 then St 21 else St 0) else St 21) else St 21)"

definition rsp_case_110 :: "int \<Rightarrow> label" where [rsp_cases]:
  "rsp_case_110 c =
     (if c = 33 then St 21
      else if c = 58 then Tr 39
      else if c = 72 \<or> c = 104 then St 111
      else if c = 124 \<or> c = 126 then St 21
      else if c < 45 then (if c > 39 then (if 42 \<le> c \<and> c \<le> 43 then St 21 else St 0) else if c \<ge> 35 then St 21
        else St 0)
      else if c > 46 then (if c < 65 then (if 48 \<le> c \<and> c \<le> 57 then St 21 else St 0) else if c > 90 then (if 94 \<le>
        c \<and> c \<le> 122 then St 21 else St 0) else St 21) else St 21)"

definition rsp_case_111 :: "int \<Rightarrow> label" where [rsp_cases]:
  "rsp_case_111 c =
     (if c = 33 then St 21
      else if c = 58 then Tr 148
      else if c = 124 \<or> c = 126 then St 21
      else if c < 45 then (if c > 39 then (if 42 \<le> c \<and> c \<le> 43 then St 21 else St 0) else if c \<ge> 35 then St 21
        else St 0)
      else if c > 46 then (if c < 65 then (if 48 \<le> c \<and> c \<le> 57 then St 21 else St 0) else if c > 90 then (if 94 \<le>
        c \<and> c \<le> 122 then St 21 else St 0) else St 21) else St 21)"

definition rsp_tr_149 :: "rsp_action list \<times> nat" where
  "rsp_tr_149 = ([R_Start_Value], 112)"

definition rsp_tr_148 :: "rsp_action list \<times> nat" where
  "rsp_tr_148 = ([R_Write_Field], 112)"

definition rsp_case_112 :: "int \<Rightarrow> label" where [rsp_cases]:
  "rsp_case_112 c =
     (if c = 10 then Tr 150
      else if c = 13 then Tr 151
      else if c = 32 then Tr 149
      else if c > 12 then (if 48 \<le> c \<and> c \<le> 57 then Tr 152 else Tr 40)
      else if c \<ge> 9 then Tr 149 else Tr 40)"

definition rsp_tr_150 :: "rsp_action list \<times> nat" where
  "rsp_tr_150 = ([R_Start_Value, R_Write_Value], 113)"

definition rsp_case_113 :: "int \<Rightarrow> label" where [rsp_cases]:
  "rsp_case_113 c =
     (if c = 10 then Tr 154
      else if c = 13 then St 116
      else if c = 32 then St 114
      else if c = 33 then Tr 35
      else if c = 67 then Tr 36
      else if c = 84 then Tr 37
      else if c = 99 then Tr 36
      else if c = 116 then Tr 37
      else if c = 124 \<or> c = 126 then Tr 35
      else if c < 45 then (if c < 35 then (if 9 \<le> c \<and> c \<le> 12 then St 114 else St 0) else if c > 39 then (if 42 \<le>
        c \<and> c \<le> 43 then Tr 35 else St 0) else Tr 35)
      else if c > 46 then (if c < 65 then (if 48 \<le> c \<and> c \<le> 57 then Tr 156 else St 0) else if c > 90 then (if 94 \<le>
        c \<and> c \<le> 122 then Tr 35 else St 0) else Tr 35) else Tr 35)"

definition rsp_case_114 :: "int \<Rightarrow> label" where [rsp_cases]:
  "rsp_case_114 c =
     (if c = 32 then St 114
      else if c > 13 then (if 48 \<le> c \<and> c \<le> 57 then Tr 157 else St 0)
      else if c \<ge> 9 then St 114 else St 0)"

definition rsp_tr_157 :: "rsp_action list \<times> nat" where
  "rsp_tr_157 = ([R_Start_Value], 115)"

definition rsp_case_115 :: "int \<Rightarrow> label" where [rsp_cases]:
  "rsp_case_115 c =
     (if c = 10 then Tr 158
      else if c = 13 then Tr 159
      else if 48 \<le> c \<and> c \<le> 57 then St 115 else St 0)"

definition rsp_tr_154 :: "rsp_action list \<times> nat" where
  "rsp_tr_154 = ([R_Done], 123)"

definition rsp_case_123 :: "int \<Rightarrow> label" where [rsp_cases]:
  "rsp_case_123 c =
     (if c = 32 then St 114
      else if c > 13 then (if 48 \<le> c \<and> c \<le> 57 then Tr 157 else St 0)
      else if c \<ge> 9 then St 114 else St 0)"

definition rsp_case_116 :: "int \<Rightarrow> label" where [rsp_cases]:
  "rsp_case_116 c =
     (if c = 10 then Tr 154
      else if c = 32 then St 114
      else if c > 13 then (if 48 \<le> c \<and> c \<le> 57 then Tr 157 else St 0)
      else if c \<ge> 9 then St 114 else St 0)"

definition rsp_tr_156 :: "rsp_action list \<times> nat" where
  "rsp_tr_156 = ([R_Start_Value, R_Start_Field], 117)"

definition rsp_case_117 :: "int \<Rightarrow> label" where [rsp_cases]:
  "rsp_case_117 c =
     (if c = 10 then Tr 158
      else if c = 13 then Tr 159
      else if c = 33 then St 21
      else if c = 58 then Tr 39
      else if c = 124 \<or> c = 126 then St 21
      else if c < 45 then (if c > 39 then (if 42 \<le> c \<and> c \<le> 43 then St 21 else St 0) else if c \<ge> 35 then St 21
        else St 0)
      else if c > 46 then (if c < 65 then (if 48 \<le> c \<and> c \<le> 57 then St 117 else St 0) else if c > 90 then (if 94 \<le>
        c \<and> c \<le> 122 then St 21 else St 0) else St 21) else St 21)"

definition rsp_tr_151 :: "rsp_action list \<times> nat" where
  "rsp_tr_151 = ([R_Start_Value, R_Write_Value], 118)"

definition rsp_case_118 :: "int \<Rightarrow> label" where [rsp_cases]:
  "rsp_case_118 c =
     (if c = 10 then St 113
      else if c = 32 then St 114
      else if c > 13 then (if 48 \<le> c \<and> c \<le> 57 then Tr 157 else St 0)
      else if c \<ge> 9 then St 114 else St 0)"

definition rsp_tr_152 :: "rsp_action list \<times> nat" where
  "rsp_tr_152 = ([R_Start_Value], 119)"

definition rsp_case_119 :: "int \<Rightarrow> label" where [rsp_cases]:
  "rsp_case_119 c =
     (if c = 10 then Tr 158
      else if c = 13 then Tr 159
      else if 48 \<le> c \<and> c \<le> 57 then St 119 else St 23)"

text \<open>\<open>switch (cs)\<close>, for the states there are, and the targets of the jumps, as binary searches.\<close>

definition rsp_case :: "nat \<Rightarrow> int \<Rightarrow> label" where
  "rsp_case n =
     (if n < 62 then (if n < 31 then (if n < 16 then (if n < 8 then (if n < 4 then (if n < 2 then rsp_case_1 else (if n < 3 then
     rsp_case_2 else rsp_case_3)) else (if n < 6 then (if n < 5 then rsp_case_4 else rsp_case_5) else (if n < 7 then rsp_case_6
     else rsp_case_7))) else (if n < 12 then (if n < 10 then (if n < 9 then rsp_case_8 else rsp_case_9) else (if n < 11 then
     rsp_case_10 else rsp_case_11)) else (if n < 14 then (if n < 13 then rsp_case_12 else rsp_case_13) else (if n < 15 then
     rsp_case_14 else rsp_case_15)))) else (if n < 23 then (if n < 19 then (if n < 17 then rsp_case_16 else (if n < 18 then
     rsp_case_17 else rsp_case_18)) else (if n < 21 then (if n < 20 then rsp_case_19 else rsp_case_20) else (if n < 22 then
     rsp_case_21 else rsp_case_22))) else (if n < 27 then (if n < 25 then (if n < 24 then rsp_case_23 else rsp_case_24) else (if n
     < 26 then rsp_case_25 else rsp_case_26)) else (if n < 29 then (if n < 28 then rsp_case_27 else rsp_case_28) else (if n < 30
     then rsp_case_29 else rsp_case_30))))) else (if n < 46 then (if n < 38 then (if n < 34 then (if n < 32 then rsp_case_31 else
     (if n < 33 then rsp_case_32 else rsp_case_33)) else (if n < 36 then (if n < 35 then rsp_case_34 else rsp_case_35) else (if n
     < 37 then rsp_case_36 else rsp_case_37))) else (if n < 42 then (if n < 40 then (if n < 39 then rsp_case_38 else rsp_case_39)
     else (if n < 41 then rsp_case_40 else rsp_case_41)) else (if n < 44 then (if n < 43 then rsp_case_42 else rsp_case_43) else
     (if n < 45 then rsp_case_44 else rsp_case_45)))) else (if n < 54 then (if n < 50 then (if n < 48 then (if n < 47 then
     rsp_case_46 else rsp_case_47) else (if n < 49 then rsp_case_48 else rsp_case_49)) else (if n < 52 then (if n < 51 then
     rsp_case_50 else rsp_case_51) else (if n < 53 then rsp_case_52 else rsp_case_53))) else (if n < 58 then (if n < 56 then (if n
     < 55 then rsp_case_54 else rsp_case_55) else (if n < 57 then rsp_case_56 else rsp_case_57)) else (if n < 60 then (if n < 59
     then rsp_case_58 else rsp_case_59) else (if n < 61 then rsp_case_60 else rsp_case_61)))))) else (if n < 93 then (if n < 77
     then (if n < 69 then (if n < 65 then (if n < 63 then rsp_case_62 else (if n < 64 then rsp_case_63 else rsp_case_64)) else (if
     n < 67 then (if n < 66 then rsp_case_65 else rsp_case_66) else (if n < 68 then rsp_case_67 else rsp_case_68))) else (if n <
     73 then (if n < 71 then (if n < 70 then rsp_case_69 else rsp_case_70) else (if n < 72 then rsp_case_71 else rsp_case_72))
     else (if n < 75 then (if n < 74 then rsp_case_73 else rsp_case_74) else (if n < 76 then rsp_case_75 else rsp_case_76)))) else
     (if n < 85 then (if n < 81 then (if n < 79 then (if n < 78 then rsp_case_77 else rsp_case_78) else (if n < 80 then
     rsp_case_79 else rsp_case_80)) else (if n < 83 then (if n < 82 then rsp_case_81 else rsp_case_82) else (if n < 84 then
     rsp_case_83 else rsp_case_84))) else (if n < 89 then (if n < 87 then (if n < 86 then rsp_case_85 else rsp_case_86) else (if n
     < 88 then rsp_case_87 else rsp_case_88)) else (if n < 91 then (if n < 90 then rsp_case_89 else rsp_case_90) else (if n < 92
     then rsp_case_91 else rsp_case_92))))) else (if n < 108 then (if n < 100 then (if n < 96 then (if n < 94 then rsp_case_93
     else (if n < 95 then rsp_case_94 else rsp_case_95)) else (if n < 98 then (if n < 97 then rsp_case_96 else rsp_case_97) else
     (if n < 99 then rsp_case_98 else rsp_case_99))) else (if n < 104 then (if n < 102 then (if n < 101 then rsp_case_100 else
     rsp_case_101) else (if n < 103 then rsp_case_102 else rsp_case_103)) else (if n < 106 then (if n < 105 then rsp_case_104 else
     rsp_case_105) else (if n < 107 then rsp_case_106 else rsp_case_107)))) else (if n < 116 then (if n < 112 then (if n < 110
     then (if n < 109 then rsp_case_108 else rsp_case_109) else (if n < 111 then rsp_case_110 else rsp_case_111)) else (if n < 114
     then (if n < 113 then rsp_case_112 else rsp_case_113) else (if n < 115 then rsp_case_114 else rsp_case_115))) else (if n <
     120 then (if n < 118 then (if n < 117 then rsp_case_116 else rsp_case_117) else (if n < 119 then rsp_case_118 else
     rsp_case_119)) else (if n < 122 then (if n < 121 then rsp_case_120 else rsp_case_121) else (if n < 123 then rsp_case_122 else
     rsp_case_123)))))))"

definition rsp_tr :: "nat \<Rightarrow> rsp_action list \<times> nat" where
  "rsp_tr n =
     (if n < 60 then (if n < 27 then (if n < 10 then (if n < 6 then (if n < 3 then (if n < 2 then rsp_tr_0 else rsp_tr_2) else (if
     n < 4 then rsp_tr_3 else rsp_tr_4)) else (if n < 8 then (if n < 7 then rsp_tr_6 else rsp_tr_7) else (if n < 9 then rsp_tr_8
     else rsp_tr_9))) else (if n < 15 then (if n < 13 then (if n < 12 then rsp_tr_10 else rsp_tr_12) else (if n < 14 then
     rsp_tr_13 else rsp_tr_14)) else (if n < 18 then (if n < 16 then rsp_tr_15 else rsp_tr_16) else (if n < 26 then rsp_tr_18 else
     rsp_tr_26)))) else (if n < 39 then (if n < 33 then (if n < 30 then (if n < 28 then rsp_tr_27 else rsp_tr_28) else (if n < 32
     then rsp_tr_30 else rsp_tr_32)) else (if n < 36 then (if n < 35 then rsp_tr_33 else rsp_tr_35) else (if n < 37 then rsp_tr_36
     else rsp_tr_37))) else (if n < 43 then (if n < 41 then (if n < 40 then rsp_tr_39 else rsp_tr_40) else (if n < 42 then
     rsp_tr_41 else rsp_tr_42)) else (if n < 46 then (if n < 45 then rsp_tr_43 else rsp_tr_45) else (if n < 58 then rsp_tr_46 else
     (if n < 59 then rsp_tr_58 else rsp_tr_59)))))) else (if n < 103 then (if n < 77 then (if n < 66 then (if n < 62 then (if n <
     61 then rsp_tr_60 else rsp_tr_61) else (if n < 64 then rsp_tr_62 else rsp_tr_64)) else (if n < 75 then (if n < 74 then
     rsp_tr_66 else rsp_tr_74) else (if n < 76 then rsp_tr_75 else rsp_tr_76))) else (if n < 97 then (if n < 95 then (if n < 78
     then rsp_tr_77 else rsp_tr_78) else (if n < 96 then rsp_tr_95 else rsp_tr_96)) else (if n < 99 then (if n < 98 then rsp_tr_97
     else rsp_tr_98) else (if n < 101 then rsp_tr_99 else rsp_tr_101)))) else (if n < 149 then (if n < 113 then (if n < 111 then
     (if n < 104 then rsp_tr_103 else rsp_tr_104) else (if n < 112 then rsp_tr_111 else rsp_tr_112)) else (if n < 137 then (if n <
     136 then rsp_tr_113 else rsp_tr_136) else (if n < 148 then rsp_tr_137 else rsp_tr_148))) else (if n < 154 then (if n < 151
     then (if n < 150 then rsp_tr_149 else rsp_tr_150) else (if n < 152 then rsp_tr_151 else rsp_tr_152)) else (if n < 157 then
     (if n < 156 then rsp_tr_154 else rsp_tr_156) else (if n < 158 then rsp_tr_157 else (if n < 159 then rsp_tr_158 else
     rsp_tr_159)))))))"

lemma rsp_tr_values:
  "rsp_tr 0 = ([R_Mark], 2)"
  "rsp_tr 2 = ([R_Mark], 8)"
  "rsp_tr 3 = ([R_Chunk_Size, R_Done], 120)"
  "rsp_tr 4 = ([R_Chunk_Size], 3)"
  "rsp_tr 6 = ([R_Chunk_Size], 4)"
  "rsp_tr 7 = ([R_Done], 120)"
  "rsp_tr 8 = ([R_Start_Field], 5)"
  "rsp_tr 9 = ([R_Write_Field, R_Start_Value, R_Write_Value, R_Done], 120)"
  "rsp_tr 10 = ([R_Write_Field, R_Start_Value, R_Write_Value], 3)"
  "rsp_tr 12 = ([R_Write_Field, R_Start_Value, R_Write_Value], 4)"
  "rsp_tr 13 = ([R_Write_Field, R_Start_Value], 6)"
  "rsp_tr 14 = ([R_Start_Value], 7)"
  "rsp_tr 15 = ([R_Write_Value, R_Done], 120)"
  "rsp_tr 16 = ([R_Write_Value], 3)"
  "rsp_tr 18 = ([R_Write_Value], 4)"
  "rsp_tr 26 = ([R_Http_Version], 16)"
  "rsp_tr 27 = ([R_Mark], 17)"
  "rsp_tr 28 = ([R_Status_Code], 18)"
  "rsp_tr 30 = ([R_Mark], 19)"
  "rsp_tr 32 = ([R_Reason_Phrase], 20)"
  "rsp_tr 33 = ([R_Reason_Phrase], 24)"
  "rsp_tr 35 = ([R_Start_Field], 21)"
  "rsp_tr 36 = ([R_Start_Field], 25)"
  "rsp_tr 37 = ([R_Start_Field], 44)"
  "rsp_tr 39 = ([R_Write_Field], 22)"
  "rsp_tr 40 = ([R_Start_Value], 23)"
  "rsp_tr 41 = ([R_Start_Value], 22)"
  "rsp_tr 42 = ([R_Start_Value, R_Write_Value], 20)"
  "rsp_tr 43 = ([R_Start_Value, R_Write_Value], 24)"
  "rsp_tr 45 = ([R_Write_Value], 20)"
  "rsp_tr 46 = ([R_Write_Value], 24)"
  "rsp_tr 58 = ([R_Write_Field], 35)"
  "rsp_tr 59 = ([R_Start_Value], 35)"
  "rsp_tr 60 = ([R_Start_Value, R_Write_Value], 36)"
  "rsp_tr 61 = ([R_Start_Value, R_Write_Value], 95)"
  "rsp_tr 62 = ([R_Start_Value], 96)"
  "rsp_tr 64 = ([R_Done], 122)"
  "rsp_tr 66 = ([R_Start_Field], 90)"
  "rsp_tr 74 = ([R_Write_Connection_Close, R_Done], 120)"
  "rsp_tr 75 = ([R_Write_Connection_Close], 3)"
  "rsp_tr 76 = ([R_Write_Connection_Close, R_Start_Field], 21)"
  "rsp_tr 77 = ([R_Write_Connection_Close, R_Start_Field], 25)"
  "rsp_tr 78 = ([R_Write_Connection_Close, R_Start_Field], 44)"
  "rsp_tr 95 = ([R_Write_Field], 61)"
  "rsp_tr 96 = ([R_Start_Value], 61)"
  "rsp_tr 97 = ([R_Start_Value, R_Write_Value], 62)"
  "rsp_tr 98 = ([R_Start_Value, R_Write_Value], 80)"
  "rsp_tr 99 = ([R_Start_Value], 81)"
  "rsp_tr 101 = ([R_Done], 121)"
  "rsp_tr 103 = ([R_Start_Value, R_Start_Field], 73)"
  "rsp_tr 104 = ([R_Start_Value], 64)"
  "rsp_tr 111 = ([R_Write_Value, R_Trans_Chunked], 20)"
  "rsp_tr 112 = ([R_Write_Value], 71)"
  "rsp_tr 113 = ([R_Trans_Chunked], 20)"
  "rsp_tr 136 = ([R_Write_Value], 43)"
  "rsp_tr 137 = ([R_Write_Value], 88)"
  "rsp_tr 148 = ([R_Write_Field], 112)"
  "rsp_tr 149 = ([R_Start_Value], 112)"
  "rsp_tr 150 = ([R_Start_Value, R_Write_Value], 113)"
  "rsp_tr 151 = ([R_Start_Value, R_Write_Value], 118)"
  "rsp_tr 152 = ([R_Start_Value], 119)"
  "rsp_tr 154 = ([R_Done], 123)"
  "rsp_tr 156 = ([R_Start_Value, R_Start_Field], 117)"
  "rsp_tr 157 = ([R_Start_Value], 115)"
  "rsp_tr 158 = ([R_Write_Content_Len, R_Write_Value], 20)"
  "rsp_tr 159 = ([R_Write_Content_Len, R_Write_Value], 24)"
  by (simp_all add: rsp_tr_def rsp_tr_0_def rsp_tr_2_def rsp_tr_3_def rsp_tr_4_def rsp_tr_6_def rsp_tr_7_def rsp_tr_8_def rsp_tr_9_def rsp_tr_10_def
    rsp_tr_12_def rsp_tr_13_def rsp_tr_14_def rsp_tr_15_def rsp_tr_16_def rsp_tr_18_def rsp_tr_26_def rsp_tr_27_def rsp_tr_28_def
    rsp_tr_30_def rsp_tr_32_def rsp_tr_33_def rsp_tr_35_def rsp_tr_36_def rsp_tr_37_def rsp_tr_39_def rsp_tr_40_def rsp_tr_41_def
    rsp_tr_42_def rsp_tr_43_def rsp_tr_45_def rsp_tr_46_def rsp_tr_58_def rsp_tr_59_def rsp_tr_60_def rsp_tr_61_def rsp_tr_62_def
    rsp_tr_64_def rsp_tr_66_def rsp_tr_74_def rsp_tr_75_def rsp_tr_76_def rsp_tr_77_def rsp_tr_78_def rsp_tr_95_def rsp_tr_96_def
    rsp_tr_97_def rsp_tr_98_def rsp_tr_99_def rsp_tr_101_def rsp_tr_103_def rsp_tr_104_def rsp_tr_111_def rsp_tr_112_def
    rsp_tr_113_def rsp_tr_136_def rsp_tr_137_def rsp_tr_148_def rsp_tr_149_def rsp_tr_150_def rsp_tr_151_def rsp_tr_152_def
    rsp_tr_154_def rsp_tr_156_def rsp_tr_157_def rsp_tr_158_def rsp_tr_159_def)

end
