(* ===== verification/Httpclient_Scanner.thy ===== *)
theory Httpclient_Scanner
  imports Http11_Scanner Httpclient_Machine
begin

text \<open>
  The rest of \<open>src/src/http/httpclient_parser.cpp\<close> and \<open>httpclient_parser.h\<close>: the record of the parser of responses,
  the actions of \<open>Httpclient_Machine\<close>, and the functions \<open>httpclient_parser_init\<close>, \<open>httpclient_parser_execute\<close>,
  \<open>httpclient_parser_finish\<close>, \<open>httpclient_parser_has_error\<close> and \<open>httpclient_parser_is_finished\<close>, which make the scanner
  of \<open>HttpResponseParser\<close>.
\<close>

section \<open>The parser\<close>

datatype response_callback =
    RB_http_field | RB_reason_phrase | RB_status_code | RB_chunk_size | RB_http_version | RB_header_done | RB_last_chunk

record httpclient_parser =
  cp_cs :: nat
  cp_body_start :: nat
  cp_content_len :: int
  cp_status :: int
  cp_chunked :: int
  cp_chunks_done :: int
  cp_close :: int
  cp_nread :: nat
  cp_mark :: nat
  cp_field_start :: nat
  cp_field_len :: nat
  cp_callbacks :: "response_callback list"

text \<open>\<open>httpclient_parser_init\<close> leaves the status as it is in memory.\<close>

definition httpclient_parser_init :: "httpclient_parser \<Rightarrow> httpclient_parser" where
  "httpclient_parser_init cp =
     cp\<lparr>cp_cs := 1, cp_body_start := 0, cp_content_len := - 1, cp_chunked := 0, cp_chunks_done := 0, cp_mark := 0,
       cp_nread := 0, cp_field_len := 0, cp_field_start := 0, cp_close := 0\<rparr>"

section \<open>Numbers\<close>

text \<open>\<open>strtol\<close>: white space, a sign, for base 16 a prefix \<open>0x\<close> before a digit, digits. A number that does not fit into
  a \<open>long\<close> is cut to its bounds.\<close>

definition base_digit :: "nat \<Rightarrow> char \<Rightarrow> bool" where
  "base_digit base c \<longleftrightarrow> digit (tolower c) \<and> digit_val (tolower c) < base"

definition skip_prefix :: "nat \<Rightarrow> string \<Rightarrow> string" where
  "skip_prefix base s =
     (if base = 16 \<and> 3 \<le> length s \<and> s ! 0 = CHR ''0'' \<and> tolower (s ! 1) = CHR ''x'' \<and> base_digit base (s ! 2) then drop 2 s else s)"

definition strtol :: "nat \<Rightarrow> string \<Rightarrow> int" where
  "strtol base s =
     (let t = dropWhile is_space s;
          neg = (t \<noteq> [] \<and> hd t = CHR ''-'');
          u = skip_prefix base (if t \<noteq> [] \<and> hd t \<in> set ''+-'' then tl t else t);
          n = int (read_nat base (map tolower (takeWhile (base_digit base) u)));
          v = (if neg then - n else n)
      in max (- (2 ^ 63)) (min (2 ^ 63 - 1) v))"

section \<open>Actions\<close>

definition rsp_call :: "response_callback \<Rightarrow> parser_event \<Rightarrow> httpclient_parser \<Rightarrow> parser_event list \<times> httpclient_parser" where
  "rsp_call cb e cp = (if cb \<in> set (cp_callbacks cp) then [e] else [], cp)"

definition rsp_chunk_size :: "string \<Rightarrow> nat \<Rightarrow> httpclient_parser \<Rightarrow> parser_event list \<times> httpclient_parser" where
  "rsp_chunk_size data p cp =
     (let n = to_int32 (strtol 16 (drop (cp_mark cp) data));
          d = (if n \<le> 0 then 1 else 0);
          cp' = cp\<lparr>cp_chunked := 1, cp_content_len := n, cp_chunks_done := d\<rparr>
      in if d \<noteq> 0 \<and> RB_last_chunk \<in> set (cp_callbacks cp) then ([Last_Chunk (cp_mark cp) (LEN (cp_mark cp) p)], cp')
         else if RB_chunk_size \<in> set (cp_callbacks cp) then ([Chunk_Size (cp_mark cp) (LEN (cp_mark cp) p)], cp')
         else ([], cp'))"

fun rsp_act :: "string \<Rightarrow> nat \<Rightarrow> nat \<Rightarrow> rsp_action \<Rightarrow> httpclient_parser \<Rightarrow> parser_event list \<times> httpclient_parser" where
  "rsp_act data pe p R_Mark cp = ([], cp\<lparr>cp_mark := p\<rparr>)"
| "rsp_act data pe p R_Start_Field cp = ([], cp\<lparr>cp_field_start := p\<rparr>)"
| "rsp_act data pe p R_Write_Field cp = ([], cp\<lparr>cp_field_len := LEN (cp_field_start cp) p\<rparr>)"
| "rsp_act data pe p R_Start_Value cp = ([], cp\<lparr>cp_mark := p\<rparr>)"
| "rsp_act data pe p R_Write_Content_Len cp = ([], cp\<lparr>cp_content_len := to_int32 (strtol 10 (drop (cp_mark cp) data))\<rparr>)"
| "rsp_act data pe p R_Write_Connection_Close cp = ([], cp\<lparr>cp_close := 1\<rparr>)"
| "rsp_act data pe p R_Write_Value cp =
     rsp_call RB_http_field (Http_Field (cp_field_start cp) (cp_field_len cp) (cp_mark cp) (LEN (cp_mark cp) p)) cp"
| "rsp_act data pe p R_Reason_Phrase cp = rsp_call RB_reason_phrase (Reason_Phrase (cp_mark cp) (LEN (cp_mark cp) p)) cp"
| "rsp_act data pe p R_Status_Code cp =
     rsp_call RB_status_code (Status_Code (cp_mark cp) (LEN (cp_mark cp) p))
       (cp\<lparr>cp_status := to_int32 (strtol 10 (drop (cp_mark cp) data))\<rparr>)"
| "rsp_act data pe p R_Http_Version cp = rsp_call RB_http_version (Http_Version (cp_mark cp) (LEN (cp_mark cp) p)) cp"
| "rsp_act data pe p R_Chunk_Size cp = rsp_chunk_size data p cp"
| "rsp_act data pe p R_Trans_Chunked cp = ([], cp\<lparr>cp_chunked := 1\<rparr>)"
| "rsp_act data pe p R_Done cp = rsp_call RB_header_done (Header_Done (p + 1) (pe - p - 1)) (cp\<lparr>cp_body_start := p + 1\<rparr>)"

definition rsp_machine :: "string \<Rightarrow> (rsp_action, httpclient_parser, parser_event) machine" where
  "rsp_machine data =
     \<lparr>mc_last = 123, mc_case = (\<lambda>cs cp c. rsp_case cs (byte_val c)), mc_tr = rsp_tr, mc_breaks = (\<lambda>a. a = R_Done),
      mc_act = rsp_act data\<rparr>"

section \<open>Running it\<close>

definition httpclient_parser_has_error :: "httpclient_parser \<Rightarrow> bool" where
  "httpclient_parser_has_error cp \<longleftrightarrow> cp_cs cp = 0"

text \<open>Only the first of the final states counts.\<close>

definition httpclient_parser_is_finished :: "httpclient_parser \<Rightarrow> bool" where
  "httpclient_parser_is_finished cp \<longleftrightarrow> cp_cs cp = 120"

definition httpclient_parser_finish :: "httpclient_parser \<Rightarrow> int" where
  "httpclient_parser_finish cp =
     (if httpclient_parser_has_error cp then - 1 else if httpclient_parser_is_finished cp then 1 else 0)"

definition rsp_begin_execute :: "httpclient_parser \<Rightarrow> httpclient_parser" where
  "rsp_begin_execute cp = cp\<lparr>cp_nread := 0, cp_mark := 0, cp_field_len := 0, cp_field_start := 0\<rparr>"

text \<open>The run asserts that the buffer ends in a null byte; the checks on the marks give -1 where those of requests
  assert.\<close>

definition rsp_entry_asserts :: "string \<Rightarrow> nat \<Rightarrow> nat \<Rightarrow> bool" where
  "rsp_entry_asserts data len off \<longleftrightarrow> entry_asserts len off \<and> data ! len = CHR 0x00"

definition rsp_checks :: "nat \<Rightarrow> httpclient_parser \<Rightarrow> bool" where
  "rsp_checks len cp \<longleftrightarrow> cp_mark cp < len \<and> cp_field_len cp \<le> len \<and> cp_field_start cp < len"

definition httpclient_parser_execute ::
    "string \<Rightarrow> nat \<Rightarrow> nat \<Rightarrow> httpclient_parser \<Rightarrow> ((parser_event list \<times> int) \<times> httpclient_parser) option" where
  "httpclient_parser_execute data len off cp =
     (if \<not> rsp_entry_asserts data len off then None
      else
        (let (es, (q, t), cp1) =
               scan (rsp_machine data) len off (cp_cs cp) (take (len - off) (drop off data)) (rsp_begin_execute cp);
             cp2 = cp1\<lparr>cp_cs := t, cp_nread := cp_nread cp1 + (q - off)\<rparr>
         in if q \<le> len \<and> cp_nread cp2 \<le> len \<and> cp_body_start cp2 \<le> len
            then Some ((es, if rsp_checks len cp2 then to_int32 (int (cp_nread cp2)) else - 1), cp2)
            else None))"

text \<open>The constructor of \<open>HttpResponseParser\<close> registers every callback. The result is taken as a \<open>size_t\<close>.\<close>

definition all_response_callbacks :: "response_callback list" where
  "all_response_callbacks = [RB_reason_phrase, RB_status_code, RB_chunk_size, RB_http_version, RB_header_done, RB_last_chunk,
     RB_http_field]"

definition as_size :: "int \<Rightarrow> nat" where
  "as_size n = (if 0 \<le> n then nat n else nat (2 ^ 64 + n))"

definition httpclient_scanner :: "httpclient_parser \<Rightarrow> httpclient_parser scanner" where
  "httpclient_scanner memory =
     \<lparr>sc_init = (httpclient_parser_init memory)\<lparr>cp_callbacks := all_response_callbacks\<rparr>,
      sc_execute = (\<lambda>cp data len. case httpclient_parser_execute data len 0 cp of
          Some ((es, n), cp') \<Rightarrow> ((es, as_size n), cp') | None \<Rightarrow> (([], 0), cp)),
      sc_finish = httpclient_parser_finish,
      sc_has_error = httpclient_parser_has_error\<rparr>"

end
