(* ===== verification/Httpclient_Parsing.thy ===== *)
theory Httpclient_Parsing
  imports Httpclient_Scanner Http11_Parsing
begin

text \<open>
  The scanner of responses at work. What every run keeps: the assertions hold, and how far the tokens lie in the buffer.
  Then what it makes of fields without a value, of the header of a chunk, and where it reports a name that runs past the buffer.
\<close>

section \<open>What every character keeps\<close>

text \<open>A field is reported with the length of its name as it was last written: name and value may not belong together, and
  only the value is sure to lie in the buffer.\<close>

fun rsp_in_buffer :: "nat \<Rightarrow> parser_event \<Rightarrow> bool" where
  "rsp_in_buffer len (Http_Field field flen at n) \<longleftrightarrow> field < len \<and> flen \<le> len \<and> at + n \<le> len"
| "rsp_in_buffer len e \<longleftrightarrow> in_buffer len e"

definition rsp_marks :: "nat \<Rightarrow> nat \<Rightarrow> nat \<Rightarrow> httpclient_parser \<Rightarrow> bool" where
  "rsp_marks pe m p cp \<longleftrightarrow>
     cp_mark cp \<le> m \<and> cp_field_start cp \<le> m \<and> cp_field_len cp \<le> p \<and> cp_body_start cp \<le> pe \<and> cp_nread cp = 0"

definition rsp_inv :: "nat \<Rightarrow> nat \<Rightarrow> nat \<Rightarrow> httpclient_parser \<Rightarrow> bool" where
  "rsp_inv pe p cs cp \<longleftrightarrow> rsp_marks pe (p - 1) p cp"

lemma rsp_act_keeps:
  assumes "rsp_marks pe p p cp" "p < pe" "rsp_act data pe p a cp = (es, cp')"
  shows "rsp_marks pe p p cp' \<and> list_all (rsp_in_buffer pe) es"
  using assms by (cases a) (auto simp: rsp_marks_def rsp_call_def rsp_chunk_size_def LEN_def Let_def split: if_splits)

lemma rsp_actions_keep:
  "rsp_marks pe p p cp \<Longrightarrow> p < pe \<Longrightarrow> do_actions (rsp_machine data) pe p as cp = (es, cp')
    \<Longrightarrow> rsp_marks pe p p cp' \<and> list_all (rsp_in_buffer pe) es"
proof (induction as arbitrary: cp es)
  case (Cons a as)
  obtain es1 cp1 es2 where "rsp_act data pe p a cp = (es1, cp1)" "do_actions (rsp_machine data) pe p as cp1 = (es2, cp')"
      "es = es1 @ es2"
    using Cons.prems(3) by (auto simp: rsp_machine_def split: prod.splits)
  then show ?case using Cons.IH [of cp1 es2] Cons.prems(1,2) rsp_act_keeps [of pe p cp data a es1 cp1] by auto
qed simp

lemma rsp_move_keeps:
  assumes "rsp_inv pe p cs cp" "p < pe" "move (rsp_machine data) pe p cs c cp = (es, (go, q, t), cp')"
  shows "rsp_inv pe q t cp' \<and> list_all (rsp_in_buffer pe) es"
proof -
  have marks: "rsp_marks pe p p cp" "rsp_marks pe p (p + 1) cp" using assms(1) by (auto simp: rsp_inv_def rsp_marks_def)
  show ?thesis
  proof (cases "cs = 0 \<or> 123 < cs")
    case True
    then show ?thesis using assms by (auto simp: move_def rsp_machine_def)
  next
    case False
    show ?thesis
    proof (cases "rsp_case cs (byte_val c)")
      case (St k)
      then show ?thesis using False assms marks(2) by (auto simp: move_def rsp_machine_def rsp_inv_def split: if_splits)
    next
      case (Tr k)
      then have "do_actions (rsp_machine data) pe p (fst (rsp_tr k)) cp = (es, cp')" "q = p + 1"
        using False assms(3) by (auto simp: move_def rsp_machine_def split: prod.splits)
      then show ?thesis using rsp_actions_keep [OF marks(1) assms(2), of data "fst (rsp_tr k)" es cp']
        by (auto simp: rsp_inv_def rsp_marks_def)
    qed
  qed
qed

interpretation rsp: scan_invariant "rsp_machine data" rsp_inv rsp_in_buffer for data
  by unfold_locales (rule rsp_move_keeps)

lemma rsp_execute_total:
  assumes "0 < len" "len < length data" "data ! len = CHR 0x00" "cp_body_start cp \<le> len" "len < 2 ^ 31"
    and "scan (rsp_machine data) len 0 (cp_cs cp) (take len data) (rsp_begin_execute cp) = (es, (q, t), cp')"
  shows "httpclient_parser_execute data len 0 cp = Some ((es, int q), cp'\<lparr>cp_cs := t, cp_nread := q\<rparr>)
    \<and> q \<le> len \<and> cp_body_start cp' \<le> len \<and> list_all (rsp_in_buffer len) es"
proof -
  have "rsp_inv len 0 (cp_cs cp) (rsp_begin_execute cp)"
    using assms(4) by (simp add: rsp_inv_def rsp_marks_def rsp_begin_execute_def)
  then have "rsp_inv len q t cp' \<and> list_all (rsp_in_buffer len) es \<and> 0 \<le> q \<and> q \<le> 0 + length (take len data)"
    by (rule rsp.scan_keeps [OF _ _ assms(6)]) (use assms(2) in simp)
  moreover from this have "to_int32 (int q) = int q" using assms(2,5) by (intro to_int32_small) auto
  moreover have "to_int32 (int len) = int len" "to_int32 0 = 0" using assms(5) by (simp_all add: to_int32_small)
  ultimately show ?thesis using assms
    by (auto simp: httpclient_parser_execute_def rsp_entry_asserts_def entry_asserts_def rsp_checks_def rsp_inv_def rsp_marks_def
        Let_def)
qed

lemma rsp_machine_parts [simp]:
  "mc_last (rsp_machine data) = 123" "mc_tr (rsp_machine data) = rsp_tr" "mc_breaks (rsp_machine data) = (\<lambda>a. a = R_Done)"
  "mc_act (rsp_machine data) = rsp_act data" "mc_case (rsp_machine data) cs cp c = rsp_case cs (byte_val c)"
  by (simp_all add: rsp_machine_def)

text \<open>A run over given characters.\<close>

lemma scan_chars:
  "cs \<noteq> 0 \<Longrightarrow> cs \<le> 123 \<Longrightarrow> scan (rsp_machine data) pe p cs (c # xs) cp =
     (case rsp_case cs (byte_val c) of
        St t \<Rightarrow> if t = 0 then ([], (p, 0), cp) else scan (rsp_machine data) pe (p + 1) t xs cp
      | Tr n \<Rightarrow> (case do_actions (rsp_machine data) pe p (fst (rsp_tr n)) cp of (es, cp') \<Rightarrow>
          if R_Done \<in> set (fst (rsp_tr n)) then (es, (p + 1, snd (rsp_tr n)), cp')
          else after es (scan (rsp_machine data) pe (p + 1) (snd (rsp_tr n)) xs cp')))"
  by (auto simp: scan.simps move_def after_def list_ex_iff split: label.split prod.split)

definition every_response_callback :: "httpclient_parser \<Rightarrow> bool" where
  "every_response_callback cp \<longleftrightarrow> (\<forall>cb. cb \<in> set (cp_callbacks cp))"


text \<open>The machine on the name of a field in state 20.\<close>

declare scan.simps(2) [simp del]

lemma every_update [simp]:
  "every_response_callback (cp\<lparr>cp_mark := n\<rparr>) = every_response_callback cp"
  "every_response_callback (cp\<lparr>cp_field_start := n\<rparr>) = every_response_callback cp"
  "every_response_callback (cp\<lparr>cp_field_len := n\<rparr>) = every_response_callback cp"
  "every_response_callback (cp\<lparr>cp_nread := n\<rparr>) = every_response_callback cp"
  "every_response_callback (cp\<lparr>cp_body_start := n\<rparr>) = every_response_callback cp"
  "every_response_callback (cp\<lparr>cp_content_len := i\<rparr>) = every_response_callback cp"
  "every_response_callback (cp\<lparr>cp_status := i\<rparr>) = every_response_callback cp"
  "every_response_callback (cp\<lparr>cp_chunked := i\<rparr>) = every_response_callback cp"
  "every_response_callback (cp\<lparr>cp_chunks_done := i\<rparr>) = every_response_callback cp"
  "every_response_callback (cp\<lparr>cp_close := i\<rparr>) = every_response_callback cp"
  "every_response_callback (cp\<lparr>cp_cs := n\<rparr>) = every_response_callback cp"
  by (simp_all add: every_response_callback_def)

lemma rsp_call_every [simp]: "every_response_callback cp \<Longrightarrow> rsp_call cb e cp = ([e], cp)"
  by (simp add: rsp_call_def every_response_callback_def)

lemma after_pair [simp]: "after es (es', r) = (es @ es', r)"
  by (simp add: after_def)

lemma scan_empty_value:
  assumes "name \<in> {''Content-Length'', ''Transfer-Encoding'', ''Connection''}"
  shows "\<exists>cs \<in> {121, 122, 123}. \<forall>cp. every_response_callback cp \<longrightarrow> (\<exists>cp'. scan (rsp_machine data) pe 0 20 (name @ '':'' @ crlf @ crlf @ xs) cp
    = ([Http_Field 0 (length name) (length name + 1) 0, Header_Done (length name + 5) (pe - (length name + 5))],
        (length name + 5, cs), cp'))"
  using assms
  by (auto simp: scan_chars byte_val_def crlf_def rsp_case_def rsp_tr_values rsp_cases LEN_def Suc_numeral numeral_2_eq_2 [symmetric])

lemma scan_folded_chunked:
  assumes "every_response_callback cp"
  shows "\<exists>cp'. scan (rsp_machine data) pe 0 20 (''Transfer-Encoding:'' @ crlf @ ''chunked'' @ crlf) cp
    = ([Http_Field 0 17 18 0, Http_Field 20 17 20 7], (29, 20), cp')"
  using assms
  by (auto simp: scan_chars byte_val_def crlf_def rsp_case_def rsp_tr_values rsp_cases LEN_def Suc_numeral numeral_2_eq_2 [symmetric])

lemma rsp_execute_fed:
  assumes "data = xs @ CHR 0x00 # zs" "len = length xs" "xs \<noteq> []" "len < 2 ^ 31"
    and "cp_cs cp = cs" "cp_body_start cp = 0" "every_response_callback cp"
    and "\<And>cp0. every_response_callback cp0 \<Longrightarrow> \<exists>cp'. scan (rsp_machine data) len 0 cs xs cp0 = (es, (q, t), cp')"
  shows "\<exists>cp'. httpclient_parser_execute data len 0 cp = Some ((es, int q), cp') \<and> cp_cs cp' = t"
proof -
  obtain cp' where "scan (rsp_machine data) len 0 cs xs (rsp_begin_execute cp) = (es, (q, t), cp')"
    using assms(7,8) by (fastforce simp: rsp_begin_execute_def every_response_callback_def)
  then show ?thesis using rsp_execute_total [of len data cp es q t cp'] assms(1-6) by auto
qed

text \<open>A chunk header: hexadecimal digits.\<close>

definition hex_char :: "char \<Rightarrow> bool" where
  "hex_char c \<longleftrightarrow> c \<in> set ''0123456789ABCDEFabcdef''"

lemma hex_states: "hex_char c \<Longrightarrow> rsp_case 1 (byte_val c) = Tr 0 \<and> rsp_case 2 (byte_val c) = St 2"
  by (auto simp: hex_char_def byte_val_def rsp_case_def rsp_case_1_def rsp_case_2_def)

lemma digit_small: "digit c \<Longrightarrow> digit_val c < 16"
  by (auto simp: digit_def digit_val_def)

lemma hex_digit: "hex_char c \<Longrightarrow> base_digit 16 c \<and> \<not> is_space c \<and> c \<notin> set ''+-'' \<and> tolower c \<noteq> CHR ''x''"
proof -
  have "list_all (\<lambda>c. digit (tolower c) \<and> \<not> is_space c \<and> c \<notin> set ''+-'' \<and> tolower c \<noteq> CHR ''x'') ''0123456789ABCDEFabcdef''"
    by code_simp
  then show "hex_char c \<Longrightarrow> ?thesis" using digit_small by (simp add: hex_char_def base_digit_def list_all_iff del: set_simps)
qed

definition hex_value :: "string \<Rightarrow> nat" where
  "hex_value ds = read_nat 16 (map tolower ds)"

lemma strtol_hex:
  assumes "ds \<noteq> []" "list_all hex_char ds"
  shows "strtol 16 (ds @ CHR 0x0D # ys) = min (2 ^ 63 - 1) (int (hex_value ds))"
proof -
  obtain d es where ds: "ds = d # es" using assms(1) by (cases ds) auto
  have all: "\<forall>c \<in> set ds. base_digit 16 c \<and> \<not> is_space c \<and> c \<notin> set ''+-'' \<and> tolower c \<noteq> CHR ''x''"
    using assms(2) hex_digit by (simp add: list_all_iff)
  have "takeWhile (base_digit 16) (ds @ CHR 0x0D # ys) = ds"
    using all by (simp add: takeWhile_append base_digit_def digit_def tolower_def)
  moreover have "skip_prefix 16 (ds @ CHR 0x0D # ys) = ds @ CHR 0x0D # ys"
    using all ds by (cases es) (auto simp: skip_prefix_def tolower_def)
  moreover have "dropWhile is_space (ds @ CHR 0x0D # ys) = ds @ CHR 0x0D # ys" "hd (ds @ CHR 0x0D # ys) \<notin> set ''+-''"
    using all ds by simp_all
  ultimately show ?thesis by (auto simp: strtol_def hex_value_def Let_def)
qed

section \<open>Properties\<close>


definition between_lines :: httpclient_parser where
  "between_lines = \<lparr>cp_cs = 20, cp_body_start = 0, cp_content_len = - 1, cp_status = 200, cp_chunked = 0, cp_chunks_done = 0,
     cp_close = 0, cp_nread = 17, cp_mark = 13, cp_field_start = 0, cp_field_len = 0, cp_callbacks = all_response_callbacks\<rparr>"


text \<open>A head is done and not finished when its last field is a Content-Length, Transfer-Encoding or Connection without a
  value: the callback is made, but the state is one of the three final states that \<open>httpclient_parser_is_finished\<close> does
  not know, and \<open>httpclient_parser_finish\<close> gives 0 for ever.\<close>

theorem empty_last_value_unfinished:
  assumes "cp_cs cp = 20" "cp_body_start cp = 0" "every_response_callback cp" "length name + 5 + length rest < 2 ^ 31"
    and "name \<in> {''Content-Length'', ''Transfer-Encoding'', ''Connection''}"
  shows "\<exists>cp'. httpclient_parser_execute (name @ '':'' @ crlf @ crlf @ rest @ [CHR 0x00]) (length name + 5 + length rest) 0 cp
      = Some (([Http_Field 0 (length name) (length name + 1) 0, Header_Done (length name + 5) (length rest)], int (length name + 5)), cp')
    \<and> httpclient_parser_finish cp' = 0"
proof -
  let ?xs = "name @ '':'' @ crlf @ crlf @ rest" and ?n = "length name + 5"
  let ?data = "name @ '':'' @ crlf @ crlf @ rest @ [CHR 0x00]"
  let ?es = "[Http_Field 0 (length name) (length name + 1) 0, Header_Done ?n (length rest)]"
  obtain cs where "cs \<in> {121, 122, 123}"
      and scan: "\<And>cp0. every_response_callback cp0 \<Longrightarrow> \<exists>cp'. scan (rsp_machine ?data) (?n + length rest) 0 20 ?xs cp0 = (?es, (?n, cs), cp')"
    using scan_empty_value [OF assms(5), of ?data "?n + length rest" rest] by auto
  moreover obtain cp' where "httpclient_parser_execute ?data (?n + length rest) 0 cp = Some ((?es, int ?n), cp')" "cp_cs cp' = cs"
    using rsp_execute_fed [OF _ _ _ assms(4,1-3) scan, of "[]"] by (auto simp: crlf_def)
  ultimately show ?thesis
    by (intro exI [of _ cp']) (auto simp: httpclient_parser_finish_def httpclient_parser_has_error_def httpclient_parser_is_finished_def)
qed

lemma empty_last_value_unfinished_witness:
  "\<exists>cp'. httpclient_parser_execute (''Connection'' @ '':'' @ crlf @ crlf @ ''hi'' @ [CHR 0x00]) (length ''Connection'' + 5 + length ''hi'') 0
      between_lines = Some (([Http_Field 0 (length ''Connection'') (length ''Connection'' + 1) 0,
        Header_Done (length ''Connection'' + 5) (length ''hi'')], int (length ''Connection'' + 5)), cp')
    \<and> httpclient_parser_finish cp' = 0"
  by (rule empty_last_value_unfinished)
    (auto simp: between_lines_def every_response_callback_def all_response_callbacks_def intro: response_callback.exhaust)

text \<open>A field can be reported with a name that runs past the buffer. A Transfer-Encoding without a value followed by a
  line that says chunked makes the scanner report a second field: it starts where this line does and has the length of
  Transfer-Encoding, 17 characters from the 20th on of a buffer of 29.\<close>

theorem folded_chunked_overreads:
  assumes "cp_cs cp = 20" "cp_body_start cp = 0" "every_response_callback cp"
  shows "\<exists>es cp'. httpclient_parser_execute (''Transfer-Encoding:'' @ crlf @ ''chunked'' @ crlf @ [CHR 0x00]) 29 0 cp = Some ((es, 29), cp')
    \<and> Http_Field 20 17 20 7 \<in> set es \<and> \<not> in_buffer 29 (Http_Field 20 17 20 7)"
proof -
  let ?data = "''Transfer-Encoding:'' @ crlf @ ''chunked'' @ crlf @ [CHR 0x00]"
  have "\<exists>cp'. httpclient_parser_execute ?data 29 0 cp = Some (([Http_Field 0 17 18 0, Http_Field 20 17 20 7], int 29), cp') \<and> cp_cs cp' = 20"
    by (rule rsp_execute_fed [OF _ _ _ _ assms(1-3) scan_folded_chunked, where zs = "[]"]) (simp_all add: crlf_def)
  then show ?thesis by auto
qed

lemma folded_chunked_overreads_witness:
  "\<exists>es cp'. httpclient_parser_execute (''Transfer-Encoding:'' @ crlf @ ''chunked'' @ crlf @ [CHR 0x00]) 29 0 between_lines = Some ((es, 29), cp')
    \<and> Http_Field 20 17 20 7 \<in> set es"
  using folded_chunked_overreads [of between_lines]
  by (auto simp: between_lines_def every_response_callback_def all_response_callbacks_def intro: response_callback.exhaust)


text \<open>C39: the header of a chunk, hexadecimal digits, is read as the size of a chunk: its value as a \<open>long\<close>, cut to an \<open>int\<close>. A
  size that is not positive then is the last chunk, so that 80000000 is taken for the end of the body.\<close>

theorem chunk_header_read:
  assumes "ds \<noteq> []" "list_all hex_char ds" "length (ds @ crlf @ rest) < 2 ^ 31"
  shows "\<exists>cp'. httpclient_parser_execute (ds @ crlf @ rest @ [CHR 0x00]) (length (ds @ crlf @ rest)) 0 (sc_init (httpclient_scanner mem))
      = Some (([if cp_content_len cp' \<le> 0 then Last_Chunk 0 (length ds) else Chunk_Size 0 (length ds),
          Header_Done (length ds + 2) (length rest)], int (length ds + 2)), cp')
    \<and> cp_content_len cp' = to_int32 (min (2 ^ 63 - 1) (int (hex_value ds))) \<and> cp_chunked cp' = 1 \<and> httpclient_parser_finish cp' = 1"
proof -
  let ?len = "length (ds @ crlf @ rest)" and ?data = "ds @ crlf @ rest @ [CHR 0x00]"
  obtain d es where ds: "ds = d # es" using assms(1) by (cases ds) auto
  let ?cp = "sc_init (httpclient_scanner mem)"
  let ?n = "to_int32 (min (2 ^ 63 - 1) (int (hex_value ds)))"
  have start: "cp_cs ?cp = 1" "every_response_callback ?cp" "cp_body_start ?cp = 0"
    by (auto simp: httpclient_scanner_def httpclient_parser_init_def every_response_callback_def all_response_callbacks_def
        intro: response_callback.exhaust)
  let ?cp1 = "(rsp_begin_execute ?cp)\<lparr>cp_mark := 0\<rparr>"
  have hexes: "hex_char d" "\<forall>c \<in> set es. hex_char c" using assms(2) ds by (simp_all add: list_all_iff)
  have "move (rsp_machine ?data) ?len 0 1 d (rsp_begin_execute ?cp) = ([], (True, 1, 2), ?cp1)"
    using hexes(1) by (simp add: move_def hex_states [simplified] rsp_tr_values)
  moreover have "scan (rsp_machine ?data) ?len 1 2 (es @ crlf @ rest) ?cp1 = scan (rsp_machine ?data) ?len (1 + length es) 2 (crlf @ rest) ?cp1"
    using hexes(2) hex_states by (intro scan_loop) simp_all
  ultimately have "scan (rsp_machine ?data) ?len 0 1 (ds @ crlf @ rest) (rsp_begin_execute ?cp)
      = scan (rsp_machine ?data) ?len (length ds) 2 (crlf @ rest) ?cp1"
    using ds by (simp add: scan_move)
  moreover have "\<exists>cp'. scan (rsp_machine ?data) ?len (length ds) 2 (crlf @ rest) ?cp1
      = ([if ?n \<le> 0 then Last_Chunk 0 (length ds) else Chunk_Size 0 (length ds), Header_Done (length ds + 2) (length rest)],
          (length ds + 2, 120), cp') \<and> cp_content_len cp' = ?n \<and> cp_chunked cp' = 1"
    using start(2) strtol_hex [OF assms(1,2), of "CHR 0x0A # rest @ [CHR 0x00]"]
    by (auto simp: crlf_def scan_chars rsp_case_def rsp_cases byte_vals rsp_tr_values rsp_chunk_size_def LEN_def Let_def
        every_response_callback_def rsp_begin_execute_def rsp_call_def)
  ultimately obtain cp' where "scan (rsp_machine ?data) ?len 0 1 (ds @ crlf @ rest) (rsp_begin_execute ?cp)
      = ([if ?n \<le> 0 then Last_Chunk 0 (length ds) else Chunk_Size 0 (length ds), Header_Done (length ds + 2) (length rest)],
          (length ds + 2, 120), cp')" "cp_content_len cp' = ?n" "cp_chunked cp' = 1"
    by auto
  then show ?thesis
    using rsp_execute_total [of ?len ?data ?cp] assms start
    by (auto simp: nth_append crlf_def httpclient_parser_finish_def httpclient_parser_has_error_def httpclient_parser_is_finished_def)
qed

lemma chunk_header_read_witness:
  "\<exists>cp'. httpclient_parser_execute (''80000000'' @ crlf @ ''hi'' @ [CHR 0x00]) (length (''80000000'' @ crlf @ ''hi'')) 0
      (sc_init (httpclient_scanner between_lines)) = Some (([Last_Chunk 0 8, Header_Done 10 2], 10), cp')
    \<and> cp_content_len cp' = - (2 ^ 31)"
proof -
  have "hex_value ''80000000'' = 2 ^ 31" by (simp add: hex_value_def read_nat_def tolower_def less_eq_char_def digit_val_def)
  then have "to_int32 (min (2 ^ 63 - 1) (int (hex_value ''80000000''))) = - (2 ^ 31)" by (simp add: to_int32_def signed_take_bit_eq_take_bit_minus)
  then show ?thesis using chunk_header_read [of "''80000000''" "''hi''" between_lines] by (auto simp: hex_char_def crlf_def)
qed

end
