(* ===== verification/Httpclient_Responses.thy ===== *)
theory Httpclient_Responses
  imports Httpclient_Parsing
begin

text \<open>
  The scanner of responses on well-formed heads: what the status line and each field make the machine do, and the
  callbacks for a whole head. The names Connection, Transfer-Encoding and Content-Length have states of their own, so
  that a name or a value leads through a set of states.
\<close>

section \<open>Characters\<close>

text \<open>The characters of the name of a field, and of a line: all but its end.\<close>

definition rsp_token :: "char \<Rightarrow> bool" where
  "rsp_token c \<longleftrightarrow> (let b = byte_val c in
     b \<in> {33, 124, 126} \<or> 35 \<le> b \<and> b \<le> 39 \<or> b \<in> {42, 43} \<or> b \<in> {45, 46} \<or> 48 \<le> b \<and> b \<le> 57 \<or> 65 \<le> b \<and> b \<le> 90 \<or> 94 \<le> b \<and> b \<le> 122)"

definition line_char :: "char \<Rightarrow> bool" where
  "line_char c \<longleftrightarrow> byte_val c \<notin> {10, 13}"

definition leading_blank :: "char \<Rightarrow> bool" where
  "leading_blank c \<longleftrightarrow> byte_val c \<in> {9, 11, 12, 32}"

section \<open>Names\<close>

text \<open>The states within a name: any name, and the beginnings of Connection, Transfer-Encoding and Content-Length. Behind
  the colon four states wait for a value.\<close>

definition name_states :: "nat list" where
  "name_states = [21] @ [25..<35] @ [44..<61] @ [101..<112]"

definition value_starts :: "nat list" where
  "value_starts = [22, 35, 61, 112]"

definition line_starts :: "nat list" where
  "line_starts = [20, 43]"

fun goes_within :: "nat list \<Rightarrow> label \<Rightarrow> bool" where
  "goes_within S (St t) = (t \<in> set S)"
| "goes_within S (Tr n) = False"

lemma goes_within_iff: "goes_within S l \<longleftrightarrow> (\<exists>t \<in> set S. l = St t)"
  by (cases l) auto

lemma name_within:
  assumes "rsp_token c"
  shows "list_all (\<lambda>cs. goes_within name_states (rsp_case cs (byte_val c))) name_states"
proof -
  consider "byte_val c \<in> {33, 124, 126, 42, 43, 45, 46}" | "35 \<le> byte_val c" "byte_val c \<le> 39" | "48 \<le> byte_val c" "byte_val c \<le> 57"
    | "65 \<le> byte_val c" "byte_val c \<le> 90" | "94 \<le> byte_val c" "byte_val c \<le> 122"
    using assms unfolding rsp_token_def Let_def by blast
  then show ?thesis
  proof cases
    case 1
    then show ?thesis by (elim insertE emptyE) (simp_all add: name_states_def upt_rec rsp_case_def rsp_cases)
  qed (simp_all add: name_states_def upt_rec rsp_case_def rsp_cases)
qed

lemma name_colon: "list_all (\<lambda>cs. \<exists>n t. rsp_case cs 58 = Tr n \<and> t \<in> set value_starts \<and> rsp_tr n = ([R_Write_Field], t)) name_states"
  by (simp add: name_states_def value_starts_def upt_rec rsp_case_def rsp_cases rsp_tr_values)

lemma name_first:
  "rsp_token c \<Longrightarrow> \<exists>n t. rsp_case 20 (byte_val c) = Tr n \<and> t \<in> set name_states \<and> rsp_tr n = ([R_Start_Field], t)"
  "rsp_token c \<Longrightarrow> \<exists>n t. rsp_case 43 (byte_val c) = Tr n \<and> t \<in> set name_states \<and> rsp_tr n = ([R_Write_Connection_Close, R_Start_Field], t)"
  by (auto simp: name_states_def rsp_token_def Let_def rsp_case_def rsp_cases rsp_tr_values)

text \<open>The states within a value: any value, and the beginnings of close, chunked and of a number.\<close>

definition value_states :: "nat list" where
  "value_states = [23] @ [96..<101] @ [81..<88] @ [119]"

lemma value_blank: "leading_blank c \<Longrightarrow> list_all (\<lambda>cs. \<exists>n. rsp_case cs (byte_val c) = Tr n \<and> rsp_tr n = ([R_Start_Value], cs)) value_starts"
  by (auto simp: value_starts_def leading_blank_def rsp_case_def rsp_cases rsp_tr_values)

lemma rsp_value_first: "line_char c \<Longrightarrow> \<not> leading_blank c
    \<Longrightarrow> list_all (\<lambda>cs. \<exists>n t. rsp_case cs (byte_val c) = Tr n \<and> t \<in> set value_states \<and> rsp_tr n = ([R_Start_Value], t)) value_starts"
  by (auto simp: value_starts_def value_states_def leading_blank_def line_char_def rsp_case_def rsp_cases rsp_tr_values)

lemma value_within: "line_char c \<Longrightarrow> list_all (\<lambda>cs. goes_within value_states (rsp_case cs (byte_val c))) value_states"
  by (simp add: value_states_def upt_rec line_char_def Let_def rsp_case_def rsp_cases)

section \<open>Fields\<close>

declare scan.simps(2) [simp del]

lemma rsp_loop:
  assumes "\<forall>cs \<in> set S. 0 < cs \<and> cs \<le> 123" "\<forall>c \<in> set xs. list_all (\<lambda>cs. goes_within S (rsp_case cs (byte_val c))) S" "cs \<in> set S"
  shows "\<exists>t \<in> set S. scan (rsp_machine data) pe p cs (xs @ ys) cp = scan (rsp_machine data) pe (p + length xs) t ys cp"
  using assms by (intro scan_within) (simp_all add: list_all_iff goes_within_iff)

lemma state_bounds:
  "cs \<in> set name_states \<Longrightarrow> 0 < cs \<and> cs \<le> 123" "cs \<in> set value_starts \<Longrightarrow> 0 < cs \<and> cs \<le> 123"
  "cs \<in> set value_states \<Longrightarrow> 0 < cs \<and> cs \<le> 123" "cs \<in> set line_starts \<Longrightarrow> 0 < cs \<and> cs \<le> 123"
  by (auto simp: name_states_def value_starts_def value_states_def line_starts_def)

lemma scan_rsp_name:
  assumes "every_response_callback cp" "k \<noteq> []" "list_all rsp_token k" "cs \<in> set line_starts"
  shows "\<exists>t cp'. t \<in> set value_starts \<and> every_response_callback cp' \<and> cp_field_start cp' = p \<and> cp_field_len cp' = length k
    \<and> scan (rsp_machine data) pe p cs (k @ CHR '':'' # ys) cp = scan (rsp_machine data) pe (p + length k + 1) t ys cp'"
proof -
  obtain c k' where k: "k = c # k'" using assms(2) by (cases k) auto
  obtain t1 cp1 where 1: "t1 \<in> set name_states" "every_response_callback cp1" "cp_field_start cp1 = p"
      "move (rsp_machine data) pe p cs c cp = ([], (True, p + 1, t1), cp1)"
    using name_first [of c] assms(1,3,4) k by (auto simp: line_starts_def move_def)
  obtain t2 where 2: "t2 \<in> set name_states"
      "scan (rsp_machine data) pe (p + 1) t1 (k' @ CHR '':'' # ys) cp1 = scan (rsp_machine data) pe (p + length k) t2 (CHR '':'' # ys) cp1"
    using rsp_loop [of name_states k' t1 data pe "p + 1" "CHR '':'' # ys" cp1] 1(1) assms(3) k state_bounds(1) name_within
    by (auto simp: list_all_iff)
  obtain n t3 where 3: "rsp_case t2 58 = Tr n" "t3 \<in> set value_starts" "rsp_tr n = ([R_Write_Field], t3)"
    using name_colon 2(1) by (auto simp: list_all_iff)
  have "move (rsp_machine data) pe (p + length k) t2 (CHR '':'') cp1
      = ([], (True, p + length k + 1, t3), cp1\<lparr>cp_field_len := length k\<rparr>)"
    using state_bounds(1) [OF 2(1)] 3 1(3) by (simp add: move_def byte_vals LEN_def)
  then show ?thesis using 1 2(2) 3(2) k by (intro exI [of _ t3] exI [of _ "cp1\<lparr>cp_field_len := length k\<rparr>"]) (simp add: scan_move)
qed

lemma scan_rsp_blanks:
  "list_all leading_blank xs \<Longrightarrow> cs \<in> set value_starts
    \<Longrightarrow> \<exists>m. scan (rsp_machine data) pe p cs (xs @ ys) cp = scan (rsp_machine data) pe (p + length xs) cs ys (cp\<lparr>cp_mark := m\<rparr>)"
proof (induction xs arbitrary: p cp)
  case Nil
  show ?case by (intro exI [of _ "cp_mark cp"]) simp
next
  case (Cons c xs)
  have "move (rsp_machine data) pe p cs c cp = ([], (True, p + 1, cs), cp\<lparr>cp_mark := p\<rparr>)"
    using value_blank [of c] Cons.prems state_bounds(2) [OF Cons.prems(2)] by (auto simp: move_def list_all_iff)
  then show ?case using Cons.IH [of "p + 1" "cp\<lparr>cp_mark := p\<rparr>"] Cons.prems by (simp add: scan_move)
qed

lemma scan_value_end:
  assumes "every_response_callback cp" "cs \<in> set value_states" "cp_mark cp \<le> p"
  shows "\<exists>t cp'. t \<in> set line_starts \<and> every_response_callback cp'
    \<and> scan (rsp_machine data) pe p cs (crlf @ ys) cp
      = after [Http_Field (cp_field_start cp) (cp_field_len cp) (cp_mark cp) (p - cp_mark cp)] (scan (rsp_machine data) pe (p + 2) t ys cp')"
proof -
  let ?e = "[Http_Field (cp_field_start cp) (cp_field_len cp) (cp_mark cp) (p - cp_mark cp)]"
  let ?scan = "\<lambda>t. scan (rsp_machine data) pe (p + 2) t ys"
  note step = crlf_def scan_chars byte_vals rsp_case_def rsp_cases rsp_tr_values LEN_def assms(1,3)
  have "cs \<in> set ([23] @ [96..<100] @ [81..<87]) \<Longrightarrow> scan (rsp_machine data) pe p cs (crlf @ ys) cp = after ?e (?scan 20 cp)"
    by (auto simp: upt_rec step)
  moreover have "scan (rsp_machine data) pe p 100 (crlf @ ys) cp = after ?e (?scan 43 cp)"
      "scan (rsp_machine data) pe p 87 (crlf @ ys) cp = after ?e (?scan 20 (cp\<lparr>cp_chunked := 1\<rparr>))"
      "scan (rsp_machine data) pe p 119 (crlf @ ys) cp
        = after ?e (?scan 20 (cp\<lparr>cp_content_len := to_int32 (strtol 10 (drop (cp_mark cp) data))\<rparr>))"
    by (simp_all add: step)
  moreover have "cs \<in> set ([23] @ [96..<100] @ [81..<87]) \<or> cs = 100 \<or> cs = 87 \<or> cs = 119"
    using assms(2) by (auto simp: value_states_def)
  moreover have "20 \<in> set line_starts" "43 \<in> set line_starts" by (simp_all add: line_starts_def)
  ultimately show ?thesis using assms(1) every_update by metis
qed

lemma scan_rsp_value:
  assumes "every_response_callback cp" "v \<noteq> []" "list_all line_char v" "\<not> leading_blank (hd v)" "cs \<in> set value_starts"
  shows "\<exists>t cp'. t \<in> set line_starts \<and> every_response_callback cp'
    \<and> scan (rsp_machine data) pe p cs (v @ crlf @ ys) cp
      = after [Http_Field (cp_field_start cp) (cp_field_len cp) p (length v)] (scan (rsp_machine data) pe (p + length v + 2) t ys cp')"
proof -
  obtain c v' where v: "v = c # v'" using assms(2) by (cases v) auto
  let ?cp = "cp\<lparr>cp_mark := p\<rparr>"
  obtain t1 where 1: "t1 \<in> set value_states" "move (rsp_machine data) pe p cs c cp = ([], (True, p + 1, t1), ?cp)"
    using rsp_value_first [of c] assms(3-5) v state_bounds(2) [OF assms(5)] by (fastforce simp: move_def list_all_iff)
  obtain t2 where 2: "t2 \<in> set value_states"
      "scan (rsp_machine data) pe (p + 1) t1 (v' @ crlf @ ys) ?cp = scan (rsp_machine data) pe (p + length v) t2 (crlf @ ys) ?cp"
    using rsp_loop [of value_states v' t1 data pe "p + 1" "crlf @ ys" ?cp] 1(1) assms(3) v state_bounds(3) value_within
    by (auto simp: list_all_iff)
  then show ?thesis using scan_value_end [of ?cp t2 "p + length v" data pe ys] 1(2) assms(1) v by (simp add: scan_move)
qed

text \<open>A field as it is written: a name, white space, and a value that is not empty. One without a value is read
  otherwise, see \<open>empty_last_value_unfinished\<close>.\<close>

definition good_rsp_field :: "wire_field \<Rightarrow> bool" where
  "good_rsp_field f \<longleftrightarrow> (case f of (k, blanks, v) \<Rightarrow>
     k \<noteq> [] \<and> list_all rsp_token k \<and> list_all leading_blank blanks \<and> v \<noteq> [] \<and> list_all line_char v \<and> \<not> leading_blank (hd v))"

lemma scan_rsp_field:
  assumes "every_response_callback cp" "good_rsp_field (k, blanks, v)" "cs \<in> set line_starts"
  shows "\<exists>t cp'. t \<in> set line_starts \<and> every_response_callback cp'
    \<and> scan (rsp_machine data) pe p cs (field_line (k, blanks, v) @ ys) cp
      = after [Http_Field p (length k) (p + length k + 1 + length blanks) (length v)]
          (scan (rsp_machine data) pe (p + length (field_line (k, blanks, v))) t ys cp')"
proof -
  have good: "k \<noteq> []" "list_all rsp_token k" "list_all leading_blank blanks" "v \<noteq> []" "list_all line_char v" "\<not> leading_blank (hd v)"
    using assms(2) by (simp_all add: good_rsp_field_def)
  obtain t1 cp1 where 1: "t1 \<in> set value_starts" "every_response_callback cp1" "cp_field_start cp1 = p" "cp_field_len cp1 = length k"
      "scan (rsp_machine data) pe p cs (k @ CHR '':'' # blanks @ v @ crlf @ ys) cp
        = scan (rsp_machine data) pe (p + length k + 1) t1 (blanks @ v @ crlf @ ys) cp1"
    using scan_rsp_name [OF assms(1) good(1,2) assms(3)] by blast
  obtain m where 2: "scan (rsp_machine data) pe (p + length k + 1) t1 (blanks @ v @ crlf @ ys) cp1
      = scan (rsp_machine data) pe (p + length k + 1 + length blanks) t1 (v @ crlf @ ys) (cp1\<lparr>cp_mark := m\<rparr>)"
    using scan_rsp_blanks [OF good(3) 1(1)] by blast
  obtain t cp' where "t \<in> set line_starts" "every_response_callback cp'"
      "scan (rsp_machine data) pe (p + length k + 1 + length blanks) t1 (v @ crlf @ ys) (cp1\<lparr>cp_mark := m\<rparr>)
        = after [Http_Field p (length k) (p + length k + 1 + length blanks) (length v)]
            (scan (rsp_machine data) pe (p + length k + 1 + length blanks + length v + 2) t ys cp')"
    using scan_rsp_value [of "cp1\<lparr>cp_mark := m\<rparr>" v t1 data pe "p + length k + 1 + length blanks" ys] good(4-6) 1(1-4) by auto
  then show ?thesis using 1(5) 2
    by (intro exI [of _ t] exI [of _ cp']) (simp add: field_line_def crlf_def add.assoc)
qed

lemma scan_rsp_fields:
  "every_response_callback cp \<Longrightarrow> list_all good_rsp_field fs \<Longrightarrow> cs \<in> set line_starts
    \<Longrightarrow> \<exists>t cp'. t \<in> set line_starts \<and> every_response_callback cp'
      \<and> scan (rsp_machine data) pe p cs (concat (map field_line fs) @ ys) cp
        = after (field_events p fs) (scan (rsp_machine data) pe (p + length (concat (map field_line fs))) t ys cp')"
proof (induction fs arbitrary: p cs cp)
  case Nil
  then show ?case by (intro exI [of _ cs] exI [of _ cp]) simp
next
  case (Cons f fs)
  obtain k blanks v where f: "f = (k, blanks, v)" by (cases f)
  obtain t1 cp1 where 1: "t1 \<in> set line_starts" "every_response_callback cp1"
      "scan (rsp_machine data) pe p cs (field_line f @ concat (map field_line fs) @ ys) cp
        = after [Http_Field p (length k) (p + length k + 1 + length blanks) (length v)]
            (scan (rsp_machine data) pe (p + length (field_line f)) t1 (concat (map field_line fs) @ ys) cp1)"
    using scan_rsp_field [of cp k blanks v cs data pe p "concat (map field_line fs) @ ys"] Cons.prems f by auto
  obtain t2 cp2 where "t2 \<in> set line_starts" "every_response_callback cp2"
      "scan (rsp_machine data) pe (p + length (field_line f)) t1 (concat (map field_line fs) @ ys) cp1
        = after (field_events (p + length (field_line f)) fs)
            (scan (rsp_machine data) pe (p + length (field_line f) + length (concat (map field_line fs))) t2 ys cp2)"
    using Cons.IH [OF 1(2) _ 1(1), of "p + length (field_line f)"] Cons.prems by auto
  then show ?case using 1(3) f by (intro exI [of _ t2] exI [of _ cp2]) (auto simp: add.assoc)
qed

lemma scan_rsp_end:
  assumes "every_response_callback cp" "cs \<in> set line_starts"
  shows "\<exists>cp'. scan (rsp_machine data) pe p cs (crlf @ ys) cp = ([Header_Done (p + 2) (pe - p - 2)], (p + 2, 120), cp')"
  using assms by (auto simp: line_starts_def crlf_def scan_chars byte_vals rsp_case_def rsp_cases rsp_tr_values)

section \<open>Responses\<close>

record wire_response =
  r_minor :: char
  r_code :: string
  r_reason :: string
  r_fields :: "wire_field list"

definition rsp_text :: "wire_response \<Rightarrow> string" where
  "rsp_text r = ''HTTP/1.'' @ [r_minor r] @ '' '' @ r_code r @ '' '' @ r_reason r @ crlf @ concat (map field_line (r_fields r)) @ crlf"

definition dec_char :: "char \<Rightarrow> bool" where
  "dec_char c \<longleftrightarrow> 48 \<le> byte_val c \<and> byte_val c \<le> 57"

definition good_rsp :: "wire_response \<Rightarrow> bool" where
  "good_rsp r \<longleftrightarrow> r_minor r \<in> set ''01'' \<and> r_code r \<noteq> [] \<and> list_all dec_char (r_code r) \<and> r_reason r \<noteq> [] \<and> list_all line_char (r_reason r)
     \<and> list_all good_rsp_field (r_fields r)"

definition rsp_events :: "nat \<Rightarrow> wire_response \<Rightarrow> parser_event list" where
  "rsp_events pe r =
     (let c = length (r_code r); f = 10 + c + length (r_reason r) + 2; e = f + length (concat (map field_line (r_fields r)))
      in [Http_Version 0 8, Status_Code 9 c, Reason_Phrase (10 + c) (length (r_reason r))] @ field_events f (r_fields r)
         @ [Header_Done (e + 2) (pe - e - 2)])"

lemma scan_rsp_version:
  assumes "every_response_callback cp" "d \<in> set ''01''"
  shows "scan (rsp_machine data) pe 0 1 (''HTTP/1.'' @ [d] @ '' '' @ ys) cp
    = after [Http_Version 0 8] (scan (rsp_machine data) pe 9 16 ys (cp\<lparr>cp_mark := 0\<rparr>))"
  using assms by (auto simp: scan_chars byte_val_def rsp_case_def rsp_cases rsp_tr_values LEN_def Suc_numeral numeral_2_eq_2 [symmetric])

lemma code_states: "dec_char c \<Longrightarrow> rsp_case 16 (byte_val c) = Tr 27 \<and> rsp_case 17 (byte_val c) = St 17"
  by (simp add: dec_char_def rsp_case_def rsp_cases)

lemma scan_rsp_code:
  assumes "every_response_callback cp" "xs \<noteq> []" "list_all dec_char xs"
  shows "\<exists>cp'. every_response_callback cp' \<and> scan (rsp_machine data) pe p 16 (xs @ '' '' @ ys) cp
    = after [Status_Code p (length xs)] (scan (rsp_machine data) pe (p + length xs + 1) 18 ys cp')"
proof -
  obtain c cs where xs: "xs = c # cs" using assms(2) by (cases xs) auto
  let ?cp = "cp\<lparr>cp_mark := p\<rparr>"
  have "move (rsp_machine data) pe p 16 c cp = ([], (True, p + 1, 17), ?cp)"
    using assms(3) xs code_states by (simp add: move_def rsp_tr_values)
  moreover have "scan (rsp_machine data) pe (p + 1) 17 (cs @ '' '' @ ys) ?cp = scan (rsp_machine data) pe (p + length xs) 17 ('' '' @ ys) ?cp"
    using scan_loop [of 17 "rsp_machine data" cs ?cp pe "p + 1" "'' '' @ ys"] assms(3) xs code_states by (simp add: list_all_iff)
  ultimately show ?thesis using assms(1) xs
    by (intro exI [of _ "?cp\<lparr>cp_status := to_int32 (strtol 10 (drop p data))\<rparr>"])
      (simp add: scan_move scan_chars byte_vals rsp_case_def rsp_cases rsp_tr_values LEN_def)
qed

lemma reason_states: "line_char c \<Longrightarrow> rsp_case 18 (byte_val c) = Tr 30 \<and> rsp_case 19 (byte_val c) = St 19"
  by (simp add: line_char_def rsp_case_def rsp_cases)

lemma scan_rsp_reason:
  assumes "every_response_callback cp" "xs \<noteq> []" "list_all line_char xs"
  shows "\<exists>cp'. every_response_callback cp' \<and> scan (rsp_machine data) pe p 18 (xs @ crlf @ ys) cp
    = after [Reason_Phrase p (length xs)] (scan (rsp_machine data) pe (p + length xs + 2) 20 ys cp')"
proof -
  obtain c cs where xs: "xs = c # cs" using assms(2) by (cases xs) auto
  let ?cp = "cp\<lparr>cp_mark := p\<rparr>"
  have "move (rsp_machine data) pe p 18 c cp = ([], (True, p + 1, 19), ?cp)"
    using assms(3) xs reason_states by (simp add: move_def rsp_tr_values)
  moreover have "scan (rsp_machine data) pe (p + 1) 19 (cs @ crlf @ ys) ?cp = scan (rsp_machine data) pe (p + length xs) 19 (crlf @ ys) ?cp"
    using scan_loop [of 19 "rsp_machine data" cs ?cp pe "p + 1" "crlf @ ys"] assms(3) xs reason_states by (simp add: list_all_iff)
  ultimately show ?thesis using assms(1) xs
    by (intro exI [of _ ?cp]) (simp add: crlf_def scan_move scan_chars byte_vals rsp_case_def rsp_cases rsp_tr_values LEN_def)
qed

lemma scan_response:
  assumes "every_response_callback cp" "good_rsp r"
  shows "\<exists>cp'. scan (rsp_machine data) pe 0 1 (rsp_text r @ ys) cp = (rsp_events pe r, (length (rsp_text r), 120), cp')"
proof -
  let ?c = "r_code r" and ?m = "r_reason r" and ?fs = "concat (map field_line (r_fields r))"
  have good: "r_minor r \<in> set ''01''" "?c \<noteq> []" "list_all dec_char ?c" "?m \<noteq> []" "list_all line_char ?m" "list_all good_rsp_field (r_fields r)"
    using assms(2) unfolding good_rsp_def by blast+
  let ?a = "10 + length ?c" let ?b = "?a + length ?m + 2"
  obtain cp1 where 1: "every_response_callback cp1" "scan (rsp_machine data) pe 9 16 (?c @ '' '' @ ?m @ crlf @ ?fs @ crlf @ ys) (cp\<lparr>cp_mark := 0\<rparr>)
      = after [Status_Code 9 (length ?c)] (scan (rsp_machine data) pe ?a 18 (?m @ crlf @ ?fs @ crlf @ ys) cp1)"
    using scan_rsp_code [of "cp\<lparr>cp_mark := 0\<rparr>" ?c data pe 9 "?m @ crlf @ ?fs @ crlf @ ys"] assms(1) good by auto
  obtain cp2 where 2: "every_response_callback cp2" "scan (rsp_machine data) pe ?a 18 (?m @ crlf @ ?fs @ crlf @ ys) cp1
      = after [Reason_Phrase ?a (length ?m)] (scan (rsp_machine data) pe ?b 20 (?fs @ crlf @ ys) cp2)"
    using scan_rsp_reason [OF 1(1) good(4,5)] by blast
  have "20 \<in> set line_starts" by (simp add: line_starts_def)
  from scan_rsp_fields [OF 2(1) good(6) this, of data pe ?b "crlf @ ys"]
  obtain t cp3 where 3: "t \<in> set line_starts" "every_response_callback cp3" "scan (rsp_machine data) pe ?b 20 (?fs @ crlf @ ys) cp2
      = after (field_events ?b (r_fields r)) (scan (rsp_machine data) pe (?b + length ?fs) t (crlf @ ys) cp3)"
    by blast
  obtain cp4 where 4: "scan (rsp_machine data) pe (?b + length ?fs) t (crlf @ ys) cp3
      = ([Header_Done (?b + length ?fs + 2) (pe - (?b + length ?fs) - 2)], (?b + length ?fs + 2, 120), cp4)"
    using scan_rsp_end [OF 3(2,1)] by blast
  have "scan (rsp_machine data) pe 0 1 (rsp_text r @ ys) cp
      = scan (rsp_machine data) pe 0 1 (''HTTP/1.'' @ [r_minor r] @ '' '' @ ?c @ '' '' @ ?m @ crlf @ ?fs @ crlf @ ys) cp"
    by (simp add: rsp_text_def)
  also have "\<dots> = after [Http_Version 0 8] (scan (rsp_machine data) pe 9 16 (?c @ '' '' @ ?m @ crlf @ ?fs @ crlf @ ys) (cp\<lparr>cp_mark := 0\<rparr>))"
    by (rule scan_rsp_version [OF assms(1) good(1)])
  finally show ?thesis using 1(2) 2(2) 3(3) 4
    by (intro exI [of _ cp4]) (simp add: rsp_events_def rsp_text_def crlf_def Let_def)
qed

end
