(* ===== verification/Httpclient_Dump.thy ===== *)
theory Httpclient_Dump
  imports Httpclient_Responses
begin

text \<open>
  What \<open>HttpResponseParser\<close> of \<open>src/src/http/http_parser.cpp\<close> makes of the callbacks of the scanner: a well-formed head
  becomes the response it stands for, and what \<open>HttpResponse::dump\<close> writes is read back.
\<close>

section \<open>What the callbacks make of it\<close>

text \<open>The response that the text stands for, with a status that is an \<open>int\<close>.\<close>

definition rsp_result :: "'m map_ops \<Rightarrow> int \<Rightarrow> wire_response \<Rightarrow> 'm http_response" where
  "rsp_result mo status r =
     (HttpResponse_new mo 0x11 True)\<lparr>rs_status := status, rs_version := (if r_minor r = CHR ''1'' then 0x11 else 0x10),
       rs_reason := r_reason r, rs_headers := wire_headers mo (r_fields r) (mo_empty mo)\<rparr>"

lemma response_events_append:
  "response_events mo data (es @ es') p
    = (case response_events mo data es p of Inl f \<Rightarrow> Inl f | Inr p' \<Rightarrow> response_events mo data es' p')"
  by (induction es arbitrary: p) (simp_all split: sum.split)

lemma rsp_fields_put:
  "list_all good_rsp_field fs \<Longrightarrow> data = pre @ concat (map field_line fs) @ post
    \<Longrightarrow> response_events mo data (field_events (length pre) fs) p
      = Inr (p\<lparr>sp_data := (sp_data p)\<lparr>rs_headers := wire_headers mo fs (rs_headers (sp_data p))\<rparr>\<rparr>)"
proof (induction fs arbitrary: pre p)
  case Nil
  then show ?case by (simp add: wire_headers_def)
next
  case (Cons f fs)
  obtain k blanks v where f: "f = (k, blanks, v)" by (cases f)
  have d: "data = pre @ k @ '':'' @ blanks @ v @ crlf @ concat (map field_line fs) @ post"
    using Cons.prems(2) f by (simp add: field_line_parts)
  have k: "token data (length pre) (length k) = k" "k \<noteq> []"
    using Cons.prems(1) f d by (auto simp: good_rsp_field_def intro: token_in)
  have v: "token data (length pre + length k + 1 + length blanks) (length v) = v"
    using d by (intro token_in [where pre = "pre @ k @ '':'' @ blanks" and post = "crlf @ concat (map field_line fs) @ post"]) simp_all
  let ?p = "p\<lparr>sp_data := rsp_setHeader mo k v (sp_data p)\<rparr>"
  have "response_events mo data (field_events (length (pre @ field_line f)) fs) ?p
    = Inr (?p\<lparr>sp_data := (sp_data ?p)\<lparr>rs_headers := wire_headers mo fs (rs_headers (sp_data ?p))\<rparr>\<rparr>)"
    using Cons.prems by (intro Cons.IH) simp_all
  then show ?case using k v f by (simp add: on_response_http_field_def rsp_setHeader_def wire_headers_def)
qed

lemma rsp_version_reads:
  assumes "d \<in> set ''01''"
  shows "on_response_version (''HTTP/1.'' @ d # post) 0 8 p
    = p\<lparr>sp_data := (sp_data p)\<lparr>rs_version := if d = CHR ''1'' then 0x11 else 0x10\<rparr>\<rparr>"
proof -
  have "c_str (''HTTP/1.'' @ d # post) = ''HTTP/1.'' @ d # c_str post"
    using c_str_append [of "''HTTP/1.'' @ [d]" post] assms by auto
  then show ?thesis using assms by (auto simp: on_response_version_def strncmp_eq_def c_str_def before_char_def)
qed

text \<open>\<open>atoi\<close> on a number as \<open>operator<<\<close> prints it, with something behind it.\<close>

lemma dec_is_digits: "c \<in> set (dec n) \<Longrightarrow> is_digit c"
proof -
  have "list_all (\<lambda>d. is_digit (digit_char d)) [0..<10]" by code_simp
  then have one: "is_digit (digit_char d)" if "d < 10" for d using that by (simp add: list_all_iff)
  have "\<forall>c \<in> set (show_nat 10 n). is_digit c"
  proof (induction n rule: less_induct)
    case (less n)
    show ?case
    proof (cases "n < 10")
      case False
      then have "\<forall>c \<in> set (show_nat 10 (n div 10)). is_digit c" by (intro less) simp
      then show ?thesis using one False by (simp add: show_nat.simps [of 10 n])
    qed (simp add: show_nat.simps [of 10 n] one)
  qed
  then show "c \<in> set (dec n) \<Longrightarrow> is_digit c" by (simp add: dec_def)
qed

lemma dec_not_empty: "dec n \<noteq> []"
  by (simp add: dec_def show_nat.simps [of 10 n])

lemma atoi_dec:
  assumes "n < 2 ^ 31" "\<not> is_digit c"
  shows "atoi (dec n @ c # ys) = Inr (int n)"
proof -
  obtain d ds where ds: "dec n = d # ds" using dec_not_empty [of n] by (cases "dec n") auto
  have "is_digit d" using dec_is_digits [of d n] ds by simp
  then have first: "\<not> is_space d" "d \<notin> set ''+-''" by (auto simp: is_digit_def is_space_def)
  have "takeWhile is_digit (dec n @ c # ys) = dec n" using dec_is_digits [of _ n] assms(2) by (simp add: takeWhile_append)
  moreover have "read_nat 10 (dec n) = n" by (simp add: dec_def read_show)
  ultimately show ?thesis using first ds assms(1) by (auto simp: atoi_def Let_def)
qed

lemma rsp_reads:
  fixes mo :: "'m map_ops" and sc :: "'p scanner"
  assumes "good_rsp r" "r_code r = dec status" "status < 2 ^ 31"
  shows "response_events mo (rsp_text r @ rest) (rsp_events pe r) (HttpResponseParser_new sc mo)
    = Inr ((HttpResponseParser_new sc mo)\<lparr>sp_data := rsp_result mo (int status) r\<rparr>)"
proof -
  let ?data = "rsp_text r @ rest" and ?c = "r_code r" and ?m = "r_reason r" and ?fs = "concat (map field_line (r_fields r))"
  let ?a = "''HTTP/1.'' @ [r_minor r] @ '' '' @ ?c @ '' ''" let ?b = "?a @ ?m @ crlf"
  have good: "r_minor r \<in> set ''01''" "list_all good_rsp_field (r_fields r)"
    using assms(1) unfolding good_rsp_def by blast+
  have data: "?data = ''HTTP/1.'' @ r_minor r # '' '' @ ?c @ '' '' @ ?m @ crlf @ ?fs @ crlf @ rest"
      "?data = ?a @ ?m @ crlf @ ?fs @ crlf @ rest" "?data = ?b @ ?fs @ crlf @ rest"
      "drop 9 ?data = dec status @ CHR '' '' # ?m @ crlf @ ?fs @ crlf @ rest"
    by (simp_all add: rsp_text_def assms(2))
  have 1: "response_event mo ?data (Http_Version 0 8) p
      = Inr (p\<lparr>sp_data := (sp_data p)\<lparr>rs_version := if r_minor r = CHR ''1'' then 0x11 else 0x10\<rparr>\<rparr>)"
    for p :: "('p, 'm) response_parser" by (simp only: response_event.simps data(1) rsp_version_reads [OF good(1)])
  have 2: "response_event mo ?data (Status_Code 9 n) p = Inr (p\<lparr>sp_data := (sp_data p)\<lparr>rs_status := int status\<rparr>\<rparr>)"
    for n and p :: "('p, 'm) response_parser"
    using atoi_dec [OF assms(3), of "CHR '' ''"] data(4) by (simp add: on_response_status_def is_digit_def)
  have "token ?data (length ?a) (length ?m) = ?m" by (rule token_in [OF data(2)]) simp_all
  then have 3: "response_event mo ?data (Reason_Phrase (length ?a) (length ?m)) p = Inr (p\<lparr>sp_data := (sp_data p)\<lparr>rs_reason := ?m\<rparr>\<rparr>)"
    for p :: "('p, 'm) response_parser" by (simp only: response_event.simps on_response_reason_def)
  have 4: "response_events mo ?data (field_events (length ?b) (r_fields r)) p
      = Inr (p\<lparr>sp_data := (sp_data p)\<lparr>rs_headers := wire_headers mo (r_fields r) (rs_headers (sp_data p))\<rparr>\<rparr>)"
    for p :: "('p, 'm) response_parser" by (rule rsp_fields_put [OF good(2) data(3)])
  have lengths: "length ?a = 10 + length ?c" "length ?b = 10 + length ?c + length ?m + 2" by (simp_all add: crlf_def)
  obtain a b where ab: "a = length ?a" "b = length ?b" by simp
  have 5: "rsp_events pe r = [Http_Version 0 8, Status_Code 9 (length ?c), Reason_Phrase (length ?a) (length ?m)]
      @ field_events (length ?b) (r_fields r) @ [Header_Done (length ?b + length ?fs + 2) (pe - (length ?b + length ?fs) - 2)]"
    unfolding lengths by (simp add: rsp_events_def Let_def)
  show ?thesis
    by (simp add: 5 [folded ab] response_events_append 1 2 3 [folded ab] 4 [folded ab] del: response_event.simps(1,2,4))
      (simp add: on_response_header_done_def HttpResponseParser_new_def rsp_result_def HttpResponse_new_def)
qed

lemma rsp_parses:
  fixes mo :: "'m map_ops"
  assumes "good_rsp r" "r_code r = dec status" "status < 2 ^ 31" "length (rsp_text r @ rest) < 2 ^ 31"
  shows "\<exists>data' p'. response_execute (httpclient_scanner mem) mo (rsp_text r @ rest @ [CHR 0x00]) (length (rsp_text r @ rest)) False
      (HttpResponseParser_new (httpclient_scanner mem) mo) = Inr ((length (rsp_text r), data'), p')
    \<and> sp_data p' = rsp_result mo (int status) r \<and> \<not> response_hasError (httpclient_scanner mem) p'
    \<and> response_isFinished (httpclient_scanner mem) p' = 1 \<and> take (length rest) data' = rest"
proof -
  let ?sc = "httpclient_scanner mem" and ?data = "rsp_text r @ rest @ [CHR 0x00]" and ?len = "length (rsp_text r @ rest)"
  have start: "cp_cs (sc_init ?sc) = 1" "every_response_callback (sc_init ?sc)" "cp_body_start (sc_init ?sc) = 0"
    by (auto simp: httpclient_scanner_def httpclient_parser_init_def every_response_callback_def all_response_callbacks_def
        intro: response_callback.exhaust)
  have "\<exists>cp'. httpclient_parser_execute ?data ?len 0 (sc_init ?sc) = Some ((rsp_events ?len r, int (length (rsp_text r))), cp') \<and> cp_cs cp' = 120"
    by (rule rsp_execute_fed [of ?data "rsp_text r @ rest" "[]" ?len "sc_init ?sc" 1, OF _ _ _ assms(4) start(1,3,2)
          scan_response [OF _ assms(1)]]) (simp_all add: rsp_text_def)
  then obtain cp' where "httpclient_parser_execute ?data ?len 0 (sc_init ?sc) = Some ((rsp_events ?len r, int (length (rsp_text r))), cp')"
      and cs: "cp_cs cp' = 120" by blast
  then have x: "sc_execute ?sc (sc_init ?sc) ?data ?len = ((rsp_events ?len r, length (rsp_text r)), cp')"
    by (simp add: httpclient_scanner_def as_size_def)
  have shifted: "take (length rest) (shift_left ?data (length (rsp_text r)) ?len) = rest"
    by (simp add: shift_left_def overwrite_def)
  show ?thesis
    using x cs shifted rsp_reads [OF assms(1-3), of mo "rest @ [CHR 0x00]" ?len ?sc]
    by (auto simp: response_execute_def response_hasError_def response_isFinished_def httpclient_scanner_def HttpResponseParser_new_def
        httpclient_parser_finish_def httpclient_parser_has_error_def httpclient_parser_is_finished_def)
qed

section \<open>What \<open>HttpResponse::dump\<close> writes\<close>

definition rsp_dump_fields :: "'m map_ops \<Rightarrow> 'm http_response \<Rightarrow> wire_field list" where
  "rsp_dump_fields mo r =
     map (\<lambda>(k, v). (k, '' '', v)) (filter (\<lambda>(k, v). strcasecmp k ''connection'' \<noteq> 0) (mo_entries mo (rs_headers r)))
     @ [(''connection'', '' '', if rs_close r then ''close'' else ''keep-alive'')]
     @ (if rs_body r = [] then [] else [(''content-length'', '' '', dec (length (rs_body r)))])"

definition dump_response :: "'m map_ops \<Rightarrow> 'm http_response \<Rightarrow> wire_response" where
  "dump_response mo r =
     \<lparr>r_minor = (if rs_version r = 0x11 then CHR ''1'' else CHR ''0''), r_code = dec (unat (word_of_int (rs_status r) :: u32)),
      r_reason = status_text r, r_fields = rsp_dump_fields mo r\<rparr>"

lemma rsp_header_lines:
  "header_lines '': '' hs = concat (map field_line (map (\<lambda>(k, v). (k, '' '', v)) (filter (\<lambda>(k, v). strcasecmp k ''connection'' \<noteq> 0) hs)))"
  by (induction "'': ''" hs rule: header_lines.induct) (auto simp: field_line_def)

lemma rsp_dump_is_text:
  assumes "rs_version r \<in> {0x10, 0x11}"
  shows "response_dump mo r = rsp_text (dump_response mo r) @ rs_body r"
proof -
  have "version_text (rs_version r) = ''HTTP/1.'' @ [if rs_version r = 0x11 then CHR ''1'' else CHR ''0'']"
    using assms version_texts by auto
  then show ?thesis
    by (simp add: response_dump_def rsp_text_def dump_response_def rsp_dump_fields_def rsp_header_lines connection_line_def
        body_text_def field_line_def)
qed

lemma line_char_iff: "line_char c \<longleftrightarrow> c \<noteq> CHR 0x0A \<and> c \<noteq> CHR 0x0D"
  using byte_val_inj [of c "CHR 0x0A"] byte_val_inj [of c "CHR 0x0D"] by (auto simp: line_char_def byte_vals)

lemma status_texts: "list_all (\<lambda>(n, s). s \<noteq> [] \<and> list_all (\<lambda>c. c \<noteq> CHR 0x0A \<and> c \<noteq> CHR 0x0D) s) HTTP_STATUS_MAP"
  by code_simp

lemma good_status_text:
  assumes "list_all line_char (rs_reason r)"
  shows "status_text r \<noteq> [] \<and> list_all line_char (status_text r)"
proof -
  have "s \<noteq> [] \<and> list_all line_char s" if "map_of HTTP_STATUS_MAP n = Some s" for n s
    using status_texts map_of_SomeD [OF that] by (auto simp: list_all_iff line_char_iff)
  then show ?thesis using assms by (auto simp: status_text_def HttpStatusToString_def line_char_iff split: option.split)
qed

definition good_rsp_fields :: "'m map_ops \<Rightarrow> 'm \<Rightarrow> bool" where
  "good_rsp_fields mo m \<longleftrightarrow> list_all (\<lambda>(k, v). good_rsp_field (k, '' '', v)) (mo_entries mo m)"

lemma dec_field: "list_all line_char (dec n) \<and> \<not> leading_blank (hd (dec n)) \<and> list_all dec_char (dec n)"
proof -
  have "line_char c \<and> \<not> leading_blank c \<and> dec_char c" if "is_digit c" for c
    using that by (auto simp: is_digit_def line_char_def leading_blank_def dec_char_def byte_val_def)
  then show ?thesis using dec_is_digits [of _ n] dec_not_empty [of n] by (auto simp: list_all_iff)
qed

lemma good_rsp_dump_fields:
  assumes "good_rsp_fields mo (rs_headers r)"
  shows "list_all good_rsp_field (rsp_dump_fields mo r)"
proof -
  have "good_rsp_field (''connection'', '' '', if rs_close r then ''close'' else ''keep-alive'')"
    by (simp add: good_rsp_field_def rsp_token_def line_char_def leading_blank_def byte_val_def)
  moreover have "good_rsp_field (''content-length'', '' '', dec n)" for n
    using dec_field [of n] dec_not_empty [of n] by (simp add: good_rsp_field_def rsp_token_def leading_blank_def byte_val_def)
  ultimately show ?thesis using assms by (auto simp: rsp_dump_fields_def good_rsp_fields_def list_all_iff)
qed

section \<open>Properties\<close>


definition demo_response :: "(string \<times> string) list http_response" where
  "demo_response = (HttpResponse_new demo_map 0x11 True)\<lparr>rs_status := 404, rs_headers := [(''Server'', ''x'')], rs_body := ''hi''\<rparr>"


end
