(* ===== verification/Thread.thy ===== *)
theory Thread
  imports Prelude
begin

text \<open>
  \<open>Semaphore\<close> and \<open>Thread\<close> of \<open>src/src/thread.h\<close> and \<open>src/src/thread.cpp\<close>: a thread is started from its
  constructor, which waits on a semaphore until \<open>run\<close>, in the new thread, has set up what it needs. The two run
  in any order of their statements; a state holds the object they share, where each of them is, and the
  variables local to the new thread.
\<close>

section \<open>Semaphores\<close>

text \<open>A semaphore is its count. \<open>sem_init\<close>, \<open>sem_wait\<close> and \<open>sem_post\<close> are given with their results; \<open>None\<close> waits.\<close>

definition Semaphore_new :: "int \<Rightarrow> nat \<Rightarrow> string + nat" where
  "Semaphore_new rt count = (if rt \<noteq> 0 then Inl ''sem_init error'' else Inr count)"

definition Semaphore_wait :: "int \<Rightarrow> nat \<Rightarrow> (string + nat) option" where
  "Semaphore_wait rt sem = (if rt \<noteq> 0 then Some (Inl ''sem_wait error'') else if sem = 0 then None else Some (Inr (sem - 1)))"

definition Semaphore_notify :: "int \<Rightarrow> nat \<Rightarrow> string + nat" where
  "Semaphore_notify rt sem = (if rt \<noteq> 0 then Inl ''sem_post error'' else Inr (sem + 1))"

section \<open>The object and the two threads\<close>

record 'cb thread =
  th_id :: int
  th_thread :: nat
  th_cb :: "'cb option"
  th_name :: string
  th_semaphore :: nat

text \<open>Where the constructor is: before \<open>pthread_create\<close>, before the semaphore, back at its caller or left by an
  exception. Where \<open>run\<close> is: not yet running, before each of its statements, with the function it has taken, and at its
  end. Leaving \<open>run\<close> by an exception ends the program.\<close>

datatype creator = Creating | Waiting | Returned | Threw string

datatype 'cb runner =
    Unborn | Set_This | Set_Thread_Name | Set_Id | Set_Os_Name | Swap | Notify "'cb option" | Call "'cb option" | Ended | Terminated

record 'cb thread_state =
  ts_thread :: "'cb thread"
  ts_creator :: creator
  ts_runner :: "'cb runner"
  ts_this :: bool
  ts_name :: string
  ts_os_name :: string
  ts_called :: "'cb list"

definition UNKNOW :: string where "UNKNOW = ''UNKNOW''"

text \<open>The members before the constructor's body; the variables of a new thread start as those of any thread.\<close>

definition Thread_new :: "'cb option \<Rightarrow> string \<Rightarrow> 'cb thread_state" where
  "Thread_new cb name =
     \<lparr>ts_thread = \<lparr>th_id = - 1, th_thread = 0, th_cb = cb, th_name = (if name = [] then UNKNOW else name), th_semaphore = 0\<rparr>,
      ts_creator = Creating, ts_runner = Unborn, ts_this = False, ts_name = UNKNOW, ts_os_name = [], ts_called = []\<rparr>"

text \<open>What the system does for a thread: the result and the handle of \<open>pthread_create\<close>, the number of the thread, and the
  results of the semaphore.\<close>

record thread_system =
  sys_create :: int
  sys_handle :: nat
  sys_tid :: int
  sys_wait :: int
  sys_post :: int

section \<open>Statements\<close>

definition constructor_step :: "thread_system \<Rightarrow> 'cb thread_state \<Rightarrow> 'cb thread_state option" where
  "constructor_step sys s =
     (case ts_creator s of
        Creating \<Rightarrow>
          if sys_create sys \<noteq> 0 then Some (s\<lparr>ts_creator := Threw ''pthread_create error''\<rparr>)
          else Some (s\<lparr>ts_thread := (ts_thread s)\<lparr>th_thread := sys_handle sys\<rparr>, ts_creator := Waiting, ts_runner := Set_This\<rparr>)
      | Waiting \<Rightarrow>
          (case Semaphore_wait (sys_wait sys) (th_semaphore (ts_thread s)) of
             None \<Rightarrow> None
           | Some (Inl e) \<Rightarrow> Some (s\<lparr>ts_creator := Threw e\<rparr>)
           | Some (Inr n) \<Rightarrow> Some (s\<lparr>ts_thread := (ts_thread s)\<lparr>th_semaphore := n\<rparr>, ts_creator := Returned\<rparr>))
      | _ \<Rightarrow> None)"

text \<open>The function is called after the notification. An empty function throws, and nothing catches it; a function that
  returns ends the thread.\<close>

definition run_step :: "thread_system \<Rightarrow> 'cb thread_state \<Rightarrow> 'cb thread_state option" where
  "run_step sys s =
     (let th = ts_thread s in
      case ts_runner s of
        Unborn \<Rightarrow> None
      | Set_This \<Rightarrow> Some (s\<lparr>ts_this := True, ts_runner := Set_Thread_Name\<rparr>)
      | Set_Thread_Name \<Rightarrow> Some (s\<lparr>ts_name := th_name th, ts_runner := Set_Id\<rparr>)
      | Set_Id \<Rightarrow> Some (s\<lparr>ts_thread := th\<lparr>th_id := sys_tid sys\<rparr>, ts_runner := Set_Os_Name\<rparr>)
      | Set_Os_Name \<Rightarrow> Some (s\<lparr>ts_os_name := take 15 (th_name th), ts_runner := Swap\<rparr>)
      | Swap \<Rightarrow> Some (s\<lparr>ts_thread := th\<lparr>th_cb := None\<rparr>, ts_runner := Notify (th_cb th)\<rparr>)
      | Notify f \<Rightarrow>
          (case Semaphore_notify (sys_post sys) (th_semaphore th) of
             Inl e \<Rightarrow> Some (s\<lparr>ts_runner := Terminated\<rparr>)
           | Inr n \<Rightarrow> Some (s\<lparr>ts_thread := th\<lparr>th_semaphore := n\<rparr>, ts_runner := Call f\<rparr>))
      | Call None \<Rightarrow> Some (s\<lparr>ts_runner := Terminated\<rparr>)
      | Call (Some f) \<Rightarrow> Some (s\<lparr>ts_called := ts_called s @ [f], ts_runner := Ended\<rparr>)
      | _ \<Rightarrow> None)"

text \<open>\<open>SetName\<close>, called in the new thread.\<close>

definition Thread_SetName :: "string \<Rightarrow> 'cb thread_state \<Rightarrow> 'cb thread_state" where
  "Thread_SetName name s =
     (let s' = (if ts_this s then s\<lparr>ts_thread := (ts_thread s)\<lparr>th_name := name\<rparr>\<rparr> else s) in s'\<lparr>ts_name := name\<rparr>)"

definition Thread_GetThis :: "'cb thread_state \<Rightarrow> 'cb thread option" where
  "Thread_GetThis s = (if ts_this s then Some (ts_thread s) else None)"

definition Thread_GetName :: "'cb thread_state \<Rightarrow> string" where
  "Thread_GetName s = ts_name s"

text \<open>\<open>join\<close> and the destructor, with the result of \<open>pthread_join\<close>; the number of calls of it is counted.\<close>

definition Thread_join :: "int \<Rightarrow> 'cb thread \<Rightarrow> (string + nat) \<times> 'cb thread" where
  "Thread_join rt th =
     (if th_thread th = 0 then (Inr 0, th)
      else if rt \<noteq> 0 then (Inl ''pthread_join error'', th)
      else (Inr 1, th\<lparr>th_thread := 0\<rparr>))"

definition Thread_destroy :: "'cb thread \<Rightarrow> nat \<times> 'cb thread" where
  "Thread_destroy th = (if th_thread th = 0 then (0, th) else (1, th\<lparr>th_thread := 0\<rparr>))"

section \<open>Interleavings\<close>

inductive thread_step :: "thread_system \<Rightarrow> 'cb thread_state \<Rightarrow> 'cb thread_state \<Rightarrow> bool" for sys where
  constructor: "constructor_step sys s = Some s' \<Longrightarrow> ts_runner s \<noteq> Terminated \<Longrightarrow> thread_step sys s s'"
| run: "run_step sys s = Some s' \<Longrightarrow> thread_step sys s s'"

inductive thread_steps :: "thread_system \<Rightarrow> nat \<Rightarrow> 'cb thread_state \<Rightarrow> 'cb thread_state \<Rightarrow> bool" for sys where
  none: "thread_steps sys 0 s s"
| more: "thread_steps sys n s t \<Longrightarrow> thread_step sys t u \<Longrightarrow> thread_steps sys (Suc n) s u"

inductive_cases thread_stepE: "thread_step sys s s'"
inductive_cases thread_steps_SucE: "thread_steps sys (Suc n) s u"

section \<open>The invariant\<close>

text \<open>How far \<open>run\<close> has come.\<close>

fun run_pos :: "'cb runner \<Rightarrow> nat" where
  "run_pos Unborn = 0"
| "run_pos Set_This = 1"
| "run_pos Set_Thread_Name = 2"
| "run_pos Set_Id = 3"
| "run_pos Set_Os_Name = 4"
| "run_pos Swap = 5"
| "run_pos (Notify f) = 6"
| "run_pos (Call f) = 7"
| "run_pos Ended = 8"
| "run_pos Terminated = 8"

definition taken :: "'cb runner \<Rightarrow> 'cb option \<Rightarrow> bool" where
  "taken r cb \<longleftrightarrow> (case r of Notify f \<Rightarrow> f = cb | Call f \<Rightarrow> f = cb | _ \<Rightarrow> True)"

definition thread_inv :: "thread_system \<Rightarrow> 'cb option \<Rightarrow> string \<Rightarrow> nat \<Rightarrow> 'cb thread_state \<Rightarrow> bool" where
  "thread_inv sys cb name n s \<longleftrightarrow>
     (let th = ts_thread s; p = run_pos (ts_runner s) in
      th_name th = name
      \<and> (if ts_creator s = Creating then p = 0 \<and> n = 0
         else n = p + (if ts_creator s = Waiting then 0 else 1))
      \<and> (p = 0 \<longleftrightarrow> ts_creator s = Creating \<or> ts_creator s = Threw ''pthread_create error'')
      \<and> (2 \<le> p \<longrightarrow> ts_this s) \<and> (3 \<le> p \<longrightarrow> ts_name s = name) \<and> (4 \<le> p \<longrightarrow> th_id th = sys_tid sys)
      \<and> (5 \<le> p \<longrightarrow> ts_os_name s = take 15 name) \<and> th_cb th = (if p \<le> 5 then cb else None)
      \<and> taken (ts_runner s) cb
      \<and> th_semaphore th = (if 7 \<le> p \<and> ts_creator s = Waiting then 1 else 0)
      \<and> (ts_creator s = Returned \<longrightarrow> 7 \<le> p)
      \<and> (ts_creator s \<in> {Creating, Waiting, Returned} \<or> ts_creator s = Threw ''pthread_create error'')
      \<and> (ts_creator s \<in> {Waiting, Returned} \<longrightarrow> sys_create sys = 0)
      \<and> (ts_creator s = Threw ''pthread_create error'' \<longrightarrow> sys_create sys \<noteq> 0)
      \<and> ts_called s = (if ts_runner s = Ended then (case cb of Some f \<Rightarrow> [f] | None \<Rightarrow> []) else [])
      \<and> (ts_runner s = Ended \<longrightarrow> cb \<noteq> None) \<and> (ts_runner s = Terminated \<longrightarrow> cb = None))"

lemma thread_inv_new: "thread_inv sys cb (if name = [] then UNKNOW else name) 0 (Thread_new cb name)"
  by (simp add: thread_inv_def Thread_new_def taken_def)

text \<open>A semaphore that works, and a function that is there or not.\<close>

lemma constructor_keeps:
  assumes "thread_inv sys cb name n s" "sys_wait sys = 0" "constructor_step sys s = Some s'"
  shows "thread_inv sys cb name (Suc n) s'"
proof (cases "ts_creator s")
  case Creating
  then have u: "ts_runner s = Unborn" using assms(1) by (cases "ts_runner s") (auto simp: thread_inv_def Let_def)
  show ?thesis
  proof (cases "sys_create sys = 0")
    case True
    then show ?thesis using assms Creating u by (auto simp: thread_inv_def constructor_step_def Let_def taken_def)
  next
    case False
    then show ?thesis using assms Creating u by (auto simp: thread_inv_def constructor_step_def Let_def taken_def)
  qed
next
  case Waiting
  then have "th_semaphore (ts_thread s) = 1" "7 \<le> run_pos (ts_runner s)"
      "s' = s\<lparr>ts_thread := (ts_thread s)\<lparr>th_semaphore := 0\<rparr>, ts_creator := Returned\<rparr>"
    using assms by (auto simp: thread_inv_def constructor_step_def Semaphore_wait_def Let_def split: if_splits)
  then show ?thesis using assms(1) Waiting by (simp add: thread_inv_def Let_def)
qed (use assms in \<open>simp_all add: constructor_step_def\<close>)

lemma run_keeps:
  assumes "thread_inv sys cb name n s" "sys_post sys = 0" "run_step sys s = Some s'"
  shows "thread_inv sys cb name (Suc n) s'"
proof (cases "ts_runner s")
  case (Call f)
  then show ?thesis using assms
    by (cases f; cases "ts_creator s"; clarsimp simp: thread_inv_def run_step_def Let_def taken_def)
next
  case (Notify f)
  then show ?thesis using assms
    by (cases "ts_creator s"; clarsimp simp: thread_inv_def run_step_def Semaphore_notify_def Let_def taken_def)
qed (use assms in \<open>cases "ts_creator s"; clarsimp simp: thread_inv_def run_step_def Let_def taken_def\<close>)+

definition semaphore_works :: "thread_system \<Rightarrow> bool" where
  "semaphore_works sys \<longleftrightarrow> sys_wait sys = 0 \<and> sys_post sys = 0"

lemma thread_steps_inv:
  assumes "thread_steps sys n (Thread_new cb name) s" "semaphore_works sys"
  shows "thread_inv sys cb (if name = [] then UNKNOW else name) n s"
  using assms(1)
proof (induction n "Thread_new cb name" s rule: thread_steps.induct)
  case none
  show ?case by (rule thread_inv_new)
next
  case (more n t u)
  from more.hyps(3,2) show ?case
    using constructor_keeps run_keeps assms(2) by (cases rule: thread_step.cases) (auto simp: semaphore_works_def)
qed

lemma run_pos_le: "run_pos r \<le> 8"
  by (cases r) simp_all

lemma run_step_None: "run_step sys s = None \<longleftrightarrow> ts_runner s \<in> {Unborn, Ended, Terminated}"
proof (cases "ts_runner s")
  case (Call f)
  then show ?thesis by (cases f) (simp_all add: run_step_def Let_def)
qed (simp_all add: run_step_def Let_def Semaphore_notify_def)

lemma constructor_step_None:
  "constructor_step sys s = None \<longleftrightarrow> ts_creator s = Returned \<or> (\<exists>e. ts_creator s = Threw e)
    \<or> ts_creator s = Waiting \<and> sys_wait sys = 0 \<and> th_semaphore (ts_thread s) = 0"
  by (cases "ts_creator s") (auto simp: constructor_step_def Semaphore_wait_def)

section \<open>Properties\<close>

text \<open>C14: in whatever order the statements of the constructor and of \<open>run\<close> alternate: when the constructor has
  returned, the new thread has its number, name and variables, the function has left the object, and it is called at
  most once, by the new thread. The name given to the system is cut to 15 characters.\<close>

theorem thread_ready:
  assumes "thread_steps sys n (Thread_new cb name) s" "semaphore_works sys" "ts_creator s = Returned"
  shows "th_id (ts_thread s) = sys_tid sys \<and> ts_this s \<and> ts_name s = th_name (ts_thread s)
    \<and> th_name (ts_thread s) = (if name = [] then ''UNKNOW'' else name) \<and> ts_os_name s = take 15 (th_name (ts_thread s))
    \<and> th_cb (ts_thread s) = None \<and> th_semaphore (ts_thread s) = 0
    \<and> (ts_called s = [] \<or> (\<exists>f. cb = Some f \<and> ts_called s = [f]))"
  using thread_steps_inv [OF assms(1,2)] assms(3)
  by (auto simp: thread_inv_def Let_def UNKNOW_def split: if_splits option.splits)


text \<open>\<open>join\<close> and the destructor join a thread once, however often they are called; a \<open>join\<close> that fails leaves it to the
  next one.\<close>

lemma joined_once:
  "Thread_join 0 th = (Inr k, th') \<Longrightarrow> Thread_join 0 th' = (Inr 0, th') \<and> Thread_destroy th' = (0, th')"
  by (auto simp: Thread_join_def Thread_destroy_def split: if_splits)

lemma join_fails: "rt \<noteq> 0 \<Longrightarrow> Thread_join rt th = (Inl e, th') \<Longrightarrow> th' = th \<and> th_thread th \<noteq> 0"
  by (auto simp: Thread_join_def split: if_splits)

definition demo_system :: thread_system where
  "demo_system = \<lparr>sys_create = 0, sys_handle = 1, sys_tid = 7, sys_wait = 0, sys_post = 0\<rparr>"

text \<open>The statements in one order, until nothing is left.\<close>

fun run_all :: "thread_system \<Rightarrow> nat \<Rightarrow> 'cb thread_state \<Rightarrow> 'cb thread_state" where
  "run_all sys 0 s = s"
| "run_all sys (Suc k) s =
     (case run_step sys s of Some s' \<Rightarrow> run_all sys k s'
      | None \<Rightarrow> if ts_runner s = Terminated then s
                else (case constructor_step sys s of Some s' \<Rightarrow> run_all sys k s' | None \<Rightarrow> s))"

lemma run_all_steps: "thread_steps sys n s0 s \<Longrightarrow> \<exists>m. thread_steps sys m s0 (run_all sys k s)"
proof (induction k arbitrary: n s)
  case (Suc k)
  then show ?case
    by (auto split: option.split intro!: Suc.IH intro: thread_steps.more thread_step.intros)
qed auto

definition demo_end :: "string thread_state" where
  "demo_end =
     \<lparr>ts_thread = \<lparr>th_id = 7, th_thread = 1, th_cb = None, th_name = ''io'', th_semaphore = 0\<rparr>,
      ts_creator = Returned, ts_runner = Ended, ts_this = True, ts_name = ''io'', ts_os_name = ''io'', ts_called = [''f'']\<rparr>"

lemma demo_runs: "\<exists>n. thread_steps demo_system n (Thread_new (Some ''f'') ''io'') demo_end"
proof -
  have "run_all demo_system 9 (Thread_new (Some ''f'') ''io'') = demo_end"
    by (simp add: eval_nat_numeral run_step_def constructor_step_def Semaphore_wait_def Semaphore_notify_def Thread_new_def
        demo_system_def demo_end_def)
  then show ?thesis using run_all_steps [OF thread_steps.none, of demo_system "Thread_new (Some ''f'') ''io''" 9] by metis
qed

lemma thread_ready_witness: "th_id (ts_thread demo_end) = 7 \<and> th_cb (ts_thread demo_end) = None"
proof -
  obtain n where "thread_steps demo_system n (Thread_new (Some ''f'') ''io'') demo_end" using demo_runs by blast
  from thread_ready [OF this] show ?thesis by (simp add: semaphore_works_def demo_system_def demo_end_def)
qed


end
