(* ===== verification/Utils.thy ===== *)
theory Utils
  imports Text_Format
begin

text \<open>
  \<open>src/src/utils.h\<close> and \<open>src/src/utils.cpp\<close>: times, backtraces and the names of epoll events. The time of day and what
  \<open>backtrace\<close> and \<open>backtrace_symbols\<close> give are arguments.
\<close>

section \<open>Times\<close>

text \<open>The seconds and microseconds of \<open>gettimeofday\<close>, as a \<open>uint64_t\<close> of milliseconds and of microseconds.\<close>

definition GetCurrentMS :: "int \<Rightarrow> int \<Rightarrow> u64" where
  "GetCurrentMS sec usec = of_int sec * 1000 + of_int (usec div 1000)"

definition GetCurrentUS :: "int \<Rightarrow> int \<Rightarrow> u64" where
  "GetCurrentUS sec usec = of_int sec * 1000 * 1000 + of_int usec"

section \<open>Backtraces\<close>

text \<open>\<open>backtrace\<close> stores at most \<open>limit\<close> frames; without symbols nothing is added. \<open>skip\<close> is compared as a
  \<open>size_t\<close>, so that a negative one skips everything.\<close>

definition skip_from :: "int \<Rightarrow> 'a list \<Rightarrow> 'a list" where
  "skip_from skip xs = (if skip < 0 then [] else drop (nat skip) xs)"

definition Backtrace :: "string list option \<Rightarrow> nat \<Rightarrow> int \<Rightarrow> string list \<Rightarrow> string list" where
  "Backtrace symbols limit skip bt = (case symbols of None \<Rightarrow> bt | Some ss \<Rightarrow> bt @ skip_from skip (take limit ss))"

definition BacktraceToString :: "string list option \<Rightarrow> nat \<Rightarrow> int \<Rightarrow> string \<Rightarrow> string" where
  "BacktraceToString symbols limit skip prefix =
     concat (map (\<lambda>l. prefix @ l @ [CHR 0x0A]) (skip_from skip (Backtrace symbols limit skip [])))"

section \<open>Events\<close>

definition epoll_names :: "(u32 \<times> string) list" where
  "epoll_names =
     [(0x1, ''EPOLLIN ''), (0x4, ''EPOLLOUT ''), (0x2, ''EPOLLPRI ''), (0x2000, ''EPOLLRDHUP ''), (0x8, ''EPOLLERR ''),
      (0x10, ''EPOLLHUP ''), (0x80000000, ''EPOLLET ''), (0x40000000, ''EPOLLONESHOT ''), (0x20000000, ''EPOLLWAKEUP ''),
      (0x10000000, ''EPOLLEXCLUSIVE'')]"

definition print_epoll_events :: "u32 \<Rightarrow> string" where
  "print_epoll_events events = concat (map snd (filter (\<lambda>(mask, name). events AND mask \<noteq> 0) epoll_names))"

section \<open>Facts\<close>

text \<open>The two clocks agree.\<close>

lemma uint_of_small: "0 \<le> n \<Longrightarrow> n < 2 ^ 64 \<Longrightarrow> uint (of_int n :: u64) = n"
  by (simp add: unsigned_of_int take_bit_int_eq_self)

lemma clocks_agree:
  assumes "0 \<le> sec" "sec < 2 ^ 43" "0 \<le> usec" "usec < 1000000"
  shows "uint (GetCurrentUS sec usec) div 1000 = uint (GetCurrentMS sec usec)"
proof -
  have "GetCurrentUS sec usec = of_int (sec * 1000000 + usec)" by (simp add: GetCurrentUS_def)
  moreover have "uint (of_int (sec * 1000000 + usec) :: u64) = sec * 1000000 + usec" using assms by (intro uint_of_small) auto
  moreover have "GetCurrentMS sec usec = of_int (sec * 1000 + usec div 1000)" by (simp add: GetCurrentMS_def)
  moreover have "uint (of_int (sec * 1000 + usec div 1000) :: u64) = sec * 1000 + usec div 1000"
    using assms by (intro uint_of_small) auto
  ultimately show ?thesis by simp
qed

text \<open>The frames to skip are skipped twice.\<close>

lemma backtrace_skips_twice:
  "0 \<le> skip \<Longrightarrow> BacktraceToString (Some ss) limit skip prefix
    = concat (map (\<lambda>l. prefix @ l @ [CHR 0x0A]) (drop (2 * nat skip) (take limit ss)))"
  by (simp add: BacktraceToString_def Backtrace_def skip_from_def mult_2)

end
