(* ===== verification/Spec2Isabelle.thy ===== *)
theory Spec2Isabelle
  imports ByteArray_Props Scheduler Http_Server Config Log_Config Http_Receive Httpclient_Dump Thread Utils
begin

text \<open>
  GServer is a C++ server framework: coroutines on worker threads (\<open>coroutine\<close>, \<open>scheduler\<close>), descriptor events
  and timers that resume them (\<open>iomanager\<close>, \<open>timer\<close>), hooks that turn blocking system calls into suspensions
  (\<open>hook\<close>, \<open>fd_manager\<close>), sockets, streams and a serialisation buffer on top of these (\<open>address\<close>, \<open>socket\<close>,
  \<open>stream\<close>, \<open>socket_stream\<close>, \<open>bytearray\<close>), an HTTP/1.1 server on top of the streams (\<open>http/\<close>), and configuration
  and logging (\<open>config\<close>, \<open>log\<close>) beside them. File names are those under \<open>src/src/\<close>. The theories follow the
  files; a function keeps its C++ name, with a prefix for the class where two classes share one (\<open>ba_write\<close>,
  \<open>tcp_stop\<close>), and an object is a record of its members.

  Conventions (\<open>Prelude\<close>). An operation of an object is a function from its state to a result and the state it
  leaves behind, also when it fails. The result is a sum: \<open>Inr\<close> of the value or \<open>Inl\<close> of a fault, which is an
  exception that is thrown, a failing assertion (the macros log and abort), or an access that the C++ standard
  leaves undefined. Integers have the width of the code: \<open>u8\<close> to \<open>u64\<close> are words, whose arithmetic wraps, read
  signed by \<open>sint\<close> where the type is signed; \<open>size_t\<close> is 64 bits wide and \<open>char\<close> signed, as on Linux on x86-64.
  Objects that are shared through \<open>shared_ptr\<close> are addresses in a store, so that two holders see one object.
  What the library calls and does not contain (the kernel, pthreads, yaml-cpp, boost, the C library's resolver,
  clocks and printing) is an argument of the definitions or a list of the results it is going to give.

  The parts, their theories, and what is shown.

  The buffer. \<open>Endian\<close> (\<open>endian.hpp\<close>) and \<open>Varint\<close> (zigzag and base-128 numbers of \<open>bytearray.cpp\<close>);
  \<open>ByteArray\<close>, \<open>ByteArray_Ops\<close>, \<open>ByteArray_Buffers\<close> (the chain of blocks with position, size and capacity, the
  typed operations, files, hex dumps and the iovec views); \<open>Codec\<close> (decoding, over the locale \<open>byte_source\<close>,
  whose law is what \<open>read\<close> delivers); \<open>ByteArray_Facts\<close> (invariant, abstraction to a byte string with a
  position); \<open>ByteArray_Props\<close>. The invariant holds in every reachable state, \<open>write\<close> and \<open>read\<close> refine the byte
  string, and every typed value is read back; at the end of the capacity a write follows a null pointer.

  Execution. \<open>Coroutine\<close> (the state machine of \<open>Coroutine\<close>; the body, a parameter, says how each entry ends);
  \<open>Scheduler\<close> (the queue of tasks and the loop of one worker); \<open>Ordered_Set\<close>, \<open>Std_Map\<close> (\<open>std::set\<close> and
  \<open>std::map\<close> under a comparator, locale \<open>comparator\<close>); \<open>Timer\<close> (timers in a set ordered by deadline);
  \<open>IO_Manager\<close> (events of descriptors, registration, delivery, \<open>onIdle\<close>); \<open>Thread\<close> (semaphore, the constructor
  of a thread and its \<open>run\<close> as two sequences of statements in any interleaving); \<open>Locks\<close> (mutexes and scoped
  locks, locale \<open>mutex\<close>). The timers stay sorted and those that are due are handed out once and in order; the
  counter of pending events is exact; an event resumes its owner once; a stopped scheduler drains its queue and
  ends; a thread is set up when its constructor returns.

  Input and output. \<open>Fd_Manager\<close> and \<open>Hook\<close> (\<open>do_io\<close> and every hooked call, over the descriptor table, the IO
  manager and its timers); \<open>Text_Format\<close>, \<open>Address\<close> (all address classes, lookups and prefixes); \<open>Socket\<close> (over
  the hooked calls); \<open>Socket_Stream\<close> and \<open>Stream_Output\<close> (the four loops of \<open>stream.cpp\<close> and the stream of a
  socket; the locales \<open>input_stream\<close> and \<open>output_stream\<close> say what a stream delivers and accepts). A hooked call
  never returns \<open>EINTR\<close> or \<open>EAGAIN\<close> and times out as configured; addresses and masks are exact within the bounds
  stated.

  HTTP. \<open>Http\<close> (\<open>http.h\<close>, \<open>http.cpp\<close>: tables, requests, responses and their texts); \<open>Http_Parser\<close>
  (\<open>http_parser.cpp\<close>: callbacks and \<open>execute\<close>, for any scanner with the interface \<open>scanner\<close>); \<open>Ragel\<close> (how a
  generated scanner runs: a state leads a character to a state with actions, or stops); \<open>Http11_Machine\<close> and
  \<open>Httpclient_Machine\<close> (the states and transitions of \<open>http11_parser.cpp\<close> and \<open>httpclient_parser.cpp\<close>);
  \<open>Http11_Scanner\<close> and \<open>Httpclient_Scanner\<close> (their records, actions and functions; \<open>http11_scanner\<close> and
  \<open>httpclient_scanner\<close> instantiate the interface of \<open>Http_Parser\<close>); \<open>Http11_Requests\<close> and \<open>Http11_Parsing\<close> (what
  the scanner and the parser make of requests); \<open>Httpclient_Parsing\<close>, \<open>Httpclient_Responses\<close> and
  \<open>Httpclient_Dump\<close> (the same for responses, fields without a value and headers of chunks); \<open>Servlet\<close>,
  \<open>Http_Session\<close>, \<open>Http_Server\<close>, \<open>Http_Receive\<close> (the session with the scanner under it), \<open>Tcp_Server\<close>. What
  \<open>HttpRequest::dump\<close> and \<open>HttpResponse::dump\<close> write is read back as the request or response it stands for, with
  the body left in the buffer, and a request whose head comes with one read is received from the bytes of a
  connection; the assertions of the scanners hold and their tokens lie in the buffer, but for the names of the
  fields of a response (by the locale \<open>scan_invariant\<close>, one step at a time); a request has the body its length
  announces; the table of servlets refines its history; a client that is served is disconnected.

  Configuration and logging. \<open>Lexical_Cast\<close>, \<open>Config_Var\<close>, \<open>Config\<close> (\<open>config.h\<close>, \<open>config.cpp\<close>: casts, variables
  with listeners, the registry with a tag for each type); \<open>Log_Format\<close>, \<open>Logger\<close>, \<open>Log_Config\<close> (\<open>log.h\<close>,
  \<open>log.cpp\<close>: patterns and their items, appenders and loggers, the listener that makes the loggers follow their
  configuration). \<open>Utils\<close> holds clocks, backtraces and names of events.

  How the parts meet. The hooks take an IO manager with its timers and the descriptor table, and \<open>do_io\<close>
  registers an event and a timer and reads the effect of either on its own coroutine; sockets call the hooks,
  the stream of a socket calls the socket, the session reads through \<open>readFixSize\<close> by the laws of
  \<open>input_stream\<close>, the server runs session and servlets in a loop. Locales state these interfaces and each is
  interpreted on the model of the code that provides it: \<open>byte_source\<close> on the buffer, \<open>comparator\<close> on the order
  of the timers, of strings, of fields (where the code's comparator is no order, which is shown) and of log
  definitions, \<open>input_stream\<close> and \<open>output_stream\<close> on the stream of a socket, \<open>mutex\<close> on the five kinds of lock,
  \<open>scan_invariant\<close> on the machines of requests and of responses.

  Loops. Loops over data are structural or have a measure. \<open>readFixSize\<close>, \<open>writeFixSize\<close>, reading a head and
  serving a client depend on what the peer does and are \<open>partial_function (option)\<close>: \<open>None\<close> is a loop that goes
  on for ever, and that it returns is part of what is shown, under the premise that the stream delivers the data
  or ends. A hooked call consumes a list of turns, what happens during each of its suspensions. The worker loop
  and the listing of a YAML document take fuel, one unit for an iteration or a level; the theorems say that one
  iteration more than there are callbacks and one level more than the document has are enough. Bounds appear in
  the statements: sizes stay below \<open>2 ^ 63\<close> or \<open>2 ^ 64\<close> where a counter of the code would wrap, the buffers of a
  scanner below \<open>2 ^ 31\<close>.

  Not modelled. The locks of most components: an operation runs alone, apart from \<open>Thread\<close>, where the
  interleaving is the point, and \<open>Config_Var\<close> and \<open>Config\<close>, where a lock is left behind or taken twice. The
  switch of contexts (the body of a coroutine runs where it is entered), \<open>hook_init\<close> (finding the original
  functions with \<open>dlsym\<close>) and the destructor of the scheduler (it sleeps until a flag changes). \<open>singleton.h\<close>,
  \<open>noncopyable.h\<close> and \<open>macro.h\<close> have no logic beyond one static object for a type and the assertions above. The
  grammars of the scanners are not compiled; the code generated from them is what is modelled. The programs
  under \<open>test/\<close> call the library and print.
\<close>

end
